(* ===== verification/Prelude.thy ===== *)
theory Prelude
  imports Main "HOL-Library.AList" "HOL-Library.List_Lexorder" "HOL-Library.Char_ord" "HOL-Library.Sublist"
begin

text \<open>
  Shared vocabulary of the development: the exceptions a modelled Python function can
  raise, results as sums, insertion-ordered dictionaries, and the contract of a closure
  computation (a least set that contains its seeds and is closed under an edge relation),
  which three worklist loops of the marker analyzer implement.

  Conventions used by every theory.
  \<^item> A Python \<open>str\<close> is a \<^typ>\<open>string\<close>; a \<^typ>\<open>char\<close> is one code point below 256.
  \<^item> A Python \<open>dict\<close> is an association list in insertion order with distinct keys:
    \<^const>\<open>map_of\<close> looks up, \<^const>\<open>AList.update\<close> stores (in place when the key exists, at
    the end otherwise), \<^const>\<open>AList.delete\<close> removes.
  \<^item> A Python \<open>set\<close> the code only tests is a \<^typ>\<open>'a set\<close>; a \<open>set\<close> the code iterates is the
    list of its elements in the order of that run, and theorems hold for every such list.
  \<^item> A raised exception is \<^const>\<open>Inl\<close>, a returned value \<^const>\<open>Inr\<close>.
  \<^item> Logging has no effect on any modelled result and is left out.
\<close>

section \<open>Collections of simplification rules\<close>

named_theorems pystr \<open>equations of the string operations\<close>
named_theorems rematch \<open>equations of the regular-expression matcher\<close>
named_theorems astsimps \<open>equations of the syntax-tree operations\<close>

section \<open>Exceptions and results\<close>

datatype py_error =
    ValueError
  | KeyError
  | IndexError
  | TypeError
  | OSError
  | SyntaxError
  | UnicodeDecodeError
  | SubprocessError
  | UnboundLocalError
  | HTTPException \<comment> \<open>of \<open>http.client\<close>: neither a \<open>URLError\<close> nor an \<open>OSError\<close>\<close>
  | OverflowError
  | RuntimeError string
  | SystemExit string

type_synonym 'a res = "py_error + 'a"

definition bind_res :: "'e + 'a \<Rightarrow> ('a \<Rightarrow> 'e + 'b) \<Rightarrow> 'e + 'b" where
  "bind_res r f = (case r of Inl e \<Rightarrow> Inl e | Inr x \<Rightarrow> f x)"

lemma bind_res_simps [simp]:
  "bind_res (Inl e) f = Inl e"
  "bind_res (Inr x) f = f x"
  by (simp_all add: bind_res_def)

text \<open>The same for code that may not return, where \<open>None\<close> is a loop without end.\<close>

definition bind_run :: "'a res option \<Rightarrow> ('a \<Rightarrow> 'b res option) \<Rightarrow> 'b res option" where
  "bind_run r f = (case r of None \<Rightarrow> None | Some (Inl e) \<Rightarrow> Some (Inl e) | Some (Inr x) \<Rightarrow> f x)"

lemma bind_res_Inr_iff:
  "bind_res r f = Inr y \<longleftrightarrow> (\<exists>x. r = Inr x \<and> f x = Inr y)"
  by (cases r) auto

lemma bind_res_Inl_iff: "bind_res r f = Inl e \<longleftrightarrow> r = Inl e \<or> (\<exists>x. r = Inr x \<and> f x = Inl e)"
  by (cases r) auto

lemma bind_res_cong [fundef_cong]:
  assumes "r = r'" and "\<And>x. r' = Inr x \<Longrightarrow> f x = g x"
  shows "bind_res r f = bind_res r' g"
  using assms by (cases r') auto

section \<open>Lists and dictionaries\<close>

lemma sum_list_map_size_append:
  "sum_list (map f (xs @ ys)) = sum_list (map f xs) + (sum_list (map f ys) :: nat)"
  by simp

lemma member_le_sum_list_nat:
  "x \<in> set xs \<Longrightarrow> f x \<le> (sum_list (map f xs) :: nat)"
  by (induction xs) auto

lemma takeWhile_all: "(\<And>x. x \<in> set xs \<Longrightarrow> P x) \<Longrightarrow> takeWhile P xs = xs"
  by (induction xs) auto

lemma fold_concat_map: "fold f (concat (map g xs)) b = fold (\<lambda>x. fold f (g x)) xs b"
  by (induction xs arbitrary: b) simp_all

lemma in_set_map_filter: "y \<in> set (List.map_filter f xs) \<longleftrightarrow> (\<exists>x \<in> set xs. f x = Some y)"
  by (force simp: List.map_filter_def)

lemma map_of_Some_dom: "map_of d k = Some v \<Longrightarrow> k \<in> fst ` set d"
  by (induction d) (auto split: if_splits)

lemma dict_update_lookup:
  "map_of (AList.update k v d) k' = (if k' = k then Some v else map_of d k')"
  by (simp add: update_conv)

section \<open>Closure computations\<close>

text \<open>
  The contract of a closure loop: from a list of seeds it returns the least set that holds
  the seeds and is closed under the edges. Everything a client needs (membership is
  reachability, the seeds' order and multiplicity do not matter, more seeds give more)
  follows from these three laws.
\<close>

locale closure =
  fixes edge :: "'a \<Rightarrow> 'a \<Rightarrow> bool"
    and result :: "'a list \<Rightarrow> 'a set"
  assumes seeds: "set xs \<subseteq> result xs"
    and closed: "x \<in> result xs \<Longrightarrow> edge x y \<Longrightarrow> y \<in> result xs"
    and least: "set xs \<subseteq> T \<Longrightarrow> (\<And>x y. x \<in> T \<Longrightarrow> edge x y \<Longrightarrow> y \<in> T) \<Longrightarrow> result xs \<subseteq> T"
begin

lemma reach_in_result:
  assumes "x \<in> set xs" and "edge\<^sup>*\<^sup>* x y"
  shows "y \<in> result xs"
  using assms(2)
proof (induction rule: rtranclp_induct)
  case base
  show ?case using assms(1) seeds by blast
next
  case (step y z)
  then show ?case by (blast intro: closed)
qed

lemma result_iff_reach: "y \<in> result xs \<longleftrightarrow> (\<exists>x \<in> set xs. edge\<^sup>*\<^sup>* x y)"
proof
  assume "y \<in> result xs"
  moreover have "result xs \<subseteq> {y. \<exists>x \<in> set xs. edge\<^sup>*\<^sup>* x y}"
    by (rule least) (auto intro: rtranclp.rtrancl_into_rtrancl)
  ultimately show "\<exists>x \<in> set xs. edge\<^sup>*\<^sup>* x y" by blast
next
  assume "\<exists>x \<in> set xs. edge\<^sup>*\<^sup>* x y"
  then show "y \<in> result xs" by (blast intro: reach_in_result)
qed

lemma result_cong_set: "set xs = set ys \<Longrightarrow> result xs = result ys"
  by (auto simp: result_iff_reach)

lemma result_mono: "set xs \<subseteq> set ys \<Longrightarrow> result xs \<subseteq> result ys"
  by (meson result_iff_reach subset_iff)

lemma result_append: "result (xs @ ys) = result xs \<union> result ys"
  by (auto simp: result_iff_reach)

lemma result_idem:
  assumes "set zs = result xs"
  shows "result zs = result xs"
proof
  show "result zs \<subseteq> result xs"
    by (rule least) (use assms closed in blast)+
  show "result xs \<subseteq> result zs"
    using assms seeds by blast
qed

end

section \<open>Optional fields\<close>

definition opt_list :: "'a option \<Rightarrow> 'a list" where
  "opt_list x = (case x of None \<Rightarrow> [] | Some y \<Rightarrow> [y])"

lemma in_opt_list [simp]: "y \<in> set (opt_list x) \<longleftrightarrow> x = Some y"
  by (cases x) (auto simp: opt_list_def)

lemma opt_list_simps [simp]: "opt_list None = []" "opt_list (Some y) = [y]"
  by (simp_all add: opt_list_def)

lemma set_opt_list: "set (opt_list x) = set_option x"
  by (cases x) simp_all

section \<open>Saturation\<close>

text \<open>
  Repeated rounds over a list that add the key of every element that the set enables, until a
  round adds nothing.
\<close>

definition saturate_step :: "('x \<Rightarrow> 'a) \<Rightarrow> ('x \<Rightarrow> 'a set \<Rightarrow> bool) \<Rightarrow> 'x \<Rightarrow> 'a set \<Rightarrow> 'a set" where
  "saturate_step key enabled x S = (if key x \<notin> S \<and> enabled x S then insert (key x) S else S)"

definition saturate_round :: "('x \<Rightarrow> 'a) \<Rightarrow> ('x \<Rightarrow> 'a set \<Rightarrow> bool) \<Rightarrow> 'x list \<Rightarrow> 'a set \<Rightarrow> 'a set" where
  "saturate_round key enabled xs S = fold (saturate_step key enabled) xs S"

lemma saturate_step_bounds:
  "S \<subseteq> saturate_step key enabled x S" "saturate_step key enabled x S \<subseteq> insert (key x) S"
  by (auto simp: saturate_step_def)

lemma saturate_round_grows: "S \<subseteq> saturate_round key enabled xs S"
proof (induction xs arbitrary: S)
  case (Cons x xs)
  then show ?case
    using order_trans[OF saturate_step_bounds(1) Cons.IH[of "saturate_step key enabled x S"]] by (simp add: saturate_round_def)
qed (simp add: saturate_round_def)

lemma saturate_round_within: "saturate_round key enabled xs S \<subseteq> S \<union> key ` set xs"
proof (induction xs arbitrary: S)
  case (Cons x xs)
  then show ?case using saturate_step_bounds(2)[of key enabled x S] by (fastforce simp: saturate_round_def)
qed (simp add: saturate_round_def)

lemma saturate_decreases:
  assumes "saturate_round key enabled xs S \<noteq> S"
  shows "card (key ` set xs - saturate_round key enabled xs S) < card (key ` set xs - S)"
proof (rule psubset_card_mono)
  show "key ` set xs - saturate_round key enabled xs S \<subset> key ` set xs - S"
    using assms saturate_round_grows[of S key enabled xs] saturate_round_within[of key enabled xs S] by blast
qed simp

function saturate :: "('x \<Rightarrow> 'a) \<Rightarrow> ('x \<Rightarrow> 'a set \<Rightarrow> bool) \<Rightarrow> 'x list \<Rightarrow> 'a set \<Rightarrow> 'a set" where
  "saturate key enabled xs S =
     (let S' = saturate_round key enabled xs S in if S' = S then S else saturate key enabled xs S')"
  by pat_completeness auto
termination
  by (relation "measure (\<lambda>(key, enabled, xs, S). card (key ` set xs - S))") (simp_all add: saturate_decreases)

declare saturate.simps [simp del]

lemma saturate_extends: "S \<subseteq> saturate key enabled xs S"
proof (induction key enabled xs S rule: saturate.induct)
  case (1 key enabled xs S)
  then show ?case
    using saturate_round_grows[of S key enabled xs] by (subst saturate.simps) (auto simp: Let_def)
qed

lemma saturate_round_fixed:
  "saturate_round key enabled xs S = S \<Longrightarrow> x \<in> set xs \<Longrightarrow> enabled x S \<Longrightarrow> key x \<in> S"
proof (induction xs)
  case (Cons y xs)
  have "saturate_step key enabled y S = S"
    using Cons.prems(1) saturate_step_bounds(1)[of S key enabled y]
      saturate_round_grows[of "saturate_step key enabled y S" key enabled xs] by (auto simp: saturate_round_def)
  with Cons show ?case by (auto simp: saturate_round_def saturate_step_def split: if_splits)
qed simp

lemma saturate_closed: "x \<in> set xs \<Longrightarrow> enabled x (saturate key enabled xs S) \<Longrightarrow> key x \<in> saturate key enabled xs S"
proof (induction key enabled xs S rule: saturate.induct)
  case (1 key enabled xs S)
  then show ?case
    using saturate_round_fixed[of key enabled xs S x]
    by (cases "saturate_round key enabled xs S = S") (auto simp: Let_def saturate.simps[of key enabled xs S])
qed

lemma saturate_round_least:
  assumes "\<And>x S T. S \<subseteq> T \<Longrightarrow> enabled x S \<Longrightarrow> enabled x T"
    and "\<And>x. x \<in> set xs \<Longrightarrow> enabled x T \<Longrightarrow> key x \<in> T"
  shows "S \<subseteq> T \<Longrightarrow> saturate_round key enabled xs S \<subseteq> T"
  using assms(2)
proof (induction xs arbitrary: S)
  case (Cons x xs)
  have "saturate_step key enabled x S \<subseteq> T"
    using Cons.prems assms(1)[of S T x] by (auto simp: saturate_step_def)
  then show ?case using Cons.IH[of "saturate_step key enabled x S"] Cons.prems(2) by (simp add: saturate_round_def)
qed (simp add: saturate_round_def)

lemma saturate_least:
  assumes "\<And>x S T. S \<subseteq> T \<Longrightarrow> enabled x S \<Longrightarrow> enabled x T"
    and "\<And>x. x \<in> set xs \<Longrightarrow> enabled x T \<Longrightarrow> key x \<in> T"
  shows "S \<subseteq> T \<Longrightarrow> saturate key enabled xs S \<subseteq> T"
  using assms
proof (induction key enabled xs S rule: saturate.induct)
  case (1 key enabled xs S)
  have "saturate_round key enabled xs S \<subseteq> T"
    using "1.prems" by (intro saturate_round_least) auto
  then show ?case
    using 1 by (cases "saturate_round key enabled xs S = S") (auto simp: Let_def saturate.simps[of key enabled xs S])
qed

end
