(* ===== verification/PyStr.thy ===== *)
theory PyStr
  imports Prelude
begin

text \<open>
  The operations of Python's \<open>str\<close> that the modelled code calls, on code points below 256:
  character classes, \<open>strip\<close>, \<open>split\<close>, \<open>join\<close>, \<open>splitlines\<close>, \<open>startswith\<close>, \<open>in\<close>,
  \<open>removesuffix\<close>, \<open>replace\<close> and \<open>int\<close> on a run of decimal digits.
\<close>

section \<open>Character classes\<close>

definition is_space :: "char \<Rightarrow> bool" where
  "is_space c = (let n = (of_char c :: nat) in
     (9 \<le> n \<and> n \<le> 13) \<or> (28 \<le> n \<and> n \<le> 32) \<or> n = 133 \<or> n = 160)"

definition is_digit :: "char \<Rightarrow> bool" where
  "is_digit c = (let n = (of_char c :: nat) in 48 \<le> n \<and> n \<le> 57)"

definition is_upper :: "char \<Rightarrow> bool" where
  "is_upper c = (let n = (of_char c :: nat) in
     (65 \<le> n \<and> n \<le> 90) \<or> (192 \<le> n \<and> n \<le> 222 \<and> n \<noteq> 215))"

definition is_lower :: "char \<Rightarrow> bool" where
  "is_lower c = (let n = (of_char c :: nat) in
     (97 \<le> n \<and> n \<le> 122) \<or> (223 \<le> n \<and> n \<le> 255 \<and> n \<noteq> 247) \<or> n = 170 \<or> n = 181 \<or> n = 186)"

definition is_ascii_alpha :: "char \<Rightarrow> bool" where
  "is_ascii_alpha c = (let n = (of_char c :: nat) in (65 \<le> n \<and> n \<le> 90) \<or> (97 \<le> n \<and> n \<le> 122))"

text \<open>The class \<open>\w\<close> of the \<open>re\<close> module: alphanumeric code points and the underscore.\<close>

definition is_word :: "char \<Rightarrow> bool" where
  "is_word c = (let n = (of_char c :: nat) in
     is_digit c \<or> is_upper c \<or> is_lower c \<or> n = 95 \<or> n \<in> {178, 179, 185, 188, 189, 190})"

definition lower_char :: "char \<Rightarrow> char" where
  "lower_char c = (if is_upper c then char_of ((of_char c :: nat) + 32) else c)"

definition py_lower :: "string \<Rightarrow> string" where
  "py_lower s = map lower_char s"

lemma word_not_space: "is_word c \<Longrightarrow> \<not> is_space c"
  by (auto simp: is_word_def is_space_def is_digit_def is_upper_def is_lower_def Let_def)

lemma digit_is_word: "is_digit c \<Longrightarrow> is_word c"
  by (simp add: is_word_def Let_def)

lemma char_class_simps [simp]:
  "is_space CHR '' ''" "\<not> is_space CHR ''#''" "\<not> is_word CHR ''(''" "\<not> is_word CHR '':''"
  "\<not> is_digit CHR '',''" "\<not> is_digit CHR '' ''" "\<not> is_word CHR '' ''" "\<not> is_space CHR ''(''"
  "\<not> is_space CHR ''d''" "\<not> is_space CHR ''c''" "\<not> is_space CHR ''a''"
  by (simp_all add: is_space_def is_word_def is_digit_def is_upper_def is_lower_def)

section \<open>Stripping and prefixes\<close>

definition py_lstrip :: "string \<Rightarrow> string" where
  "py_lstrip s = dropWhile is_space s"

definition py_rstrip :: "string \<Rightarrow> string" where
  "py_rstrip s = rev (dropWhile is_space (rev s))"

definition py_strip :: "string \<Rightarrow> string" where
  "py_strip s = py_rstrip (py_lstrip s)"

definition startswith :: "string \<Rightarrow> string \<Rightarrow> bool" where
  "startswith s p = (take (length p) s = p)"

definition startswith_any :: "string \<Rightarrow> string list \<Rightarrow> bool" where
  "startswith_any s ps = list_ex (startswith s) ps"

definition endswith :: "string \<Rightarrow> string \<Rightarrow> bool" where
  "endswith s p = (length p \<le> length s \<and> drop (length s - length p) s = p)"

definition removesuffix :: "string \<Rightarrow> string \<Rightarrow> string" where
  "removesuffix s p = (if endswith s p then take (length s - length p) s else s)"

definition removeprefix :: "string \<Rightarrow> string \<Rightarrow> string" where
  "removeprefix s p = (if startswith s p then drop (length p) s else s)"

definition replace_char :: "char \<Rightarrow> string \<Rightarrow> string \<Rightarrow> string" where
  "replace_char c r s = concat (map (\<lambda>x. if x = c then r else [x]) s)"

lemma startswith_prefix: "startswith s p \<longleftrightarrow> prefix p s"
  unfolding startswith_def prefix_def
  by (metis append_eq_conv_conj)

lemma startswith_code [simp]:
  "startswith s [] = True"
  "startswith [] (p # ps) = False"
  "startswith (c # s) (p # ps) = (c = p \<and> startswith s ps)"
  by (auto simp: startswith_def)

lemma startswith_append [simp]: "startswith (p @ s) p"
  by (simp add: startswith_prefix)

lemma removesuffix_append [simp]: "removesuffix (s @ p) p = s"
  by (simp add: removesuffix_def endswith_def)

lemma py_strip_no_space_ends:
  assumes "s \<noteq> []" and "\<not> is_space (hd s)" and "\<not> is_space (last s)"
  shows "py_strip s = s"
proof -
  have 1: "py_lstrip s = s"
    using assms(1,2) by (cases s) (auto simp: py_lstrip_def)
  have 2: "py_rstrip s = s"
    using assms(1,3) by (cases s rule: rev_cases) (auto simp: py_rstrip_def)
  show ?thesis by (simp add: py_strip_def 1 2)
qed

lemma py_lstrip_spaces:
  "(\<And>c. c \<in> set ws \<Longrightarrow> is_space c) \<Longrightarrow> py_lstrip (ws @ s) = py_lstrip s"
  unfolding py_lstrip_def by (induction ws) auto

section \<open>Substrings\<close>

fun partition_at :: "string \<Rightarrow> string \<Rightarrow> (string \<times> string) option" where
  "partition_at sep [] = (if sep = [] then Some ([], []) else None)"
| "partition_at sep (c # cs) =
     (if startswith (c # cs) sep then Some ([], drop (length sep) (c # cs))
      else map_option (\<lambda>(a, b). (c # a, b)) (partition_at sep cs))"

definition py_in :: "string \<Rightarrow> string \<Rightarrow> bool" where
  "py_in sub s = (partition_at sub s \<noteq> None)"

lemma partition_at_Some:
  "partition_at sep s = Some (a, b) \<Longrightarrow> s = a @ sep @ b"
proof (induction s arbitrary: a b)
  case Nil
  then show ?case by (auto split: if_splits)
next
  case (Cons c cs)
  then show ?case
    by (auto simp: startswith_prefix prefix_def split: if_splits)
qed

lemma partition_at_shorter:
  "partition_at sep s = Some (a, b) \<Longrightarrow> sep \<noteq> [] \<Longrightarrow> length b < length s"
  by (drule partition_at_Some) (cases sep, auto)

lemma partition_at_None_iff: "partition_at sep s = None \<longleftrightarrow> \<not> sublist sep s"
proof (induction s)
  case Nil
  then show ?case by simp
next
  case (Cons c cs)
  show ?case
  proof (cases "prefix sep (c # cs)")
    case True
    then show ?thesis by (auto simp: startswith_prefix)
  next
    case False
    then show ?thesis using Cons
      by (simp add: startswith_prefix sublist_Cons_right)
  qed
qed

lemma py_in_iff: "py_in sub s \<longleftrightarrow> sublist sub s"
  using partition_at_None_iff[of sub s] by (simp add: py_in_def)

function py_split :: "string \<Rightarrow> string \<Rightarrow> string list" where
  "py_split sep s =
     (if sep = [] then [s]
      else case partition_at sep s of None \<Rightarrow> [s] | Some (a, b) \<Rightarrow> a # py_split sep b)"
  by pat_completeness auto
termination
  by (relation "measure (\<lambda>(sep, s). length s)") (auto dest: partition_at_shorter)

declare py_split.simps [simp del]

fun py_join :: "string \<Rightarrow> string list \<Rightarrow> string" where
  "py_join sep [] = []"
| "py_join sep [x] = x"
| "py_join sep (x # y # zs) = x @ sep @ py_join sep (y # zs)"

lemma py_split_nonempty: "py_split sep s \<noteq> []"
  by (subst py_split.simps) (auto split: option.splits)

lemma py_join_Cons: "xs \<noteq> [] \<Longrightarrow> py_join sep (x # xs) = x @ sep @ py_join sep xs"
  by (cases xs) auto

lemma py_join_split: "py_join sep (py_split sep s) = s"
proof (induction sep s rule: py_split.induct)
  case (1 sep s)
  show ?case
  proof (cases "sep = [] \<or> partition_at sep s = None")
    case True
    then show ?thesis by (subst py_split.simps) (auto simp: py_split.simps[of sep s])
  next
    case False
    then obtain a b where ab: "partition_at sep s = Some (a, b)" by auto
    have "py_join sep (py_split sep b) = b"
      using "1.IH"[OF _ ab refl] False by simp
    then show ?thesis
      using False ab
      by (simp add: py_split.simps[of sep s] py_join_Cons py_split_nonempty partition_at_Some[symmetric])
  qed
qed

lemma py_split_no_sep: "\<not> sublist sep s \<Longrightarrow> py_split sep s = [s]"
  by (simp add: py_split.simps[of sep s] partition_at_None_iff[THEN iffD2])

lemma partition_at_char: "c \<notin> set l \<Longrightarrow> partition_at [c] (l @ c # s) = Some (l, s)"
  by (induction l) auto

lemma py_split_ended:
  assumes "\<And>l. l \<in> set ls \<Longrightarrow> c \<notin> set l"
  shows "py_split [c] (concat (map (\<lambda>l. l @ [c]) ls)) = ls @ [[]]"
  using assms
proof (induction ls)
  case Nil
  then show ?case by (simp add: py_split.simps)
next
  case (Cons l ls)
  then show ?case by (subst py_split.simps) (simp add: partition_at_char)
qed

section \<open>Lines\<close>

definition is_linebreak :: "char \<Rightarrow> bool" where
  "is_linebreak c = (let n = (of_char c :: nat) in
     n \<in> {10, 11, 12, 13, 28, 29, 30, 133})"

fun splitlines_acc :: "string \<Rightarrow> string \<Rightarrow> string list" where
  "splitlines_acc acc [] = (if acc = [] then [] else [rev acc])"
| "splitlines_acc acc (c # cs) =
     (if is_linebreak c
      then rev acc # splitlines_acc []
             (if c = CHR 0x0D \<and> cs \<noteq> [] \<and> hd cs = CHR 0x0A then drop 1 cs else cs)
      else splitlines_acc (c # acc) cs)"

definition splitlines :: "string \<Rightarrow> string list" where
  "splitlines s = splitlines_acc [] s"

definition newline :: string where
  "newline = [CHR 0x0A]"


lemma splitlines_acc_append:
  assumes "\<And>c. c \<in> set l \<Longrightarrow> \<not> is_linebreak c"
  shows "splitlines_acc acc (l @ s) = splitlines_acc (rev l @ acc) s"
  using assms by (induction l arbitrary: acc) auto

text \<open>Text made of lines without line breaks, each ended by a newline, splits into those lines.\<close>

lemma splitlines_unlines:
  assumes "\<And>l c. l \<in> set ls \<Longrightarrow> c \<in> set l \<Longrightarrow> \<not> is_linebreak c"
  shows "splitlines (concat (map (\<lambda>l. l @ newline) ls)) = ls"
  using assms
proof (induction ls)
  case Nil
  then show ?case by (simp add: splitlines_def)
next
  case (Cons l ls)
  have l: "\<And>c. c \<in> set l \<Longrightarrow> \<not> is_linebreak c" by (rule Cons.prems[of l]) simp_all
  have nl: "is_linebreak CHR 0x0A" by (simp add: is_linebreak_def)
  have "splitlines (concat (map (\<lambda>l. l @ newline) ls)) = ls"
    by (rule Cons.IH) (rule Cons.prems, auto)
  then show ?case
    using nl by (simp add: splitlines_def newline_def splitlines_acc_append[OF l])
qed

section \<open>Decimal numbers\<close>

definition digit_value :: "char \<Rightarrow> nat" where
  "digit_value c = of_char c - 48"

definition py_int :: "string \<Rightarrow> nat" where
  "py_int s = foldl (\<lambda>n c. 10 * n + digit_value c) 0 s"

definition digit_char :: "nat \<Rightarrow> char" where
  "digit_char d = char_of (48 + d)"

fun show_nat :: "nat \<Rightarrow> string" where
  "show_nat n = (if n < 10 then [digit_char n] else show_nat (n div 10) @ [digit_char (n mod 10)])"

declare show_nat.simps [simp del]

lemma digit_value_char: "d < 10 \<Longrightarrow> digit_value (digit_char d) = d"
  by (simp add: digit_value_def digit_char_def)

lemma digit_char_is_digit: "d < 10 \<Longrightarrow> is_digit (digit_char d)"
  by (simp add: is_digit_def digit_char_def)

lemma show_nat_digits: "c \<in> set (show_nat n) \<Longrightarrow> is_digit c"
  by (induction n rule: show_nat.induct)
     (subst (asm) show_nat.simps, auto simp: digit_char_is_digit split: if_splits)

lemma show_nat_nonempty: "show_nat n \<noteq> []"
  by (subst show_nat.simps) simp

lemma py_int_append: "py_int (s @ [c]) = 10 * py_int s + digit_value c"
  by (simp add: py_int_def)

text \<open>Reading back a printed number gives the number.\<close>

lemma py_int_show_nat: "py_int (show_nat n) = n"
proof (induction n rule: show_nat.induct)
  case (1 n)
  show ?case
  proof (cases "n < 10")
    case True
    then show ?thesis
      by (subst show_nat.simps) (simp add: py_int_def digit_value_char)
  next
    case False
    with 1 have "py_int (show_nat (n div 10)) = n div 10" by simp
    with False show ?thesis
      by (subst show_nat.simps) (simp add: py_int_append digit_value_char)
  qed
qed

section \<open>Representations\<close>

text \<open>
  \<open>repr\<close> of a string: single quotes unless the text has a single and no double quote; the
  quote, backslashes and characters that do not print are escaped.
\<close>

definition hex_digit :: "nat \<Rightarrow> char" where
  "hex_digit d = (if d < 10 then char_of (48 + d) else char_of (87 + d))"

definition is_printable :: "char \<Rightarrow> bool" where
  "is_printable c = (let n = (of_char c :: nat) in (32 \<le> n \<and> n \<le> 126) \<or> (161 \<le> n \<and> n \<noteq> 173))"

definition repr_char :: "char \<Rightarrow> char \<Rightarrow> string" where
  "repr_char q c =
     (if c = q \<or> c = CHR 0x5C then [CHR 0x5C, c]
      else if c = CHR 0x09 then [CHR 0x5C, CHR ''t'']
      else if c = CHR 0x0A then [CHR 0x5C, CHR ''n'']
      else if c = CHR 0x0D then [CHR 0x5C, CHR ''r'']
      else if is_printable c then [c]
      else [CHR 0x5C, CHR ''x'', hex_digit (of_char c div 16), hex_digit (of_char c mod 16)])"

definition py_repr :: "string \<Rightarrow> string" where
  "py_repr s =
     (let q = (if CHR 0x27 \<in> set s \<and> CHR 0x22 \<notin> set s then CHR 0x22 else CHR 0x27)
      in [q] @ concat (map (repr_char q) s) @ [q])"

definition repr_list :: "string list \<Rightarrow> string" where
  "repr_list xs = ''['' @ py_join '', '' (map py_repr xs) @ '']''"

end
