(* ===== verification/PyPath.thy ===== *)
theory PyPath
  imports PyStr
begin

text \<open>
  Paths of \<open>pathlib\<close> on a POSIX system. A path is the list of its parts; the absolute paths
  of the analyzed repository and paths relative to its root are both such lists, and the
  code says which one a value is. \<open>str\<close> of a relative path joins its parts with slashes.
\<close>

type_synonym path = "string list"

definition path_name :: "path \<Rightarrow> string" where
  "path_name p = (if p = [] then [] else last p)"

definition path_parent :: "path \<Rightarrow> path" where
  "path_parent p = butlast p"

text \<open>\<open>posixpath.splitext\<close>: the last dot starts the extension unless only dots precede it.\<close>

definition splitext :: "string \<Rightarrow> string \<times> string" where
  "splitext n =
     (let ext = rev (takeWhile (\<lambda>c. c \<noteq> CHR ''.'') (rev n));
          stem = take (length n - length ext - 1) n
      in if CHR ''.'' \<in> set n \<and> list_ex (\<lambda>c. c \<noteq> CHR ''.'') stem
         then (stem, CHR ''.'' # ext) else (n, []))"

definition path_suffix :: "path \<Rightarrow> string" where
  "path_suffix p = snd (splitext (path_name p))"

definition with_suffix :: "path \<Rightarrow> string \<Rightarrow> path res" where
  "with_suffix p sfx =
     (if path_name p = [] then Inl ValueError
      else Inr (butlast p @ [fst (splitext (path_name p)) @ sfx]))"

definition relative_to :: "path \<Rightarrow> path \<Rightarrow> path res" where
  "relative_to p root =
     (if take (length root) p = root then Inr (drop (length root) p) else Inl ValueError)"

definition rel_str :: "path \<Rightarrow> string" where
  "rel_str p = (if p = [] then ''.'' else py_join ''/'' p)"

definition abs_str :: "path \<Rightarrow> string" where
  "abs_str p = CHR ''/'' # py_join ''/'' p"

text \<open>The right operand of \<open>/\<close>: empty and dot parts vanish, an absolute operand replaces the path.\<close>

definition parts_of :: "string \<Rightarrow> path" where
  "parts_of s = filter (\<lambda>x. x \<noteq> [] \<and> x \<noteq> ''.'') (py_split ''/'' s)"

definition path_div :: "path \<Rightarrow> string \<Rightarrow> path" where
  "path_div p s = (if startswith s ''/'' then parts_of s else p @ parts_of s)"

definition rel_or_abs_str :: "path \<Rightarrow> path \<Rightarrow> string" where
  "rel_or_abs_str p root = (case relative_to p root of Inl _ \<Rightarrow> abs_str p | Inr r \<Rightarrow> rel_str r)"

lemma relative_to_append [simp]: "relative_to (root @ p) root = Inr p"
  by (simp add: relative_to_def)

lemma relative_to_Inr: "relative_to p root = Inr r \<Longrightarrow> p = root @ r"
  by (auto simp: relative_to_def split: if_splits) (metis append_take_drop_id)

lemma relative_to_Inl: "relative_to p root = Inl e \<Longrightarrow> e = ValueError \<and> \<not> prefix root p"
  by (auto simp: relative_to_def prefix_def split: if_splits)

text \<open>An order in which a set is iterated: each element once.\<close>

definition iterates :: "(path set \<Rightarrow> path list) \<Rightarrow> bool" where
  "iterates iter \<longleftrightarrow> (\<forall>S. finite S \<longrightarrow> set (iter S) = S \<and> distinct (iter S))"

lemma iterates_sorted: "iterates sorted_list_of_set"
  by (simp add: iterates_def)

end
