(* ===== verification/PyAst.thy ===== *)
theory PyAst
  imports PyStr
begin

text \<open>
  The syntax trees of Python's \<open>ast\<close> module, with one constructor for every node class the
  modelled code tests for and one, \<open>Other\<close>, for all remaining classes. A constructor carries
  the fields in the order of the class's \<open>_fields\<close>, so that \<open>iter_child_nodes\<close> lists the
  children in the module's order. The context nodes \<open>Load\<close>, \<open>Store\<close> and \<open>Del\<close> are left out:
  they have no children and no modelled code looks at them.

  A position is the pair of \<open>lineno\<close> and \<open>end_lineno\<close>. The parser itself is a parameter of
  the definitions that read source text.
\<close>

section \<open>Trees\<close>

type_synonym pos = "nat \<times> nat option"

datatype pconst = CStr string | COther

datatype ast =
    Module "ast list"
  | FunctionDef pos string ast "ast list" "ast list" "ast list"
      \<comment> \<open>name, args, body, decorator_list, then returns and type_params\<close>
  | AsyncFunctionDef pos string ast "ast list" "ast list" "ast list"
  | ClassDef pos string "ast list" "ast list" "ast list" "ast list"
      \<comment> \<open>name, bases and keywords, body, decorator_list, type_params\<close>
  | Assign pos "ast list" ast
  | AnnAssign pos ast ast "ast option"
  | Import pos "(string \<times> string option) list"
  | ImportFrom pos "string option" "(string \<times> string option) list" nat
  | If pos ast "ast list" "ast list"
  | Name pos string
  | Attribute pos ast string
  | Call pos ast "ast list" "ast list"
  | Keyword "string option" ast
  | Constant pos pconst
  | List pos "ast list"
  | Tuple pos "ast list"
  | Arg pos string "ast option"
  | Arguments "ast list" "ast list" "ast list" "ast list" "ast list" "ast list" "ast list"
      \<comment> \<open>posonlyargs, args, vararg, kwonlyargs, kw_defaults, kwarg, defaults\<close>
  | Other pos string "ast list"

fun iter_child_nodes :: "ast \<Rightarrow> ast list" where
  "iter_child_nodes (Module body) = body"
| "iter_child_nodes (FunctionDef _ _ args body decs rest) = args # body @ decs @ rest"
| "iter_child_nodes (AsyncFunctionDef _ _ args body decs rest) = args # body @ decs @ rest"
| "iter_child_nodes (ClassDef _ _ bases body decs rest) = bases @ body @ decs @ rest"
| "iter_child_nodes (Assign _ targets v) = targets @ [v]"
| "iter_child_nodes (AnnAssign _ t ann v) = t # ann # opt_list v"
| "iter_child_nodes (Import _ _) = []"
| "iter_child_nodes (ImportFrom _ _ _ _) = []"
| "iter_child_nodes (If _ test body orelse) = test # body @ orelse"
| "iter_child_nodes (Name _ _) = []"
| "iter_child_nodes (Attribute _ v _) = [v]"
| "iter_child_nodes (Call _ f args kws) = f # args @ kws"
| "iter_child_nodes (Keyword _ v) = [v]"
| "iter_child_nodes (Constant _ _) = []"
| "iter_child_nodes (List _ es) = es"
| "iter_child_nodes (Tuple _ es) = es"
| "iter_child_nodes (Arg _ _ ann) = opt_list ann"
| "iter_child_nodes (Arguments po a va ko kd kw d) = po @ a @ va @ ko @ kd @ kw @ d"
| "iter_child_nodes (Other _ _ cs) = cs"

fun lineno :: "ast \<Rightarrow> nat" where
  "lineno (FunctionDef p _ _ _ _ _) = fst p"
| "lineno (AsyncFunctionDef p _ _ _ _ _) = fst p"
| "lineno (ClassDef p _ _ _ _ _) = fst p"
| "lineno (Assign p _ _) = fst p"
| "lineno (AnnAssign p _ _ _) = fst p"
| "lineno (Import p _) = fst p"
| "lineno (ImportFrom p _ _ _) = fst p"
| "lineno (If p _ _ _) = fst p"
| "lineno (Name p _) = fst p"
| "lineno (Attribute p _ _) = fst p"
| "lineno (Call p _ _ _) = fst p"
| "lineno (Constant p _) = fst p"
| "lineno (List p _) = fst p"
| "lineno (Tuple p _) = fst p"
| "lineno (Arg p _ _) = fst p"
| "lineno (Other p _ _) = fst p"
| "lineno _ = 0"

text \<open>\<open>node.end_lineno or node.lineno\<close>: a missing or zero end line gives the start line.\<close>

definition end_line :: "pos \<Rightarrow> nat" where
  "end_line p = (case snd p of None \<Rightarrow> fst p | Some e \<Rightarrow> if e = 0 then fst p else e)"

text \<open>The statements of a parsed module, and the names in an \<open>arguments\<close> node's \<open>args\<close>.\<close>

fun module_body :: "ast \<Rightarrow> ast list" where
  "module_body (Module body) = body"
| "module_body _ = []"

fun arg_name :: "ast \<Rightarrow> string list" where
  "arg_name (Arg _ n _) = [n]"
| "arg_name _ = []"

fun args_args :: "ast \<Rightarrow> string list" where
  "args_args (Arguments po a va ko kd kw d) = concat (map arg_name a)"
| "args_args _ = []"

section \<open>Traversals\<close>

definition tree_size :: "ast list \<Rightarrow> nat" where
  "tree_size ns = sum_list (map (\<lambda>n. Suc (2 * size n)) ns)"

lemma tree_size_simps [simp]:
  "tree_size [] = 0"
  "tree_size (n # ns) = Suc (2 * size n) + tree_size ns"
  "tree_size (ns @ ms) = tree_size ns + tree_size ms"
  by (simp_all add: tree_size_def)

lemma tree_size_le: "tree_size ns \<le> 2 * size_list size ns"
  by (induction ns) auto

lemma children_size: "tree_size (iter_child_nodes n) < Suc (2 * size n)"
proof (cases n)
  case (Arguments po a va ko kd kw d)
  then show ?thesis
    using tree_size_le[of po] tree_size_le[of a] tree_size_le[of va] tree_size_le[of ko]
      tree_size_le[of kd] tree_size_le[of kw] tree_size_le[of d]
    by simp
next
  case (FunctionDef p f args body decs rest)
  then show ?thesis
    using tree_size_le[of body] tree_size_le[of decs] tree_size_le[of rest] by simp
next
  case (AsyncFunctionDef p f args body decs rest)
  then show ?thesis
    using tree_size_le[of body] tree_size_le[of decs] tree_size_le[of rest] by simp
next
  case (ClassDef p f bases body decs rest)
  then show ?thesis
    using tree_size_le[of bases] tree_size_le[of body] tree_size_le[of decs] tree_size_le[of rest]
    by simp
next
  case (If p t body orelse)
  then show ?thesis using tree_size_le[of body] tree_size_le[of orelse] by simp
next
  case (Call p f args kws)
  then show ?thesis using tree_size_le[of args] tree_size_le[of kws] by simp
qed (auto simp: opt_list_def less_Suc_eq_le split: option.splits
       intro: le_trans[OF tree_size_le] le_SucI)

lemma child_smaller: "c \<in> set (iter_child_nodes n) \<Longrightarrow> size c < size n"
  using member_le_sum_list_nat[of c "iter_child_nodes n" "\<lambda>n. Suc (2 * size n)"]
    children_size[of n]
  by (simp add: tree_size_def)

text \<open>
  \<open>ast.walk\<close> keeps a queue: it takes the first node, appends its children and yields it.
\<close>

function walk_queue :: "ast list \<Rightarrow> ast list" where
  "walk_queue [] = []"
| "walk_queue (n # todo) = n # walk_queue (todo @ iter_child_nodes n)"
  by pat_completeness auto
termination
  by (relation "measure tree_size") (use children_size in auto)

definition walk :: "ast \<Rightarrow> ast list" where
  "walk n = walk_queue [n]"

text \<open>The descendants of a node, itself included, independent of any order.\<close>

inductive descends :: "ast \<Rightarrow> ast \<Rightarrow> bool" where
  here: "descends n n"
| below: "c \<in> set (iter_child_nodes n) \<Longrightarrow> descends c m \<Longrightarrow> descends n m"

lemma descends_unfold:
  "descends n m \<longleftrightarrow> m = n \<or> (\<exists>c \<in> set (iter_child_nodes n). descends c m)"
  by (subst descends.simps) auto

inductive_cases descends_cases: "descends n m"

lemma set_walk_queue: "set (walk_queue q) = {m. \<exists>n \<in> set q. descends n m}"
proof (induction q rule: walk_queue.induct)
  case 1
  then show ?case by simp
next
  case (2 n todo)
  have "{m. descends n m} = insert n {m. \<exists>c \<in> set (iter_child_nodes n). descends c m}"
    using descends_unfold[of n] by blast
  then show ?case using 2 by auto
qed

lemma set_walk: "set (walk n) = {m. descends n m}"
  unfolding walk_def set_walk_queue by simp

text \<open>
  A \<open>NodeVisitor\<close> that records something at each node and always descends
  (\<open>generic_visit\<close>): the union of what it records over the whole subtree.
\<close>

function collect :: "(ast \<Rightarrow> 'a set) \<Rightarrow> ast \<Rightarrow> 'a set" where
  "collect f n = f n \<union> \<Union> (set (map (collect f) (iter_child_nodes n)))"
  by pat_completeness auto
termination
  by (relation "measure (\<lambda>(f, n). size n)") (auto intro: child_smaller)

declare collect.simps [simp del]

lemma collect_descends: "x \<in> collect f n \<longleftrightarrow> (\<exists>m. descends n m \<and> x \<in> f m)"
proof (induction f n rule: collect.induct)
  case (1 f n)
  show ?case
    by (subst collect.simps) (auto simp: 1 descends_unfold[of n])
qed

lemma collect_walk: "collect f n = \<Union> (f ` set (walk n))"
  by (auto simp: collect_descends set_walk)

end
