(* ===== verification/PyRegex.thy ===== *)
theory PyRegex
  imports PyStr
begin

text \<open>
  The backtracking matcher behind Python's \<open>re\<close> module, as a function that returns the
  ways a pattern can match at a position in the order in which the matcher tries them: the
  head of the list is the match \<open>re.match\<close> reports. A position is the text before it
  (reversed), the text after it, and the groups captured so far.

  Patterns are written with the constructors below in the shape of the source's pattern
  string. Every repeated subpattern of the modelled code consumes at least one character,
  so dropping the repetitions that consume nothing loses no match.
\<close>

section \<open>Patterns and matching\<close>

datatype regex =
    REmpty
  | RChar "char \<Rightarrow> bool"
  | RSeq regex regex
  | RAlt regex regex
  | RStar regex
  | RGroup nat regex
  | RBegin
  | REnd
  | RBound
  | RLazy regex

type_synonym rstate = "string \<times> string \<times> (nat \<times> string) list"

definition at_end :: "string \<Rightarrow> bool" where
  "at_end suf = (suf = [] \<or> suf = [CHR 0x0A])"

definition at_bound :: "string \<Rightarrow> string \<Rightarrow> bool" where
  "at_bound pre suf =
     ((pre \<noteq> [] \<and> is_word (hd pre)) \<noteq> (suf \<noteq> [] \<and> is_word (hd suf)))"

function rmatch :: "regex \<Rightarrow> rstate \<Rightarrow> rstate list" where
  "rmatch REmpty st = [st]"
| "rmatch (RChar p) (pre, suf, g) =
     (case suf of [] \<Rightarrow> [] | c # cs \<Rightarrow> if p c then [(c # pre, cs, g)] else [])"
| "rmatch (RSeq r q) st = concat (map (rmatch q) (rmatch r st))"
| "rmatch (RAlt r q) st = rmatch r st @ rmatch q st"
| "rmatch (RStar r) (pre, suf, g) =
     concat (map (\<lambda>(pre', suf', g').
                    if length suf' < length suf then rmatch (RStar r) (pre', suf', g') else [])
                 (rmatch r (pre, suf, g))) @ [(pre, suf, g)]"
| "rmatch (RGroup n r) (pre, suf, g) =
     map (\<lambda>(pre', suf', g'). (pre', suf', (n, rev (take (length pre' - length pre) pre')) # g'))
         (rmatch r (pre, suf, g))"
| "rmatch RBegin (pre, suf, g) = (if pre = [] then [(pre, suf, g)] else [])"
| "rmatch REnd (pre, suf, g) = (if at_end suf then [(pre, suf, g)] else [])"
| "rmatch RBound (pre, suf, g) = (if at_bound pre suf then [(pre, suf, g)] else [])"
| "rmatch (RLazy r) (pre, suf, g) =
     (pre, suf, g) #
     concat (map (\<lambda>(pre', suf', g').
                    if length suf' < length suf then rmatch (RLazy r) (pre', suf', g') else [])
                 (rmatch r (pre, suf, g)))"
  by pat_completeness auto
termination
  by (relation "measures [\<lambda>(r, st). size r, \<lambda>(r, pre, suf, g). length suf]") auto

declare rmatch.simps(5,10) [simp del]

text \<open>\<open>RLazy r\<close> is \<open>r*?\<close>. Derived patterns: \<open>r+\<close>, \<open>r?\<close> (both greedy), literal text and sequences.\<close>

definition RPlus :: "regex \<Rightarrow> regex" where
  "RPlus r = RSeq r (RStar r)"

definition ROpt :: "regex \<Rightarrow> regex" where
  "ROpt r = RAlt r REmpty"

fun RLit :: "string \<Rightarrow> regex" where
  "RLit [] = REmpty"
| "RLit (c # cs) = RSeq (RChar (\<lambda>x. x = c)) (RLit cs)"

fun RSeqs :: "regex list \<Rightarrow> regex" where
  "RSeqs [] = REmpty"
| "RSeqs (r # rs) = RSeq r (RSeqs rs)"

text \<open>Literal text under \<open>IGNORECASE\<close>, given in lower case.\<close>

definition nocase :: "string \<Rightarrow> regex" where
  "nocase l = RSeqs (map (\<lambda>c. RChar (\<lambda>x. lower_char x = c)) l)"

abbreviation RDot :: regex where
  "RDot \<equiv> RChar (\<lambda>c. c \<noteq> CHR 0x0A)"

abbreviation RWord :: regex where
  "RWord \<equiv> RChar is_word"

abbreviation RSpace :: regex where
  "RSpace \<equiv> RChar is_space"

abbreviation RDigit :: regex where
  "RDigit \<equiv> RChar is_digit"

section \<open>The entry points of the module\<close>

definition re_match :: "regex \<Rightarrow> string \<Rightarrow> rstate option" where
  "re_match r s = (case rmatch r ([], s, []) of [] \<Rightarrow> None | st # _ \<Rightarrow> Some st)"

fun search_from :: "regex \<Rightarrow> string \<Rightarrow> string \<Rightarrow> rstate option" where
  "search_from r pre [] = (case rmatch r (pre, [], []) of [] \<Rightarrow> None | st # _ \<Rightarrow> Some st)"
| "search_from r pre (c # cs) =
     (case rmatch r (pre, c # cs, []) of
        [] \<Rightarrow> search_from r (c # pre) cs
      | st # _ \<Rightarrow> Some st)"

definition re_search :: "regex \<Rightarrow> string \<Rightarrow> rstate option" where
  "re_search r s = search_from r [] s"

definition group_of :: "nat \<Rightarrow> rstate \<Rightarrow> string option" where
  "group_of n st = map_of (snd (snd st)) n"

definition re_match_group :: "regex \<Rightarrow> nat \<Rightarrow> string \<Rightarrow> string option" where
  "re_match_group r n s = Option.bind (re_match r s) (group_of n)"

definition re_search_group :: "regex \<Rightarrow> nat \<Rightarrow> string \<Rightarrow> string option" where
  "re_search_group r n s = Option.bind (re_search r s) (group_of n)"

text \<open>
  \<open>re.findall\<close> without groups: the matched texts from left to right, each search starting
  where the previous match ended (one character further after an empty match).
\<close>

function findall_from :: "regex \<Rightarrow> string \<Rightarrow> string \<Rightarrow> string list" where
  "findall_from r pre suf =
     (case rmatch r (pre, suf, []) of
        [] \<Rightarrow> (case suf of [] \<Rightarrow> [] | c # cs \<Rightarrow> findall_from r (c # pre) cs)
      | (pre', suf', g') # _ \<Rightarrow>
          rev (take (length pre' - length pre) pre') #
          (if length suf' < length suf then findall_from r pre' suf'
           else (case suf of [] \<Rightarrow> [] | c # cs \<Rightarrow> findall_from r (c # pre) cs)))"
  by pat_completeness auto
termination
  by (relation "measure (\<lambda>(r, pre, suf). length suf)") auto

declare findall_from.simps [simp del]

definition re_findall :: "regex \<Rightarrow> string \<Rightarrow> string list" where
  "re_findall r s = findall_from r [] s"

section \<open>Matching states\<close>

text \<open>A match only moves characters from the text after the position to the text before it.\<close>

lemma rmatch_text:
  "(pre', suf', g') \<in> set (rmatch r (pre, suf, g)) \<Longrightarrow>
     \<exists>m. suf = m @ suf' \<and> pre' = rev m @ pre"
proof (induction r arbitrary: pre suf g pre' suf' g')
  case (RChar p)
  then show ?case by (cases suf) (auto split: if_splits)
next
  case (RSeq r q)
  from RSeq.prems obtain p1 s1 g1 where 1: "(p1, s1, g1) \<in> set (rmatch r (pre, suf, g))"
    and 2: "(pre', suf', g') \<in> set (rmatch q (p1, s1, g1))"
    by auto
  from RSeq.IH(1)[OF 1] RSeq.IH(2)[OF 2] show ?case by force
next
  case (RStar r)
  from RStar.prems show ?case
  proof (induction suf arbitrary: pre g rule: length_induct)
    case (1 suf)
    show ?case
    proof (cases "(pre', suf', g') = (pre, suf, g)")
      case True
      then show ?thesis by simp
    next
      case False
      with "1.prems"[unfolded rmatch.simps(5)[of r pre suf g]] obtain p1 s1 g1
        where 2: "(p1, s1, g1) \<in> set (rmatch r (pre, suf, g))"
          and l: "length s1 < length suf"
          and 3: "(pre', suf', g') \<in> set (rmatch (RStar r) (p1, s1, g1))"
        by (auto split: if_splits)
      from RStar.IH[OF 2] obtain m where m: "suf = m @ s1" "p1 = rev m @ pre" by blast
      obtain k where "s1 = k @ suf'" "pre' = rev k @ p1"
        using "1.IH"[rule_format, OF l 3] by blast
      with m show ?thesis by (intro exI[of _ "m @ k"]) simp
    qed
  qed
next
  case (RLazy r)
  from RLazy.prems show ?case
  proof (induction suf arbitrary: pre g rule: length_induct)
    case (1 suf)
    show ?case
    proof (cases "(pre', suf', g') = (pre, suf, g)")
      case True
      then show ?thesis by simp
    next
      case False
      with "1.prems"[unfolded rmatch.simps(10)[of r pre suf g]] obtain p1 s1 g1
        where 2: "(p1, s1, g1) \<in> set (rmatch r (pre, suf, g))"
          and l: "length s1 < length suf"
          and 3: "(pre', suf', g') \<in> set (rmatch (RLazy r) (p1, s1, g1))"
        by (auto split: if_splits)
      from RLazy.IH[OF 2] obtain m where m: "suf = m @ s1" "p1 = rev m @ pre" by blast
      obtain k where "s1 = k @ suf'" "pre' = rev k @ p1"
        using "1.IH"[rule_format, OF l 3] by blast
      with m show ?thesis by (intro exI[of _ "m @ k"]) simp
    qed
  qed
next
  case (RGroup n r)
  from RGroup.prems obtain g1 where "(pre', suf', g1) \<in> set (rmatch r (pre, suf, g))"
    by auto
  then show ?case by (rule RGroup.IH)
qed (auto split: if_splits)

section \<open>Greedy runs of a character class\<close>

text \<open>All ways to match \<open>[p]*\<close>: the longest run first, then every shorter one.\<close>

fun run_states :: "(char \<Rightarrow> bool) \<Rightarrow> rstate \<Rightarrow> rstate list" where
  "run_states p (pre, [], g) = [(pre, [], g)]"
| "run_states p (pre, c # cs, g) =
     (if p c then run_states p (c # pre, cs, g) else []) @ [(pre, c # cs, g)]"

lemma rmatch_star_char: "rmatch (RStar (RChar p)) (pre, suf, g) = run_states p (pre, suf, g)"
proof (induction suf arbitrary: pre)
  case Nil
  show ?case by (subst rmatch.simps(5)) simp
next
  case (Cons c cs)
  show ?case by (subst rmatch.simps(5)) (simp add: Cons)
qed

lemma rmatch_plus_char:
  "rmatch (RPlus (RChar p)) (pre, suf, g) =
     (case suf of [] \<Rightarrow> [] | c # cs \<Rightarrow> if p c then run_states p (c # pre, cs, g) else [])"
  by (auto simp: RPlus_def rmatch_star_char split: list.splits)

lemma run_states_all:
  "run_states p (pre, suf, g) =
     (let w = takeWhile p suf in
      map (\<lambda>k. (rev (take k w) @ pre, drop k suf, g)) (rev [0..<Suc (length w)]))"
proof (induction suf arbitrary: pre)
  case Nil
  then show ?case by simp
next
  case (Cons c cs)
  show ?case
  proof (cases "p c")
    case True
    have "rev [0..<Suc (Suc n)] = map Suc (rev [0..<Suc n]) @ [0]" for n
    proof -
      have "[0..<Suc (Suc n)] = 0 # map Suc [0..<Suc n]"
        by (simp only: map_Suc_upt upt_conv_Cons[of 0 "Suc (Suc n)"] zero_less_Suc)
      then show ?thesis by (simp only: rev.simps rev_map)
    qed
    then show ?thesis
      using True by (simp add: Cons Let_def comp_def del: upt_Suc)
  next
    case False
    then show ?thesis by simp
  qed
qed

lemma run_states_text:
  "(pre', suf', g') \<in> set (run_states p (pre, suf, g)) \<Longrightarrow>
     \<exists>w. suf = w @ suf' \<and> list_all p w"
proof (induction p "(pre, suf, g)" arbitrary: pre suf g rule: run_states.induct)
  case (2 p pre c cs g)
  then show ?case
  proof (cases "(pre', suf', g') = (pre, c # cs, g)")
    case False
    with 2(2) have c: "p c" "(pre', suf', g') \<in> set (run_states p (c # pre, cs, g))"
      by (auto split: if_splits)
    from 2(1)[OF c] obtain w where "cs = w @ suf'" "list_all p w" by blast
    with c(1) show ?thesis by (intro exI[of _ "c # w"]) simp
  qed auto
qed simp

lemma run_states_hd:
  "\<exists>rest. run_states p (pre, suf, g) =
     (rev (takeWhile p suf) @ pre, dropWhile p suf, g) # rest"
proof (induction suf arbitrary: pre)
  case Nil
  then show ?case by simp
next
  case (Cons c cs)
  obtain rest where "run_states p (c # pre, cs, g) =
      (rev (takeWhile p cs) @ c # pre, dropWhile p cs, g) # rest"
    using Cons by blast
  then show ?case by simp
qed

text \<open>
  When what follows cannot begin with a character of the class, only the longest run can
  be continued, so the matcher never has to give characters back.
\<close>

lemma run_states_then:
  assumes "\<And>pre c cs g. p c \<Longrightarrow> rmatch q (pre, c # cs, g) = []"
  shows "concat (map (rmatch q) (run_states p (pre, suf, g))) =
         rmatch q (rev (takeWhile p suf) @ pre, dropWhile p suf, g)"
  using assms by (induction suf arbitrary: pre) auto

lemma rmatch_lit:
  "rmatch (RLit l) (pre, suf, g) =
     (if startswith suf l then [(rev l @ pre, drop (length l) suf, g)] else [])"
  by (induction l arbitrary: pre suf) (auto split: list.splits simp: startswith_def)

lemmas rmatch_runs [rematch] = rmatch_star_char rmatch_plus_char rmatch_lit

text \<open>
  The maximal runs of word characters in a text, which \<open>\b\w+\b\<close> finds: at a position
  that does not follow a word character, \<open>findall\<close> lists exactly these runs.
\<close>

function words :: "string \<Rightarrow> string list" where
  "words [] = []"
| "words (c # cs) =
     (if is_word c then (c # takeWhile is_word cs) # words (dropWhile is_word cs) else words cs)"
  by pat_completeness auto
termination
  by (relation "measure length") (auto simp: less_Suc_eq_le length_dropWhile_le)

definition RWords :: regex where
  "RWords = RSeqs [RBound, RPlus RWord, RBound]"

lemma rmatch_words_none:
  "suf = [] \<or> \<not> is_word (hd suf) \<Longrightarrow> rmatch RWords (pre, suf, g) = []"
  by (auto simp: RWords_def rmatch_plus_char split: list.splits)

lemma rmatch_words_some:
  assumes "pre = [] \<or> \<not> is_word (hd pre)" and "is_word c"
  shows "\<exists>rest. rmatch RWords (pre, c # cs, g) =
           (rev (takeWhile is_word cs) @ c # pre, dropWhile is_word cs, g) # rest"
proof -
  let ?st = "(rev (takeWhile is_word cs) @ c # pre, dropWhile is_word cs, g)"
  have "at_bound pre (c # cs)" using assms by (auto simp: at_bound_def)
  moreover have "at_bound (rev (takeWhile is_word cs) @ c # pre) (dropWhile is_word cs)"
  proof -
    have "is_word (hd (rev (takeWhile is_word cs) @ c # pre))"
    proof (cases "takeWhile is_word cs" rule: rev_cases)
      case Nil
      then show ?thesis using assms(2) by simp
    next
      case (snoc ys y)
      then have "y \<in> set (takeWhile is_word cs)" by simp
      then have "is_word y" by (rule set_takeWhileD[THEN conjunct2])
      then show ?thesis by (simp add: snoc)
    qed
    moreover have "\<not> (dropWhile is_word cs \<noteq> [] \<and> is_word (hd (dropWhile is_word cs)))"
      using hd_dropWhile by blast
    ultimately show ?thesis by (simp add: at_bound_def)
  qed
  moreover obtain rest where "run_states is_word (c # pre, cs, g) = ?st # rest"
    using run_states_hd by blast
  ultimately show ?thesis
    using assms(2) by (simp add: RWords_def rmatch_plus_char)
qed

lemma findall_words:
  "pre = [] \<or> \<not> is_word (hd pre) \<or> suf = [] \<or> \<not> is_word (hd suf) \<Longrightarrow>
     findall_from RWords pre suf = words suf"
proof (induction suf arbitrary: pre rule: words.induct)
  case 1
  then show ?case
    by (subst findall_from.simps) (simp add: rmatch_words_none)
next
  case (2 c cs)
  show ?case
  proof (cases "is_word c")
    case False
    then show ?thesis
      by (subst findall_from.simps) (simp add: rmatch_words_none 2)
  next
    case True
    have pre: "pre = [] \<or> \<not> is_word (hd pre)" using "2.prems" True by simp
    obtain rest where m: "rmatch RWords (pre, c # cs, []) =
        (rev (takeWhile is_word cs) @ c # pre, dropWhile is_word cs, []) # rest"
      using rmatch_words_some[OF pre True] by blast
    have l: "length (dropWhile is_word cs) < length (c # cs)"
      using length_dropWhile_le[of is_word cs] by simp
    have "findall_from RWords (rev (takeWhile is_word cs) @ c # pre) (dropWhile is_word cs)
          = words (dropWhile is_word cs)"
      using "2.IH"(1)[OF True] hd_dropWhile by blast
    then show ?thesis
      using True l by (subst findall_from.simps) (simp add: m Suc_diff_le)
  qed
qed

lemma re_findall_words: "re_findall RWords s = words s"
  by (simp add: re_findall_def findall_words)

text \<open>\<open>\d+\<close> at a position: the longest run of digits.\<close>

lemma rmatch_digits_hd:
  assumes "ds \<noteq> []" and "\<And>c. c \<in> set ds \<Longrightarrow> is_digit c"
    and "rest = [] \<or> \<not> is_digit (hd rest)"
  shows "\<exists>more. rmatch (RPlus RDigit) (pre, ds @ rest, g) = (rev ds @ pre, rest, g) # more"
proof -
  obtain d ds' where ds: "ds = d # ds'" using assms(1) by (cases ds) auto
  have d: "is_digit d" using assms(2) ds by simp
  have t: "takeWhile is_digit (ds' @ rest) = ds'"
    using assms(2,3) ds by (cases rest) (auto simp: takeWhile_append takeWhile_all)
  have r: "dropWhile is_digit (ds' @ rest) = rest"
    using assms(2,3) ds by (cases rest) (auto simp: dropWhile_append)
  from run_states_hd[of is_digit "d # pre" "ds' @ rest" g] t r d ds
  show ?thesis by (auto simp: rmatch_plus_char)
qed

section \<open>The first match\<close>

text \<open>
  The match the entry points report is the first one the matcher tries. The rules build it
  along a pattern; an alternative is taken only when those before it cannot match.
\<close>

definition first_match :: "regex \<Rightarrow> rstate \<Rightarrow> rstate \<Rightarrow> bool" where
  "first_match r st st' \<longleftrightarrow> (\<exists>more. rmatch r st = st' # more)"

lemma first_empty: "first_match REmpty st st"
  by (simp add: first_match_def)

lemma first_seq: "first_match r st s1 \<Longrightarrow> first_match q s1 s2 \<Longrightarrow> first_match (RSeq r q) st s2"
  by (auto simp: first_match_def)

lemma first_lit: "first_match (RLit l) (pre, l @ suf, g) (rev l @ pre, suf, g)"
  by (simp add: first_match_def rmatch_lit)

lemma first_alt1: "first_match r st s1 \<Longrightarrow> first_match (RAlt r q) st s1"
  by (auto simp: first_match_def)

lemma first_alt2: "rmatch r st = [] \<Longrightarrow> first_match q st s1 \<Longrightarrow> first_match (RAlt r q) st s1"
  by (auto simp: first_match_def)

lemma first_group:
  "first_match r (pre, suf, g) (rev m @ pre, suf', g') \<Longrightarrow>
     first_match (RGroup n r) (pre, suf, g) (rev m @ pre, suf', (n, m) # g')"
  by (auto simp: first_match_def)

lemma first_digits:
  "ds \<noteq> [] \<Longrightarrow> (\<And>c. c \<in> set ds \<Longrightarrow> is_digit c) \<Longrightarrow> rest = [] \<or> \<not> is_digit (hd rest) \<Longrightarrow>
     first_match (RPlus RDigit) (pre, ds @ rest, g) (rev ds @ pre, rest, g)"
  unfolding first_match_def by (rule rmatch_digits_hd)

lemma re_match_first: "first_match r ([], s, []) st \<Longrightarrow> re_match r s = Some st"
  by (auto simp: first_match_def re_match_def)

lemma re_match_group_first:
  "first_match r ([], s, []) (pre, suf, g) \<Longrightarrow> re_match_group r n s = map_of g n"
  by (simp add: re_match_group_def re_match_first group_of_def)

lemmas first_intros = first_empty first_seq first_lit first_alt1 first_group first_digits

end
