(* ===== verification/SourceFiles.thy ===== *)
theory SourceFiles
  imports PyPath PyAst PyRegex
begin

text \<open>
  What the analyzer reads from its surroundings, as a record the definitions take as an
  argument: file contents, the parser, which paths exist and what \<open>Path.resolve\<close> returns. \<^const>\<open>None\<close> of \<open>read_text\<close> and \<open>ast_parse\<close> stands for one of the
  exceptions \<open>OSError\<close>, \<open>UnicodeDecodeError\<close> and \<open>SyntaxError\<close>, which every caller catches
  together.
\<close>

record file_env =
  read_text :: "path \<Rightarrow> string option"
  ast_parse :: "string \<Rightarrow> ast option"
  path_exists :: "path \<Rightarrow> bool"
  path_resolve :: "path \<Rightarrow> path"

definition parse_file :: "file_env \<Rightarrow> path \<Rightarrow> ast option" where
  "parse_file env p = Option.bind (read_text env p) (ast_parse env)"

text \<open>A file system given by finitely many files, each with its text and its tree, and no links.\<close>

definition env_of_files :: "(path \<times> string \<times> ast) list \<Rightarrow> file_env" where
  "env_of_files fs =
     \<lparr>read_text = (\<lambda>p. map_option fst (map_of fs p)),
      ast_parse = (\<lambda>s. map_of (map snd fs) s),
      path_exists = (\<lambda>p. map_of fs p \<noteq> None),
      path_resolve = (\<lambda>p. p)\<rparr>"

end
