(* ===== verification/MarkerDetect.thy ===== *)
theory MarkerDetect
  imports SourceFiles
begin

text \<open>
  Marker detection of \<open>pytest_marker_analyzer.py\<close>: the names in a marker expression, the
  shapes of syntax that carry a marker, and the two functions that list the marked tests of
  a test file. The declarative predicate \<open>carries_marker\<close> says which tests count as marked; the
  loops are shown to list exactly these.
\<close>

section \<open>Repository names\<close>

definition repo_char :: "char \<Rightarrow> bool" where
  "repo_char c = (is_ascii_alpha c \<or> is_digit c \<or> c \<in> set ''._-'')"

definition repo_name_re :: regex where
  "repo_name_re = RSeqs
     [RBegin, RChar (\<lambda>c. is_ascii_alpha c \<or> is_digit c), RStar (RChar repo_char),
      RChar (\<lambda>c. c = CHR ''/''),
      RChar (\<lambda>c. is_ascii_alpha c \<or> is_digit c), RStar (RChar repo_char), REnd]"

definition dangerous_chars :: "char list" where
  "dangerous_chars =
     [CHR ''`'', CHR ''$'', CHR ''|'', CHR ''&'', CHR '';'', CHR 0x0A, CHR 0x0D, CHR 0x5C,
      CHR 0x22, CHR 0x27, CHR ''<'', CHR ''>'', CHR ''('', CHR '')'']"

definition validate_repo_name :: "string \<Rightarrow> unit res" where
  "validate_repo_name repo =
     (if CHR ''/'' \<notin> set repo \<or> count_list repo (CHR ''/'') \<noteq> 1 then Inl ValueError
      else if re_match repo_name_re repo = None then Inl ValueError
      else if list_ex (\<lambda>c. c \<in> set repo) dangerous_chars then Inl ValueError
      else Inr ())"

section \<open>Markers in syntax\<close>

definition extract_marker_names :: "string \<Rightarrow> string set" where
  "extract_marker_names marker_expression =
     {t \<in> set (re_findall RWords marker_expression). t \<notin> {''and'', ''or'', ''not''}}"

fun is_marker :: "ast \<Rightarrow> string set \<Rightarrow> bool" where
  "is_marker (Attribute _ (Attribute _ (Name _ i) m) a) marker_names =
     (i = ''pytest'' \<and> m = ''mark'' \<and> a \<in> marker_names)"
| "is_marker (Call _ func _ _) marker_names = is_marker func marker_names"
| "is_marker _ marker_names = False"

fun list_elts :: "ast \<Rightarrow> ast list" where
  "list_elts (List _ es) = es"
| "list_elts _ = []"

fun tuple_elts :: "ast \<Rightarrow> ast list" where
  "tuple_elts (Tuple _ es) = es"
| "tuple_elts _ = []"

fun check_pytestmark_assignment :: "ast \<Rightarrow> string set \<Rightarrow> bool" where
  "check_pytestmark_assignment (Assign _ [Name _ target] value) marker_names =
     (target = ''pytestmark'' \<and>
      (is_marker value marker_names \<or> list_ex (\<lambda>e. is_marker e marker_names) (list_elts value)))"
| "check_pytestmark_assignment _ marker_names = False"

fun marks_keyword_has_marker :: "string set \<Rightarrow> ast \<Rightarrow> bool" where
  "marks_keyword_has_marker marker_names (Keyword arg value) =
     (arg = Some ''marks'' \<and>
      (is_marker value marker_names \<or> list_ex (\<lambda>m. is_marker m marker_names) (tuple_elts value)))"
| "marks_keyword_has_marker marker_names _ = False"

fun has_marker_in_param :: "ast \<Rightarrow> string set \<Rightarrow> bool" where
  "has_marker_in_param (Call _ (Attribute _ (Name _ i) a) args keywords) marker_names =
     (i = ''pytest'' \<and> a = ''param'' \<and> list_ex (marks_keyword_has_marker marker_names) keywords)"
| "has_marker_in_param _ marker_names = False"

fun pytest_mark_attr :: "ast \<Rightarrow> string option" where
  "pytest_mark_attr (Attribute _ (Attribute _ (Name _ i) m) a) =
     (if i = ''pytest'' \<and> m = ''mark'' then Some a else None)"
| "pytest_mark_attr _ = None"

fun sequence_elts :: "ast \<Rightarrow> ast list" where
  "sequence_elts (List _ es) = es"
| "sequence_elts (Tuple _ es) = es"
| "sequence_elts _ = []"

fun check_parametrize_marks :: "ast \<Rightarrow> string set \<Rightarrow> bool" where
  "check_parametrize_marks (Call _ func args kws) marker_names =
     (pytest_mark_attr func = Some ''parametrize'' \<and>
      (case args of
         _ # param_values # _ \<Rightarrow>
           list_ex (\<lambda>e. has_marker_in_param e marker_names) (sequence_elts param_values)
       | _ \<Rightarrow> False))"
| "check_parametrize_marks _ marker_names = False"

fun str_constants :: "ast list \<Rightarrow> string list" where
  "str_constants [] = []"
| "str_constants (Constant _ (CStr s) # ns) = s # str_constants ns"
| "str_constants (_ # ns) = str_constants ns"

fun extract_usefixtures_from_decorator :: "ast \<Rightarrow> string set" where
  "extract_usefixtures_from_decorator (Call _ func args kws) =
     (if pytest_mark_attr func = Some ''usefixtures'' then set (str_constants args) else {})"
| "extract_usefixtures_from_decorator _ = {}"

section \<open>Tests of a file\<close>

text \<open>The functions a module or class body holds: name and decorators, sync or async.\<close>

fun function_of :: "ast \<Rightarrow> (string \<times> ast list) option" where
  "function_of (FunctionDef _ name _ _ decs _) = Some (name, decs)"
| "function_of (AsyncFunctionDef _ name _ _ decs _) = Some (name, decs)"
| "function_of _ = None"

fun class_of :: "ast \<Rightarrow> (string \<times> ast list \<times> ast list) option" where
  "class_of (ClassDef _ name _ body decs _) = Some (name, body, decs)"
| "class_of _ = None"

text \<open>The decorator loop: the test is appended once, at the first decorator that marks it.\<close>

fun decorators_mark :: "ast list \<Rightarrow> string set \<Rightarrow> bool" where
  "decorators_mark [] marker_names = False"
| "decorators_mark (d # ds) marker_names =
     (if is_marker d marker_names then True
      else if check_parametrize_marks d marker_names then True
      else decorators_mark ds marker_names)"

text \<open>
  One item of a body: the name of a \<open>test_\<close> function whose decorators satisfy the condition
  of the enclosing loop.
\<close>

definition function_test :: "(ast list \<Rightarrow> bool) \<Rightarrow> ast \<Rightarrow> string option" where
  "function_test keep item =
     (case function_of item of
        None \<Rightarrow> None
      | Some (fname, decs) \<Rightarrow>
          if startswith fname ''test_'' \<and> keep decs then Some fname else None)"

definition method_id :: "string \<Rightarrow> string \<Rightarrow> string" where
  "method_id cname fname = cname @ ''::'' @ fname"

definition class_tests :: "string \<Rightarrow> (ast list \<Rightarrow> bool) \<Rightarrow> ast list \<Rightarrow> string list" where
  "class_tests cname keep body = map (method_id cname) (List.map_filter (function_test keep) body)"

text \<open>The loop over a module whose \<open>pytestmark\<close> carries the marker: every test counts.\<close>

definition module_marked_tests :: "ast list \<Rightarrow> string list" where
  "module_marked_tests body = concat (map (\<lambda>node.
     case function_of node of
       Some _ \<Rightarrow> opt_list (function_test (\<lambda>_. True) node)
     | None \<Rightarrow>
         (case class_of node of
            Some (cname, cbody, decs) \<Rightarrow> class_tests cname (\<lambda>_. True) cbody
          | None \<Rightarrow> [])) body)"

text \<open>The loop over an unmarked module: class decorators, then the methods' own decorators.\<close>

definition item_marked_tests :: "string set \<Rightarrow> ast list \<Rightarrow> string list" where
  "item_marked_tests marker_names body = concat (map (\<lambda>node.
     case function_of node of
       Some _ \<Rightarrow> opt_list (function_test (\<lambda>decs. decorators_mark decs marker_names) node)
     | None \<Rightarrow>
         (case class_of node of
            Some (cname, cbody, decs) \<Rightarrow>
              (if list_ex (\<lambda>d. is_marker d marker_names) decs
               then class_tests cname (\<lambda>_. True) cbody
               else class_tests cname (\<lambda>ds. decorators_mark ds marker_names) cbody)
          | None \<Rightarrow> [])) body)"

definition tests_of_tree :: "ast \<Rightarrow> string set \<Rightarrow> string list" where
  "tests_of_tree tree marker_names =
     (if list_ex (\<lambda>n. check_pytestmark_assignment n marker_names) (module_body tree)
      then module_marked_tests (module_body tree)
      else item_marked_tests marker_names (module_body tree))"

text \<open>
  \<open>_process_test_file_for_markers\<close>: a file outside the repository root yields no result, since
  the \<open>ValueError\<close> of \<open>relative_to\<close> is caught for each test.
\<close>

definition process_test_file_for_markers ::
    "file_env \<Rightarrow> path \<Rightarrow> string set \<Rightarrow> path \<Rightarrow> (string \<times> string \<times> path) list" where
  "process_test_file_for_markers env test_file marker_names repo_root =
     (case parse_file env test_file of
        None \<Rightarrow> []
      | Some tree \<Rightarrow>
          concat (map (\<lambda>test_name.
             case relative_to test_file repo_root of
               Inl _ \<Rightarrow> []
             | Inr rel \<Rightarrow> [(rel_str rel @ ''::'' @ test_name, test_name, test_file)])
           (tests_of_tree tree marker_names)))"

text \<open>
  The method \<open>_extract_marked_tests_from_file\<close> repeats these loops with a list it appends to
  and returns early for a marked module.
\<close>

fun append_methods :: "string \<Rightarrow> (ast list \<Rightarrow> bool) \<Rightarrow> ast list \<Rightarrow> string list \<Rightarrow> string list" where
  "append_methods cname keep [] tests = tests"
| "append_methods cname keep (item # items) tests =
     append_methods cname keep items
       (case function_of item of
          Some (fname, decs) \<Rightarrow>
            if startswith fname ''test_'' \<and> keep decs then tests @ [cname @ ''::'' @ fname] else tests
        | None \<Rightarrow> tests)"

fun append_all_tests :: "ast list \<Rightarrow> string list \<Rightarrow> string list" where
  "append_all_tests [] tests = tests"
| "append_all_tests (node # nodes) tests =
     append_all_tests nodes
       (case function_of node of
          Some (fname, _) \<Rightarrow> if startswith fname ''test_'' then tests @ [fname] else tests
        | None \<Rightarrow>
            (case class_of node of
               Some (cname, items, _) \<Rightarrow> append_methods cname (\<lambda>_. True) items tests
             | None \<Rightarrow> tests))"

definition marking_decorator :: "string set \<Rightarrow> ast list \<Rightarrow> bool" where
  "marking_decorator marker_names decs =
     (find (\<lambda>d. is_marker d marker_names \<or> check_parametrize_marks d marker_names) decs \<noteq> None)"

fun append_marked_tests :: "string set \<Rightarrow> ast list \<Rightarrow> string list \<Rightarrow> string list" where
  "append_marked_tests marker_names [] tests = tests"
| "append_marked_tests marker_names (node # nodes) tests =
     append_marked_tests marker_names nodes
       (case function_of node of
          Some (fname, decs) \<Rightarrow>
            if startswith fname ''test_'' \<and> marking_decorator marker_names decs then tests @ [fname] else tests
        | None \<Rightarrow>
            (case class_of node of
               Some (cname, items, cdecs) \<Rightarrow>
                 if find (\<lambda>d. is_marker d marker_names) cdecs \<noteq> None
                 then append_methods cname (\<lambda>_. True) items tests
                 else append_methods cname (marking_decorator marker_names) items tests
             | None \<Rightarrow> tests))"

definition extract_marked_tests_from_file ::
    "file_env \<Rightarrow> path \<Rightarrow> string set \<Rightarrow> string list" where
  "extract_marked_tests_from_file env file_path marker_names =
     (case read_text env file_path of
        None \<Rightarrow> []
      | Some source \<Rightarrow>
          (case ast_parse env source of
             None \<Rightarrow> []
           | Some tree \<Rightarrow>
               (case find (\<lambda>n. check_pytestmark_assignment n marker_names) (module_body tree) of
                  Some _ \<Rightarrow> append_all_tests (module_body tree) []
                | None \<Rightarrow> append_marked_tests marker_names (module_body tree) [])))"

section \<open>Which tests are marked\<close>

text \<open>
  The priority the docstring of \<open>_extract_marked_tests_from_file\<close> gives: a module marker
  covers every test, a class marker every test method of the class, a decorator its own test.
\<close>

inductive carries_marker :: "string set \<Rightarrow> ast \<Rightarrow> string \<Rightarrow> bool" for M :: "string set" and tree :: ast where
  by_module_function:
    "a \<in> set (module_body tree) \<Longrightarrow> check_pytestmark_assignment a M \<Longrightarrow>
     n \<in> set (module_body tree) \<Longrightarrow> function_of n = Some (f, decs) \<Longrightarrow>
     startswith f ''test_'' \<Longrightarrow> carries_marker M tree f"
| by_module_method:
    "a \<in> set (module_body tree) \<Longrightarrow> check_pytestmark_assignment a M \<Longrightarrow>
     n \<in> set (module_body tree) \<Longrightarrow> class_of n = Some (c, body, cdecs) \<Longrightarrow>
     i \<in> set body \<Longrightarrow> function_of i = Some (f, decs) \<Longrightarrow>
     startswith f ''test_'' \<Longrightarrow> carries_marker M tree (method_id c f)"
| by_class:
    "n \<in> set (module_body tree) \<Longrightarrow> class_of n = Some (c, body, cdecs) \<Longrightarrow>
     d \<in> set cdecs \<Longrightarrow> is_marker d M \<Longrightarrow>
     i \<in> set body \<Longrightarrow> function_of i = Some (f, decs) \<Longrightarrow>
     startswith f ''test_'' \<Longrightarrow> carries_marker M tree (method_id c f)"
| by_function:
    "n \<in> set (module_body tree) \<Longrightarrow> function_of n = Some (f, decs) \<Longrightarrow>
     d \<in> set decs \<Longrightarrow> is_marker d M \<or> check_parametrize_marks d M \<Longrightarrow>
     startswith f ''test_'' \<Longrightarrow> carries_marker M tree f"
| by_method:
    "n \<in> set (module_body tree) \<Longrightarrow> class_of n = Some (c, body, cdecs) \<Longrightarrow>
     i \<in> set body \<Longrightarrow> function_of i = Some (f, decs) \<Longrightarrow>
     d \<in> set decs \<Longrightarrow> is_marker d M \<or> check_parametrize_marks d M \<Longrightarrow>
     startswith f ''test_'' \<Longrightarrow> carries_marker M tree (method_id c f)"

section \<open>Properties of marker detection\<close>

lemma decorators_mark_iff:
  "decorators_mark ds M \<longleftrightarrow> (\<exists>d \<in> set ds. is_marker d M \<or> check_parametrize_marks d M)"
  by (induction ds M rule: decorators_mark.induct) auto

lemma function_not_class: "function_of n = Some x \<Longrightarrow> class_of n = None"
  by (cases n) auto

lemma class_not_function: "class_of n = Some x \<Longrightarrow> function_of n = None"
  by (cases n) auto

lemma function_test_Some:
  "function_test keep i = Some f \<longleftrightarrow>
     (\<exists>decs. function_of i = Some (f, decs) \<and> startswith f ''test_'' \<and> keep decs)"
  by (cases "function_of i") (auto simp: function_test_def split: if_splits)

lemma function_test_None: "function_of i = None \<Longrightarrow> function_test keep i = None"
  by (simp add: function_test_def)

lemma body_item_cases:
  obtains f decs where "function_of n = Some (f, decs)" "class_of n = None"
  | c cbody cdecs where "function_of n = None" "class_of n = Some (c, cbody, cdecs)"
  | "function_of n = None" "class_of n = None"
  by (cases n) auto

lemma in_class_tests:
  "t \<in> set (class_tests c keep body) \<longleftrightarrow>
     (\<exists>i \<in> set body. \<exists>f. function_test keep i = Some f \<and> t = method_id c f)"
  by (force simp: class_tests_def List.map_filter_def)

lemma in_module_marked_tests:
  "t \<in> set (module_marked_tests body) \<longleftrightarrow>
     (\<exists>n \<in> set body. function_test (\<lambda>_. True) n = Some t) \<or>
     (\<exists>n \<in> set body. \<exists>c cbody cdecs. class_of n = Some (c, cbody, cdecs) \<and>
        t \<in> set (class_tests c (\<lambda>_. True) cbody))"
proof -
  have "t \<in> set (case function_of n of
          Some _ \<Rightarrow> opt_list (function_test (\<lambda>_. True) n)
        | None \<Rightarrow> (case class_of n of Some (c, cbody, _) \<Rightarrow> class_tests c (\<lambda>_. True) cbody | None \<Rightarrow> []))
      \<longleftrightarrow> function_test (\<lambda>_. True) n = Some t \<or>
        (\<exists>c cbody cdecs. class_of n = Some (c, cbody, cdecs) \<and> t \<in> set (class_tests c (\<lambda>_. True) cbody))"
    for n
    by (rule body_item_cases[of n]) (auto simp: function_test_None)
  then show ?thesis
    unfolding module_marked_tests_def set_concat set_map UN_iff image_image bex_simps by blast
qed

lemma in_item_marked_tests:
  "t \<in> set (item_marked_tests M body) \<longleftrightarrow>
     (\<exists>n \<in> set body. function_test (\<lambda>ds. decorators_mark ds M) n = Some t) \<or>
     (\<exists>n \<in> set body. \<exists>c cbody cdecs. class_of n = Some (c, cbody, cdecs) \<and>
        t \<in> set (class_tests c
              (\<lambda>ds. list_ex (\<lambda>d. is_marker d M) cdecs \<or> decorators_mark ds M) cbody))"
proof -
  have "t \<in> set (case function_of n of
          Some _ \<Rightarrow> opt_list (function_test (\<lambda>ds. decorators_mark ds M) n)
        | None \<Rightarrow> (case class_of n of
             Some (c, cbody, decs) \<Rightarrow>
               (if list_ex (\<lambda>d. is_marker d M) decs then class_tests c (\<lambda>_. True) cbody
                else class_tests c (\<lambda>ds. decorators_mark ds M) cbody)
           | None \<Rightarrow> []))
      \<longleftrightarrow> function_test (\<lambda>ds. decorators_mark ds M) n = Some t \<or>
        (\<exists>c cbody cdecs. class_of n = Some (c, cbody, cdecs) \<and>
          t \<in> set (class_tests c (\<lambda>ds. list_ex (\<lambda>d. is_marker d M) cdecs \<or> decorators_mark ds M) cbody))"
    for n
    by (rule body_item_cases[of n]) (auto simp: function_test_None)
  then show ?thesis
    unfolding item_marked_tests_def set_concat set_map UN_iff image_image bex_simps by blast
qed

lemmas in_marked_tests = in_module_marked_tests in_item_marked_tests in_class_tests
  function_test_Some decorators_mark_iff list_ex_iff

lemma tests_of_tree_iff: "t \<in> set (tests_of_tree tree M) \<longleftrightarrow> carries_marker M tree t"
proof (cases "list_ex (\<lambda>n. check_pytestmark_assignment n M) (module_body tree)")
  case True
  then obtain a where a: "a \<in> set (module_body tree)" "check_pytestmark_assignment a M"
    by (auto simp: list_ex_iff)
  from True have eq: "tests_of_tree tree M = module_marked_tests (module_body tree)"
    by (simp add: tests_of_tree_def)
  show ?thesis unfolding eq
  proof
    assume "t \<in> set (module_marked_tests (module_body tree))"
    then show "carries_marker M tree t"
      unfolding in_marked_tests
      by (blast intro: by_module_function[OF a] by_module_method[OF a])
  next
    assume "carries_marker M tree t"
    then show "t \<in> set (module_marked_tests (module_body tree))"
    proof cases
      case (by_module_function a n decs)
      then show ?thesis unfolding in_marked_tests by blast
    next
      case (by_module_method a n c body cdecs i f decs)
      then show ?thesis unfolding in_marked_tests by blast
    next
      case (by_class n c body cdecs d i f decs)
      then show ?thesis unfolding in_marked_tests by blast
    next
      case (by_function n decs d)
      then show ?thesis unfolding in_marked_tests by blast
    next
      case (by_method n c body cdecs i f decs d)
      then show ?thesis unfolding in_marked_tests by blast
    qed
  qed
next
  case False
  then have no: "\<And>a. a \<in> set (module_body tree) \<Longrightarrow> \<not> check_pytestmark_assignment a M"
    by (auto simp: list_ex_iff)
  from False have eq: "tests_of_tree tree M = item_marked_tests M (module_body tree)"
    by (simp add: tests_of_tree_def)
  show ?thesis unfolding eq
  proof
    assume "t \<in> set (item_marked_tests M (module_body tree))"
    then show "carries_marker M tree t"
      unfolding in_marked_tests by (blast intro: by_class by_function by_method)
  next
    assume "carries_marker M tree t"
    then show "t \<in> set (item_marked_tests M (module_body tree))"
    proof cases
      case (by_module_function a n decs)
      then show ?thesis using no by blast
    next
      case (by_module_method a n c body cdecs i f decs)
      then show ?thesis using no by blast
    next
      case (by_class n c body cdecs d i f decs)
      then show ?thesis unfolding in_marked_tests by blast
    next
      case (by_function n decs d)
      then show ?thesis unfolding in_marked_tests by blast
    next
      case (by_method n c body cdecs i f decs d)
      then show ?thesis unfolding in_marked_tests by blast
    qed
  qed
qed

lemma list_ex_find: "list_ex P xs \<longleftrightarrow> find P xs \<noteq> None"
  by (induction xs) auto

lemma append_methods_eq: "append_methods c keep items tests = tests @ class_tests c keep items"
proof (induction items arbitrary: tests)
  case (Cons i items)
  then show ?case
    by (cases "function_of i")
       (auto simp: class_tests_def map_filter_simps function_test_def method_id_def)
qed (simp add: class_tests_def map_filter_simps)

lemma append_all_tests_eq: "append_all_tests nodes tests = tests @ module_marked_tests nodes"
proof (induction nodes arbitrary: tests)
  case (Cons n nodes)
  then show ?case
    by (cases "function_of n"; cases "class_of n")
       (auto simp: module_marked_tests_def append_methods_eq function_test_def opt_list_def)
qed (simp add: module_marked_tests_def)

lemma marking_decorator_eq: "marking_decorator M = (\<lambda>decs. decorators_mark decs M)"
  by (rule ext) (auto simp: marking_decorator_def decorators_mark_iff find_None_iff)

lemma append_marked_tests_eq: "append_marked_tests M nodes tests = tests @ item_marked_tests M nodes"
proof (induction nodes arbitrary: tests)
  case (Cons n nodes)
  then show ?case
    by (cases "function_of n"; cases "class_of n")
       (auto simp: item_marked_tests_def append_methods_eq function_test_def opt_list_def
         marking_decorator_eq list_ex_find)
qed (simp add: item_marked_tests_def)

lemma extract_eq_tests_of_tree:
  "extract_marked_tests_from_file env file M =
     (case parse_file env file of None \<Rightarrow> [] | Some tree \<Rightarrow> tests_of_tree tree M)"
  by (auto simp: extract_marked_tests_from_file_def parse_file_def tests_of_tree_def list_ex_find
      append_all_tests_eq append_marked_tests_eq split: option.splits)

section \<open>Accepted repository names\<close>

definition repo_part :: "string \<Rightarrow> bool" where
  "repo_part p = (p \<noteq> [] \<and> (is_ascii_alpha (hd p) \<or> is_digit (hd p)) \<and> list_all repo_char p)"

abbreviation slash :: char where "slash \<equiv> CHR ''/''"

lemma alnum_repo_char: "is_ascii_alpha c \<or> is_digit c \<Longrightarrow> repo_char c"
  by (auto simp: repo_char_def)

lemma slash_not_repo_char: "\<not> repo_char slash"
  by (simp add: repo_char_def is_ascii_alpha_def is_digit_def)

lemma repo_char_not_dangerous: "repo_char c \<Longrightarrow> c \<notin> set dangerous_chars"
  by (auto simp: repo_char_def dangerous_chars_def is_ascii_alpha_def is_digit_def)

definition repo_tail_re :: regex where
  "repo_tail_re = RSeqs [RChar (\<lambda>c. c = slash), RChar (\<lambda>c. is_ascii_alpha c \<or> is_digit c),
     RStar (RChar repo_char), REnd]"

lemma rmatch_repo_name:
  "rmatch repo_name_re ([], s, []) =
     (case s of
        [] \<Rightarrow> []
      | c # cs \<Rightarrow>
          if is_ascii_alpha c \<or> is_digit c
          then rmatch repo_tail_re (rev (takeWhile repo_char cs) @ [c], dropWhile repo_char cs, [])
          else [])"
proof (cases s)
  case (Cons c cs)
  have "repo_char x \<Longrightarrow> rmatch repo_tail_re (pre, x # xs, g) = []" for x pre xs g
    using slash_not_repo_char by (auto simp: repo_tail_re_def)
  from run_states_then[of repo_char repo_tail_re "[c]" cs "[]", OF this]
  show ?thesis by (auto simp: Cons repo_name_re_def repo_tail_re_def rmatch_star_char)
qed (simp add: repo_name_re_def)

lemma repo_name_match_iff:
  "re_match repo_name_re s \<noteq> None \<longleftrightarrow>
     (\<exists>a b e. s = a @ slash # b @ e \<and> repo_part a \<and> repo_part b \<and> at_end e)"
proof
  assume "re_match repo_name_re s \<noteq> None"
  then have m: "rmatch repo_name_re ([], s, []) \<noteq> []" by (auto simp: re_match_def)
  then obtain c cs where s: "s = c # cs" "is_ascii_alpha c \<or> is_digit c"
    unfolding rmatch_repo_name by (auto split: list.splits if_splits)
  define pre where "pre = rev (takeWhile repo_char cs) @ [c]"
  have t: "rmatch repo_tail_re (pre, dropWhile repo_char cs, []) \<noteq> []"
    using m s by (simp add: rmatch_repo_name pre_def)
  then obtain d rest where d: "dropWhile repo_char cs = slash # d # rest" "is_ascii_alpha d \<or> is_digit d"
    and r: "concat (map (rmatch (RSeq REnd REmpty)) (run_states repo_char (d # slash # pre, rest, []))) \<noteq> []"
    by (auto simp: repo_tail_re_def rmatch_star_char split: list.splits if_splits simp del: concat_eq_Nil_conv)
  then have "\<exists>st \<in> set (run_states repo_char (d # slash # pre, rest, [])). rmatch (RSeq REnd REmpty) st \<noteq> []"
    unfolding concat_eq_Nil_conv set_map by blast
  then obtain p' e g where e: "(p', e, g) \<in> set (run_states repo_char (d # slash # pre, rest, []))"
    "rmatch (RSeq REnd REmpty) (p', e, g) \<noteq> []" by (metis prod_cases3)
  obtain v where v: "rest = v @ e" "list_all repo_char v" using run_states_text[OF e(1)] by blast
  have "s = (c # takeWhile repo_char cs) @ slash # (d # v) @ e"
    using s(1) d(1) v(1) takeWhile_dropWhile_id[of repo_char cs] by simp
  moreover have "repo_part (c # takeWhile repo_char cs)" "repo_part (d # v)" "at_end e"
    using s(2) d(2) v(2) e(2) set_takeWhileD[of _ repo_char cs]
    by (auto simp: repo_part_def alnum_repo_char list_all_iff split: if_splits)
  ultimately show "\<exists>a b e. s = a @ slash # b @ e \<and> repo_part a \<and> repo_part b \<and> at_end e" by blast
next
  assume "\<exists>a b e. s = a @ slash # b @ e \<and> repo_part a \<and> repo_part b \<and> at_end e"
  then obtain a b e where s: "s = a @ slash # b @ e" "repo_part a" "repo_part b" "at_end e" by blast
  obtain c cs d v where ab: "a = c # cs" "b = d # v"
    using s(2,3) by (cases a; cases b) (auto simp: repo_part_def)
  have tw: "takeWhile repo_char (cs @ slash # b @ e) = cs" "dropWhile repo_char (cs @ slash # b @ e) = slash # b @ e"
    using s(2) slash_not_repo_char by (auto simp: ab repo_part_def list_all_iff takeWhile_all dropWhile_append)
  have "e = [] \<or> \<not> repo_char (hd e)"
    using s(4) by (auto simp: at_end_def repo_char_def is_ascii_alpha_def is_digit_def)
  then have "takeWhile repo_char (v @ e) = v" "dropWhile repo_char (v @ e) = e"
    using s(3) by (cases e; auto simp: ab repo_part_def list_all_iff takeWhile_all dropWhile_append)+
  with run_states_hd[of repo_char "d # slash # rev cs @ [c]" "v @ e" "[]"]
  have "rmatch repo_tail_re (rev cs @ [c], slash # b @ e, []) \<noteq> []"
    using s(3,4) by (auto simp: ab repo_part_def repo_tail_re_def rmatch_star_char)
  then have "rmatch repo_name_re ([], s, []) \<noteq> []"
    using s(1,2) tw by (auto simp: rmatch_repo_name ab repo_part_def)
  then show "re_match repo_name_re s \<noteq> None" by (auto simp: re_match_def split: list.splits)
qed

text \<open>Exactly the names \<open>owner/repo\<close> with two well-formed parts pass.\<close>

lemma validate_repo_name_iff:
  "validate_repo_name s = Inr () \<longleftrightarrow> (\<exists>a b. s = a @ slash # b \<and> repo_part a \<and> repo_part b)"
proof
  assume v: "validate_repo_name s = Inr ()"
  then have "re_match repo_name_re s \<noteq> None" and safe: "\<And>c. c \<in> set dangerous_chars \<Longrightarrow> c \<notin> set s"
    by (auto simp: validate_repo_name_def list_ex_iff split: if_splits)
  then obtain a b e where s: "s = a @ slash # b @ e" "repo_part a" "repo_part b" "at_end e"
    unfolding repo_name_match_iff by blast
  have "CHR 0x0A \<notin> set s" by (rule safe) (simp add: dangerous_chars_def)
  then have "e = []" using s(1,4) by (auto simp: at_end_def)
  with s show "\<exists>a b. s = a @ slash # b \<and> repo_part a \<and> repo_part b" by auto
next
  assume "\<exists>a b. s = a @ slash # b \<and> repo_part a \<and> repo_part b"
  then obtain a b where s: "s = a @ slash # b" "repo_part a" "repo_part b" by blast
  have ns: "slash \<notin> set a" "slash \<notin> set b"
    using s(2,3) slash_not_repo_char by (auto simp: repo_part_def list_all_iff)
  then have "count_list s slash = 1" using s(1) by (simp add: count_list_0_iff)
  moreover have "re_match repo_name_re s \<noteq> None"
    unfolding repo_name_match_iff using s by (intro exI[of _ a] exI[of _ b] exI[of _ "[]"]) (simp add: at_end_def)
  moreover have "c \<notin> set s" if "c \<in> set dangerous_chars" for c
  proof -
    have "c \<noteq> slash" using that by (auto simp: dangerous_chars_def)
    then show ?thesis
      using s that repo_char_not_dangerous by (auto simp: repo_part_def list_all_iff)
  qed
  ultimately show "validate_repo_name s = Inr ()"
    using s(1) by (auto simp: validate_repo_name_def list_ex_iff)
qed

end
