(* ===== verification/Visitors.thy ===== *)
theory Visitors
  imports MarkerDetect
begin

text \<open>
  The syntax-tree visitors of \<open>pytest_marker_analyzer.py\<close>: imports, fixture use, calls,
  attribute accesses and fixture definitions. A visitor whose methods always continue with
  \<open>generic_visit\<close> and only add to sets is the union \<^const>\<open>collect\<close> over the subtree; the two
  visitors that keep dictionaries or cut off a subtree are recursive functions on their state.
\<close>

section \<open>Imports\<close>

record import_visitor =
  imported :: "string set"
  symbol_imports :: "(string \<times> string set) list"
  opaque_imports :: "string set"

definition new_import_visitor :: import_visitor where
  "new_import_visitor = \<lparr>imported = {}, symbol_imports = [], opaque_imports = {}\<rparr>"

definition visit_Import :: "(string \<times> string option) list \<Rightarrow> import_visitor \<Rightarrow> import_visitor" where
  "visit_Import names v =
     v\<lparr>imported := imported v \<union> set (map fst names),
       opaque_imports := opaque_imports v \<union> set (map fst names)\<rparr>"

definition submodule :: "string \<Rightarrow> string \<Rightarrow> string" where
  "submodule m a = m @ ''.'' @ a"

definition visit_ImportFrom ::
    "string option \<Rightarrow> (string \<times> string option) list \<Rightarrow> nat \<Rightarrow> import_visitor \<Rightarrow> import_visitor" where
  "visit_ImportFrom module names level v =
     (case module of
        None \<Rightarrow> v
      | Some m \<Rightarrow>
          if m = [] \<or> level > 0 then v
          else if list_ex (\<lambda>a. fst a = ''*'') names
          then v\<lparr>imported := insert m (imported v), opaque_imports := insert m (opaque_imports v)\<rparr>
          else
            (let old = (case map_of (symbol_imports v) m of None \<Rightarrow> {} | Some s \<Rightarrow> s)
             in v\<lparr>imported := insert m (imported v) \<union> submodule m ` fst ` set names,
                  symbol_imports :=
                    AList.update m (old \<union> fst ` set names) (symbol_imports v)\<rparr>))"

fun is_type_checking_guard :: "ast \<Rightarrow> bool" where
  "is_type_checking_guard (Name _ i) = (i = ''TYPE_CHECKING'')"
| "is_type_checking_guard (Attribute _ (Name _ i) a) = (i = ''typing'' \<and> a = ''TYPE_CHECKING'')"
| "is_type_checking_guard _ = False"

text \<open>Which children a visit continues with: none below an import, only \<open>orelse\<close> below a guard.\<close>

fun import_children :: "ast \<Rightarrow> ast list" where
  "import_children (Import _ _) = []"
| "import_children (ImportFrom _ _ _ _) = []"
| "import_children (If p test body orelse) =
     (if is_type_checking_guard test then orelse else iter_child_nodes (If p test body orelse))"
| "import_children n = iter_child_nodes n"

lemma import_children_sub: "c \<in> set (import_children n) \<Longrightarrow> c \<in> set (iter_child_nodes n)"
  by (cases n rule: import_children.cases) (auto split: if_splits)

lemma import_child_smaller: "c \<in> set (import_children n) \<Longrightarrow> size c < size n"
  by (blast intro: child_smaller import_children_sub)

fun visit_leaf :: "ast \<Rightarrow> import_visitor \<Rightarrow> import_visitor" where
  "visit_leaf (Import _ names) v = visit_Import names v"
| "visit_leaf (ImportFrom _ m names level) v = visit_ImportFrom m names level v"
| "visit_leaf _ v = v"

function import_visit :: "ast \<Rightarrow> import_visitor \<Rightarrow> import_visitor" where
  "import_visit n v = fold import_visit (import_children n) (visit_leaf n v)"
  by pat_completeness auto
termination
  by (relation "measure (\<lambda>(n, v). size n)") (auto intro: import_child_smaller)

declare import_visit.simps [simp del]

text \<open>The nodes that run: everything but the body of a \<open>TYPE_CHECKING\<close> guard.\<close>

inductive runs :: "ast \<Rightarrow> ast \<Rightarrow> bool" where
  here: "runs n n"
| below: "c \<in> set (import_children n) \<Longrightarrow> runs c m \<Longrightarrow> runs n m"

lemma runs_unfold: "runs n m \<longleftrightarrow> m = n \<or> (\<exists>c \<in> set (import_children n). runs c m)"
  by (subst runs.simps) auto

function leaves :: "ast \<Rightarrow> ast list" where
  "leaves n = n # concat (map leaves (import_children n))"
  by pat_completeness auto
termination
  by (relation "measure size") (auto intro: import_child_smaller)

declare leaves.simps [simp del]

lemma set_leaves: "set (leaves n) = {m. runs n m}"
proof (induction n rule: leaves.induct)
  case (1 n)
  then show ?case by (subst leaves.simps) (auto simp: runs_unfold[of n])
qed

lemma import_visit_leaves: "import_visit n v = fold visit_leaf (leaves n) v"
proof (induction n v rule: import_visit.induct)
  case (1 n v)
  have "fold import_visit (import_children n) w = fold (\<lambda>c. fold visit_leaf (leaves c)) (import_children n) w"
    for w by (rule fold_cong) (auto simp: 1)
  then show ?case
    by (subst import_visit.simps, subst leaves.simps) (simp add: fold_concat_map)
qed

text \<open>
  What one import statement contributes: the modules it imports opaquely, and the names it
  imports from a module.
\<close>

fun opaque_of :: "ast \<Rightarrow> string set" where
  "opaque_of (Import _ names) = fst ` set names"
| "opaque_of (ImportFrom _ (Some m) names level) =
     (if m \<noteq> [] \<and> level = 0 \<and> ''*'' \<in> fst ` set names then {m} else {})"
| "opaque_of _ = {}"

fun names_from :: "ast \<Rightarrow> (string \<times> string set) option" where
  "names_from (ImportFrom _ (Some m) names level) =
     (if m \<noteq> [] \<and> level = 0 \<and> ''*'' \<notin> fst ` set names then Some (m, fst ` set names) else None)"
| "names_from _ = None"

definition imported_names :: "ast list \<Rightarrow> string \<Rightarrow> string set" where
  "imported_names ns m = \<Union> {S. \<exists>n \<in> set ns. names_from n = Some (m, S)}"

definition imports_names :: "ast list \<Rightarrow> string \<Rightarrow> bool" where
  "imports_names ns m \<longleftrightarrow> (\<exists>n \<in> set ns. \<exists>S. names_from n = Some (m, S))"

definition get_names :: "(string \<times> string set) list \<Rightarrow> string \<Rightarrow> string set" where
  "get_names d m = (case map_of d m of None \<Rightarrow> {} | Some s \<Rightarrow> s)"

lemma star_alias: "list_ex (\<lambda>a. fst a = s) names \<longleftrightarrow> s \<in> fst ` set names"
  by (force simp: list_ex_iff)

lemma visit_leaf_opaque: "opaque_imports (visit_leaf n v) = opaque_imports v \<union> opaque_of n"
  by (cases n rule: opaque_of.cases)
     (auto simp: visit_Import_def visit_ImportFrom_def star_alias Let_def split: if_splits)

lemma visit_leaf_names:
  "map_of (symbol_imports (visit_leaf n v)) m =
     (case names_from n of
        Some (m', S) \<Rightarrow> if m = m' then Some (get_names (symbol_imports v) m \<union> S)
                        else map_of (symbol_imports v) m
      | None \<Rightarrow> map_of (symbol_imports v) m)"
  by (cases n rule: names_from.cases)
     (auto simp: visit_Import_def visit_ImportFrom_def star_alias Let_def get_names_def
       dict_update_lookup split: if_splits option.splits)

lemma fold_leaf_opaque:
  "opaque_imports (fold visit_leaf ns v) = opaque_imports v \<union> (\<Union>n \<in> set ns. opaque_of n)"
  by (induction ns arbitrary: v) (auto simp: visit_leaf_opaque)

lemma fold_leaf_names:
  "map_of (symbol_imports (fold visit_leaf ns v)) m =
     (if imports_names ns m then Some (get_names (symbol_imports v) m \<union> imported_names ns m)
      else map_of (symbol_imports v) m)"
proof (induction ns arbitrary: v)
  case Nil
  then show ?case by (simp add: imports_names_def)
next
  case (Cons n ns)
  have 1: "imports_names (n # ns) m \<longleftrightarrow> (\<exists>S. names_from n = Some (m, S)) \<or> imports_names ns m"
    by (auto simp: imports_names_def)
  have 2: "imported_names (n # ns) m = \<Union> {S. names_from n = Some (m, S)} \<union> imported_names ns m"
    by (auto simp: imported_names_def)
  have 3: "\<not> imports_names ns m \<Longrightarrow> imported_names ns m = {}"
    by (auto simp: imported_names_def imports_names_def)
  show ?case
    by (auto simp: Cons visit_leaf_names 1 2 3 get_names_def split: option.splits)
qed

lemma import_visit_opaque:
  "opaque_imports (import_visit tree new_import_visitor) = (\<Union>n \<in> {n. runs tree n}. opaque_of n)"
  by (simp add: import_visit_leaves fold_leaf_opaque set_leaves new_import_visitor_def)

lemma import_visit_names:
  "map_of (symbol_imports (import_visit tree new_import_visitor)) m =
     (if imports_names (leaves tree) m then Some (imported_names (leaves tree) m) else None)"
  by (simp add: import_visit_leaves fold_leaf_names new_import_visitor_def get_names_def)

text \<open>The dictionary a visit builds has distinct keys, as a Python dictionary does.\<close>

lemma visit_leaf_distinct:
  "distinct (map fst (symbol_imports v)) \<Longrightarrow> distinct (map fst (symbol_imports (visit_leaf n v)))"
  by (cases n rule: names_from.cases)
     (auto simp: visit_Import_def visit_ImportFrom_def Let_def distinct_update split: option.splits)

lemma import_visit_distinct:
  "distinct (map fst (symbol_imports (import_visit tree new_import_visitor)))"
proof -
  have "distinct (map fst (symbol_imports v)) \<Longrightarrow>
      distinct (map fst (symbol_imports (fold visit_leaf ns v)))" for ns v
    by (induction ns arbitrary: v) (auto simp: visit_leaf_distinct)
  then show ?thesis by (simp add: import_visit_leaves new_import_visitor_def)
qed

section \<open>Fixture use, calls and attribute accesses\<close>

fun fixtures_used_at :: "string set \<Rightarrow> ast \<Rightarrow> string set" where
  "fixtures_used_at marker_names (FunctionDef _ name args _ decs _) =
     (\<Union>d \<in> set decs. extract_usefixtures_from_decorator d) \<union>
     (if list_ex (\<lambda>d. is_marker d marker_names) decs \<or> startswith name ''test_''
      then {a \<in> set (args_args args). a \<noteq> ''self''} else {})"
| "fixtures_used_at marker_names (ClassDef _ _ _ _ decs _) =
     (\<Union>d \<in> set decs. extract_usefixtures_from_decorator d)"
| "fixtures_used_at marker_names _ = {}"

definition fixture_visit :: "string set \<Rightarrow> ast \<Rightarrow> string set" where
  "fixture_visit marker_names tree = collect (fixtures_used_at marker_names) tree"

fun call_at :: "ast \<Rightarrow> string set" where
  "call_at (Call _ (Name _ i) _ _) = {i}"
| "call_at (Call _ (Attribute _ _ a) _ _) = {a}"
| "call_at _ = {}"

definition function_call_visit :: "ast \<Rightarrow> string set" where
  "function_call_visit n = collect call_at n"

fun attr_at :: "ast \<Rightarrow> string set" where
  "attr_at (Attribute _ _ a) = {a}"
| "attr_at _ = {}"

fun dynamic_at :: "ast \<Rightarrow> unit set" where
  "dynamic_at (Call _ (Name _ i) _ _) =
     (if i \<in> {''getattr'', ''setattr'', ''delattr''} then {()} else {})"
| "dynamic_at _ = {}"

definition accessed_attrs :: "ast \<Rightarrow> string set" where
  "accessed_attrs n = collect attr_at n"

definition has_dynamic_access :: "ast \<Rightarrow> bool" where
  "has_dynamic_access n = (collect dynamic_at n \<noteq> {})"

section \<open>Fixture definitions\<close>

record fixture =
  fx_name :: string
  fx_file_path :: path
  fixture_deps :: "string list"
  function_calls :: "string set"

fun is_fixture_decorator_standalone :: "ast \<Rightarrow> bool" where
  "is_fixture_decorator_standalone (Name _ i) = (i = ''fixture'')"
| "is_fixture_decorator_standalone (Attribute _ (Name _ i) a) = (i = ''pytest'' \<and> a = ''fixture'')"
| "is_fixture_decorator_standalone (Call _ f _ _) = is_fixture_decorator_standalone f"
| "is_fixture_decorator_standalone _ = False"

fun define_fixture :: "path \<Rightarrow> ast \<Rightarrow> (string \<times> fixture) list \<Rightarrow> (string \<times> fixture) list" where
  "define_fixture file_path (FunctionDef _ name args body decs _) fixtures =
     (if list_ex is_fixture_decorator_standalone decs
      then AList.update name
             \<lparr>fx_name = name, fx_file_path = file_path,
              fixture_deps = remdups (filter (\<lambda>a. a \<notin> {''self'', ''request''}) (args_args args)),
              function_calls = (\<Union>stmt \<in> set body. function_call_visit stmt)\<rparr> fixtures
      else fixtures)"
| "define_fixture file_path _ fixtures = fixtures"

function fixture_definition_visit ::
    "path \<Rightarrow> ast \<Rightarrow> (string \<times> fixture) list \<Rightarrow> (string \<times> fixture) list" where
  "fixture_definition_visit file_path n fixtures =
     fold (fixture_definition_visit file_path) (iter_child_nodes n) (define_fixture file_path n fixtures)"
  by pat_completeness auto
termination
  by (relation "measure (\<lambda>(p, n, d). size n)") (auto intro: child_smaller)

declare fixture_definition_visit.simps [simp del]

text \<open>
  The last visited definition of a name wins. Whatever is recorded under a name is a fixture
  function of the tree, with its parameters as dependencies.
\<close>

definition is_fixture_def :: "ast \<Rightarrow> string \<Rightarrow> fixture \<Rightarrow> bool" where
  "is_fixture_def n name fx \<longleftrightarrow> (\<exists>p. define_fixture p n [] = [(name, fx)])"

lemma define_fixture_eq:
  "define_fixture p n d = (case define_fixture p n [] of [] \<Rightarrow> d | (k, fx) # _ \<Rightarrow> AList.update k fx d)"
  by (cases n) auto

lemma define_fixture_dom:
  "fst ` set (define_fixture p n d) = fst ` set d \<union> fst ` set (define_fixture p n [])"
  by (cases n) (auto simp: dom_update)

lemma define_fixture_single:
  "define_fixture p n [] = [] \<or> (\<exists>k fx. define_fixture p n [] = [(k, fx)] \<and> fx_name fx = k \<and> fx_file_path fx = p)"
  by (cases n) auto

text \<open>Fixture definitions of a whole tree: the visit folds \<open>define_fixture\<close> over a preorder list.\<close>

function preorder :: "ast \<Rightarrow> ast list" where
  "preorder n = n # concat (map preorder (iter_child_nodes n))"
  by pat_completeness auto
termination
  by (relation "measure size") (auto intro: child_smaller)

declare preorder.simps [simp del]

lemma set_preorder: "set (preorder n) = {m. descends n m}"
proof (induction n rule: preorder.induct)
  case (1 n)
  then show ?case by (subst preorder.simps) (auto simp: descends_unfold[of n])
qed

lemma fixture_definition_visit_fold:
  "fixture_definition_visit p n d = fold (define_fixture p) (preorder n) d"
proof (induction p n d rule: fixture_definition_visit.induct)
  case (1 p n d)
  have "fold (fixture_definition_visit p) (iter_child_nodes n) w =
        fold (\<lambda>c. fold (define_fixture p) (preorder c)) (iter_child_nodes n) w" for w
    by (rule fold_cong) (auto simp: 1)
  then show ?case
    by (subst fixture_definition_visit.simps, subst preorder.simps) (simp add: fold_concat_map)
qed

lemma fold_define_dom:
  "fst ` set (fold (define_fixture p) ns d) =
     fst ` set d \<union> (\<Union>n \<in> set ns. fst ` set (define_fixture p n []))"
proof (induction ns arbitrary: d)
  case (Cons n ns)
  show ?case
    unfolding fold_Cons comp_apply Cons.IH define_fixture_dom[of p n d] by auto
qed simp

lemma define_fixture_keyed:
  assumes "\<And>k fx. map_of d k = Some fx \<Longrightarrow> fx_name fx = k \<and> fx_file_path fx = p"
    and "map_of (define_fixture p n d) k = Some fx"
  shows "fx_name fx = k \<and> fx_file_path fx = p"
  using assms define_fixture_eq[of p n d] define_fixture_single[of p n]
  by (auto simp: dict_update_lookup split: if_splits)

lemma fixture_definition_keyed:
  assumes "map_of (fixture_definition_visit p n []) k = Some fx"
  shows "fx_name fx = k \<and> fx_file_path fx = p"
proof -
  have "(\<And>k fx. map_of d k = Some fx \<Longrightarrow> fx_name fx = k \<and> fx_file_path fx = p) \<Longrightarrow>
      map_of (fold (define_fixture p) ns d) k = Some fx \<Longrightarrow> fx_name fx = k \<and> fx_file_path fx = p"
    for ns d
  proof (induction ns arbitrary: d)
    case (Cons a ns)
    have "map_of (fold (define_fixture p) ns (define_fixture p a d)) k = Some fx"
      using Cons.prems(2) by simp
    then show ?case
      using Cons.IH[of "define_fixture p a d"] define_fixture_keyed[OF Cons.prems(1)] by blast
  qed auto
  from this[of "[]" "preorder n"] assms show ?thesis by (simp add: fixture_definition_visit_fold)
qed

text \<open>
  A name is in the dictionary of a file exactly when some synchronous function of the file,
  at any depth, has that name and a fixture decorator.
\<close>

lemma define_fixture_name:
  "k \<in> fst ` set (define_fixture p n []) \<longleftrightarrow>
     (\<exists>pos args body decs rest. n = FunctionDef pos k args body decs rest \<and>
        list_ex is_fixture_decorator_standalone decs)"
  by (cases n) auto

lemma fixture_definition_names:
  "k \<in> fst ` set (fixture_definition_visit p tree []) \<longleftrightarrow>
     (\<exists>pos args body decs rest. descends tree (FunctionDef pos k args body decs rest) \<and>
        list_ex is_fixture_decorator_standalone decs)"
  unfolding fixture_definition_visit_fold fold_define_dom UN_iff Un_iff define_fixture_name set_preorder
  by force

end
