(* ===== verification/ImportResolve.thy ===== *)
theory ImportResolve
  imports Visitors
begin

text \<open>
  From import statements to files: module resolution, the symbol-level and opaque imports of
  a file, and the transitive dependencies of one test. Files and the parser come from a
  \<^typ>\<open>file_env\<close>. The iteration order of a Python set is the argument \<open>iter\<close>.
\<close>

section \<open>Module resolution\<close>

definition path_of_module :: "path \<Rightarrow> string \<Rightarrow> path" where
  "path_of_module base module = path_div base (replace_char (CHR ''.'') ''/'' module)"

text \<open>
  \<open>with_suffix\<close> raises for a path without a name only; the paths here end in a part of a
  module name (\<open>module_path_named\<close> below).
\<close>

definition py_file :: "path \<Rightarrow> path" where
  "py_file p = (case with_suffix p ''.py'' of Inl _ \<Rightarrow> p | Inr q \<Rightarrow> q)"

definition resolve_under :: "file_env \<Rightarrow> path \<Rightarrow> path option" where
  "resolve_under env module_path =
     (if path_exists env (path_div module_path ''__init__.py'')
      then Some (path_div module_path ''__init__.py'')
      else if path_exists env (py_file module_path) then Some (py_file module_path)
      else None)"

definition resolve_module_to_path :: "file_env \<Rightarrow> string \<Rightarrow> path \<Rightarrow> path option" where
  "resolve_module_to_path env module repo_root =
     (case resolve_under env (path_of_module repo_root module) of
        Some p \<Rightarrow> Some p
      | None \<Rightarrow> resolve_under env (path_of_module (path_div repo_root ''tests'') module))"

definition resolve_imports_helper :: "file_env \<Rightarrow> string set \<Rightarrow> path \<Rightarrow> path set" where
  "resolve_imports_helper env mods repo_root =
     {p. \<exists>m \<in> mods. resolve_module_to_path env m repo_root = Some p}"

lemma resolve_imports_helper_code [code]:
  "resolve_imports_helper env mods repo_root =
     \<Union> ((\<lambda>m. set (opt_list (resolve_module_to_path env m repo_root))) ` mods)"
  by (auto simp: resolve_imports_helper_def)

section \<open>Symbol-level and opaque imports\<close>

definition add_symbols ::
    "path \<Rightarrow> string set \<Rightarrow> (path \<times> string set) list \<Rightarrow> (path \<times> string set) list" where
  "add_symbols p syms d =
     (case map_of d p of
        Some old \<Rightarrow> AList.update p (old \<union> syms) d
      | None \<Rightarrow> AList.update p syms d)"

fun resolve_symbols ::
    "file_env \<Rightarrow> path \<Rightarrow> string set \<Rightarrow> (string \<times> string set) list \<Rightarrow>
     (path \<times> string set) list \<Rightarrow> (path \<times> string set) list" where
  "resolve_symbols env repo_root opaque [] d = d"
| "resolve_symbols env repo_root opaque ((m, syms) # rest) d =
     resolve_symbols env repo_root opaque rest
       (if m \<in> opaque then d
        else case resolve_module_to_path env m repo_root of
               None \<Rightarrow> d
             | Some p \<Rightarrow> add_symbols p syms d)"

definition resolve_visitor_symbol_imports ::
    "file_env \<Rightarrow> import_visitor \<Rightarrow> path \<Rightarrow> (path \<times> string set) list \<times> path set" where
  "resolve_visitor_symbol_imports env v repo_root =
     (resolve_symbols env repo_root (opaque_imports v) (symbol_imports v) [],
      resolve_imports_helper env (opaque_imports v) repo_root)"

definition extract_symbol_imports_from_file ::
    "file_env \<Rightarrow> path \<Rightarrow> path \<Rightarrow> (path \<times> string set) list" where
  "extract_symbol_imports_from_file env file_path repo_root =
     (case parse_file env file_path of
        None \<Rightarrow> []
      | Some tree \<Rightarrow>
          fst (resolve_visitor_symbol_imports env (import_visit tree new_import_visitor) repo_root))"

definition process_conftest_with_imports ::
    "file_env \<Rightarrow> path \<Rightarrow> path \<Rightarrow> (string \<times> fixture) list \<times> (path \<times> string set) list \<times> path set" where
  "process_conftest_with_imports env conftest repo_root =
     (case parse_file env conftest of
        None \<Rightarrow> ([], [], {})
      | Some tree \<Rightarrow>
          (fixture_definition_visit conftest tree [],
           resolve_visitor_symbol_imports env (import_visit tree new_import_visitor) repo_root))"

definition extract_imports_from_file :: "file_env \<Rightarrow> path \<Rightarrow> string set" where
  "extract_imports_from_file env file_path =
     (case parse_file env file_path of
        None \<Rightarrow> {}
      | Some tree \<Rightarrow> imported (import_visit tree new_import_visitor))"

definition extract_fixtures_from_file :: "file_env \<Rightarrow> path \<Rightarrow> string set \<Rightarrow> string set" where
  "extract_fixtures_from_file env file_path marker_names =
     (case parse_file env file_path of
        None \<Rightarrow> {}
      | Some tree \<Rightarrow> fixture_visit marker_names tree)"

section \<open>What resolution yields\<close>

lemma module_path_named:
  assumes "parts_of s \<noteq> []" and "\<not> startswith s ''/''"
  shows "with_suffix (path_div root s) sfx = Inr (py_file (path_div root s)) \<or> sfx \<noteq> ''.py''"
proof -
  have "last (root @ parts_of s) \<in> set (parts_of s)" using assms(1) by simp
  then have "last (root @ parts_of s) \<noteq> []" by (auto simp: parts_of_def)
  then show ?thesis
    using assms by (auto simp: py_file_def with_suffix_def path_name_def path_div_def split: sum.splits)
qed

lemma resolved_exists:
  "resolve_module_to_path env m root = Some p \<Longrightarrow> path_exists env p"
  by (auto simp: resolve_module_to_path_def resolve_under_def split: option.splits if_splits)

lemma add_symbols_lookup:
  "map_of (add_symbols p syms d) q =
     (if q = p then Some ((case map_of d p of None \<Rightarrow> {} | Some old \<Rightarrow> old) \<union> syms) else map_of d q)"
  by (auto simp: add_symbols_def dict_update_lookup split: option.splits)

definition symbols_of :: "(path \<times> string set) list \<Rightarrow> path \<Rightarrow> string set" where
  "symbols_of d p = (case map_of d p of None \<Rightarrow> {} | Some s \<Rightarrow> s)"

lemma symbols_of_add: "symbols_of (add_symbols p syms d) q = symbols_of d q \<union> (if q = p then syms else {})"
  by (auto simp: symbols_of_def add_symbols_lookup split: option.splits)

lemma resolve_symbols_lookup:
  "s \<in> symbols_of (resolve_symbols env root opq ms d) p \<longleftrightarrow>
     s \<in> symbols_of d p \<or>
     (\<exists>m syms. (m, syms) \<in> set ms \<and> m \<notin> opq \<and> s \<in> syms \<and> resolve_module_to_path env m root = Some p)"
proof (induction ms arbitrary: d)
  case Nil
  then show ?case by simp
next
  case (Cons x ms)
  obtain m syms where x: "x = (m, syms)" by (cases x)
  show ?case
    by (cases "resolve_module_to_path env m root")
       (auto simp: x Cons.IH symbols_of_add)
qed

lemma resolve_symbols_dom:
  "p \<in> dom (map_of (resolve_symbols env root opq ms d)) \<longleftrightarrow>
     p \<in> dom (map_of d) \<or>
     (\<exists>m syms. (m, syms) \<in> set ms \<and> m \<notin> opq \<and> resolve_module_to_path env m root = Some p)"
proof (induction ms arbitrary: d)
  case Nil
  then show ?case by simp
next
  case (Cons x ms)
  obtain m syms where x: "x = (m, syms)" by (cases x)
  have "dom (map_of (add_symbols q syms d)) = insert q (dom (map_of d))" for q
    by (auto simp: add_symbols_lookup dom_def)
  then show ?case
    by (cases "resolve_module_to_path env m root") (auto simp: x Cons.IH)
qed

text \<open>
  The names a file imports from another file: exactly those of its runtime \<open>from\<close> imports
  whose module resolves there and is nowhere imported as a whole.
\<close>

definition opaque_module :: "ast \<Rightarrow> string \<Rightarrow> bool" where
  "opaque_module tree m \<longleftrightarrow> (\<exists>n. runs tree n \<and> m \<in> opaque_of n)"

lemma visitor_entries:
  "(\<exists>syms. (m, syms) \<in> set (symbol_imports (import_visit tree new_import_visitor)) \<and> P syms) \<longleftrightarrow>
     imports_names (leaves tree) m \<and> P (imported_names (leaves tree) m)"
proof -
  let ?d = "symbol_imports (import_visit tree new_import_visitor)"
  have "(m, syms) \<in> set ?d \<longleftrightarrow> map_of ?d m = Some syms" for syms
    using import_visit_distinct by (simp add: map_of_eq_Some_iff)
  then show ?thesis by (auto simp: import_visit_names)
qed

lemma symbol_imports_exact:
  assumes "parse_file env f = Some tree"
  shows "s \<in> symbols_of (extract_symbol_imports_from_file env f root) p \<longleftrightarrow>
     (\<exists>n m S. runs tree n \<and> names_from n = Some (m, S) \<and> s \<in> S \<and> \<not> opaque_module tree m \<and>
        resolve_module_to_path env m root = Some p)"
proof -
  have "s \<in> symbols_of (extract_symbol_imports_from_file env f root) p \<longleftrightarrow>
     (\<exists>m. \<not> opaque_module tree m \<and> resolve_module_to_path env m root = Some p \<and>
       (\<exists>syms. (m, syms) \<in> set (symbol_imports (import_visit tree new_import_visitor)) \<and> s \<in> syms))"
    unfolding extract_symbol_imports_from_file_def resolve_visitor_symbol_imports_def assms
      option.case fst_conv resolve_symbols_lookup import_visit_opaque opaque_module_def
    by (auto simp: symbols_of_def)
  also have "\<dots> \<longleftrightarrow> (\<exists>n m S. runs tree n \<and> names_from n = Some (m, S) \<and> s \<in> S \<and> \<not> opaque_module tree m \<and>
        resolve_module_to_path env m root = Some p)"
    unfolding visitor_entries imports_names_def imported_names_def set_leaves by blast
  finally show ?thesis .
qed

text \<open>Every module imported at run time is among \<open>imports\<close>, so every resolved file is a dependency.\<close>

fun modules_of :: "ast \<Rightarrow> string set" where
  "modules_of (Import _ names) = fst ` set names"
| "modules_of (ImportFrom _ (Some m) names level) =
     (if m \<noteq> [] \<and> level = 0
      then insert m (if ''*'' \<in> fst ` set names then {} else submodule m ` fst ` set names) else {})"
| "modules_of _ = {}"

lemma visit_leaf_imported: "imported (visit_leaf n v) = imported v \<union> modules_of n"
  by (cases n rule: modules_of.cases)
     (auto simp: visit_Import_def visit_ImportFrom_def star_alias Let_def split: if_splits)

lemma import_visit_imported:
  "imported (import_visit tree new_import_visitor) = (\<Union>n \<in> {n. runs tree n}. modules_of n)"
proof -
  have "imported (fold visit_leaf ns v) = imported v \<union> (\<Union>n \<in> set ns. modules_of n)" for ns v
    by (induction ns arbitrary: v) (auto simp: visit_leaf_imported)
  then show ?thesis by (simp add: import_visit_leaves set_leaves new_import_visitor_def)
qed

lemma finite_modules_of: "finite (modules_of n)"
  by (cases n rule: modules_of.cases) auto

lemma finite_runs: "finite {m. runs n m}"
  using finite_set[of "leaves n"] by (simp add: set_leaves)

lemma finite_imports: "finite (extract_imports_from_file env f)"
  by (auto simp: extract_imports_from_file_def import_visit_imported finite_runs finite_modules_of
      split: option.splits)

lemma finite_resolved: "finite mods \<Longrightarrow> finite (resolve_imports_helper env mods root)"
  by (simp add: resolve_imports_helper_code)

lemma names_from_module: "names_from n = Some (m, S) \<Longrightarrow> m \<in> modules_of n"
  by (cases n rule: names_from.cases) (auto split: if_splits)

lemma opaque_of_module: "m \<in> opaque_of n \<Longrightarrow> m \<in> modules_of n"
  by (cases n rule: opaque_of.cases) (auto split: if_splits)

lemma symbol_imports_are_dependencies:
  "p \<in> fst ` set (extract_symbol_imports_from_file env f root) \<Longrightarrow>
     p \<in> resolve_imports_helper env (extract_imports_from_file env f) root"
proof -
  assume p: "p \<in> fst ` set (extract_symbol_imports_from_file env f root)"
  then obtain tree where tree: "parse_file env f = Some tree"
    by (cases "parse_file env f") (auto simp: extract_symbol_imports_from_file_def)
  from p obtain m where m: "resolve_module_to_path env m root = Some p"
      "\<exists>syms. (m, syms) \<in> set (symbol_imports (import_visit tree new_import_visitor)) \<and> True"
    unfolding extract_symbol_imports_from_file_def resolve_visitor_symbol_imports_def tree
      option.case fst_conv dom_map_of_conv_image_fst[symmetric] resolve_symbols_dom
    by auto
  then have "imports_names (leaves tree) m" unfolding visitor_entries by simp
  then have "m \<in> extract_imports_from_file env f"
    by (auto simp: imports_names_def set_leaves extract_imports_from_file_def tree
        import_visit_imported dest: names_from_module)
  with m show ?thesis by (auto simp: resolve_imports_helper_def)
qed

end
