(* ===== verification/TestDeps.thy ===== *)
theory TestDeps
  imports ImportResolve
begin

text \<open>
  The dependencies of one marked test: the conftest files above it and the files it imports,
  two levels deep. The search loops are bounded as in the code; what they return is
  described without them.
\<close>

section \<open>Tests\<close>

record marked_test =
  mt_file_path :: path
  mt_test_name :: string
  mt_node_id :: string
  dependencies :: "path list"
  mt_fixtures :: "string list"
  mt_symbol_imports :: "(path \<times> string set) list"

section \<open>Conftest files\<close>

definition MAX_CONFTEST_SEARCH_ITERATIONS :: nat where
  "MAX_CONFTEST_SEARCH_ITERATIONS = 100"

definition conftest_in :: "path \<Rightarrow> path" where
  "conftest_in d = path_div d ''conftest.py''"

fun conftest_search :: "file_env \<Rightarrow> path \<Rightarrow> nat \<Rightarrow> path \<Rightarrow> path set \<Rightarrow> path set" where
  "conftest_search env repo_root 0 current relevant = relevant"
| "conftest_search env repo_root (Suc n) current relevant =
     (let relevant' = (if path_exists env (conftest_in current)
                       then insert (conftest_in current) relevant else relevant);
          parent = path_resolve env (path_parent current)
      in if current = repo_root then relevant'
         else if parent = current then relevant'
         else conftest_search env repo_root n parent relevant')"

definition find_relevant_conftests_helper :: "file_env \<Rightarrow> path \<Rightarrow> path \<Rightarrow> path set" where
  "find_relevant_conftests_helper env test_file repo_root =
     conftest_search env (path_resolve env repo_root) MAX_CONFTEST_SEARCH_ITERATIONS
       (path_resolve env (path_parent test_file)) {}"

section \<open>Transitive imports\<close>

definition MAX_TRANSITIVE_IMPORT_DEPTH :: nat where
  "MAX_TRANSITIVE_IMPORT_DEPTH = 2"

definition file_imports :: "file_env \<Rightarrow> path \<Rightarrow> path \<Rightarrow> path set" where
  "file_imports env repo_root f =
     resolve_imports_helper env (extract_imports_from_file env f) repo_root"

fun add_new :: "path list \<Rightarrow> path set \<Rightarrow> path list \<Rightarrow> path set \<times> path list" where
  "add_new [] deps to_visit = (deps, to_visit)"
| "add_new (f # fs) deps to_visit =
     (if f \<notin> deps then add_new fs (insert f deps) (to_visit @ [f]) else add_new fs deps to_visit)"

fun visit_level ::
    "file_env \<Rightarrow> path \<Rightarrow> (path set \<Rightarrow> path list) \<Rightarrow> path list \<Rightarrow>
     path set \<Rightarrow> path set \<Rightarrow> path list \<Rightarrow> path set \<times> path set \<times> path list" where
  "visit_level env repo_root iter [] visited deps to_visit = (visited, deps, to_visit)"
| "visit_level env repo_root iter (f # fs) visited deps to_visit =
     (if f \<in> visited \<or> path_suffix f \<noteq> ''.py''
      then visit_level env repo_root iter fs visited deps to_visit
      else (let (deps', to_visit') = add_new (iter (file_imports env repo_root f)) deps to_visit
            in visit_level env repo_root iter fs (insert f visited) deps' to_visit'))"

fun import_levels ::
    "file_env \<Rightarrow> path \<Rightarrow> (path set \<Rightarrow> path list) \<Rightarrow> nat \<Rightarrow> path list \<Rightarrow>
     path set \<Rightarrow> path set \<Rightarrow> path set" where
  "import_levels env repo_root iter 0 to_visit visited deps = deps"
| "import_levels env repo_root iter (Suc n) to_visit visited deps =
     (if to_visit = [] then deps
      else (let (visited', deps', next) = visit_level env repo_root iter to_visit visited deps []
            in import_levels env repo_root iter n next visited' deps'))"

definition base_dependencies :: "file_env \<Rightarrow> path \<Rightarrow> path \<Rightarrow> path set" where
  "base_dependencies env file repo_root =
     insert file (file_imports env repo_root file \<union> find_relevant_conftests_helper env file repo_root)"

definition analyze_single_test_dependencies ::
    "file_env \<Rightarrow> (path set \<Rightarrow> path list) \<Rightarrow> marked_test \<Rightarrow> path \<Rightarrow> string set \<Rightarrow>
     path set \<times> string set \<times> (path \<times> string set) list" where
  "analyze_single_test_dependencies env iter t repo_root marker_names =
     (let deps = base_dependencies env (mt_file_path t) repo_root
      in (import_levels env repo_root iter MAX_TRANSITIVE_IMPORT_DEPTH (iter deps) {} deps,
          extract_fixtures_from_file env (mt_file_path t) marker_names,
          extract_symbol_imports_from_file env (mt_file_path t) repo_root))"

section \<open>What the conftest search finds\<close>

text \<open>In a file system without links, the search collects every conftest from the root down.\<close>

lemma conftest_search_acc:
  "conftest_search env root n d R = R \<union> conftest_search env root n d {}"
proof (induction n arbitrary: d R)
  case 0
  then show ?case by simp
next
  case (Suc n)
  show ?case
    unfolding conftest_search.simps Let_def
    using Suc.IH[of "path_resolve env (path_parent d)" "if path_exists env (conftest_in d) then insert (conftest_in d) R else R"]
      Suc.IH[of "path_resolve env (path_parent d)" "if path_exists env (conftest_in d) then {conftest_in d} else {}"]
    by auto
qed

lemma conftest_search_below:
  assumes "path_resolve env = (\<lambda>p. p)" and "length d < n"
  shows "conftest_search env root n (root @ d) {} =
     {conftest_in (root @ e) |e. prefix e d \<and> path_exists env (conftest_in (root @ e))}"
  using assms(2)
proof (induction n arbitrary: d)
  case 0
  then show ?case by simp
next
  case (Suc n)
  show ?case
  proof (cases d rule: rev_cases)
    case Nil
    then show ?thesis by auto
  next
    case (snoc e x)
    have "conftest_search env root n (root @ e) {} =
        {conftest_in (root @ e') |e'. prefix e' e \<and> path_exists env (conftest_in (root @ e'))}"
      using Suc snoc by simp
    moreover have "prefix e' (e @ [x]) \<longleftrightarrow> e' = e @ [x] \<or> prefix e' e" for e'
      by simp
    ultimately show ?thesis
      using snoc
      by (auto simp: assms(1) path_parent_def butlast_append Let_def
          conftest_search_acc[of env root n "root @ e" "{_}"])
  qed
qed

lemma finite_conftests: "finite (conftest_search env root n d {})"
proof (induction n arbitrary: d)
  case (Suc n)
  then show ?case
    by (auto simp: Let_def conftest_search_acc[of env root n _ "{_}"])
qed simp

section \<open>What the import levels reach\<close>

definition py_imports :: "file_env \<Rightarrow> path \<Rightarrow> path \<Rightarrow> path set" where
  "py_imports env root f = (if path_suffix f = ''.py'' then file_imports env root f else {})"

lemma add_new_sets:
  "fst (add_new fs deps tv) = deps \<union> set fs"
  "set (snd (add_new fs deps tv)) = set tv \<union> (set fs - deps)"
  by (induction fs deps tv rule: add_new.induct) auto

lemma finite_file_imports: "finite (file_imports env root f)"
  by (simp add: file_imports_def finite_resolved finite_imports)

lemma visit_level_sets:
  assumes "iterates iter" and "visit_level env root iter fs V D T = (V', D', T')"
  shows "V' = V \<union> {f \<in> set fs. path_suffix f = ''.py''} \<and>
     D' = D \<union> (\<Union>f \<in> set fs - V. py_imports env root f) \<and>
     set T' = set T \<union> (D' - D)"
  using assms(2)
proof (induction fs arbitrary: V D T)
  case Nil
  then show ?case by auto
next
  case (Cons f fs)
  show ?case
  proof (cases "f \<in> V \<or> path_suffix f \<noteq> ''.py''")
    case True
    then have r: "visit_level env root iter fs V D T = (V', D', T')" using Cons.prems by auto
    have "(\<Union>f \<in> set (f # fs) - V. py_imports env root f) = (\<Union>f \<in> set fs - V. py_imports env root f)"
      using True by (auto simp: py_imports_def)
    then show ?thesis using Cons.IH[OF r] True by auto
  next
    case False
    obtain D1 T1 where a: "add_new (iter (file_imports env root f)) D T = (D1, T1)" by fastforce
    have I: "set (iter (file_imports env root f)) = py_imports env root f"
      using assms(1) finite_file_imports False by (simp add: iterates_def py_imports_def)
    have DT: "D1 = D \<union> py_imports env root f" "set T1 = set T \<union> (py_imports env root f - D)"
      using add_new_sets[of "iter (file_imports env root f)" D T] a I by simp_all
    have r: "visit_level env root iter fs (insert f V) D1 T1 = (V', D', T')"
      using Cons.prems False a by simp
    have "(\<Union>f \<in> set (f # fs) - V. py_imports env root f) =
        py_imports env root f \<union> (\<Union>f \<in> set fs - insert f V. py_imports env root f)"
      using False by auto
    then show ?thesis using Cons.IH[OF r] DT False by auto
  qed
qed

lemma finite_base: "finite (base_dependencies env f root)"
  by (simp add: base_dependencies_def finite_file_imports find_relevant_conftests_helper_def finite_conftests)

lemma two_levels:
  assumes "iterates iter" and "finite B"
  shows "import_levels env root iter 2 (iter B) {} B =
     B \<union> (\<Union>f \<in> B. py_imports env root f) \<union>
     (\<Union>f \<in> B. \<Union>g \<in> py_imports env root f. py_imports env root g)"
proof (cases "B = {}")
  case True
  then have "iter B = []" using assms by (auto simp: iterates_def)
  with True show ?thesis by (simp add: numeral_2_eq_2)
next
  case False
  have B: "set (iter B) = B" using assms by (simp add: iterates_def)
  obtain V1 D1 T1 where 1: "visit_level env root iter (iter B) {} B [] = (V1, D1, T1)"
    by (cases "visit_level env root iter (iter B) {} B []")
  obtain V2 D2 T2 where 2: "visit_level env root iter T1 V1 D1 [] = (V2, D2, T2)"
    by (cases "visit_level env root iter T1 V1 D1 []")
  note l1 = conjunct1[OF visit_level_sets[OF assms(1) 1]] conjunct1[OF conjunct2[OF visit_level_sets[OF assms(1) 1]]]
      conjunct2[OF conjunct2[OF visit_level_sets[OF assms(1) 1]]]
  note l2 = conjunct1[OF visit_level_sets[OF assms(1) 2]] conjunct1[OF conjunct2[OF visit_level_sets[OF assms(1) 2]]]
  have D1: "D1 = B \<union> (\<Union>f \<in> B. py_imports env root f)" using l1(2) B by simp
  have T1: "set T1 = D1 - B" using l1(3) by simp
  have V1: "V1 \<subseteq> B" using l1(1) B by auto
  have D2: "D2 = D1 \<union> (\<Union>f \<in> D1 - B. py_imports env root f)" using l2(2) T1 V1 by auto
  have ne: "iter B \<noteq> []" using B False by auto
  have "import_levels env root iter 2 (iter B) {} B = (if T1 = [] then D1 else D2)"
    using ne by (simp add: numeral_2_eq_2 1 2)
  also have "\<dots> = D2" using D2 T1 by auto
  finally show ?thesis using D1 D2 by auto
qed

end
