(* ===== verification/FixtureGraph.thy ===== *)
theory FixtureGraph
  imports TestDeps
begin

text \<open>
  The graph computations of \<open>pytest_marker_analyzer.py\<close>: the fixtures a test uses
  transitively, the fixtures a change affects, and the members of a class that call a changed
  member. Each is a worklist or a fixed-point loop; each is an instance of the locale
  \<open>closure\<close>, so that membership in its result is reachability in the graph.
\<close>

section \<open>Worklists\<close>

text \<open>
  One round of a worklist: new elements are marked and pushed. The stack's top, which
  \<open>list.pop\<close> takes, is the head of the list.
\<close>

fun push_new :: "'a list \<Rightarrow> 'a set \<Rightarrow> 'a list \<Rightarrow> 'a set \<times> 'a list" where
  "push_new [] seen pending = (seen, pending)"
| "push_new (x # xs) seen pending =
     (if x \<notin> seen then push_new xs (insert x seen) (x # pending) else push_new xs seen pending)"

lemma push_new_seen: "fst (push_new xs seen pending) = seen \<union> set xs"
  by (induction xs seen pending rule: push_new.induct) auto

lemma push_new_pending: "set (snd (push_new xs seen pending)) = set pending \<union> (set xs - seen)"
  by (induction xs seen pending rule: push_new.induct) auto

lemma push_new_measure:
  assumes "finite U" and "set xs \<subseteq> U"
  shows "card (U - fst (push_new xs seen pending)) + length (snd (push_new xs seen pending)) =
         card (U - seen) + length pending"
  using assms(2)
proof (induction xs seen pending rule: push_new.induct)
  case (2 x xs seen pending)
  show ?case
  proof (cases "x \<in> seen")
    case False
    then have "x \<in> U - seen" using "2.prems" by simp
    moreover have "U - insert x seen = (U - seen) - {x}" by blast
    ultimately have "Suc (card (U - insert x seen)) = card (U - seen)"
      using assms(1) card_Suc_Diff1[of "U - seen" x] by simp
    then show ?thesis using 2 False by simp
  qed (use 2 in simp)
qed simp

section \<open>Fixtures a test uses\<close>

definition all_deps :: "(string \<times> fixture) list \<Rightarrow> string set" where
  "all_deps fixtures = (\<Union>e \<in> set fixtures. set (fixture_deps (snd e)))"

lemma deps_in_all: "map_of fixtures f = Some fx \<Longrightarrow> set (fixture_deps fx) \<subseteq> all_deps fixtures"
  unfolding all_deps_def by (force dest: map_of_SomeD)

function expand_loop :: "(string \<times> fixture) list \<Rightarrow> string set \<Rightarrow> string list \<Rightarrow> string set" where
  "expand_loop fixtures used [] = used"
| "expand_loop fixtures used (f # pending) =
     (case map_of fixtures f of
        None \<Rightarrow> expand_loop fixtures used pending
      | Some fx \<Rightarrow> expand_loop fixtures (fst (push_new (fixture_deps fx) used pending))
                     (snd (push_new (fixture_deps fx) used pending)))"
  by pat_completeness auto
termination
proof (relation "measure (\<lambda>(fixtures, used, pending). card (all_deps fixtures - used) + length pending)",
    goal_cases)
  case (3 fixtures used f pending fx)
  have "finite (all_deps fixtures)" by (simp add: all_deps_def)
  then show ?case
    using push_new_measure[of "all_deps fixtures" "fixture_deps fx" used pending] deps_in_all[OF 3]
    by (simp add: split_beta)
qed auto

definition expand_used_fixtures :: "string list \<Rightarrow> (string \<times> fixture) list \<Rightarrow> string set" where
  "expand_used_fixtures direct_fixtures fixtures_dict =
     expand_loop fixtures_dict (set direct_fixtures) (rev direct_fixtures)"

definition uses_fixture :: "(string \<times> fixture) list \<Rightarrow> string \<Rightarrow> string \<Rightarrow> bool" where
  "uses_fixture fixtures x y \<longleftrightarrow>
     (\<exists>fx. map_of fixtures x = Some fx \<and> y \<in> set (fixture_deps fx))"

lemma expand_loop_used: "used \<subseteq> expand_loop fixtures used pending"
proof (induction fixtures used pending rule: expand_loop.induct)
  case (2 fixtures used f pending)
  then show ?case by (auto simp: push_new_seen split: option.splits)
qed simp

lemma expand_loop_closed:
  assumes "\<And>x y. x \<in> used \<Longrightarrow> x \<notin> set pending \<Longrightarrow> uses_fixture fixtures x y \<Longrightarrow> y \<in> used"
    and "x \<in> expand_loop fixtures used pending" and "uses_fixture fixtures x y"
  shows "y \<in> expand_loop fixtures used pending"
  using assms
proof (induction fixtures used pending rule: expand_loop.induct)
  case (1 fixtures used)
  then show ?case by simp
next
  case (2 fixtures used f pending)
  show ?case
  proof (cases "map_of fixtures f")
    case None
    have "y' \<in> used" if "x' \<in> used" "x' \<notin> set pending" "uses_fixture fixtures x' y'" for x' y'
      using 2(3)[of x' y'] that None by (cases "x' = f") (auto simp: uses_fixture_def)
    then show ?thesis using 2(1)[OF None] 2(4,5) None by simp
  next
    case (Some fx)
    let ?u = "fst (push_new (fixture_deps fx) used pending)"
    let ?p = "snd (push_new (fixture_deps fx) used pending)"
    have "y' \<in> ?u" if "x' \<in> ?u" "x' \<notin> set ?p" "uses_fixture fixtures x' y'" for x' y'
      using 2(3)[of x' y'] that Some
      by (cases "x' = f") (auto simp: uses_fixture_def push_new_seen push_new_pending)
    then show ?thesis using 2(2)[OF Some] 2(4,5) Some by simp
  qed
qed

lemma expand_loop_least:
  assumes "used \<subseteq> T" and "set pending \<subseteq> T"
    and "\<And>x y. x \<in> T \<Longrightarrow> uses_fixture fixtures x y \<Longrightarrow> y \<in> T"
  shows "expand_loop fixtures used pending \<subseteq> T"
  using assms
proof (induction fixtures used pending rule: expand_loop.induct)
  case (2 fixtures used f pending)
  show ?case
  proof (cases "map_of fixtures f")
    case None
    then show ?thesis using 2 by simp
  next
    case (Some fx)
    have "set (fixture_deps fx) \<subseteq> T" using 2(4,5) Some by (auto simp: uses_fixture_def)
    then show ?thesis using 2(2)[OF Some] 2(3,4,5) Some by (auto simp: push_new_seen push_new_pending)
  qed
qed simp

interpretation used: closure "uses_fixture fixtures" "\<lambda>xs. expand_used_fixtures xs fixtures"
  for fixtures
proof unfold_locales
  show "set xs \<subseteq> expand_used_fixtures xs fixtures" for xs
    by (simp add: expand_used_fixtures_def expand_loop_used)
  show "y \<in> expand_used_fixtures xs fixtures"
    if "x \<in> expand_used_fixtures xs fixtures" "uses_fixture fixtures x y" for x y xs
    using that(1) unfolding expand_used_fixtures_def
    by (rule expand_loop_closed[OF _ _ that(2), rotated]) simp
  show "expand_used_fixtures xs fixtures \<subseteq> T"
    if "set xs \<subseteq> T" "\<And>x y. x \<in> T \<Longrightarrow> uses_fixture fixtures x y \<Longrightarrow> y \<in> T" for xs T
    unfolding expand_used_fixtures_def by (rule expand_loop_least) (use that in simp_all)
qed

section \<open>Fixtures a change affects\<close>

text \<open>
  \<open>_get_affected_fixtures_helper\<close>, and the method \<open>get_affected_fixtures\<close> with the same body
  on the analyzer's own dictionary.
\<close>

definition dependants :: "(string \<times> fixture) list \<Rightarrow> string \<Rightarrow> string list" where
  "dependants fixtures f = map fst (filter (\<lambda>e. f \<in> set (fixture_deps (snd e))) fixtures)"

definition calls_modified :: "string set \<Rightarrow> (string \<times> fixture) list \<Rightarrow> string list" where
  "calls_modified modified_functions fixtures =
     map fst (filter (\<lambda>e. function_calls (snd e) \<inter> modified_functions \<noteq> {}) fixtures)"

function affected_loop ::
    "(string \<times> fixture) list \<Rightarrow> string set \<Rightarrow> string set \<Rightarrow> string list \<Rightarrow> string set" where
  "affected_loop fixtures visited affected [] = affected"
| "affected_loop fixtures visited affected (f # to_check) =
     (if f \<in> visited then affected_loop fixtures visited affected to_check
      else affected_loop fixtures (insert f visited)
             (fst (push_new (dependants fixtures f) affected to_check))
             (snd (push_new (dependants fixtures f) affected to_check)))"
  by pat_completeness auto
termination
proof (relation "measure (\<lambda>(fixtures, visited, affected, to_check).
         card (fst ` set fixtures - affected) + length to_check)", goal_cases)
  case (3 fixtures visited affected f to_check)
  have "set (dependants fixtures f) \<subseteq> fst ` set fixtures" by (auto simp: dependants_def)
  then show ?case
    using push_new_measure[of "fst ` set fixtures" "dependants fixtures f" affected to_check]
    by (simp add: split_beta)
qed auto

definition get_affected_fixtures_helper ::
    "string list \<Rightarrow> string set \<Rightarrow> (string \<times> fixture) list \<Rightarrow> string set" where
  "get_affected_fixtures_helper modified_fixtures modified_functions fixtures =
     (let callers = calls_modified modified_functions fixtures
      in affected_loop fixtures {} (set modified_fixtures \<union> set callers)
           (rev callers @ rev modified_fixtures))"

definition get_affected_fixtures ::
    "(string \<times> fixture) list \<Rightarrow> string list \<Rightarrow> string set \<Rightarrow> string set" where
  "get_affected_fixtures fixtures modified_fixtures modified_functions =
     (let callers = calls_modified modified_functions fixtures
      in affected_loop fixtures {} (set modified_fixtures \<union> set callers)
           (rev callers @ rev modified_fixtures))"

definition required_by :: "(string \<times> fixture) list \<Rightarrow> string \<Rightarrow> string \<Rightarrow> bool" where
  "required_by fixtures x y \<longleftrightarrow> (\<exists>fx. (y, fx) \<in> set fixtures \<and> x \<in> set (fixture_deps fx))"

lemma set_dependants: "y \<in> set (dependants fixtures x) \<longleftrightarrow> required_by fixtures x y"
  by (force simp: dependants_def required_by_def)

lemma affected_loop_mono: "affected \<subseteq> affected_loop fixtures visited affected to_check"
proof (induction fixtures visited affected to_check rule: affected_loop.induct)
  case (2 fixtures visited affected f to_check)
  then show ?case by (auto simp: push_new_seen)
qed simp

lemma affected_loop_closed:
  assumes "\<And>x y. x \<in> affected \<Longrightarrow> x \<notin> set to_check \<Longrightarrow> required_by fixtures x y \<Longrightarrow> y \<in> affected"
    and "\<And>x y. x \<in> visited \<Longrightarrow> required_by fixtures x y \<Longrightarrow> y \<in> affected"
    and "x \<in> affected_loop fixtures visited affected to_check" and "required_by fixtures x y"
  shows "y \<in> affected_loop fixtures visited affected to_check"
  using assms
proof (induction fixtures visited affected to_check rule: affected_loop.induct)
  case (1 fixtures visited affected)
  then show ?case by simp
next
  case (2 fixtures visited affected f to_check)
  show ?case
  proof (cases "f \<in> visited")
    case True
    have "y' \<in> affected" if "x' \<in> affected" "x' \<notin> set to_check" "required_by fixtures x' y'" for x' y'
      using 2(3)[of x' y'] 2(4)[of x' y'] that True by (cases "x' = f") auto
    then show ?thesis using 2(1)[OF True] 2(4,5,6) True by simp
  next
    case False
    let ?a = "fst (push_new (dependants fixtures f) affected to_check)"
    let ?t = "snd (push_new (dependants fixtures f) affected to_check)"
    have 1: "y' \<in> ?a" if "x' \<in> ?a" "x' \<notin> set ?t" "required_by fixtures x' y'" for x' y'
      using 2(3)[of x' y'] that
      by (cases "x' = f") (auto simp: set_dependants push_new_seen push_new_pending)
    have 3: "y' \<in> ?a" if "x' \<in> insert f visited" "required_by fixtures x' y'" for x' y'
      using 2(4)[of x' y'] that by (cases "x' = f") (auto simp: set_dependants push_new_seen)
    from 2(5) False have "x \<in> affected_loop fixtures (insert f visited) ?a ?t" by simp
    with 2(2)[OF False 1 3] 2(6) False show ?thesis by simp
  qed
qed

lemma affected_loop_least:
  assumes "affected \<subseteq> T" and "set to_check \<subseteq> T"
    and "\<And>x y. x \<in> T \<Longrightarrow> required_by fixtures x y \<Longrightarrow> y \<in> T"
  shows "affected_loop fixtures visited affected to_check \<subseteq> T"
  using assms
proof (induction fixtures visited affected to_check rule: affected_loop.induct)
  case (2 fixtures visited affected f to_check)
  show ?case
  proof (cases "f \<in> visited")
    case True
    then show ?thesis using 2 by simp
  next
    case False
    have "set (dependants fixtures f) \<subseteq> T" using 2(4,5) by (auto simp: set_dependants)
    then show ?thesis
      using 2(2)[OF False] 2(3,4,5) False by (auto simp: push_new_seen push_new_pending)
  qed
qed simp

interpretation affected: closure "required_by fixtures"
    "\<lambda>xs. affected_loop fixtures {} (set xs) (rev xs)" for fixtures
proof unfold_locales
  show "set xs \<subseteq> affected_loop fixtures {} (set xs) (rev xs)" for xs
    by (rule affected_loop_mono)
  show "y \<in> affected_loop fixtures {} (set xs) (rev xs)"
    if "x \<in> affected_loop fixtures {} (set xs) (rev xs)" "required_by fixtures x y" for x y xs
    by (rule affected_loop_closed[OF _ _ that]) simp_all
  show "affected_loop fixtures {} (set xs) (rev xs) \<subseteq> T"
    if "set xs \<subseteq> T" "\<And>x y. x \<in> T \<Longrightarrow> required_by fixtures x y \<Longrightarrow> y \<in> T" for xs T
    by (rule affected_loop_least) (use that in simp_all)
qed

lemma affected_helper_closure:
  "get_affected_fixtures_helper mf mfun fixtures =
     (let seeds = mf @ calls_modified mfun fixtures in affected_loop fixtures {} (set seeds) (rev seeds))"
  by (simp add: get_affected_fixtures_helper_def Let_def)

section \<open>Members of a class\<close>

fun self_call_at :: "ast \<Rightarrow> string set" where
  "self_call_at (Call _ (Attribute _ (Name _ i) a) _ _) = (if i = ''self'' then {a} else {})"
| "self_call_at _ = {}"

definition self_callees :: "ast \<Rightarrow> string set" where
  "self_callees method = \<Union> (self_call_at ` set (walk method))"

fun function_name :: "ast \<Rightarrow> string option" where
  "function_name (FunctionDef _ name _ _ _ _) = Some name"
| "function_name (AsyncFunctionDef _ name _ _ _ _) = Some name"
| "function_name _ = None"

fun call_graph_of :: "ast list \<Rightarrow> (string \<times> string set) list \<Rightarrow> (string \<times> string set) list" where
  "call_graph_of [] g = g"
| "call_graph_of (n # ns) g =
     (case function_name n of
        None \<Rightarrow> call_graph_of ns g
      | Some name \<Rightarrow> call_graph_of ns (AList.update name (self_callees n) g))"

definition build_intra_class_call_graph :: "ast \<Rightarrow> (string \<times> string set) list" where
  "build_intra_class_call_graph class_node = call_graph_of (iter_child_nodes class_node) []"

text \<open>One pass of the fixed-point loop over the dictionary, and the loop.\<close>

fun members_pass :: "(string \<times> string set) list \<Rightarrow> string set \<Rightarrow> bool \<Rightarrow> string set \<times> bool" where
  "members_pass [] expanded changed = (expanded, changed)"
| "members_pass ((caller, callees) # rest) expanded changed =
     (if caller \<notin> expanded \<and> callees \<inter> expanded \<noteq> {}
      then members_pass rest (insert caller expanded) True
      else members_pass rest expanded changed)"

lemma members_pass_mono: "expanded \<subseteq> fst (members_pass calls expanded changed)"
  by (induction calls expanded changed rule: members_pass.induct) auto

lemma members_pass_changed:
  "snd (members_pass calls expanded changed) \<Longrightarrow>
     changed \<or> (\<exists>c. c \<in> fst ` set calls \<and> c \<notin> expanded \<and> c \<in> fst (members_pass calls expanded changed))"
proof (induction calls expanded changed rule: members_pass.induct)
  case (2 caller callees rest expanded changed)
  show ?case
  proof (cases "caller \<notin> expanded \<and> callees \<inter> expanded \<noteq> {}")
    case True
    then have "caller \<in> fst (members_pass rest (insert caller expanded) True)"
      using members_pass_mono by blast
    then show ?thesis using True by auto
  next
    case False
    then have eq: "members_pass ((caller, callees) # rest) expanded changed = members_pass rest expanded changed"
      by auto
    show ?thesis
      using 2(2)[OF False] "2.prems" unfolding eq by (auto intro: rev_image_eqI)
  qed
qed simp

function expand_members_loop :: "(string \<times> string set) list \<Rightarrow> string set \<Rightarrow> string set" where
  "expand_members_loop calls expanded =
     (if snd (members_pass calls expanded False)
      then expand_members_loop calls (fst (members_pass calls expanded False))
      else fst (members_pass calls expanded False))"
  by pat_completeness auto
termination
proof (relation "measure (\<lambda>(calls, expanded). card (fst ` set calls - expanded))", goal_cases)
  case (2 calls expanded)
  let ?e = "fst (members_pass calls expanded False)"
  from members_pass_changed[OF 2] obtain c
    where "c \<in> fst ` set calls" "c \<notin> expanded" "c \<in> ?e" by auto
  then have "fst ` set calls - ?e \<subset> fst ` set calls - expanded"
    using members_pass_mono[of expanded calls False] by blast
  then show ?case by (simp add: psubset_card_mono)
qed auto

declare expand_members_loop.simps [simp del]

definition expand_modified_members_transitively ::
    "string set \<Rightarrow> (string \<times> string set) list \<Rightarrow> string set" where
  "expand_modified_members_transitively directly_modified internal_calls =
     expand_members_loop internal_calls directly_modified"

definition called_by :: "(string \<times> string set) list \<Rightarrow> string \<Rightarrow> string \<Rightarrow> bool" where
  "called_by calls x y \<longleftrightarrow> (\<exists>callees. (y, callees) \<in> set calls \<and> x \<in> callees)"

lemma members_pass_least:
  assumes "expanded \<subseteq> T" and "\<And>x y. x \<in> T \<Longrightarrow> called_by calls x y \<Longrightarrow> y \<in> T"
  shows "fst (members_pass calls expanded changed) \<subseteq> T"
  using assms
proof (induction calls expanded changed rule: members_pass.induct)
  case (2 caller callees rest expanded changed)
  have c: "callees \<inter> expanded \<noteq> {} \<Longrightarrow> caller \<in> T"
    using 2(3,4) by (auto simp: called_by_def)
  have r: "\<And>x y. x \<in> T \<Longrightarrow> called_by rest x y \<Longrightarrow> y \<in> T"
    using 2(4) by (auto simp: called_by_def)
  show ?case
  proof (cases "caller \<notin> expanded \<and> callees \<inter> expanded \<noteq> {}")
    case True
    then have "insert caller expanded \<subseteq> T" using 2(3) c by simp
    with 2(1)[OF True] r have "fst (members_pass rest (insert caller expanded) True) \<subseteq> T" by blast
    with True show ?thesis by simp
  next
    case False
    with 2(2)[OF False 2(3)] r have "fst (members_pass rest expanded changed) \<subseteq> T" by blast
    with False show ?thesis by auto
  qed
qed simp

lemma members_pass_stable:
  "\<not> snd (members_pass calls expanded changed) \<Longrightarrow>
     fst (members_pass calls expanded changed) = expanded \<and> \<not> changed \<and>
     (\<forall>(caller, callees) \<in> set calls. callees \<inter> expanded \<noteq> {} \<longrightarrow> caller \<in> expanded)"
proof (induction calls expanded changed rule: members_pass.induct)
  case (2 caller callees rest expanded changed)
  have t: "snd (members_pass cs E True)" for cs E
    by (induction cs E True rule: members_pass.induct) auto
  show ?case using 2 t by (auto split: if_splits)
qed auto

lemma expand_members_mono: "expanded \<subseteq> expand_members_loop calls expanded"
proof (induction calls expanded rule: expand_members_loop.induct)
  case (1 calls expanded)
  show ?case
    using 1 members_pass_mono[of expanded calls False]
    by (subst expand_members_loop.simps) auto
qed

lemma expand_members_closed:
  "x \<in> expand_members_loop calls expanded \<Longrightarrow> called_by calls x y \<Longrightarrow> y \<in> expand_members_loop calls expanded"
proof (induction calls expanded rule: expand_members_loop.induct)
  case (1 calls expanded)
  show ?case
  proof (cases "snd (members_pass calls expanded False)")
    case True
    then show ?thesis using 1 by (simp add: expand_members_loop.simps[of calls expanded])
  next
    case False
    with members_pass_stable[OF False] "1.prems" show ?thesis
      by (auto simp: expand_members_loop.simps[of calls expanded] called_by_def)
  qed
qed

lemma expand_members_least:
  assumes "expanded \<subseteq> T" and "\<And>x y. x \<in> T \<Longrightarrow> called_by calls x y \<Longrightarrow> y \<in> T"
  shows "expand_members_loop calls expanded \<subseteq> T"
  using assms
proof (induction calls expanded rule: expand_members_loop.induct)
  case (1 calls expanded)
  have "fst (members_pass calls expanded False) \<subseteq> T" using members_pass_least[OF 1(2,3)] .
  then show ?case using 1(1)[OF _ _ 1(3)] by (subst expand_members_loop.simps) auto
qed

interpretation members: closure "called_by calls"
    "\<lambda>xs. expand_modified_members_transitively (set xs) calls" for calls
proof unfold_locales
  show "set xs \<subseteq> expand_modified_members_transitively (set xs) calls" for xs
    by (simp add: expand_modified_members_transitively_def expand_members_mono)
  show "y \<in> expand_modified_members_transitively (set xs) calls"
    if "x \<in> expand_modified_members_transitively (set xs) calls" "called_by calls x y" for x y xs
    using that unfolding expand_modified_members_transitively_def by (rule expand_members_closed)
  show "expand_modified_members_transitively (set xs) calls \<subseteq> T"
    if "set xs \<subseteq> T" "\<And>x y. x \<in> T \<Longrightarrow> called_by calls x y \<Longrightarrow> y \<in> T" for xs T
    unfolding expand_modified_members_transitively_def
    by (rule expand_members_least) (use that in simp_all)
qed

section \<open>The fixture dictionary of the repository\<close>

record fixture_graph =
  fg_fixtures :: "(string \<times> fixture) list"
  conftest_symbol_imports :: "(path \<times> (path \<times> string set) list) list"
  conftest_opaque_deps :: "(path \<times> path set) list"

definition dict_update :: "('k \<times> 'v) list \<Rightarrow> ('k \<times> 'v) list \<Rightarrow> ('k \<times> 'v) list" where
  "dict_update new d = fold (\<lambda>(k, v). AList.update k v) new d"

text \<open>
  The conftest files are parsed by a thread pool; \<open>completed\<close> lists them in the order in
  which their results arrive, and the results are merged in that order.
\<close>

definition merge_conftest :: "file_env \<Rightarrow> path \<Rightarrow> path \<Rightarrow> fixture_graph \<Rightarrow> fixture_graph" where
  "merge_conftest env repo_root conftest g =
     (let (fixtures, sym_imports, opaque_deps) = process_conftest_with_imports env conftest repo_root
      in \<lparr>fg_fixtures = dict_update fixtures (fg_fixtures g),
          conftest_symbol_imports = AList.update conftest sym_imports (conftest_symbol_imports g),
          conftest_opaque_deps = AList.update conftest opaque_deps (conftest_opaque_deps g)\<rparr>)"

definition build_fixture_dependency_graph ::
    "file_env \<Rightarrow> path \<Rightarrow> path list \<Rightarrow> fixture_graph \<Rightarrow> fixture_graph" where
  "build_fixture_dependency_graph env repo_root completed g =
     fold (merge_conftest env repo_root) completed g"

definition empty_graph :: fixture_graph where
  "empty_graph = \<lparr>fg_fixtures = [], conftest_symbol_imports = [], conftest_opaque_deps = []\<rparr>"

definition conftest_fixtures :: "file_env \<Rightarrow> path \<Rightarrow> (string \<times> fixture) list" where
  "conftest_fixtures env c =
     (case parse_file env c of None \<Rightarrow> [] | Some tree \<Rightarrow> fixture_definition_visit c tree [])"

lemma dict_update_map_of:
  "distinct (map fst new) \<Longrightarrow> map_of (dict_update new d) = map_of d ++ map_of new"
  unfolding dict_update_def
proof (induction new arbitrary: d)
  case (Cons a new)
  obtain k v where a: "a = (k, v)" by (cases a)
  have k: "map_of new k = None" using Cons.prems a by (simp add: map_of_eq_None_iff)
  have "(map_of d)(k \<mapsto> v) ++ map_of new = map_of d ++ (map_of new)(k \<mapsto> v)"
    using k by (auto simp: map_add_def fun_eq_iff split: option.splits)
  then show ?case using Cons a by (simp add: update_conv' del: fun_upd_apply map_add_upd)
qed simp

lemma define_fixture_distinct:
  "distinct (map fst d) \<Longrightarrow> distinct (map fst (define_fixture p n d))"
  by (cases n) (auto simp: distinct_update)

lemma conftest_fixtures_distinct: "distinct (map fst (conftest_fixtures env c))"
proof -
  have "distinct (map fst d) \<Longrightarrow> distinct (map fst (fold (define_fixture p) ns d))" for p ns d
    by (induction ns arbitrary: d) (auto simp: define_fixture_distinct)
  then show ?thesis
    by (auto simp: conftest_fixtures_def fixture_definition_visit_fold split: option.splits)
qed

lemma merge_conftest_fixtures:
  "map_of (fg_fixtures (merge_conftest env root c g)) =
     map_of (fg_fixtures g) ++ map_of (conftest_fixtures env c)"
  using conftest_fixtures_distinct[of env c]
  by (auto simp: merge_conftest_def process_conftest_with_imports_def conftest_fixtures_def
      dict_update_map_of split: option.splits prod.splits)

text \<open>The last arriving definition of a name is kept.\<close>

lemma build_graph_lookup:
  "map_of (fg_fixtures (build_fixture_dependency_graph env root cs g)) =
     foldl (\<lambda>m c. m ++ map_of (conftest_fixtures env c)) (map_of (fg_fixtures g)) cs"
  unfolding build_fixture_dependency_graph_def
  by (induction cs arbitrary: g) (simp_all add: merge_conftest_fixtures)

definition unique_fixture_names :: "file_env \<Rightarrow> path list \<Rightarrow> bool" where
  "unique_fixture_names env cs \<longleftrightarrow>
     (\<forall>c \<in> set cs. \<forall>c' \<in> set cs. c \<noteq> c' \<longrightarrow>
        fst ` set (conftest_fixtures env c) \<inter> fst ` set (conftest_fixtures env c') = {})"

lemma foldl_map_add_lookup:
  "(\<And>c c'. c \<in> set cs \<Longrightarrow> c' \<in> set cs \<Longrightarrow> c \<noteq> c' \<Longrightarrow> dom (F c) \<inter> dom (F c') = {}) \<Longrightarrow>
     foldl (\<lambda>m c. m ++ F c) Map.empty cs k = Some v \<longleftrightarrow> (\<exists>c \<in> set cs. F c k = Some v)"
proof (induction cs arbitrary: v rule: rev_induct)
  case (snoc c cs)
  have IH: "foldl (\<lambda>m c. m ++ F c) Map.empty cs k = Some w \<longleftrightarrow> (\<exists>c \<in> set cs. F c k = Some w)" for w
    by (rule snoc.IH) (use snoc.prems in simp)
  have other: "F c' k = None \<or> c' = c" if "c' \<in> set cs" "F c k = Some w" for c' w
    using snoc.prems[of c c'] that by (cases "F c' k") auto
  show ?case
  proof (cases "F c k")
    case None
    then show ?thesis using IH[of v] by (auto simp: map_add_def)
  next
    case (Some w)
    have "w = v" if "ca \<in> set cs" "F ca k = Some v" for ca
      using other[OF that(1) Some] that(2) Some by auto
    with Some show ?thesis by (auto simp: map_add_def)
  qed
qed simp

lemma build_graph_unique:
  assumes "unique_fixture_names env cs"
  shows "map_of (fg_fixtures (build_fixture_dependency_graph env root cs empty_graph)) k = Some fx \<longleftrightarrow>
     (\<exists>c \<in> set cs. map_of (conftest_fixtures env c) k = Some fx)"
proof -
  have "dom (map_of (conftest_fixtures env c)) \<inter> dom (map_of (conftest_fixtures env c')) = {}"
    if "c \<in> set cs" "c' \<in> set cs" "c \<noteq> c'" for c c'
    using assms that by (auto simp: unique_fixture_names_def dom_map_of_conv_image_fst)
  from foldl_map_add_lookup[of cs "\<lambda>c. map_of (conftest_fixtures env c)", OF this]
  show ?thesis by (simp add: build_graph_lookup empty_graph_def)
qed

end
