(* ===== verification/DiffParse.thy ===== *)
theory DiffParse
  imports FixtureGraph
begin

text \<open>
  The unified-diff readers of \<open>pytest_marker_analyzer.py\<close>: changed line numbers, deletions,
  deleted symbols and modified functions. A reference description of a diff, hunks of
  context, added and deleted lines, says which line numbers are meant.
\<close>

section \<open>Changed lines\<close>

definition hunk_start_re :: regex where
  "hunk_start_re = RSeq (RChar (\<lambda>c. c = CHR ''+'')) (RGroup 1 (RPlus RDigit))"

fun changed_line_step :: "string \<Rightarrow> nat set \<times> nat \<Rightarrow> nat set \<times> nat" where
  "changed_line_step line (changed_lines, current_line) =
     (if startswith line ''@@''
      then (case re_search_group hunk_start_re 1 line of
              Some ds \<Rightarrow> (changed_lines, py_int ds)
            | None \<Rightarrow> (changed_lines, current_line))
      else if startswith_any line [''---'', ''+++''] then (changed_lines, current_line)
      else if current_line = 0 then (changed_lines, current_line)
      else if startswith line ''+'' then (insert current_line changed_lines, current_line + 1)
      else if startswith line ''-'' then (changed_lines, current_line)
      else if startswith line [CHR 0x5C] then (changed_lines, current_line)
      else (changed_lines, current_line + 1))"

declare changed_line_step.simps [simp del]

definition parse_diff_for_changed_lines :: "string \<Rightarrow> nat set" where
  "parse_diff_for_changed_lines diff_content =
     fst (fold changed_line_step (splitlines diff_content) ({}, 0))"

definition is_deletion :: "string \<Rightarrow> bool" where
  "is_deletion line = (startswith line ''-'' \<and> \<not> startswith line ''---'')"

definition diff_has_deletions :: "string \<Rightarrow> bool" where
  "diff_has_deletions diff_content = list_ex is_deletion (splitlines diff_content)"

section \<open>Deleted symbols\<close>

definition def_re :: regex where
  "def_re = RSeqs
     [ROpt (RSeq (RLit ''async'') (RPlus RSpace)), RLit ''def'', RPlus RSpace,
      RGroup 1 (RPlus RWord), RStar RSpace, RChar (\<lambda>c. c = CHR ''('')]"

definition class_re :: regex where
  "class_re = RSeqs
     [RLit ''class'', RPlus RSpace, RGroup 1 (RPlus RWord),
      RChar (\<lambda>c. is_space c \<or> c = CHR '':'' \<or> c = CHR ''('')]"

definition deleted_symbol :: "string \<Rightarrow> string option" where
  "deleted_symbol line =
     (if \<not> startswith line ''-'' \<or> startswith line ''---'' then None
      else (let stripped = py_strip (drop 1 line)
            in case re_match_group def_re 1 stripped of
                 Some name \<Rightarrow> Some name
               | None \<Rightarrow> re_match_group class_re 1 stripped))"

definition extract_deleted_symbols_from_diff :: "string \<Rightarrow> string set" where
  "extract_deleted_symbols_from_diff diff_content =
     set (List.map_filter deleted_symbol (splitlines diff_content))"

section \<open>Modified functions\<close>

record function_scan =
  modified :: "string set"
  current_function :: "string option"
  has_changes_in_function :: bool
  pending_decorator_change :: bool

definition new_function_scan :: function_scan where
  "new_function_scan =
     \<lparr>modified = {}, current_function = None, has_changes_in_function = False,
      pending_decorator_change = False\<rparr>"

definition hunk_function_re :: regex where
  "hunk_function_re = RSeqs
     [RLit ''@@'', RStar RDot, RLit ''@@'', RStar RSpace,
      ROpt (RSeq (RLit ''async'') (RPlus RSpace)), RLit ''def'', RPlus RSpace,
      RGroup 1 (RPlus RWord)]"

text \<open>\<open>if current_function and cond: modified.add(current_function)\<close>\<close>

definition commit :: "bool \<Rightarrow> function_scan \<Rightarrow> function_scan" where
  "commit cond s =
     (case current_function s of
        Some f \<Rightarrow> if f \<noteq> [] \<and> cond then s\<lparr>modified := insert f (modified s)\<rparr> else s
      | None \<Rightarrow> s)"

definition enter_function :: "string \<Rightarrow> function_scan \<Rightarrow> function_scan" where
  "enter_function f s =
     (commit (has_changes_in_function s) s)
       \<lparr>current_function := Some f, has_changes_in_function := True, pending_decorator_change := False\<rparr>"

definition scan_header :: "string \<Rightarrow> function_scan \<Rightarrow> function_scan" where
  "scan_header line s =
     (let s' = commit (has_changes_in_function s \<or> pending_decorator_change s) s
      in case re_search_group hunk_function_re 1 line of
           Some f \<Rightarrow> s'\<lparr>current_function := Some f, has_changes_in_function := False,
                        pending_decorator_change := False\<rparr>
         | None \<Rightarrow> s'\<lparr>current_function := None, pending_decorator_change := False\<rparr>)"

definition scan_change :: "string \<Rightarrow> function_scan \<Rightarrow> function_scan" where
  "scan_change stripped s =
     (if stripped = [] \<or> startswith stripped ''#'' then s
      else case re_match_group def_re 1 stripped of
             Some f \<Rightarrow> enter_function f s
           | None \<Rightarrow>
               if startswith stripped ''@'' then s\<lparr>pending_decorator_change := True\<rparr>
               else s\<lparr>has_changes_in_function := True, pending_decorator_change := False\<rparr>)"

definition scan_context :: "string \<Rightarrow> function_scan \<Rightarrow> function_scan" where
  "scan_context stripped s =
     (case re_match_group def_re 1 stripped of
        Some f \<Rightarrow> enter_function f s
      | None \<Rightarrow> s)"

definition scan_step :: "string \<Rightarrow> function_scan \<Rightarrow> function_scan" where
  "scan_step line s =
     (if startswith line ''@@'' then scan_header line s
      else if startswith_any line [''+'', ''-''] \<and> \<not> startswith_any line [''+++'', ''---'', ''@@'']
      then scan_change (py_strip (drop 1 line)) s
      else if pending_decorator_change s \<and> startswith line '' ''
      then scan_context (py_strip (drop 1 line)) s
      else s)"

definition parse_diff_for_functions :: "string \<Rightarrow> string set" where
  "parse_diff_for_functions diff_content =
     (let s = fold scan_step (splitlines diff_content) new_function_scan
      in modified (commit (has_changes_in_function s \<or> pending_decorator_change s) s))"

section \<open>A reference description of diffs\<close>

datatype diff_line = Ctx string | Add string | Del string | NoNewline

record hunk =
  old_start :: nat
  old_count :: nat
  new_start :: nat
  new_count :: nat
  section_text :: string
  hunk_lines :: "diff_line list"

fun show_line :: "diff_line \<Rightarrow> string" where
  "show_line (Ctx s) = CHR '' '' # s"
| "show_line (Add s) = CHR ''+'' # s"
| "show_line (Del s) = CHR ''-'' # s"
| "show_line NoNewline = CHR 0x5C # '' No newline at end of file''"

definition show_header :: "hunk \<Rightarrow> string" where
  "show_header h =
     ''@@ -'' @ show_nat (old_start h) @ '','' @ show_nat (old_count h) @ '' +'' @
     show_nat (new_start h) @ '','' @ show_nat (new_count h) @ '' @@'' @ section_text h"

definition show_hunk :: "hunk \<Rightarrow> string list" where
  "show_hunk h = show_header h # map show_line (hunk_lines h)"

definition show_diff :: "hunk list \<Rightarrow> string" where
  "show_diff hs = concat (map (\<lambda>l. l @ newline) (concat (map show_hunk hs)))"

text \<open>The new-file numbers of the added lines when the next new-file line has number \<open>n\<close>.\<close>

fun added_lines :: "nat \<Rightarrow> diff_line list \<Rightarrow> nat set" where
  "added_lines n [] = {}"
| "added_lines n (Add s # ls) = insert n (added_lines (Suc n) ls)"
| "added_lines n (Ctx s # ls) = added_lines (Suc n) ls"
| "added_lines n (_ # ls) = added_lines n ls"

text \<open>
  Lines the readers take for what they are: no line break inside, an added line does not
  begin with \<open>++\<close> and a deleted one not with \<open>--\<close>, which would look like file headers.
\<close>

fun plain_line :: "diff_line \<Rightarrow> bool" where
  "plain_line (Ctx s) = list_all (\<lambda>c. \<not> is_linebreak c) s"
| "plain_line (Add s) = (list_all (\<lambda>c. \<not> is_linebreak c) s \<and> \<not> startswith s ''++'')"
| "plain_line (Del s) = (list_all (\<lambda>c. \<not> is_linebreak c) s \<and> \<not> startswith s ''--'')"
| "plain_line NoNewline = True"

definition plain_hunk :: "hunk \<Rightarrow> bool" where
  "plain_hunk h \<longleftrightarrow> new_start h > 0 \<and> list_all (\<lambda>c. \<not> is_linebreak c) (section_text h) \<and>
     list_all plain_line (hunk_lines h)"

section \<open>Reading a printed diff\<close>

lemma digit_no_linebreak: "is_digit c \<Longrightarrow> \<not> is_linebreak c"
  by (auto simp: is_digit_def is_linebreak_def Let_def)

lemma show_nat_no_linebreak: "c \<in> set (show_nat n) \<Longrightarrow> \<not> is_linebreak c"
  by (rule digit_no_linebreak) (rule show_nat_digits)

lemma show_nat_no_plus: "c \<in> set (show_nat n) \<Longrightarrow> c \<noteq> CHR ''+''"
  by (drule show_nat_digits) (auto simp: is_digit_def)

lemma literal_linebreaks [simp]:
  "\<not> is_linebreak CHR ''@''" "\<not> is_linebreak CHR '' ''" "\<not> is_linebreak CHR ''-''"
  "\<not> is_linebreak CHR ''+''" "\<not> is_linebreak CHR '',''" "\<not> is_linebreak CHR 0x5C"
  by (simp_all add: is_linebreak_def)

lemma show_header_no_linebreak:
  assumes "plain_hunk h" and "c \<in> set (show_header h)"
  shows "\<not> is_linebreak c"
  using assms show_nat_no_linebreak
  by (auto simp: show_header_def plain_hunk_def list_all_iff)

lemma show_line_no_linebreak:
  assumes "plain_line l" and "c \<in> set (show_line l)"
  shows "\<not> is_linebreak c"
proof (cases l)
  case NoNewline
  then show ?thesis using assms(2) by (auto simp: is_linebreak_def)
qed (use assms in \<open>auto simp: list_all_iff\<close>)

lemma splitlines_show_diff:
  assumes "list_all plain_hunk hs"
  shows "splitlines (show_diff hs) = concat (map show_hunk hs)"
  unfolding show_diff_def
proof (rule splitlines_unlines)
  fix l c assume "l \<in> set (concat (map show_hunk hs))" and c: "c \<in> set l"
  then obtain h where h: "h \<in> set hs" "l \<in> set (show_hunk h)" by auto
  have p: "plain_hunk h" using assms h(1) by (simp add: list_all_iff)
  from h(2) consider "l = show_header h" | d where "d \<in> set (hunk_lines h)" "l = show_line d"
    by (auto simp: show_hunk_def)
  then show "\<not> is_linebreak c"
  proof cases
    case 1
    then show ?thesis using show_header_no_linebreak[OF p] c by simp
  next
    case 2
    then have "plain_line d" using p by (simp add: plain_hunk_def list_all_iff)
    then show ?thesis using show_line_no_linebreak 2 c by blast
  qed
qed

text \<open>The search skips what precedes the first plus sign and reads the digits after it.\<close>

lemma search_hunk_start:
  assumes "\<And>c. c \<in> set pre \<Longrightarrow> c \<noteq> CHR ''+''"
    and "ds \<noteq> []" and "\<And>c. c \<in> set ds \<Longrightarrow> is_digit c" and "rest = [] \<or> \<not> is_digit (hd rest)"
  shows "re_search_group hunk_start_re 1 (pre @ CHR ''+'' # ds @ rest) = Some ds"
proof -
  have found: "\<exists>st. search_from hunk_start_re p (CHR ''+'' # ds @ rest) = Some st \<and> group_of 1 st = Some ds"
    for p
  proof -
    obtain more where "rmatch (RPlus RDigit) (CHR ''+'' # p, ds @ rest, []) =
        (rev ds @ CHR ''+'' # p, rest, []) # more"
      using rmatch_digits_hd[OF assms(2,3,4)] by blast
    then show ?thesis by (simp add: hunk_start_re_def group_of_def)
  qed
  have "\<exists>st. search_from hunk_start_re p (pre @ CHR ''+'' # ds @ rest) = Some st \<and> group_of 1 st = Some ds"
    for p
    using assms(1)
  proof (induction pre arbitrary: p)
    case Nil
    then show ?case using found by simp
  next
    case (Cons c cs)
    have "rmatch hunk_start_re (p, c # cs @ CHR ''+'' # ds @ rest, []) = []"
      using Cons.prems[of c] by (simp add: hunk_start_re_def)
    then show ?case using Cons by simp
  qed
  from this[of "[]"] show ?thesis by (auto simp: re_search_group_def re_search_def)
qed

lemma header_start: "re_search_group hunk_start_re 1 (show_header h) = Some (show_nat (new_start h))"
proof -
  let ?pre = "''@@ -'' @ show_nat (old_start h) @ '','' @ show_nat (old_count h) @ '' ''"
  let ?rest = "'','' @ show_nat (new_count h) @ '' @@'' @ section_text h"
  have "show_header h = ?pre @ CHR ''+'' # show_nat (new_start h) @ ?rest"
    by (simp add: show_header_def)
  moreover have "re_search_group hunk_start_re 1 (?pre @ CHR ''+'' # show_nat (new_start h) @ ?rest) =
      Some (show_nat (new_start h))"
    by (rule search_hunk_start)
       (auto simp: show_nat_nonempty dest: show_nat_digits show_nat_no_plus)
  ultimately show ?thesis by simp
qed

lemma step_header:
  "changed_line_step (show_header h) (changed, n) = (changed, new_start h)"
proof -
  have "startswith (show_header h) ''@@''" by (simp add: show_header_def)
  then show ?thesis using header_start[of h] by (simp add: changed_line_step.simps py_int_show_nat)
qed

lemma steps_lines:
  assumes "list_all plain_line ls" and "n > 0"
  shows "\<exists>m. fold changed_line_step (map show_line ls) (changed, n) = (changed \<union> added_lines n ls, m)"
  using assms
proof (induction ls arbitrary: changed n)
  case (Cons l ls)
  have step: "changed_line_step (show_line l) (changed, n) =
     (case l of Add s \<Rightarrow> (insert n changed, Suc n) | Ctx s \<Rightarrow> (changed, Suc n) | _ \<Rightarrow> (changed, n))"
    using Cons.prems by (cases l) (auto simp: changed_line_step.simps startswith_any_def)
  show ?case
    using Cons.IH[where changed = "insert n changed" and n = "Suc n"]
      Cons.IH[where changed = changed and n = "Suc n"] Cons.IH[where changed = changed and n = n]
      Cons.prems step
    by (cases l) auto
qed auto

lemma steps_hunks:
  assumes "list_all plain_hunk hs"
  shows "fst (fold changed_line_step (concat (map show_hunk hs)) (changed, n)) =
     changed \<union> (\<Union>h \<in> set hs. added_lines (new_start h) (hunk_lines h))"
  using assms
proof (induction hs arbitrary: changed n)
  case (Cons h hs)
  then have p: "list_all plain_line (hunk_lines h)" "new_start h > 0" by (auto simp: plain_hunk_def)
  obtain m where "fold changed_line_step (map show_line (hunk_lines h)) (changed, new_start h) =
      (changed \<union> added_lines (new_start h) (hunk_lines h), m)"
    using steps_lines[OF p] by blast
  then show ?case using Cons by (simp add: show_hunk_def step_header Un_assoc)
qed simp

lemma parse_show_diff:
  assumes "list_all plain_hunk hs"
  shows "parse_diff_for_changed_lines (show_diff hs) =
     (\<Union>h \<in> set hs. added_lines (new_start h) (hunk_lines h))"
  by (simp add: parse_diff_for_changed_lines_def splitlines_show_diff[OF assms] steps_hunks[OF assms])

lemma deletions_show_diff:
  assumes "list_all plain_hunk hs"
  shows "diff_has_deletions (show_diff hs) \<longleftrightarrow> (\<exists>h \<in> set hs. \<exists>s. Del s \<in> set (hunk_lines h))"
proof -
  have l: "plain_line d \<Longrightarrow> is_deletion (show_line d) \<longleftrightarrow> (\<exists>s. d = Del s)" for d
    by (cases d) (auto simp: is_deletion_def)
  have hd: "\<not> is_deletion (show_header h)" for h by (simp add: is_deletion_def show_header_def)
  have "list_ex is_deletion (show_hunk h) \<longleftrightarrow> (\<exists>s. Del s \<in> set (hunk_lines h))" if "h \<in> set hs" for h
    using assms that l hd by (auto simp: show_hunk_def list_ex_iff list_all_iff plain_hunk_def)
  then show ?thesis
    unfolding diff_has_deletions_def splitlines_show_diff[OF assms] list_ex_iff by auto
qed

section \<open>Deleted definitions are found\<close>

definition name_call_re :: regex where
  "name_call_re = RSeqs [RPlus RSpace, RGroup 1 (RPlus RWord), RStar RSpace, RChar (\<lambda>c. c = CHR ''('')]"

definition spaces :: "string \<Rightarrow> bool" where
  "spaces ws = list_all is_space ws"

definition is_ident :: "string \<Rightarrow> bool" where
  "is_ident s = (s \<noteq> [] \<and> list_all is_word s)"

lemma takeWhile_prefix:
  assumes "list_all P xs" and "ys = [] \<or> \<not> P (hd ys)"
  shows "takeWhile P (xs @ ys) = xs" and "dropWhile P (xs @ ys) = ys"
  using assms by (cases ys; auto simp: list_all_iff takeWhile_all dropWhile_append)+

lemma rmatch_spaces_then:
  assumes "ws \<noteq> []" and "spaces ws" and "tail = [] \<or> \<not> is_space (hd tail)"
    and "\<And>pre c cs g. is_space c \<Longrightarrow> rmatch q (pre, c # cs, g) = []"
  shows "rmatch (RSeq (RPlus RSpace) q) (pre, ws @ tail, g) = rmatch q (rev ws @ pre, tail, g)"
proof -
  obtain w ws' where ws: "ws = w # ws'" using assms(1) by (cases ws) auto
  have sp: "is_space w" "list_all is_space ws'" using assms(2) ws by (simp_all add: spaces_def)
  show ?thesis
    using run_states_then[of is_space q "w # pre" "ws' @ tail" g, OF assms(4)] sp
      takeWhile_prefix[OF sp(2) assms(3)]
    by (simp add: ws rmatch_plus_char)
qed

lemma rmatch_name_hd:
  assumes "is_ident name" and "tail = [] \<or> \<not> is_word (hd tail)"
  shows "\<exists>more. rmatch (RGroup 1 (RPlus RWord)) (pre, name @ tail, g) =
    (rev name @ pre, tail, (1, name) # g) # more"
proof -
  obtain c cs where n: "name = c # cs" using assms(1) by (cases name) (auto simp: is_ident_def)
  have w: "is_word c" "list_all is_word cs" using assms(1) n by (simp_all add: is_ident_def)
  obtain rest where "run_states is_word (c # pre, cs @ tail, g) = (rev cs @ c # pre, tail, g) # rest"
    using run_states_hd[of is_word "c # pre" "cs @ tail" g] takeWhile_prefix[OF w(2) assms(2)] by auto
  then show ?thesis using w(1) by (simp add: n rmatch_plus_char)
qed

lemma rmatch_word_not_space:
  "is_space c \<Longrightarrow> rmatch (RGroup n (RPlus RWord)) (pre, c # cs, g) = []"
  using word_not_space[of c] by (auto simp: rmatch_plus_char)

lemma name_call_match:
  assumes "ws \<noteq> []" "spaces ws" "is_ident name" "spaces ws2"
  shows "\<exists>st more. rmatch name_call_re (pre, ws @ name @ ws2 @ CHR ''('' # rest, g) = st # more \<and>
     group_of 1 st = Some name"
proof -
  let ?par = "RChar (\<lambda>c. c = CHR ''('')"
  let ?tl = "ws2 @ CHR ''('' # rest"
  let ?q = "RSeqs [RGroup 1 (RPlus RWord), RStar RSpace, ?par]"
  have par: "is_space c \<Longrightarrow> rmatch (RSeq ?par REmpty) (pre, c # cs, g) = []" for pre c cs g
    by (auto simp: is_space_def)
  have hd_name: "name @ ?tl = [] \<or> \<not> is_space (hd (name @ ?tl))"
    using assms(3) word_not_space by (cases name) (auto simp: is_ident_def)
  have "is_space c \<Longrightarrow> rmatch ?q (pre, c # cs, g) = []" for pre c cs g
    using rmatch_word_not_space by simp
  then have 1: "rmatch name_call_re (pre, ws @ name @ ?tl, g) = rmatch ?q (rev ws @ pre, name @ ?tl, g)"
    using rmatch_spaces_then[OF assms(1,2) hd_name, of ?q] by (simp add: name_call_re_def)
  have "?tl = [] \<or> \<not> is_word (hd ?tl)"
    using assms(4) word_not_space by (cases ws2) (auto simp: spaces_def)
  then obtain more where 2: "rmatch (RGroup 1 (RPlus RWord)) (rev ws @ pre, name @ ?tl, g) =
      (rev name @ rev ws @ pre, ?tl, (1, name) # g) # more"
    using rmatch_name_hd[OF assms(3)] by blast
  have sp: "list_all is_space ws2" using assms(4) by (simp add: spaces_def)
  have 3: "concat (map (rmatch (RSeq ?par REmpty)) (run_states is_space (p, ?tl, gs))) =
      [(CHR ''('' # rev ws2 @ p, rest, gs)]" for p gs
    using run_states_then[of is_space "RSeq ?par REmpty" p ?tl gs, OF par]
      takeWhile_prefix[OF sp, of "CHR ''('' # rest"] by simp
  have "\<exists>more. rmatch ?q (rev ws @ pre, name @ ?tl, g) =
      (CHR ''('' # rev ws2 @ rev name @ rev ws @ pre, rest, (1, name) # g) # more"
    unfolding RSeqs.simps rmatch.simps(3)[of "RGroup 1 (RPlus RWord)"] 2
    using 3 by (simp add: rmatch_star_char)
  then show ?thesis using 1 by (auto simp: group_of_def)
qed

lemma def_re_match:
  assumes "ws \<noteq> []" "spaces ws" "is_ident name" "spaces ws2"
  shows "re_match_group def_re 1 (''def'' @ ws @ name @ ws2 @ CHR ''('' # rest) = Some name"
proof -
  obtain st more where
    "rmatch name_call_re (rev ''def'', ws @ name @ ws2 @ CHR ''('' # rest, []) = st # more"
    "group_of 1 st = Some name"
    using name_call_match[OF assms] by blast
  then show ?thesis
    by (auto simp: re_match_group_def re_match_def def_re_def ROpt_def name_call_re_def)
qed

lemma async_def_re_match:
  assumes "ws \<noteq> []" "spaces ws" "is_ident name" "spaces ws2" "ws0 \<noteq> []" "spaces ws0"
  shows "re_match_group def_re 1 (''async'' @ ws0 @ ''def'' @ ws @ name @ ws2 @ CHR ''('' # rest) = Some name"
proof -
  let ?tl = "''def'' @ ws @ name @ ws2 @ CHR ''('' # rest"
  have "rmatch (RSeq (RPlus RSpace) (RSeq (RLit ''def'') name_call_re)) (rev ''async'', ws0 @ ?tl, []) =
      rmatch (RSeq (RLit ''def'') name_call_re) (rev ws0 @ rev ''async'', ?tl, [])"
    by (rule rmatch_spaces_then) (use assms in \<open>auto simp: is_space_def\<close>)
  moreover obtain st more where
    "rmatch name_call_re (rev ''def'' @ rev ws0 @ rev ''async'', ws @ name @ ws2 @ CHR ''('' # rest, []) = st # more"
    "group_of 1 st = Some name"
    using name_call_match[OF assms(1-4)] by blast
  ultimately show ?thesis
    by (auto simp: re_match_group_def re_match_def def_re_def ROpt_def name_call_re_def)
qed

lemma class_re_match:
  assumes "ws \<noteq> []" "spaces ws" "is_ident name" "c = CHR '':'' \<or> c = CHR ''(''"
  shows "re_match_group class_re 1 (''class'' @ ws @ name @ c # rest) = Some name"
proof -
  let ?stop = "RChar (\<lambda>c. is_space c \<or> c = CHR '':'' \<or> c = CHR ''('')"
  let ?q = "RSeqs [RGroup 1 (RPlus RWord), ?stop]"
  have hd_name: "name @ c # rest = [] \<or> \<not> is_space (hd (name @ c # rest))"
    using assms(3) word_not_space by (cases name) (auto simp: is_ident_def)
  have "is_space c \<Longrightarrow> rmatch ?q (pre, c # cs, g) = []" for pre c cs g
    using rmatch_word_not_space by simp
  then have 1: "rmatch (RSeq (RPlus RSpace) ?q) (rev ''class'', ws @ name @ c # rest, []) =
      rmatch ?q (rev ws @ rev ''class'', name @ c # rest, [])"
    by (rule rmatch_spaces_then[OF assms(1,2) hd_name])
  have "c # rest = [] \<or> \<not> is_word (hd (c # rest))" using assms(4) by auto
  then obtain more where 2: "rmatch (RGroup 1 (RPlus RWord)) (rev ws @ rev ''class'', name @ c # rest, []) =
      (rev name @ rev ws @ rev ''class'', c # rest, [(1, name)]) # more"
    using rmatch_name_hd[OF assms(3)] by blast
  have "\<exists>more. rmatch ?q (rev ws @ rev ''class'', name @ c # rest, []) =
      (c # rev name @ rev ws @ rev ''class'', rest, [(1, name)]) # more"
    unfolding RSeqs.simps rmatch.simps(3)[of "RGroup 1 (RPlus RWord)"] 2 using assms(4) by auto
  then have "\<exists>more. rmatch class_re ([], ''class'' @ ws @ name @ c # rest, []) =
      (c # rev name @ rev ws @ rev ''class'', rest, [(1, name)]) # more"
    using 1 by (simp add: class_re_def)
  then show ?thesis by (auto simp: re_match_group_def re_match_def group_of_def)
qed

lemma class_not_def: "re_match_group def_re 1 (''class'' @ s) = None"
  by (simp add: re_match_group_def re_match_def def_re_def ROpt_def)

text \<open>
  A deleted line that defines a function or class: any indentation, any white space where
  the grammar of Python allows it, and anything after the opening parenthesis or colon.
\<close>

inductive deleted_definition :: "string \<Rightarrow> string \<Rightarrow> bool" where
  del_def: "spaces ind \<Longrightarrow> ws \<noteq> [] \<Longrightarrow> spaces ws \<Longrightarrow> is_ident name \<Longrightarrow> spaces ws2 \<Longrightarrow>
    deleted_definition (CHR ''-'' # ind @ ''def'' @ ws @ name @ ws2 @ CHR ''('' # rest) name"
| del_async: "spaces ind \<Longrightarrow> ws0 \<noteq> [] \<Longrightarrow> spaces ws0 \<Longrightarrow> ws \<noteq> [] \<Longrightarrow> spaces ws \<Longrightarrow> is_ident name \<Longrightarrow>
    spaces ws2 \<Longrightarrow>
    deleted_definition
      (CHR ''-'' # ind @ ''async'' @ ws0 @ ''def'' @ ws @ name @ ws2 @ CHR ''('' # rest) name"
| del_class: "spaces ind \<Longrightarrow> ws \<noteq> [] \<Longrightarrow> spaces ws \<Longrightarrow> is_ident name \<Longrightarrow>
    c = CHR '':'' \<or> c = CHR ''('' \<Longrightarrow>
    deleted_definition (CHR ''-'' # ind @ ''class'' @ ws @ name @ c # rest) name"

lemma py_rstrip_keep: "\<not> is_space c \<Longrightarrow> py_rstrip (xs @ c # ys) = xs @ c # py_rstrip ys"
proof -
  assume c: "\<not> is_space c"
  have "dropWhile is_space (rev ys @ c # rev xs) = dropWhile is_space (rev ys) @ c # rev xs"
    using c by (induction "rev ys" rule: rev_induct) (auto simp: dropWhile_append)
  then show ?thesis by (simp add: py_rstrip_def)
qed

lemma py_strip_keep:
  assumes "spaces ind" and "a \<noteq> []" and "\<not> is_space (hd a)" and "\<not> is_space c"
  shows "py_strip (ind @ a @ c # rest) = a @ c # py_rstrip rest"
proof -
  have "py_lstrip (ind @ a @ c # rest) = a @ c # rest"
    using assms by (simp add: py_lstrip_spaces spaces_def list_all_iff) (cases a, auto simp: py_lstrip_def)
  then show ?thesis using assms(4) by (simp add: py_strip_def py_rstrip_keep)
qed

lemma not_header_line:
  assumes "spaces ind" and "a \<noteq> []" and "hd a \<noteq> CHR ''-''"
  shows "\<not> startswith (CHR ''-'' # ind @ a) ''---''"
proof (cases ind)
  case Nil
  then show ?thesis using assms(2,3) by (cases a) auto
next
  case (Cons w ws)
  then have "w \<noteq> CHR ''-''" using assms(1) by (auto simp: spaces_def is_space_def)
  then show ?thesis using Cons by auto
qed

lemma deleted_definition_found:
  assumes "deleted_definition line name"
  shows "deleted_symbol line = Some name"
  using assms
proof cases
  case (del_def ind ws ws2 rest)
  have "py_strip (drop 1 line) = ''def'' @ ws @ name @ ws2 @ CHR ''('' # py_rstrip rest"
    using py_strip_keep[OF del_def(2), of "''def'' @ ws @ name @ ws2" "CHR ''(''" rest] del_def(1) by simp
  moreover have "\<not> startswith line ''---''"
    using not_header_line[OF del_def(2), of "''def'' @ ws @ name @ ws2 @ CHR ''('' # rest"] del_def(1) by simp
  ultimately show ?thesis
    using def_re_match[OF del_def(3-6), of "py_rstrip rest"] del_def(1) by (simp add: deleted_symbol_def)
next
  case (del_async ind ws0 ws ws2 rest)
  have "py_strip (drop 1 line) = ''async'' @ ws0 @ ''def'' @ ws @ name @ ws2 @ CHR ''('' # py_rstrip rest"
    using py_strip_keep[OF del_async(2), of "''async'' @ ws0 @ ''def'' @ ws @ name @ ws2" "CHR ''(''" rest]
      del_async(1) by simp
  moreover have "\<not> startswith line ''---''"
    using not_header_line[OF del_async(2), of "''async'' @ ws0 @ ''def'' @ ws @ name @ ws2 @ CHR ''('' # rest"]
      del_async(1) by simp
  ultimately show ?thesis
    using async_def_re_match[OF del_async(5-8) del_async(3,4), of "py_rstrip rest"] del_async(1)
    by (simp add: deleted_symbol_def)
next
  case (del_class ind ws c rest)
  have c: "\<not> is_space c" using del_class(6) by (auto simp: is_space_def)
  have "py_strip (drop 1 line) = ''class'' @ ws @ name @ c # py_rstrip rest"
    using py_strip_keep[OF del_class(2) _ _ c, of "''class'' @ ws @ name" rest] del_class(1) by simp
  moreover have "\<not> startswith line ''---''"
    using not_header_line[OF del_class(2), of "''class'' @ ws @ name @ c # rest"] del_class(1) by simp
  ultimately show ?thesis
    using class_re_match[OF del_class(3-6), of "py_rstrip rest"] class_not_def del_class(1)
    by (simp add: deleted_symbol_def)
qed

lemma deleted_symbols_complete:
  assumes "line \<in> set (splitlines diff)" and "deleted_definition line name"
  shows "name \<in> extract_deleted_symbols_from_diff diff"
  using assms deleted_definition_found
  by (force simp: extract_deleted_symbols_from_diff_def List.map_filter_def)

section \<open>Functions reported as modified\<close>

text \<open>A function whose definition line is added or deleted stays current until it is reported.\<close>

definition tracked :: "string \<Rightarrow> function_scan \<Rightarrow> bool" where
  "tracked f s \<longleftrightarrow> f \<in> modified s \<or> (current_function s = Some f \<and> has_changes_in_function s)"

lemma commit_tracked:
  "tracked f s \<Longrightarrow> f \<noteq> [] \<Longrightarrow> (has_changes_in_function s \<longrightarrow> cond) \<Longrightarrow> f \<in> modified (commit cond s)"
  by (auto simp: tracked_def commit_def split: option.splits)

lemma scan_step_tracked:
  assumes "tracked f s" and "f \<noteq> []"
  shows "tracked f (scan_step line s)"
proof -
  have e: "f \<in> modified (commit (has_changes_in_function s) s)"
    using commit_tracked[OF assms] by simp
  have h: "f \<in> modified (commit (has_changes_in_function s \<or> pending_decorator_change s) s)"
    using commit_tracked[OF assms] by simp
  have 1: "tracked f (scan_header line s)"
    using h by (auto simp: scan_header_def tracked_def Let_def split: option.splits)
  have 2: "tracked f (scan_change l s)" for l
    using e assms(1) by (auto simp: scan_change_def enter_function_def tracked_def split: option.splits)
  have 3: "tracked f (scan_context l s)" for l
    using e assms(1) by (auto simp: scan_context_def enter_function_def tracked_def split: option.splits)
  show ?thesis using 1 2 3 assms(1) by (simp add: scan_step_def)
qed

lemma scan_steps_tracked: "tracked f s \<Longrightarrow> f \<noteq> [] \<Longrightarrow> tracked f (fold scan_step ls s)"
  by (induction ls arbitrary: s) (auto simp: scan_step_tracked)

lemma scan_changed_def:
  assumes "line = CHR ''+'' # l \<or> line = CHR ''-'' # l"
    and "\<not> startswith line ''+++''" and "\<not> startswith line ''---''"
    and "re_match_group def_re 1 (py_strip l) = Some f"
    and "py_strip l \<noteq> []" and "\<not> startswith (py_strip l) ''#''"
  shows "tracked f (scan_step line s)"
proof -
  have "scan_step line s = scan_change (py_strip l) s"
    using assms(1,2,3) by (auto simp: scan_step_def startswith_any_def)
  also have "\<dots> = enter_function f s" using assms(4,5,6) by (simp add: scan_change_def)
  finally show ?thesis by (simp add: enter_function_def tracked_def)
qed

lemma changed_def_reported:
  assumes "line \<in> set (splitlines diff)"
    and "line = CHR ''+'' # l \<or> line = CHR ''-'' # l"
    and "l = ind @ ''def'' @ ws @ name @ ws2 @ CHR ''('' # rest"
    and "spaces ind" "ws \<noteq> []" "spaces ws" "is_ident name" "spaces ws2"
  shows "name \<in> parse_diff_for_functions diff"
proof -
  obtain before after where sp: "splitlines diff = before @ line # after"
    using assms(1) by (meson split_list)
  have strip: "py_strip l = ''def'' @ ws @ name @ ws2 @ CHR ''('' # py_rstrip rest"
    using py_strip_keep[OF assms(4), of "''def'' @ ws @ name @ ws2" "CHR ''(''" rest] assms(3) by simp
  have "\<not> startswith l ''++''" "\<not> startswith l ''--''"
    using assms(3,4) by (cases ind; auto simp: spaces_def is_space_def)+
  then have nh: "\<not> startswith line ''+++''" "\<not> startswith line ''---''" using assms(2) by auto
  have ne: "name \<noteq> []" using assms(7) by (simp add: is_ident_def)
  have "tracked name (scan_step line (fold scan_step before new_function_scan))"
    by (rule scan_changed_def[OF assms(2) nh])
       (use strip def_re_match[OF assms(5-8)] in auto)
  then have "tracked name (fold scan_step (splitlines diff) new_function_scan)"
    using scan_steps_tracked[OF _ ne] by (simp add: sp)
  then show ?thesis using commit_tracked[OF _ ne] by (simp add: parse_diff_for_functions_def Let_def)
qed

text \<open>Nothing is reported that no hunk header and no definition line names.\<close>

definition names_function :: "string \<Rightarrow> string \<Rightarrow> bool" where
  "names_function line f \<longleftrightarrow> re_search_group hunk_function_re 1 line = Some f \<or>
     re_match_group def_re 1 (py_strip (drop 1 line)) = Some f"

definition reported :: "function_scan \<Rightarrow> string set" where
  "reported s = modified s \<union> set_option (current_function s)"

lemma reported_commit: "reported (commit cond s) \<subseteq> reported s"
  by (auto simp: reported_def commit_def split: option.splits)

lemma modified_commit: "modified (commit cond s) \<subseteq> reported s"
  by (auto simp: reported_def commit_def split: option.splits)

lemma reported_step: "reported (scan_step line s) \<subseteq> reported s \<union> {f. names_function line f}"
proof -
  have 1: "reported (scan_header line s) \<subseteq> reported s \<union> {f. names_function line f}"
    using modified_commit by (auto simp: scan_header_def reported_def names_function_def Let_def split: option.splits)
  have 2: "reported (enter_function f s) \<subseteq> insert f (reported s)" for f
    using modified_commit[of "has_changes_in_function s" s]
    by (auto simp: enter_function_def reported_def)
  have 3: "reported (scan_change (py_strip (drop 1 line)) s) \<subseteq> reported s \<union> {f. names_function line f}"
  proof (cases "re_match_group def_re 1 (py_strip (drop 1 line))")
    case None
    then show ?thesis by (auto simp: scan_change_def reported_def)
  next
    case (Some f)
    then show ?thesis using 2[of f] by (auto simp: scan_change_def names_function_def)
  qed
  have 4: "reported (scan_context (py_strip (drop 1 line)) s) \<subseteq> reported s \<union> {f. names_function line f}"
  proof (cases "re_match_group def_re 1 (py_strip (drop 1 line))")
    case None
    then show ?thesis by (auto simp: scan_context_def)
  next
    case (Some f)
    then show ?thesis using 2[of f] by (auto simp: scan_context_def names_function_def)
  qed
  show ?thesis using 1 3 4 by (auto simp: scan_step_def)
qed

lemma parse_functions_sound:
  assumes "f \<in> parse_diff_for_functions diff"
  shows "\<exists>line \<in> set (splitlines diff). names_function line f"
proof -
  have "reported (fold scan_step ls s) \<subseteq> reported s \<union> {f. \<exists>l \<in> set ls. names_function l f}" for ls s
  proof (induction ls arbitrary: s)
    case (Cons l ls)
    show ?case using Cons[of "scan_step l s"] reported_step[of l s] by auto
  qed simp
  from this[of "splitlines diff" new_function_scan] modified_commit assms show ?thesis
    by (fastforce simp: parse_diff_for_functions_def Let_def reported_def new_function_scan_def)
qed

end
