(* ===== verification/StagedDiff.thy ===== *)
theory StagedDiff
  imports DiffParse PyPath
begin

text \<open>
  How the policy hook reads Git (\<open>scripts/pre_commit_hooks/check_policy.py\<close>): the C-style
  quoting of paths, the headers of \<open>git diff\<close>, the added lines of every staged file, and the
  NUL-separated records of \<open>--name-status -z\<close> and \<open>ls-files --stage -z\<close>.

  A \<open>str\<close> that Git produced is represented here by its file-system bytes: encoding and
  decoding with \<open>surrogateescape\<close> are inverse to each other on it, and the characters the code
  looks for are ASCII, so reading the bytes one by one finds the same ones.
\<close>

section \<open>Paths\<close>

text \<open>The parts of \<open>Path(s)\<close>; a root is a part of its own, and exactly two slashes are a root too.\<close>

definition py_path :: "string \<Rightarrow> path" where
  "py_path s =
     (if startswith s ''//'' \<and> \<not> startswith s ''///'' then ''//'' # parts_of s
      else if startswith s ''/'' then ''/'' # parts_of s else parts_of s)"

definition path_str :: "path \<Rightarrow> string" where
  "path_str p =
     (case p of
        [] \<Rightarrow> ''.''
      | r # rest \<Rightarrow> if r = ''/'' \<or> r = ''//'' then r @ py_join ''/'' rest else py_join ''/'' p)"

section \<open>Quoted paths\<close>

definition quote_char :: char where "quote_char = CHR 0x22"
definition backslash :: char where "backslash = CHR 0x5C"

definition GIT_SIMPLE_ESCAPES :: "(char \<times> char) list" where
  "GIT_SIMPLE_ESCAPES =
     [(CHR ''a'', CHR 0x07), (CHR ''b'', CHR 0x08), (CHR ''f'', CHR 0x0C), (CHR ''n'', CHR 0x0A),
      (CHR ''r'', CHR 0x0D), (CHR ''t'', CHR 0x09), (CHR ''v'', CHR 0x0B), (CHR 0x5C, CHR 0x5C),
      (CHR 0x22, CHR 0x22)]"

definition is_octal :: "char \<Rightarrow> bool" where
  "is_octal c \<longleftrightarrow> c \<in> set ''01234567''"

definition octal_value :: "string \<Rightarrow> nat" where
  "octal_value ds = foldl (\<lambda>n d. 8 * n + digit_value d) 0 ds"

text \<open>
  The loop over the quoted body. Appending a value above 255 to the byte array raises; a
  backslash at the end stands for itself.
\<close>

function unquote_body :: "string \<Rightarrow> string res" where
  "unquote_body [] = Inr []"
| "unquote_body (c # cs) =
     (if c \<noteq> backslash then bind_res (unquote_body cs) (\<lambda>r. Inr (c # r))
      else (case cs of
              [] \<Rightarrow> Inr [backslash]
            | e # rest \<Rightarrow>
                (case map_of GIT_SIMPLE_ESCAPES e of
                   Some b \<Rightarrow> bind_res (unquote_body rest) (\<lambda>r. Inr (b # r))
                 | None \<Rightarrow>
                     if is_octal e then
                       (let more = takeWhile is_octal (take 2 rest);
                            n = octal_value (e # more)
                        in if n < 256
                           then bind_res (unquote_body (drop (length more) rest)) (\<lambda>r. Inr (char_of n # r))
                           else Inl ValueError)
                     else bind_res (unquote_body rest) (\<lambda>r. Inr (backslash # e # r)))))"
  by pat_completeness auto
termination
  by (relation "measure length") auto

definition git_unquote :: "string \<Rightarrow> string res" where
  "git_unquote quoted =
     (if startswith quoted [quote_char] \<and> endswith quoted [quote_char]
      then unquote_body (butlast (drop 1 quoted)) else Inr quoted)"

function quoted_from :: "string \<Rightarrow> string \<Rightarrow> (string \<times> string) option" where
  "quoted_from done [] = None"
| "quoted_from done (c # cs) =
     (if c = backslash
      then (case cs of [] \<Rightarrow> None | d # ds \<Rightarrow> quoted_from (done @ [c, d]) ds)
      else if c = quote_char then Some (done @ [c], cs)
      else quoted_from (done @ [c]) cs)"
  by pat_completeness auto
termination
  by (relation "measure (\<lambda>(a, b). length b)") auto

definition git_quoted_token :: "string \<Rightarrow> (string \<times> string) option" where
  "git_quoted_token text = quoted_from (take 1 text) (drop 1 text)"

definition git_header_token :: "string \<Rightarrow> (string \<times> string) option" where
  "git_header_token text =
     (if startswith text [quote_char] then git_quoted_token text
      else if CHR '' '' \<notin> set text then Some (text, [])
      else Some (takeWhile (\<lambda>c. c \<noteq> CHR '' '') text, drop 1 (dropWhile (\<lambda>c. c \<noteq> CHR '' '') text)))"

definition diff_git :: string where "diff_git = ''diff --git ''"

definition diff_header_path :: "string \<Rightarrow> path option res" where
  "diff_header_path diff_line =
     (if \<not> startswith diff_line diff_git then Inr None
      else (case git_header_token (drop (length diff_git) diff_line) of
              None \<Rightarrow> Inr None
            | Some (first_token, first_remainder) \<Rightarrow>
                if startswith first_token [quote_char] \<and> \<not> startswith first_remainder '' '' then Inr None
                else (case git_header_token
                        (if startswith first_token [quote_char] then drop 1 first_remainder else first_remainder) of
                        None \<Rightarrow> Inr None
                      | Some (second_token, trailing) \<Rightarrow>
                          if trailing \<noteq> [] then Inr None
                          else bind_res (git_unquote second_token) (\<lambda>right.
                            Inr (if startswith right ''b/'' then Some (py_path (drop 2 right)) else None)))))"

section \<open>Added lines of a staged diff\<close>

definition HUNK_HEADER :: regex where
  "HUNK_HEADER =
     RSeqs [RBegin, RLit ''@@ -'', RPlus RDigit, ROpt (RSeq (RLit '','') (RPlus RDigit)), RLit '' +'',
            RGroup 1 (RPlus RDigit), ROpt (RSeq (RLit '','') (RGroup 2 (RPlus RDigit))), RLit '' @@'']"

record diff_state =
  current_path :: "path option"
  current_line :: "nat option"
  in_hunk :: bool

type_synonym line_dict = "(path \<times> nat set) list"

definition setdefault :: "'k \<Rightarrow> 'v \<Rightarrow> ('k \<times> 'v) list \<Rightarrow> ('k \<times> 'v) list" where
  "setdefault k v d = (if map_of d k = None then AList.update k v d else d)"

definition note_path :: "path option \<Rightarrow> line_dict \<Rightarrow> line_dict" where
  "note_path p d = (case p of None \<Rightarrow> d | Some q \<Rightarrow> setdefault q {} d)"

definition process_diff_control_line ::
    "string \<Rightarrow> path option \<Rightarrow> diff_state \<times> line_dict \<Rightarrow> (bool \<times> diff_state \<times> line_dict) res" where
  "process_diff_control_line diff_line path sd =
     (let (s, d) = sd
      in if startswith diff_line diff_git then
           bind_res (case path of Some p \<Rightarrow> Inr (Some p) | None \<Rightarrow> diff_header_path diff_line) (\<lambda>p.
             Inr (True, \<lparr>current_path = p, current_line = None, in_hunk = False\<rparr>, note_path p d))
         else if \<not> in_hunk s \<and> startswith diff_line ''+++ '' then
           (let p = (if path = None \<and> current_path s = None \<and> startswith diff_line ''+++ b/''
                     then Some (py_path (drop 6 diff_line)) else current_path s)
            in Inr (True, s\<lparr>current_path := p, current_line := None\<rparr>, note_path p d))
         else (case re_match_group HUNK_HEADER 1 diff_line of
                 Some ds \<Rightarrow> Inr (True, s\<lparr>current_line := Some (py_int ds), in_hunk := True\<rparr>, d)
               | None \<Rightarrow> Inr (False, s, d)))"

definition process_diff_line ::
    "path option \<Rightarrow> string \<Rightarrow> diff_state \<times> line_dict \<Rightarrow> (diff_state \<times> line_dict) res" where
  "process_diff_line path diff_line sd =
     bind_res (process_diff_control_line diff_line path sd) (\<lambda>(control, s, d).
       if control then Inr (s, d)
       else (case (current_path s, current_line s) of
               (Some p, Some n) \<Rightarrow>
                 if startswith diff_line [backslash] then Inr (s, d)
                 else bind_res
                   (if startswith diff_line ''+''
                    then (case map_of d p of
                            None \<Rightarrow> Inl KeyError
                          | Some ns \<Rightarrow> Inr (AList.update p (insert n ns) d))
                    else Inr d)
                   (\<lambda>d'. Inr (if startswith diff_line ''-'' then s else s\<lparr>current_line := Some (Suc n)\<rparr>, d'))
             | _ \<Rightarrow> Inr (s, d)))"

fun process_diff_lines ::
    "path option \<Rightarrow> string list \<Rightarrow> diff_state \<times> line_dict \<Rightarrow> (diff_state \<times> line_dict) res" where
  "process_diff_lines path [] sd = Inr sd"
| "process_diff_lines path (l # ls) sd =
     bind_res (process_diff_line path l sd) (process_diff_lines path ls)"

definition added_lines_by_path :: "string \<Rightarrow> path option \<Rightarrow> line_dict res" where
  "added_lines_by_path diff path =
     bind_res (process_diff_lines path (py_split newline diff)
        (\<lparr>current_path = path, current_line = None, in_hunk = False\<rparr>,
         (case path of None \<Rightarrow> [] | Some p \<Rightarrow> [(p, {})])))
       (\<lambda>(s, d). Inr d)"

section \<open>Staged entries\<close>

definition nul :: string where "nul = [CHR 0x00]"

record staged_entry =
  se_status :: char
  se_path :: path
  head_path :: "path option"
  source_path :: "path option"

text \<open>One field per status and path; reading past the last field raises.\<close>

function staged_entries_of :: "string list \<Rightarrow> staged_entry list res" where
  "staged_entries_of [] = Inr []"
| "staged_entries_of (status # paths) =
     (case paths of
        [] \<Rightarrow> Inl IndexError
      | first # rest \<Rightarrow>
          if hd status = CHR ''R'' \<or> hd status = CHR ''C'' then
            (case rest of
               [] \<Rightarrow> Inl IndexError
             | second # rest' \<Rightarrow>
                 bind_res (staged_entries_of rest') (\<lambda>es.
                   Inr (\<lparr>se_status = hd status, se_path = py_path second,
                         head_path = (if hd status = CHR ''R'' then Some (py_path first) else None),
                         source_path = Some (py_path first)\<rparr> # es)))
          else bind_res (staged_entries_of rest) (\<lambda>es.
                 Inr (\<lparr>se_status = hd status, se_path = py_path first,
                       head_path = (if hd status = CHR ''A'' then None else Some (py_path first)),
                       source_path = None\<rparr> # es)))"
  by pat_completeness auto
termination
  by (relation "measure length") auto

definition parse_staged_entries :: "string \<Rightarrow> staged_entry list res" where
  "parse_staged_entries status_output =
     staged_entries_of (filter (\<lambda>f. f \<noteq> []) (py_split nul status_output))"

definition renamed_away :: "staged_entry list \<Rightarrow> path set" where
  "renamed_away es = {p. \<exists>e \<in> set es. se_status e = CHR ''R'' \<and> head_path e = Some p}"

definition parse_staged_status :: "string \<Rightarrow> path set res" where
  "parse_staged_status status_output =
     bind_res (parse_staged_entries status_output) (\<lambda>es.
       Inr (se_path ` {e \<in> set es. se_status e = CHR ''D''} \<union> renamed_away es))"

text \<open>Records without a tab, the empty one after the last NUL among them, are skipped.\<close>

definition stage_record :: "string \<Rightarrow> (string \<times> path) option" where
  "stage_record r =
     map_option (\<lambda>(metadata, raw_path). (hd (py_split '' '' metadata), py_path raw_path))
       (partition_at [CHR 0x09] r)"

definition parse_index_stage_records :: "string \<Rightarrow> (string \<times> path) list" where
  "parse_index_stage_records output = List.map_filter stage_record (py_split nul output)"

section \<open>Reading back quoted paths\<close>

text \<open>
  The bodies that stand for a text between double quotes: a character stands for itself or
  is escaped by its letter or by three octal digits. Git writes such a body for every path
  that it quotes.
\<close>

definition octal_digits :: "nat \<Rightarrow> string" where
  "octal_digits n = [digit_char (n div 64), digit_char (n div 8 mod 8), digit_char (n mod 8)]"

inductive c_quotes :: "string \<Rightarrow> string \<Rightarrow> bool" where
  cq_nil: "c_quotes [] []"
| cq_plain: "c \<noteq> backslash \<Longrightarrow> c \<noteq> quote_char \<Longrightarrow> c_quotes r b \<Longrightarrow> c_quotes (c # r) (c # b)"
| cq_simple: "map_of GIT_SIMPLE_ESCAPES e = Some c \<Longrightarrow> c_quotes r b \<Longrightarrow> c_quotes (c # r) (backslash # e # b)"
| cq_octal: "c_quotes r b \<Longrightarrow> c_quotes (c # r) (backslash # octal_digits (of_char c) @ b)"

lemma octal_digit:
  assumes "d < 8"
  shows "is_octal (digit_char d) \<and> map_of GIT_SIMPLE_ESCAPES (digit_char d) = None"
proof -
  have "d = 0 \<or> d = 1 \<or> d = 2 \<or> d = 3 \<or> d = 4 \<or> d = 5 \<or> d = 6 \<or> d = 7" using assms by linarith
  then show ?thesis by (elim disjE; simp only:; code_simp)
qed

lemma octal_digits_value:
  assumes "n < 256"
  shows "octal_value (octal_digits n) = n"
proof -
  have "n div 64 < 8" using assms by (simp add: less_mult_imp_div_less)
  moreover have "n div 8 mod 8 < 8" "n mod 8 < 8" by simp_all
  moreover have "n div 64 = n div 8 div 8" by (simp add: div_mult2_eq[symmetric])
  moreover have "8 * (8 * (n div 8 div 8) + n div 8 mod 8) + n mod 8 = n" by (simp only: mult_div_mod_eq)
  ultimately show ?thesis by (simp add: octal_value_def octal_digits_def digit_value_char)
qed

lemma octal_char: "octal_value (octal_digits (of_char (c :: char))) = of_char c"
  by (rule octal_digits_value) simp

lemma octal_takeWhile:
  assumes "n < 256"
  shows "\<exists>d1 d2 d3. octal_digits n = [d1, d2, d3] \<and> is_octal d1 \<and> is_octal d2 \<and> is_octal d3 \<and>
    map_of GIT_SIMPLE_ESCAPES d1 = None"
  using octal_digit[of "n div 64", OF less_mult_imp_div_less] octal_digit[of "n div 8 mod 8"]
    octal_digit[of "n mod 8"] assms
  by (auto simp: octal_digits_def)

lemma unquote_c_quotes: "c_quotes r b \<Longrightarrow> unquote_body b = Inr r"
proof (induction rule: c_quotes.induct)
  case (cq_octal r b c)
  obtain d1 d2 d3 where d: "octal_digits (of_char c) = [d1, d2, d3]" "is_octal d1" "is_octal d2" "is_octal d3"
    "map_of GIT_SIMPLE_ESCAPES d1 = None"
    using octal_takeWhile[of "of_char c"] by auto
  then have "octal_value [d1, d2, d3] = of_char c" using octal_char[of c] by simp
  then show ?case using d cq_octal.IH by (simp add: Let_def)
qed simp_all

lemma quoted_from_c_quotes:
  "c_quotes r b \<Longrightarrow> quoted_from dn (b @ quote_char # rest) = Some (dn @ b @ [quote_char], rest)"
proof (induction arbitrary: dn rule: c_quotes.induct)
  case (cq_octal r b c)
  obtain d1 d2 d3 where d: "octal_digits (of_char c) = [d1, d2, d3]" "is_octal d1" "is_octal d2" "is_octal d3"
    using octal_takeWhile[of "of_char c"] by auto
  then have "d2 \<noteq> backslash" "d2 \<noteq> quote_char" "d3 \<noteq> backslash" "d3 \<noteq> quote_char"
    by (auto simp: is_octal_def backslash_def quote_char_def)
  then show ?case using d cq_octal.IH by simp
qed (simp_all add: backslash_def quote_char_def)

text \<open>A path token of a header: quoted, or bare when it has no space and no quote in front.\<close>

inductive git_token :: "string \<Rightarrow> string \<Rightarrow> bool" where
  token_quoted: "c_quotes r b \<Longrightarrow> git_token r (quote_char # b @ [quote_char])"
| token_bare: "CHR '' '' \<notin> set r \<Longrightarrow> \<not> startswith r [quote_char] \<Longrightarrow> git_token r r"

lemma unquote_token: "git_token r t \<Longrightarrow> git_unquote t = Inr r"
  by (induction rule: git_token.induct) (auto simp: git_unquote_def unquote_c_quotes endswith_def)

lemma header_token_last: "git_token r t \<Longrightarrow> git_header_token t = Some (t, [])"
proof (induction rule: git_token.induct)
  case (token_quoted r b)
  then show ?case
    using quoted_from_c_quotes[of r b "[quote_char]" "[]"] by (simp add: git_header_token_def git_quoted_token_def)
qed (simp add: git_header_token_def)

lemma header_token_first:
  assumes "git_token r t"
  shows "git_header_token (t @ '' '' @ s) = Some (t, if startswith t [quote_char] then '' '' @ s else s)"
  using assms
proof (induction rule: git_token.induct)
  case (token_quoted r b)
  then show ?case
    using quoted_from_c_quotes[of r b "[quote_char]" "'' '' @ s"]
    by (simp add: git_header_token_def git_quoted_token_def)
next
  case (token_bare r)
  then have "\<not> startswith (r @ '' '' @ s) [quote_char]" by (cases r) (auto simp: quote_char_def)
  moreover have "takeWhile (\<lambda>c. c \<noteq> CHR '' '') (r @ '' '' @ s) = r" "dropWhile (\<lambda>c. c \<noteq> CHR '' '') (r @ '' '' @ s) = '' '' @ s"
    using token_bare by (auto simp: takeWhile_append dropWhile_append)
  ultimately show ?case using token_bare by (simp add: git_header_token_def)
qed

lemma header_path_tokens:
  assumes "git_token a ta" and "git_token (''b/'' @ p) tb"
  shows "diff_header_path (diff_git @ ta @ '' '' @ tb) = Inr (Some (py_path p))"
  using header_token_first[OF assms(1)] header_token_last[OF assms(2)] unquote_token[OF assms(2)]
  by (simp add: diff_header_path_def)

text \<open>An unquoted path with a space ends too early: the header is not resolved.\<close>

lemma spaced_header_unresolved:
  assumes "CHR '' '' \<in> set p" and "quote_char \<notin> set p"
  shows "diff_header_path (diff_git @ ''a/'' @ p @ '' b/'' @ p) = Inr None"
proof -
  let ?sp = "\<lambda>c. c \<noteq> CHR '' ''"
  from assms(1) obtain u v where p: "p = u @ CHR '' '' # v" "CHR '' '' \<notin> set u"
    by (auto dest: split_list_first)
  have u: "\<And>c. c \<in> set u \<Longrightarrow> c \<noteq> CHR '' ''" using p(2) by auto
  let ?rest = "v @ '' b/'' @ p"
  have 1: "git_header_token (''a/'' @ p @ '' b/'' @ p) = Some (''a/'' @ u, ?rest)"
    using p u by (simp add: git_header_token_def quote_char_def takeWhile_append dropWhile_append)
  have "length (dropWhile ?sp ?rest) \<ge> 2"
    by (simp add: dropWhile_append)
  then obtain x y zs where "dropWhile ?sp ?rest = x # y # zs"
    by (metis One_nat_def Suc_1 Suc_le_length_iff)
  then have "\<exists>t. t \<noteq> [] \<and> git_header_token ?rest = Some (takeWhile ?sp ?rest, t)"
    using assms(2) p by (cases v) (auto simp: git_header_token_def quote_char_def)
  then show ?thesis
    using 1 by (auto simp: diff_header_path_def quote_char_def)
qed

section \<open>Reading back staged entries\<close>

text \<open>The output of \<open>--name-status -z\<close>: a status and one or two paths, each ended by NUL.\<close>

datatype name_status = One char string | Two char string string string

fun status_fields :: "name_status \<Rightarrow> string list" where
  "status_fields (One s p) = [[s], p]"
| "status_fields (Two s score p q) = [s # score, p, q]"

fun status_entry :: "name_status \<Rightarrow> staged_entry" where
  "status_entry (One s p) =
     \<lparr>se_status = s, se_path = py_path p, head_path = (if s = CHR ''A'' then None else Some (py_path p)),
      source_path = None\<rparr>"
| "status_entry (Two s score p q) =
     \<lparr>se_status = s, se_path = py_path q, head_path = (if s = CHR ''R'' then Some (py_path p) else None),
      source_path = Some (py_path p)\<rparr>"

definition nul_free :: "string \<Rightarrow> bool" where
  "nul_free s \<longleftrightarrow> s \<noteq> [] \<and> CHR 0x00 \<notin> set s"

fun status_ok :: "name_status \<Rightarrow> bool" where
  "status_ok (One s p) \<longleftrightarrow> s \<notin> {CHR 0x00, CHR ''R'', CHR ''C''} \<and> nul_free p"
| "status_ok (Two s score p q) \<longleftrightarrow>
     s \<in> {CHR ''R'', CHR ''C''} \<and> CHR 0x00 \<notin> set score \<and> nul_free p \<and> nul_free q"

lemma staged_entries_fields:
  "list_all status_ok es \<Longrightarrow> staged_entries_of (concat (map status_fields es)) = Inr (map status_entry es)"
proof (induction es)
  case (Cons e es)
  then show ?case by (cases e) auto
qed simp

lemma staged_entries_roundtrip:
  assumes "list_all status_ok es"
  shows "parse_staged_entries (concat (map (\<lambda>f. f @ nul) (concat (map status_fields es)))) = Inr (map status_entry es)"
proof -
  have ok: "CHR 0x00 \<notin> set f \<and> f \<noteq> []" if "f \<in> set (concat (map status_fields es))" for f
  proof -
    from that obtain e where "e \<in> set es" "f \<in> set (status_fields e)" by auto
    with assms show ?thesis by (cases e) (auto simp: list_all_iff nul_free_def)
  qed
  have "py_split nul (concat (map (\<lambda>f. f @ nul) (concat (map status_fields es)))) = concat (map status_fields es) @ [[]]"
    unfolding nul_def by (rule py_split_ended) (use ok in blast)
  moreover have "filter (\<lambda>f. f \<noteq> []) (concat (map status_fields es)) = concat (map status_fields es)"
    by (rule filter_True) (use ok in blast)
  ultimately show ?thesis
    using staged_entries_fields[OF assms] by (simp add: parse_staged_entries_def)
qed

section \<open>Reading back the added lines\<close>

text \<open>
  A staged diff: for every file its header line, further lines before the first hunk, and
  hunks. As Git prints them, a range of one line has no count.
\<close>

record file_diff =
  fd_header :: string
  fd_path :: path
  fd_meta :: "string list"
  fd_hunks :: "hunk list"

definition show_range :: "nat \<Rightarrow> nat \<Rightarrow> string" where
  "show_range n c = show_nat n @ (if c = 1 then [] else '','' @ show_nat c)"

definition hunk_header :: "hunk \<Rightarrow> string" where
  "hunk_header h =
     ''@@ -'' @ show_range (old_start h) (old_count h) @ '' +'' @
     show_range (new_start h) (new_count h) @ '' @@'' @ section_text h"

definition hunk_text :: "hunk \<Rightarrow> string list" where
  "hunk_text h = hunk_header h # map show_line (hunk_lines h)"

definition file_text :: "file_diff \<Rightarrow> string list" where
  "file_text f = fd_header f # fd_meta f @ concat (map hunk_text (fd_hunks f))"

definition staged_text :: "file_diff list \<Rightarrow> string" where
  "staged_text fs = concat (map (\<lambda>l. l @ newline) (concat (map file_text fs)))"

definition meta_line :: "string \<Rightarrow> bool" where
  "meta_line l \<longleftrightarrow> \<not> startswith l diff_git \<and> \<not> startswith l ''@''"

text \<open>
  The text Git prints for a file: the header names the old and the new path, each bare and without a
  space or between quotes with escapes; up to the first hunk no line starts another file or hunk.
\<close>

definition file_diff_ok :: "file_diff \<Rightarrow> bool" where
  "file_diff_ok f \<longleftrightarrow>
     (\<exists>old_path old_token new_path new_token.
        fd_header f = diff_git @ old_token @ '' '' @ new_token \<and> fd_path f = py_path new_path \<and>
        git_token old_path old_token \<and> git_token (''b/'' @ new_path) new_token) \<and>
     list_all meta_line (fd_meta f) \<and> (\<forall>l \<in> set (file_text f). CHR 0x0A \<notin> set l)"

lemma file_diff_header:
  assumes "file_diff_ok f"
  shows "startswith (fd_header f) diff_git" and "diff_header_path (fd_header f) = Inr (Some (fd_path f))"
proof -
  obtain a ta p tb where h: "fd_header f = diff_git @ ta @ '' '' @ tb" "fd_path f = py_path p"
    and t: "git_token a ta" "git_token (''b/'' @ p) tb"
    using assms unfolding file_diff_ok_def by blast
  show "startswith (fd_header f) diff_git" unfolding h(1) by (simp add: startswith_def)
  show "diff_header_path (fd_header f) = Inr (Some (fd_path f))" unfolding h by (rule header_path_tokens[OF t])
qed

definition file_added :: "file_diff \<Rightarrow> nat set" where
  "file_added f = (\<Union>h \<in> set (fd_hunks f). added_lines (new_start h) (hunk_lines h))"

lemma first_number:
  assumes "rest \<noteq> []" and "\<not> is_digit (hd rest)"
  shows "first_match (RPlus RDigit) (pre, show_nat n @ rest, g) (rev (show_nat n) @ pre, rest, g)"
  by (rule first_digits) (use assms show_nat_nonempty show_nat_digits in auto)

lemma first_count:
  assumes "\<And>pre n s. first_match r (pre, show_nat n @ CHR '' '' # s, g) (rev (show_nat n) @ pre, CHR '' '' # s, f n)"
  shows "first_match (ROpt (RSeq (RLit '','') r)) (pre, (if c = 1 then [] else '','' @ show_nat c) @ CHR '' '' # s, g)
     (rev (if c = 1 then [] else '','' @ show_nat c) @ pre, CHR '' '' # s, if c = 1 then g else f c)"
proof (cases "c = 1")
  case True
  then show ?thesis by (auto simp: ROpt_def rmatch_lit intro!: first_alt2 first_empty)
next
  case False
  have "first_match (RSeq (RLit '','') r) (pre, '','' @ show_nat c @ CHR '' '' # s, g)
      (rev (show_nat c) @ rev '','' @ pre, CHR '' '' # s, f c)"
    by (rule first_seq[OF first_lit]) (rule assms)
  then show ?thesis using False by (simp add: ROpt_def first_alt1)
qed

lemma first_range:
  "first_match (RSeq (RPlus RDigit) (ROpt (RSeq (RLit '','') (RPlus RDigit)))) (pre, show_range n c @ CHR '' '' # s, g)
     (rev (show_range n c) @ pre, CHR '' '' # s, g)"
proof -
  have "first_match (RPlus RDigit) (pre, show_range n c @ CHR '' '' # s, g)
      (rev (show_nat n) @ pre, (if c = 1 then [] else '','' @ show_nat c) @ CHR '' '' # s, g)"
    unfolding show_range_def append_assoc by (rule first_number) auto
  moreover note first_count[of "RPlus RDigit" g "\<lambda>_. g" "rev (show_nat n) @ pre" c s, OF first_number]
  ultimately show ?thesis by (auto simp: show_range_def intro!: first_seq split: if_splits)
qed

lemma first_grouped_range:
  "\<exists>g'. first_match (RSeq (RGroup 1 (RPlus RDigit)) (ROpt (RSeq (RLit '','') (RGroup 2 (RPlus RDigit)))))
     (pre, show_range n c @ CHR '' '' # s, g) (rev (show_range n c) @ pre, CHR '' '' # s, g') \<and>
     map_of g' 1 = Some (show_nat n)"
proof -
  let ?g = "(1, show_nat n) # g"
  have "first_match (RGroup 1 (RPlus RDigit)) (pre, show_range n c @ CHR '' '' # s, g)
      (rev (show_nat n) @ pre, (if c = 1 then [] else '','' @ show_nat c) @ CHR '' '' # s, ?g)"
    unfolding show_range_def append_assoc by (rule first_group, rule first_number) auto
  moreover have "first_match (ROpt (RSeq (RLit '','') (RGroup 2 (RPlus RDigit))))
      (rev (show_nat n) @ pre, (if c = 1 then [] else '','' @ show_nat c) @ CHR '' '' # s, ?g)
      (rev (if c = 1 then [] else '','' @ show_nat c) @ rev (show_nat n) @ pre, CHR '' '' # s,
       if c = 1 then ?g else (2, show_nat c) # ?g)"
    by (rule first_count) (rule first_group, rule first_number, auto)
  ultimately show ?thesis
    by (intro exI[of _ "if c = 1 then ?g else (2, show_nat c) # ?g"])
       (auto simp: show_range_def intro!: first_seq split: if_splits)
qed

lemma first_seq_assoc:
  assumes "first_match (RSeq a b) st s1" and "first_match c s1 s2"
  shows "first_match (RSeq a (RSeq b c)) st s2"
proof -
  have "concat (map f (concat (map g xs))) = concat (map (\<lambda>x. concat (map f (g x))) xs)"
    for f :: "rstate \<Rightarrow> rstate list" and g :: "rstate \<Rightarrow> rstate list" and xs
    by (induction xs) auto
  moreover have "rmatch (RSeq b c) = (\<lambda>x. concat (map (rmatch c) (rmatch b x)))" by (rule ext) simp
  ultimately have "rmatch (RSeq a (RSeq b c)) st = rmatch (RSeq (RSeq a b) c) st" by simp
  then show ?thesis using first_seq[OF assms] by (simp only: first_match_def)
qed

lemma match_hunk_header: "re_match_group HUNK_HEADER 1 (hunk_header h) = Some (show_nat (new_start h))"
proof -
  let ?old = "show_range (old_start h) (old_count h)" and ?new = "show_range (new_start h) (new_count h)"
  let ?rest = "''@@'' @ section_text h"
  obtain g where g: "first_match (RSeq (RGroup 1 (RPlus RDigit)) (ROpt (RSeq (RLit '','') (RGroup 2 (RPlus RDigit)))))
      (rev '' +'' @ rev ?old @ rev ''@@ -'' @ [], ?new @ CHR '' '' # ?rest, [])
      (rev ?new @ rev '' +'' @ rev ?old @ rev ''@@ -'' @ [], CHR '' '' # ?rest, g)"
    "map_of g 1 = Some (show_nat (new_start h))"
    using first_grouped_range by blast
  have tail: "first_match (RSeq (RLit '' @@'') REmpty) (pre, CHR '' '' # ?rest, g) (rev '' @@'' @ pre, section_text h, g)" for pre
    by (simp add: first_match_def rmatch_lit)
  have "first_match HUNK_HEADER ([], ''@@ -'' @ ?old @ '' +'' @ ?new @ CHR '' '' # ?rest, [])
      (rev '' @@'' @ rev ?new @ rev '' +'' @ rev ?old @ rev ''@@ -'' @ [], section_text h, g)"
    unfolding HUNK_HEADER_def RSeqs.simps
    by (rule first_seq[OF _ first_seq[OF first_lit first_seq_assoc[OF _ first_seq[OF first_lit first_seq_assoc[OF g(1) tail]]]]])
       (simp add: first_match_def, simp only: append_Cons append_Nil, rule first_range)
  then have "re_match_group HUNK_HEADER 1 (''@@ -'' @ ?old @ '' +'' @ ?new @ CHR '' '' # ?rest) = map_of g 1"
    by (rule re_match_group_first)
  then show ?thesis using g(2) by (simp add: hunk_header_def)
qed

lemma no_hunk_header: "\<not> startswith l ''@'' \<Longrightarrow> re_match_group HUNK_HEADER n l = None"
  by (cases l) (auto simp: re_match_group_def re_match_def HUNK_HEADER_def rmatch_lit)

lemma process_append:
  "process_diff_lines path (xs @ ys) sd = bind_res (process_diff_lines path xs sd) (process_diff_lines path ys)"
  by (induction xs arbitrary: sd) (auto simp: bind_res_def split: sum.splits)

text \<open>The dictionary after the lines \<open>new\<close> of the file \<open>p\<close> were added.\<close>

definition adds :: "path \<Rightarrow> nat set \<Rightarrow> line_dict \<Rightarrow> line_dict \<Rightarrow> bool" where
  "adds p new d d' \<longleftrightarrow>
     (\<forall>q. map_of d' q = (if q = p then Some ((case map_of d p of None \<Rightarrow> {} | Some ns \<Rightarrow> ns) \<union> new) else map_of d q))"

lemma adds_none: "map_of d p \<noteq> None \<Longrightarrow> adds p {} d d"
  by (auto simp: adds_def)

lemma adds_note: "adds p {} d (note_path (Some p) d)"
  by (auto simp: adds_def note_path_def setdefault_def update_conv split: option.splits)

lemma adds_insert: "map_of d p = Some ns \<Longrightarrow> adds p {n} d (AList.update p (insert n ns) d)"
  by (auto simp: adds_def update_conv)

lemma adds_trans: "adds p A d d1 \<Longrightarrow> adds p B d1 d2 \<Longrightarrow> adds p (A \<union> B) d d2"
  by (auto simp: adds_def split: option.splits)

lemma adds_has: "adds p A d d' \<Longrightarrow> \<exists>ns. map_of d' p = Some ns"
  by (auto simp: adds_def)

lemma process_lines:
  assumes "current_path s = Some p" and "current_line s = Some n" and "in_hunk s" and "map_of d p \<noteq> None"
  shows "\<exists>m d'. process_diff_lines None (map show_line ls) (s, d) = Inr (s\<lparr>current_line := Some m\<rparr>, d') \<and>
     adds p (added_lines n ls) d d'"
  using assms
proof (induction ls arbitrary: s n d)
  case Nil
  then have "s\<lparr>current_line := Some n\<rparr> = s" by simp
  then show ?case using Nil adds_none[of d p] by (intro exI[of _ n] exI[of _ d]) simp
next
  case (Cons l ls)
  obtain ns where ns: "map_of d p = Some ns" using Cons.prems by auto
  have step: "process_diff_line None (show_line l) (s, d) = Inr
     (case l of Add t \<Rightarrow> (s\<lparr>current_line := Some (Suc n)\<rparr>, AList.update p (insert n ns) d)
      | Ctx t \<Rightarrow> (s\<lparr>current_line := Some (Suc n)\<rparr>, d) | _ \<Rightarrow> (s, d))"
    using Cons.prems ns
    by (cases l) (simp_all add: process_diff_line_def process_diff_control_line_def diff_git_def no_hunk_header backslash_def)
  show ?case
  proof (cases l)
    case (Add t)
    note a = adds_insert[OF ns, of n]
    obtain m d' where "process_diff_lines None (map show_line ls)
        (s\<lparr>current_line := Some (Suc n)\<rparr>, AList.update p (insert n ns) d) =
        Inr (s\<lparr>current_line := Some (Suc n), current_line := Some m\<rparr>, d')"
      "adds p (added_lines (Suc n) ls) (AList.update p (insert n ns) d) d'"
      using Cons.IH[of "s\<lparr>current_line := Some (Suc n)\<rparr>" "Suc n" "AList.update p (insert n ns) d"] Cons.prems adds_has[OF a]
      by auto
    with adds_trans[OF a] show ?thesis using step Add by auto
  next
    case (Ctx t)
    from Cons.IH[of "s\<lparr>current_line := Some (Suc n)\<rparr>" "Suc n" d] Cons.prems
    show ?thesis using step Ctx by auto
  qed (use Cons step in auto)
qed

lemma process_hunks:
  assumes "current_path s = Some p" and "map_of d p \<noteq> None"
  shows "\<exists>s' d'. process_diff_lines None (concat (map hunk_text hs)) (s, d) = Inr (s', d') \<and>
     adds p (\<Union>h \<in> set hs. added_lines (new_start h) (hunk_lines h)) d d'"
  using assms
proof (induction hs arbitrary: s d)
  case Nil
  then show ?case using adds_none[of d p] by simp
next
  case (Cons h hs)
  let ?s = "s\<lparr>current_line := Some (new_start h), in_hunk := True\<rparr>"
  have 1: "process_diff_line None (hunk_header h) (s, d) = Inr (?s, d)"
    using match_hunk_header[of h]
    by (simp add: process_diff_line_def process_diff_control_line_def diff_git_def hunk_header_def py_int_show_nat)
  obtain m d1 where d1: "process_diff_lines None (map show_line (hunk_lines h)) (?s, d) =
      Inr (?s\<lparr>current_line := Some m\<rparr>, d1)" "adds p (added_lines (new_start h) (hunk_lines h)) d d1"
    using process_lines[of ?s p "new_start h" d "hunk_lines h"] Cons.prems by auto
  obtain s' d' where d2: "process_diff_lines None (concat (map hunk_text hs)) (?s\<lparr>current_line := Some m\<rparr>, d1) = Inr (s', d')"
    "adds p (\<Union>h \<in> set hs. added_lines (new_start h) (hunk_lines h)) d1 d'"
    using Cons.IH[of "?s\<lparr>current_line := Some m\<rparr>" d1] Cons.prems adds_has[OF d1(2)] by auto
  show ?case using 1 d1(1) d2(1) adds_trans[OF d1(2) d2(2)] by (auto simp: hunk_text_def[of h] process_append)
qed

lemma process_meta:
  assumes "list_all meta_line ls" and "current_path s = Some p" and "current_line s = None"
    and "\<not> in_hunk s" and "map_of d p \<noteq> None"
  shows "process_diff_lines None ls (s, d) = Inr (s, d)"
  using assms(1)
proof (induction ls)
  case (Cons l ls)
  have "s\<lparr>current_path := Some p, current_line := None\<rparr> = s" using assms by simp
  then have "process_diff_line None l (s, d) = Inr (s, d)"
    using Cons.prems assms(2-)
    by (auto simp: process_diff_line_def process_diff_control_line_def meta_line_def no_hunk_header note_path_def setdefault_def)
  then show ?case using Cons by simp
qed simp

lemma process_file:
  assumes "file_diff_ok f"
  shows "\<exists>s' d'. process_diff_lines None (file_text f) (s, d) = Inr (s', d') \<and> adds (fd_path f) (file_added f) d d'"
proof -
  let ?p = "fd_path f"
  let ?s = "\<lparr>current_path = Some ?p, current_line = None, in_hunk = False\<rparr>" and ?d = "note_path (Some ?p) d"
  have 1: "process_diff_line None (fd_header f) (s, d) = Inr (?s, ?d)"
    using file_diff_header[OF assms] by (simp add: process_diff_line_def process_diff_control_line_def)
  have n: "map_of ?d ?p \<noteq> None" using adds_has[OF adds_note[of ?p d]] by simp
  have 2: "process_diff_lines None (fd_meta f) (?s, ?d) = Inr (?s, ?d)"
    by (rule process_meta) (use assms n in \<open>auto simp: file_diff_ok_def\<close>)
  obtain s' d' where "process_diff_lines None (concat (map hunk_text (fd_hunks f))) (?s, ?d) = Inr (s', d')"
    "adds ?p (file_added f) ?d d'"
    using process_hunks[of ?s ?p ?d "fd_hunks f"] n by (auto simp: file_added_def)
  with 1 2 adds_trans[OF adds_note] show ?thesis by (auto simp: file_text_def process_append)
qed

lemma process_files:
  assumes "list_all file_diff_ok fs"
  shows "\<exists>s' d'. process_diff_lines None (concat (map file_text fs)) (s, d) = Inr (s', d') \<and>
     (\<forall>p. map_of d' p =
       (if p \<in> fd_path ` set fs
        then Some ((case map_of d p of None \<Rightarrow> {} | Some ns \<Rightarrow> ns) \<union> (\<Union>f \<in> {f \<in> set fs. fd_path f = p}. file_added f))
        else map_of d p))"
  using assms
proof (induction fs arbitrary: s d)
  case (Cons f fs)
  obtain s1 d1 where 1: "process_diff_lines None (file_text f) (s, d) = Inr (s1, d1)"
    "adds (fd_path f) (file_added f) d d1"
    using process_file[of f s d] Cons.prems by auto
  obtain s' d' where 2: "process_diff_lines None (concat (map file_text fs)) (s1, d1) = Inr (s', d')"
    "\<And>p. map_of d' p = (if p \<in> fd_path ` set fs
        then Some ((case map_of d1 p of None \<Rightarrow> {} | Some ns \<Rightarrow> ns) \<union> (\<Union>f \<in> {f \<in> set fs. fd_path f = p}. file_added f))
        else map_of d1 p)"
    using Cons.IH[of s1 d1] Cons.prems by auto
  have "map_of d' p = (if p \<in> fd_path ` set (f # fs)
        then Some ((case map_of d p of None \<Rightarrow> {} | Some ns \<Rightarrow> ns) \<union> (\<Union>g \<in> {g \<in> set (f # fs). fd_path g = p}. file_added g))
        else map_of d p)" for p
    using 2(2)[of p] 1(2) by (auto simp: adds_def) (metis image_eqI)+
  then show ?case using 1(1) 2(1) by (auto simp: process_append)
qed simp

lemma blank_line:
  "\<exists>s'. process_diff_line None [] (s, d) = Inr (s', d)"
  by (auto simp: process_diff_line_def process_diff_control_line_def diff_git_def no_hunk_header split: option.splits)

lemma added_lines_staged_text:
  assumes "list_all file_diff_ok fs"
  shows "\<exists>d. added_lines_by_path (staged_text fs) None = Inr d \<and>
     (\<forall>p. map_of d p = (if p \<in> fd_path ` set fs then Some (\<Union>f \<in> {f \<in> set fs. fd_path f = p}. file_added f) else None))"
proof -
  let ?s = "\<lparr>current_path = None, current_line = None, in_hunk = False\<rparr>"
  have "py_split newline (staged_text fs) = concat (map file_text fs) @ [[]]"
    unfolding staged_text_def newline_def
    by (rule py_split_ended) (use assms in \<open>auto simp: list_all_iff file_diff_ok_def\<close>)
  moreover obtain s' d where d: "process_diff_lines None (concat (map file_text fs)) (?s, []) = Inr (s', d)"
    "\<And>p. map_of d p = (if p \<in> fd_path ` set fs then Some ({} \<union> (\<Union>f \<in> {f \<in> set fs. fd_path f = p}. file_added f)) else None)"
    using process_files[OF assms, of ?s "[]"] by auto
  moreover obtain s2 where "process_diff_line None [] (s', d) = Inr (s2, d)" using blank_line by blast
  ultimately show ?thesis by (auto simp: added_lines_by_path_def process_append)
qed

section \<open>The current file is always mapped\<close>

text \<open>
  Every file the reader is in has an entry in the dictionary, so recording an added line
  never misses its key; only a malformed octal escape in a header raises.
\<close>

definition mapped :: "diff_state \<times> line_dict \<Rightarrow> bool" where
  "mapped sd \<longleftrightarrow> (\<forall>p. current_path (fst sd) = Some p \<longrightarrow> map_of (snd sd) p \<noteq> None)"

lemma note_path_mapped: "map_of (note_path (Some p) d) p \<noteq> None"
  using adds_has[OF adds_note[of p d]] by auto

lemma unquote_error: "unquote_body b = Inl e \<Longrightarrow> e = ValueError"
proof (induction b rule: unquote_body.induct)
  case (2 c cs)
  show ?case
  proof (cases "c \<noteq> backslash")
    case True
    with 2 show ?thesis by (auto simp: bind_res_Inl_iff)
  next
    case b: False
    show ?thesis
    proof (cases cs)
      case Nil
      then show ?thesis using "2.prems" b by simp
    next
      case (Cons d ds)
      note IH = "2.IH"(2)[OF _ Cons] "2.IH"(3)[OF _ Cons] "2.IH"(4)[OF _ Cons]
      show ?thesis
        using "2.prems"[unfolded Cons unquote_body.simps(2)] b IH
        by (auto simp: bind_res_Inl_iff Let_def split: if_splits option.splits simp del: unquote_body.simps(2))
    qed
  qed
qed simp

lemma header_error: "diff_header_path l = Inl e \<Longrightarrow> e = ValueError"
  by (auto simp: diff_header_path_def git_unquote_def bind_res_def
      split: if_splits option.splits sum.splits) (erule unquote_error)+

lemma process_line_mapped:
  assumes "mapped sd"
  shows "case process_diff_line path l sd of Inl e \<Rightarrow> e = ValueError | Inr sd' \<Rightarrow> mapped sd'"
proof -
  obtain s d where sd: "sd = (s, d)" by (cases sd)
  show ?thesis
  proof (cases "process_diff_control_line l path (s, d)")
    case (Inl e)
    then show ?thesis
      by (auto simp: sd process_diff_line_def process_diff_control_line_def bind_res_def Let_def
          dest: header_error split: if_splits option.splits sum.splits)
  next
    case (Inr r)
    then obtain c s1 d1 where r: "process_diff_control_line l path (s, d) = Inr (c, s1, d1)" by (cases r) auto
    have m: "mapped (s1, d1)"
      using r assms note_path_mapped
      by (auto simp: sd mapped_def process_diff_control_line_def bind_res_def Let_def
          split: if_splits option.splits sum.splits)
    then show ?thesis
      using r by (auto simp: sd process_diff_line_def mapped_def update_conv split: option.splits)
  qed
qed

lemma process_lines_mapped:
  "mapped sd \<Longrightarrow> case process_diff_lines path ls sd of Inl e \<Rightarrow> e = ValueError | Inr sd' \<Rightarrow> mapped sd'"
proof (induction ls arbitrary: sd)
  case (Cons l ls)
  then show ?case
    using process_line_mapped[OF Cons.prems, of path l] by (cases "process_diff_line path l sd") auto
qed simp

lemma added_lines_error: "added_lines_by_path diff path = Inl e \<Longrightarrow> e = ValueError"
  using process_lines_mapped[of "(\<lparr>current_path = path, current_line = None, in_hunk = False\<rparr>,
      case path of None \<Rightarrow> [] | Some p \<Rightarrow> [(p, {})])" path "py_split newline diff"]
  by (auto simp: added_lines_by_path_def mapped_def bind_res_def split: option.splits sum.splits)

end
