(* ===== verification/PolicyTypes.thy ===== *)
theory PolicyTypes
  imports StagedDiff "HOL-Library.Product_Lexorder"
begin

text \<open>
  Violations, arguments and reports of the policy hook
  (\<open>scripts/pre_commit_hooks/policy_types.py\<close>).
\<close>

record policy_violation =
  file_path :: path
  line_number :: "nat option"
  message :: string

definition show_violation :: "policy_violation \<Rightarrow> string" where
  "show_violation v =
     (case line_number v of
        None \<Rightarrow> path_str (file_path v)
      | Some n \<Rightarrow> path_str (file_path v) @ '':'' @ show_nat n) @ '': '' @ message v"

section \<open>Arguments\<close>

text \<open>
  The loop over the arguments collects file names and the families named by \<open>--check\<close>. The
  message for unknown families lists them sorted, as Python prints a list of strings.
\<close>

definition check_option :: string where "check_option = ''--check''"

fun split_arguments :: "string \<Rightarrow> string list \<Rightarrow> string list \<Rightarrow> string set \<Rightarrow> (string list \<times> string set) res" where
  "split_arguments program [] names selected = Inr (names, selected)"
| "split_arguments program [a] names selected =
     (if a = check_option then Inl (SystemExit (program @ '': --check requires a check family name''))
      else Inr (names @ [a], selected))"
| "split_arguments program (a # b # rest) names selected =
     (if a = check_option then split_arguments program rest names (insert b selected)
      else split_arguments program (b # rest) (names @ [a]) selected)"

definition parse_check_arguments ::
    "string \<Rightarrow> string list \<Rightarrow> string list \<Rightarrow> (string list \<times> string set) res" where
  "parse_check_arguments program families arguments =
     bind_res (split_arguments program arguments [] {}) (\<lambda>(names, selected).
       if selected - set families \<noteq> {}
       then Inl (SystemExit (program @ '': unknown check family: '' @
              repr_list (sorted_list_of_set (selected - set families))))
       else Inr (names, if selected = {} then set families else selected))"

section \<open>The report\<close>

definition report_key :: "policy_violation \<Rightarrow> string \<times> bool \<times> nat \<times> string" where
  "report_key v = (path_str (file_path v), line_number v = None,
     (case line_number v of None \<Rightarrow> 0 | Some n \<Rightarrow> n), message v)"

definition report_violations :: "policy_violation list \<Rightarrow> string list \<times> nat" where
  "report_violations vs =
     (let ordered = sort_key report_key vs
      in (map show_violation ordered, if ordered = [] then 0 else 1))"

section \<open>What the arguments select\<close>

text \<open>A command line of file names and \<open>--check\<close> options, printed and read back.\<close>

datatype argument = FileName string | Check string

fun show_argument :: "argument \<Rightarrow> string list" where
  "show_argument (FileName f) = [f]"
| "show_argument (Check c) = [check_option, c]"

fun argument_ok :: "argument \<Rightarrow> bool" where
  "argument_ok (FileName f) = (f \<noteq> check_option)"
| "argument_ok (Check c) = True"

definition names_of :: "argument list \<Rightarrow> string list" where
  "names_of as = List.map_filter (\<lambda>a. case a of FileName f \<Rightarrow> Some f | Check _ \<Rightarrow> None) as"

definition checks_of :: "argument list \<Rightarrow> string set" where
  "checks_of as = {c. Check c \<in> set as}"

lemma split_show_arguments:
  "list_all argument_ok as \<Longrightarrow>
     split_arguments program (concat (map show_argument as)) names selected =
       Inr (names @ names_of as, selected \<union> checks_of as)"
proof (induction as arbitrary: names selected)
  case Nil
  then show ?case by (simp add: names_of_def checks_of_def map_filter_simps)
next
  case (Cons a as)
  show ?case
  proof (cases a)
    case (FileName f)
    have "split_arguments program (f # xs) names selected = split_arguments program xs (names @ [f]) selected" for xs
      using Cons.prems FileName by (cases xs) auto
    then show ?thesis using Cons FileName by (simp add: names_of_def checks_of_def map_filter_simps)
  next
    case (Check c)
    then show ?thesis using Cons by (auto simp: names_of_def checks_of_def map_filter_simps)
  qed
qed

lemma parse_show_arguments:
  assumes "list_all argument_ok as"
  shows "parse_check_arguments program families (concat (map show_argument as)) =
     (if checks_of as \<subseteq> set families
      then Inr (names_of as, if checks_of as = {} then set families else checks_of as)
      else Inl (SystemExit (program @ '': unknown check family: '' @
             repr_list (sorted_list_of_set (checks_of as - set families)))))"
  by (auto simp: parse_check_arguments_def split_show_arguments[OF assms])

text \<open>The report keeps every violation and orders them by path, then line, then message.\<close>

lemma report_keeps: "fst (report_violations vs) = map show_violation (sort_key report_key vs)"
  by (simp add: report_violations_def Let_def)

end
