(* ===== verification/SrcTree.thy ===== *)
theory SrcTree
  imports PyStr
begin

text \<open>
  The syntax trees that the source checks of the policy hook inspect. The checks key
  dictionaries by nodes, which Python compares by identity, so that a node has an identity
  here, its position and its shape: a statement, an expression or another node, with the fields of
  its class in the order of \<open>_fields\<close>. Classes that differ in one keyword only share a constructor with a flag (\<open>async def\<close>,
  \<open>async for\<close>, \<open>async with\<close>, \<open>except*\<close>, the four comprehensions); classes that no check tests
  for keep only their name and children. Contexts, operators and the aliases of an import are fields, not children:
  they have no children of their own and no check looks them up.
\<close>

section \<open>Nodes\<close>

datatype ctx = Load | Store | DelCtx

datatype pconstant = KNone | KBool bool | KInt int | KStr string | KBytes string | KEllipsis | KOther

datatype comp_kind = ListComp | SetComp | GeneratorExp | DictComp

datatype 'a stmt =
    NFunctionDef bool string 'a "'a list" "'a list" "'a option" "'a list"
      \<comment> \<open>async, name, args, body, decorator_list, returns, type_params\<close>
  | NClassDef string "'a list" "'a list" "'a list" "'a list" "'a list"
      \<comment> \<open>name, bases, keywords, body, decorator_list, type_params\<close>
  | NReturn "'a option"
  | NDelete "'a list"
  | NAssign "'a list" 'a
  | NAugAssign 'a 'a
  | NAnnAssign 'a 'a "'a option"
  | NFor bool 'a 'a "'a list" "'a list"
      \<comment> \<open>async, target, iter, body, orelse\<close>
  | NWhile 'a "'a list" "'a list"
  | NIf 'a "'a list" "'a list"
  | NWith bool "'a list" "'a list"
  | NMatch 'a "'a list"
  | NRaise "'a list"
  | NTry bool "'a list" "'a list" "'a list" "'a list"
      \<comment> \<open>star, body, handlers, orelse, finalbody\<close>
  | NAssert 'a "'a option"
  | NImport "(string \<times> string option) list"
  | NImportFrom "string option" "(string \<times> string option) list" nat
  | NGlobal "string list"
  | NNonlocal "string list"
  | NExpr 'a
  | NPass
  | NBreak
  | NContinue
  | NOtherStmt string "'a list"

datatype 'a expr =
    NNamedExpr 'a 'a
  | NBinOp bool 'a 'a
      \<comment> \<open>whether the operator is \<open>+\<close>, left, right\<close>
  | NLambda 'a 'a
  | NIfExp 'a 'a 'a
  | NComp comp_kind "'a list" "'a list"
      \<comment> \<open>elt, or key and value; generators\<close>
  | NAwait 'a
  | NCompare 'a "bool list" "'a list"
      \<comment> \<open>left, whether each operator is \<open>==\<close> or \<open>!=\<close>, comparators\<close>
  | NCall 'a "'a list" "'a list"
  | NFormattedValue 'a int "'a option"
  | NJoinedStr "'a list"
  | NConstant pconstant
  | NAttribute 'a string
  | NStarred 'a
  | NName string ctx
  | NList "'a list"
  | NTuple "'a list"
  | NSet "'a list"
  | NOtherExpr string "'a list"

datatype 'a plain =
    NModule "'a list"
  | NComprehension 'a 'a "'a list" bool
      \<comment> \<open>target, iter, ifs, is_async\<close>
  | NExceptHandler "'a option" "string option" "'a list"
  | NArguments "'a list" "'a list" "'a option" "'a list" "'a list" "'a option" "'a list"
      \<comment> \<open>posonlyargs, args, vararg, kwonlyargs, kw_defaults that are present, kwarg, defaults\<close>
  | NArg string "'a option"
  | NKeyword "string option" 'a
  | NWithitem 'a "'a option"
  | NMatchCase 'a "'a option" "'a list"
  | NOtherNode string "'a list"

datatype 'a shape = Stmt "'a stmt" | Expr "'a expr" | Plain "'a plain"

record source_pos =
  sp_line :: nat
  sp_end :: "nat option"
  sp_column :: nat

datatype node = Node (node_id: nat) (position: "source_pos option") (shape: "node shape")

primrec stmt_children :: "'a stmt \<Rightarrow> 'a list" where
  "stmt_children (NFunctionDef _ _ args body decs returns tps) = args # body @ decs @ opt_list returns @ tps"
| "stmt_children (NClassDef _ bases kws body decs tps) = bases @ kws @ body @ decs @ tps"
| "stmt_children (NReturn v) = opt_list v"
| "stmt_children (NDelete ts) = ts"
| "stmt_children (NAssign ts v) = ts @ [v]"
| "stmt_children (NAugAssign t v) = [t, v]"
| "stmt_children (NAnnAssign t a v) = t # a # opt_list v"
| "stmt_children (NFor _ t i body orelse) = t # i # body @ orelse"
| "stmt_children (NWhile t body orelse) = t # body @ orelse"
| "stmt_children (NIf t body orelse) = t # body @ orelse"
| "stmt_children (NWith _ items body) = items @ body"
| "stmt_children (NMatch s cases) = s # cases"
| "stmt_children (NRaise vs) = vs"
| "stmt_children (NTry _ body handlers orelse finalbody) = body @ handlers @ orelse @ finalbody"
| "stmt_children (NAssert t m) = t # opt_list m"
| "stmt_children (NImport _) = []"
| "stmt_children (NImportFrom _ _ _) = []"
| "stmt_children (NGlobal _) = []"
| "stmt_children (NNonlocal _) = []"
| "stmt_children (NExpr v) = [v]"
| "stmt_children NPass = []"
| "stmt_children NBreak = []"
| "stmt_children NContinue = []"
| "stmt_children (NOtherStmt _ cs) = cs"

primrec expr_children :: "'a expr \<Rightarrow> 'a list" where
  "expr_children (NNamedExpr t v) = [t, v]"
| "expr_children (NBinOp _ l r) = [l, r]"
| "expr_children (NLambda args body) = [args, body]"
| "expr_children (NIfExp t body orelse) = [t, body, orelse]"
| "expr_children (NComp _ elts gens) = elts @ gens"
| "expr_children (NAwait v) = [v]"
| "expr_children (NCompare l _ cs) = l # cs"
| "expr_children (NCall f args kws) = f # args @ kws"
| "expr_children (NFormattedValue v _ spec) = v # opt_list spec"
| "expr_children (NJoinedStr vs) = vs"
| "expr_children (NConstant _) = []"
| "expr_children (NAttribute v _) = [v]"
| "expr_children (NStarred v) = [v]"
| "expr_children (NName _ _) = []"
| "expr_children (NList es) = es"
| "expr_children (NTuple es) = es"
| "expr_children (NSet es) = es"
| "expr_children (NOtherExpr _ cs) = cs"

primrec plain_children :: "'a plain \<Rightarrow> 'a list" where
  "plain_children (NModule body) = body"
| "plain_children (NComprehension t i ifs _) = t # i # ifs"
| "plain_children (NExceptHandler t _ body) = opt_list t @ body"
| "plain_children (NArguments po a va ko kd kw d) = po @ a @ opt_list va @ ko @ kd @ opt_list kw @ d"
| "plain_children (NArg _ a) = opt_list a"
| "plain_children (NKeyword _ v) = [v]"
| "plain_children (NWithitem c v) = c # opt_list v"
| "plain_children (NMatchCase p g body) = p # opt_list g @ body"
| "plain_children (NOtherNode _ cs) = cs"

primrec child_nodes :: "'a shape \<Rightarrow> 'a list" where
  "child_nodes (Stmt s) = stmt_children s"
| "child_nodes (Expr e) = expr_children e"
| "child_nodes (Plain a) = plain_children a"

text \<open>\<open>iter_child_nodes\<close>.\<close>

definition children :: "node \<Rightarrow> node list" where
  "children n = child_nodes (shape n)"

lemma set_stmt_children: "set (stmt_children s) = set_stmt s"
  by (cases s) (auto simp: set_opt_list)

lemma set_expr_children: "set (expr_children s) = set_expr s"
  by (cases s) (auto simp: set_opt_list)

lemma set_plain_children: "set (plain_children s) = set_plain s"
  by (cases s) (auto simp: set_opt_list)

lemma set_child_nodes: "set (child_nodes s) = set_shape s"
  by (cases s) (simp_all add: set_stmt_children set_expr_children set_plain_children)

lemma size_list_member: "c \<in> set xs \<Longrightarrow> f c < size_list f xs"
  by (induction xs) auto

lemma size_option_member: "c \<in> set_option x \<Longrightarrow> f c < size_option f x"
  by (cases x) auto

lemmas size_member = size_list_member[of _ _ size] size_option_member[of _ _ size]

lemma size_stmt_member: "c \<in> set_stmt s \<Longrightarrow> size c < size_stmt size s"
  by (cases s) (auto dest!: size_member)

lemma size_expr_member: "c \<in> set_expr s \<Longrightarrow> size c < size_expr size s"
  by (cases s) (auto dest!: size_member)

lemma size_plain_member: "c \<in> set_plain s \<Longrightarrow> size c < size_plain size s"
  by (cases s) (auto dest!: size_member)

lemma child_size: "c \<in> set (children n) \<Longrightarrow> size c < size n"
  by (cases n, cases "shape n")
    (auto simp: children_def set_child_nodes less_Suc_eq
       dest: size_stmt_member size_expr_member size_plain_member)

section \<open>Views of a node\<close>

text \<open>What \<open>isinstance\<close> tests and the fields they give access to.\<close>

definition as_name :: "node \<Rightarrow> (string \<times> ctx) option" where
  "as_name n = (case shape n of Expr (NName x c) \<Rightarrow> Some (x, c) | _ \<Rightarrow> None)"

definition as_attribute :: "node \<Rightarrow> (node \<times> string) option" where
  "as_attribute n = (case shape n of Expr (NAttribute v a) \<Rightarrow> Some (v, a) | _ \<Rightarrow> None)"

definition as_starred :: "node \<Rightarrow> node option" where
  "as_starred n = (case shape n of Expr (NStarred v) \<Rightarrow> Some v | _ \<Rightarrow> None)"

text \<open>The elements of a \<open>Tuple\<close> or a \<open>List\<close>.\<close>

definition as_sequence :: "node \<Rightarrow> node list option" where
  "as_sequence n =
     (case shape n of Expr (NTuple es) \<Rightarrow> Some es | Expr (NList es) \<Rightarrow> Some es | _ \<Rightarrow> None)"

definition as_named_expr :: "node \<Rightarrow> (node \<times> node) option" where
  "as_named_expr n = (case shape n of Expr (NNamedExpr t v) \<Rightarrow> Some (t, v) | _ \<Rightarrow> None)"

definition as_if_exp :: "node \<Rightarrow> (node \<times> node) option" where
  "as_if_exp n = (case shape n of Expr (NIfExp t body orelse) \<Rightarrow> Some (body, orelse) | _ \<Rightarrow> None)"

definition as_call :: "node \<Rightarrow> (node \<times> node list \<times> node list) option" where
  "as_call n = (case shape n of Expr (NCall f args kws) \<Rightarrow> Some (f, args, kws) | _ \<Rightarrow> None)"

definition as_comprehension :: "node \<Rightarrow> (node \<times> node \<times> node list \<times> bool) option" where
  "as_comprehension n = (case shape n of Plain (NComprehension t i ifs a) \<Rightarrow> Some (t, i, ifs, a) | _ \<Rightarrow> None)"

definition as_handler :: "node \<Rightarrow> (node option \<times> string option \<times> node list) option" where
  "as_handler n = (case shape n of Plain (NExceptHandler t x body) \<Rightarrow> Some (t, x, body) | _ \<Rightarrow> None)"

definition as_match_case :: "node \<Rightarrow> (node \<times> node option \<times> node list) option" where
  "as_match_case n = (case shape n of Plain (NMatchCase p g body) \<Rightarrow> Some (p, g, body) | _ \<Rightarrow> None)"

definition as_arg :: "node \<Rightarrow> (string \<times> node option) option" where
  "as_arg n = (case shape n of Plain (NArg x a) \<Rightarrow> Some (x, a) | _ \<Rightarrow> None)"

definition as_keyword :: "node \<Rightarrow> (string option \<times> node) option" where
  "as_keyword n = (case shape n of Plain (NKeyword x v) \<Rightarrow> Some (x, v) | _ \<Rightarrow> None)"

definition as_class :: "node \<Rightarrow> (string \<times> node list \<times> node list \<times> node list \<times> node list) option" where
  "as_class n =
     (case shape n of Stmt (NClassDef x bases kws body decs tps) \<Rightarrow> Some (x, bases, kws, body, decs) | _ \<Rightarrow> None)"

definition as_function :: "node \<Rightarrow> (bool \<times> string \<times> node \<times> node list \<times> node list \<times> node option) option" where
  "as_function n =
     (case shape n of Stmt (NFunctionDef a x args body decs returns tps) \<Rightarrow> Some (a, x, args, body, decs, returns)
      | _ \<Rightarrow> None)"

text \<open>The arguments of an \<open>arguments\<close> node in the order in which the checks list them, and its defaults.\<close>

definition function_arguments :: "node \<Rightarrow> node list" where
  "function_arguments n =
     (case shape n of Plain (NArguments po a va ko kd kw d) \<Rightarrow> po @ a @ ko @ opt_list va @ opt_list kw | _ \<Rightarrow> [])"

definition argument_defaults :: "node \<Rightarrow> node list" where
  "argument_defaults n =
     (case shape n of Plain (NArguments po a va ko kd kw d) \<Rightarrow> d @ kd | _ \<Rightarrow> [])"

definition is_stmt :: "node \<Rightarrow> bool" where
  "is_stmt n = (case shape n of Stmt _ \<Rightarrow> True | _ \<Rightarrow> False)"

definition is_expr :: "node \<Rightarrow> bool" where
  "is_expr n = (case shape n of Expr _ \<Rightarrow> True | _ \<Rightarrow> False)"

text \<open>\<open>isinstance(node, (ClassDef, FunctionDef, AsyncFunctionDef))\<close>.\<close>

definition opens_scope :: "node \<Rightarrow> bool" where
  "opens_scope n \<longleftrightarrow> as_class n \<noteq> None \<or> as_function n \<noteq> None"

named_theorems node_views
  \<comment> \<open>the views in terms of the shape\<close>

lemma view_iff [node_views]:
  "as_name n = Some (x, c) \<longleftrightarrow> shape n = Expr (NName x c)"
  "as_attribute n = Some (v, x) \<longleftrightarrow> shape n = Expr (NAttribute v x)"
  "as_starred n = Some v \<longleftrightarrow> shape n = Expr (NStarred v)"
  "as_sequence n = Some es \<longleftrightarrow> shape n = Expr (NTuple es) \<or> shape n = Expr (NList es)"
  "as_named_expr n = Some (t, v) \<longleftrightarrow> shape n = Expr (NNamedExpr t v)"
  "as_if_exp n = Some (body1, orelse1) \<longleftrightarrow> (\<exists>t. shape n = Expr (NIfExp t body1 orelse1))"
  "as_call n = Some (f, args, kws) \<longleftrightarrow> shape n = Expr (NCall f args kws)"
  by (auto simp: as_name_def as_attribute_def as_starred_def as_sequence_def as_named_expr_def as_if_exp_def
      as_call_def split: shape.splits expr.splits)

lemma plain_view_iff [node_views]:
  "as_comprehension n = Some (t, v, ifs, a) \<longleftrightarrow> shape n = Plain (NComprehension t v ifs a)"
  "as_handler n = Some (ty, y, body) \<longleftrightarrow> shape n = Plain (NExceptHandler ty y body)"
  "as_match_case n = Some (p, g, body) \<longleftrightarrow> shape n = Plain (NMatchCase p g body)"
  "as_arg n = Some (x, ty) \<longleftrightarrow> shape n = Plain (NArg x ty)"
  "as_keyword n = Some (y, v) \<longleftrightarrow> shape n = Plain (NKeyword y v)"
  by (auto simp: as_comprehension_def as_handler_def as_match_case_def as_arg_def as_keyword_def
      split: shape.splits plain.splits)

lemma children_shape:
  "shape n = s \<Longrightarrow> children n = child_nodes s"
  by (simp add: children_def)

lemma view_children:
  "as_attribute n = Some (v, x) \<Longrightarrow> children n = [v]"
  "as_starred n = Some v \<Longrightarrow> children n = [v]"
  "as_sequence n = Some es \<Longrightarrow> children n = es"
  "as_named_expr n = Some (t, v) \<Longrightarrow> children n = [t, v]"
  "as_call n = Some (f, args, kws) \<Longrightarrow> children n = f # args @ kws"
  "as_comprehension n = Some (t, v, ifs, a) \<Longrightarrow> children n = t # v # ifs"
  "as_handler n = Some (ty, y, body) \<Longrightarrow> children n = opt_list ty @ body"
  "as_match_case n = Some (p, g, body) \<Longrightarrow> children n = p # opt_list g @ body"
  "as_arg n = Some (x, ty) \<Longrightarrow> children n = opt_list ty"
  "as_keyword n = Some (y, v) \<Longrightarrow> children n = [v]"
  by (auto simp: node_views children_def)

lemma if_exp_children:
  "as_if_exp n = Some (body, orelse) \<Longrightarrow> {body, orelse} \<subseteq> set (children n)"
  by (auto simp: node_views children_def)

lemma arguments_children:
  "set (function_arguments n) \<subseteq> set (children n)" "set (argument_defaults n) \<subseteq> set (children n)"
  by (cases n; auto simp: function_arguments_def argument_defaults_def children_def split: shape.splits plain.splits)+

section \<open>Traversals\<close>

text \<open>A node and its descendants, a node before its children.\<close>

function subtree :: "node \<Rightarrow> node list" where
  "subtree n = n # concat (map subtree (children n))"
  by pat_completeness auto
termination
  by (relation "measure size") (simp_all add: child_size)

declare subtree.simps [simp del]

text \<open>\<open>ast.walk\<close>: a queue, from which the first node is yielded and replaced by its children at the end.\<close>

lemma length_subtrees: "sum_list (map (\<lambda>c. length (subtree c)) (children n)) < length (subtree n)"
  unfolding subtree.simps[of n] by (simp add: length_concat o_def)

function walk_nodes :: "node list \<Rightarrow> node list" where
  "walk_nodes [] = []"
| "walk_nodes (n # todo) = n # walk_nodes (todo @ children n)"
  by pat_completeness auto
termination
  by (relation "measure (\<lambda>q. sum_list (map (\<lambda>n. length (subtree n)) q))") (simp_all add: length_subtrees)

definition walk_tree :: "node \<Rightarrow> node list" where
  "walk_tree n = walk_nodes [n]"

lemma set_subtree: "set (subtree n) = insert n (\<Union>c \<in> set (children n). set (subtree c))"
  unfolding subtree.simps[of n] by simp

lemma set_walk_nodes: "set (walk_nodes q) = (\<Union>n \<in> set q. set (subtree n))"
proof (induction q rule: walk_nodes.induct)
  case (2 n todo)
  then show ?case by (auto simp: set_subtree[of n])
qed simp

lemma set_walk_tree: "set (walk_tree n) = set (subtree n)"
  unfolding walk_tree_def set_walk_nodes by simp

lemma subtree_self [simp]: "n \<in> set (subtree n)"
  using set_subtree[of n] by simp

lemma subtree_nonempty [simp]: "subtree n \<noteq> []"
  by (metis empty_iff list.set(1) subtree_self)

lemma subtree_child: "c \<in> set (children n) \<Longrightarrow> set (subtree c) \<subseteq> set (subtree n)"
  using set_subtree[of n] by auto

lemma subtree_trans: "m \<in> set (subtree n) \<Longrightarrow> set (subtree m) \<subseteq> set (subtree n)"
proof (induction n rule: subtree.induct)
  case (1 n)
  then show ?case using set_subtree[of n] by auto
qed

lemma subtree_size: "m \<in> set (subtree n) \<Longrightarrow> size m \<le> size n"
proof (induction n rule: subtree.induct)
  case (1 n)
  then show ?case using set_subtree[of n] child_size[of _ n] by fastforce
qed

text \<open>The proper descendants of a node.\<close>

definition below :: "node \<Rightarrow> node set" where
  "below n = set (subtree n) - {n}"

lemma below_unfold: "below n = (\<Union>c \<in> set (children n). set (subtree c))"
proof -
  have "n \<notin> set (subtree c)" if "c \<in> set (children n)" for c
    using child_size[OF that] subtree_size[of n c] by auto
  then show ?thesis using set_subtree[of n] by (auto simp: below_def)
qed

lemma children_below: "set (children n) \<subseteq> below n"
  by (auto simp: below_unfold)

lemma below_children: "e \<in> below n \<Longrightarrow> set (children e) \<subseteq> below n"
  using subtree_trans subtree_child by (fastforce simp: below_unfold)

end
