(* ===== verification/ScopeBuilder.thy ===== *)
theory ScopeBuilder
  imports SrcTree "HOL-Library.AList"
begin

text \<open>
  The scope analysis of the policy hook (\<open>_ScopeBuilder\<close> in
  \<open>scripts/pre_commit_hooks/check_policy.py\<close>). A visitor walks the tree once and keeps, for every
  lexical scope, which bindings of a name can be in force; at a use of a name it records these.

  Scopes and bindings are mutable objects that Python compares by identity: a scope is its index
  in the list of scopes in order of creation, and a binding carries the number of its creation.
  A dictionary is an association list that is only read through \<open>get\<close>; a missing list of bindings
  and an empty one are the same to the code. The scopes that a branch tracks are those that exist
  when it starts, a prefix of the list, so that their number stands for them.
\<close>

section \<open>Scopes and bindings\<close>

datatype scope_kind = ModuleScope | FunctionScope | ClassScope | ComprehensionScope

record binding =
  bd_id :: nat
  bd_value :: "node option"
  bd_node :: node
  bd_imported :: "string list option"
  bd_phase :: "nat option"

type_synonym active_state = "(string \<times> binding list) list"

record scope =
  sc_parent :: "nat option"
  sc_kind :: scope_kind
  sc_bindings :: active_state
  local_names :: "string set"
  global_names :: "string set"
  nonlocal_names :: "string set"
  active_bindings :: active_state

record loop_exits =
  tracked_scopes :: nat
  break_outputs :: "active_state list list"
  continue_outputs :: "active_state list list"

record builder =
  module_parts :: "string list"
  in_package :: bool
  scope_list :: "scope list"
  node_scopes :: "(nat \<times> nat) list"
  node_phases :: "(nat \<times> nat) list"
  node_bindings :: "(nat \<times> binding list) list"
  loop_exit_stack :: "loop_exits list"
  next_binding :: nat

definition new_scope :: "nat option \<Rightarrow> scope_kind \<Rightarrow> scope" where
  "new_scope parent kind =
     \<lparr>sc_parent = parent, sc_kind = kind, sc_bindings = [], local_names = {}, global_names = {},
      nonlocal_names = {}, active_bindings = []\<rparr>"

definition get_bindings :: "string \<Rightarrow> active_state \<Rightarrow> binding list" where
  "get_bindings name st = (case map_of st name of None \<Rightarrow> [] | Some bs \<Rightarrow> bs)"

text \<open>Every index the code uses is in range (\<open>wf_builder\<close>); outside, there is a scope with no bindings.\<close>

definition scope_at :: "builder \<Rightarrow> nat \<Rightarrow> scope" where
  "scope_at b i = (if i < length (scope_list b) then scope_list b ! i else new_scope None ModuleScope)"

definition update_scope :: "nat \<Rightarrow> (scope \<Rightarrow> scope) \<Rightarrow> builder \<Rightarrow> builder" where
  "update_scope i f b = b\<lparr>scope_list := (scope_list b)[i := f (scope_list b ! i)]\<rparr>"

definition push_scope :: "nat option \<Rightarrow> scope_kind \<Rightarrow> builder \<Rightarrow> builder" where
  "push_scope parent kind b = b\<lparr>scope_list := scope_list b @ [new_scope parent kind]\<rparr>"

text \<open>
  A scope is created after its parent, so that following parents goes down in the list
  (\<open>wf_builder\<close>).
\<close>

function nonlocal_scope :: "scope list \<Rightarrow> nat \<Rightarrow> nat option" where
  "nonlocal_scope ss i =
     (case sc_parent (ss ! i) of
        None \<Rightarrow> None
      | Some p \<Rightarrow>
          if p < i then (if sc_kind (ss ! p) = FunctionScope then Some p else nonlocal_scope ss p) else None)"
  by pat_completeness auto
termination by (relation "measure snd") auto

function skip_kind :: "scope_kind \<Rightarrow> scope list \<Rightarrow> nat \<Rightarrow> nat" where
  "skip_kind kind ss i =
     (if sc_kind (ss ! i) = kind
      then (case sc_parent (ss ! i) of None \<Rightarrow> i | Some p \<Rightarrow> if p < i then skip_kind kind ss p else i)
      else i)"
  by pat_completeness auto
termination by (relation "measure (\<lambda>(_, _, i). i)") auto

declare nonlocal_scope.simps [simp del] skip_kind.simps [simp del]

definition function_parent :: "builder \<Rightarrow> nat \<Rightarrow> nat" where
  "function_parent b scope = skip_kind ClassScope (scope_list b) scope"

definition binding_scope :: "builder \<Rightarrow> nat \<Rightarrow> string \<Rightarrow> nat" where
  "binding_scope b scope name =
     (if name \<in> global_names (scope_at b scope) then 0
      else if name \<in> nonlocal_names (scope_at b scope)
      then (case nonlocal_scope (scope_list b) scope of None \<Rightarrow> scope | Some p \<Rightarrow> p)
      else scope)"

definition add_binding :: "string \<Rightarrow> binding \<Rightarrow> scope \<Rightarrow> scope" where
  "add_binding name bd s =
     s\<lparr>sc_bindings := AList.update name (get_bindings name (sc_bindings s) @ [bd]) (sc_bindings s),
       active_bindings := AList.update name [bd] (active_bindings s),
       local_names := insert name (local_names s)\<rparr>"

definition bind_name ::
    "nat \<Rightarrow> string \<Rightarrow> node option \<Rightarrow> node \<Rightarrow> string list option \<Rightarrow> nat option \<Rightarrow> builder \<Rightarrow> builder" where
  "bind_name scope name value n imported phase b =
     (update_scope (binding_scope b scope name)
        (add_binding name
           \<lparr>bd_id = next_binding b, bd_value = value, bd_node = n, bd_imported = imported, bd_phase = phase\<rparr>) b)
     \<lparr>next_binding := Suc (next_binding b)\<rparr>"

definition set_node_scope :: "nat \<Rightarrow> node \<Rightarrow> builder \<Rightarrow> builder" where
  "set_node_scope scope n b = b\<lparr>node_scopes := AList.update (node_id n) scope (node_scopes b)\<rparr>"

definition mark :: "node \<Rightarrow> nat \<Rightarrow> builder \<Rightarrow> builder" where
  "mark n scope b = fold (set_node_scope scope) (subtree n) b"

definition set_default_phase :: "nat \<Rightarrow> node \<Rightarrow> builder \<Rightarrow> builder" where
  "set_default_phase phase n b =
     (if map_of (node_phases b) (node_id n) = None
      then b\<lparr>node_phases := AList.update (node_id n) phase (node_phases b)\<rparr> else b)"

definition mark_phase :: "node \<Rightarrow> nat \<Rightarrow> builder \<Rightarrow> builder" where
  "mark_phase n phase b = fold (set_default_phase phase) (subtree n) b"

text \<open>What \<open>_visit\<close> records of a node before it dispatches on its class.\<close>

definition enter :: "node \<Rightarrow> nat \<Rightarrow> builder \<Rightarrow> builder" where
  "enter n scope b =
     (let b' = set_node_scope scope n b
      in case as_name n of
           None \<Rightarrow> b'
         | Some (x, _) \<Rightarrow>
             b'\<lparr>node_bindings :=
                  AList.update (node_id n) (get_bindings x (active_bindings (scope_at b' scope))) (node_bindings b')\<rparr>)"

section \<open>States of branches\<close>

definition states :: "nat \<Rightarrow> builder \<Rightarrow> active_state list" where
  "states k b = map active_bindings (take k (scope_list b))"

definition restore_states :: "active_state list \<Rightarrow> builder \<Rightarrow> builder" where
  "restore_states sts b =
     b\<lparr>scope_list :=
         map (\<lambda>(s, st). s\<lparr>active_bindings := st\<rparr>) (zip (scope_list b) sts) @ drop (length sts) (scope_list b)\<rparr>"

fun add_distinct :: "binding list \<Rightarrow> binding list \<Rightarrow> binding list" where
  "add_distinct bs [] = bs"
| "add_distinct bs (x # xs) = add_distinct (if \<exists>e \<in> set bs. bd_id e = bd_id x then bs else bs @ [x]) xs"

definition merge_states :: "active_state list \<Rightarrow> active_state" where
  "merge_states sts =
     (let merged = map (\<lambda>name. (name, add_distinct [] (concat (map (get_bindings name) sts))))
                     (remdups (concat (map (map fst) sts)))
      in filter (\<lambda>(name, bs). bs \<noteq> []) merged)"

definition merged_scope_states :: "active_state list list \<Rightarrow> active_state list" where
  "merged_scope_states outputs =
     map (\<lambda>index. merge_states (map (\<lambda>output. output ! index) outputs)) [0..<length (hd outputs)]"

function falls_through :: "node \<Rightarrow> bool" where
  "falls_through n =
     (case shape n of
        Stmt NBreak \<Rightarrow> False
      | Stmt NContinue \<Rightarrow> False
      | Stmt (NRaise _) \<Rightarrow> False
      | Stmt (NReturn _) \<Rightarrow> False
      | Stmt (NIf test body orelse) \<Rightarrow>
          orelse = [] \<or> (\<forall>s \<in> set body. falls_through s) \<or> (\<forall>s \<in> set orelse. falls_through s)
      | _ \<Rightarrow> True)"
  by pat_completeness auto
termination
  by (relation "measure size") (auto intro!: child_size simp: children_def)

declare falls_through.simps [simp del]

definition statements_fall_through :: "node list \<Rightarrow> bool" where
  "statements_fall_through ss \<longleftrightarrow> (\<forall>s \<in> set ss. falls_through s)"

text \<open>The statements of a scope: those of a body and, except below definitions, those nested in them.\<close>

function scope_statements :: "node list \<Rightarrow> node list" where
  "scope_statements [] = []"
| "scope_statements (s # ss) =
     s # (if opens_scope s then [] else scope_statements (filter is_stmt (children s))) @ scope_statements ss"
  by pat_completeness auto
termination
proof (relation "measure (\<lambda>ss. sum_list (map (\<lambda>n. length (subtree n)) ss))")
  fix s :: node and ss :: "node list"
  have "sum_list (map (\<lambda>n. length (subtree n)) (filter is_stmt (children s))) < length (subtree s)"
    using length_subtrees[of s] sum_list_filter_le_nat[of "\<lambda>n. length (subtree n)" is_stmt "children s"] by simp
  then show "(filter is_stmt (children s), s # ss) \<in> measure (\<lambda>ss. sum_list (map (\<lambda>n. length (subtree n)) ss))"
    by simp
qed (simp_all add: subtree_nonempty)

section \<open>Handlers\<close>

text \<open>
  The handlers call \<open>_visit\<close> on parts of their node; it is their argument \<open>v\<close>, and \<open>visit\<close> below
  closes the recursion.
\<close>

type_synonym visitor = "node \<Rightarrow> nat \<Rightarrow> builder \<Rightarrow> builder"

definition visit_all :: "visitor \<Rightarrow> node list \<Rightarrow> nat \<Rightarrow> builder \<Rightarrow> builder" where
  "visit_all v ns scope b = fold (\<lambda>n. v n scope) ns b"

fun visit_branch_list ::
    "visitor \<Rightarrow> nat \<Rightarrow> nat \<Rightarrow> active_state list \<Rightarrow> node list list \<Rightarrow> active_state list list \<Rightarrow> builder \<Rightarrow>
     active_state list list \<times> builder" where
  "visit_branch_list v scope k incoming [] outputs b = (outputs, b)"
| "visit_branch_list v scope k incoming (branch # branches) outputs b =
     (let b' = visit_all v branch scope (restore_states incoming b)
      in visit_branch_list v scope k incoming branches
           (if statements_fall_through branch then outputs @ [states k b'] else outputs) b')"

definition visit_branches :: "visitor \<Rightarrow> node list list \<Rightarrow> nat \<Rightarrow> bool \<Rightarrow> builder \<Rightarrow> builder" where
  "visit_branches v branches scope include_incoming b =
     (let k = length (scope_list b);
          incoming = states k b;
          (outputs, b') = visit_branch_list v scope k incoming branches (if include_incoming then [incoming] else []) b
      in restore_states (if outputs = [] then incoming else merged_scope_states outputs) b')"

definition visit_if :: "visitor \<Rightarrow> node \<Rightarrow> node list \<Rightarrow> node list \<Rightarrow> nat \<Rightarrow> builder \<Rightarrow> builder" where
  "visit_if v test body orelse scope b =
     visit_branches v (if orelse = [] then [body] else [body, orelse]) scope (orelse = []) (v test scope b)"

text \<open>The targets of an assignment; a sequence of values of the same length is taken apart.\<close>

function bind_targets :: "nat \<Rightarrow> node option \<Rightarrow> node \<Rightarrow> nat option \<Rightarrow> node \<Rightarrow> builder \<Rightarrow> builder" where
  "bind_targets scope value n phase target b =
     (case as_name target of
        Some (x, _) \<Rightarrow> bind_name scope x value n None phase b
      | None \<Rightarrow>
          (case as_starred target of
             Some t \<Rightarrow> bind_targets scope None n phase t b
           | None \<Rightarrow>
               (case as_sequence target of
                  Some elts \<Rightarrow>
                    let values = (case value of None \<Rightarrow> [] | Some w \<Rightarrow>
                                    (case as_sequence w of None \<Rightarrow> []
                                     | Some es \<Rightarrow> if length es = length elts then es else []));
                        child_values = (if values = [] then replicate (length elts) None else map Some values)
                    in fold (\<lambda>(t, w). bind_targets scope w n phase t) (zip elts child_values) b
                | None \<Rightarrow> b)))"
  by pat_completeness auto
termination
  by (relation "measure (\<lambda>(_, _, _, _, t, _). size t)")
    (auto simp: view_children intro!: child_size dest: set_zip_leftD)

declare bind_targets.simps [simp del]

definition visit_loop ::
    "visitor \<Rightarrow> node option \<Rightarrow> node list \<Rightarrow> node list \<Rightarrow> nat \<Rightarrow> builder \<Rightarrow> builder" where
  "visit_loop v target body orelse scope b =
     (let k = length (scope_list b);
          incoming = states k b;
          b1 = b\<lparr>loop_exit_stack := \<lparr>tracked_scopes = k, break_outputs = [], continue_outputs = []\<rparr> # loop_exit_stack b\<rparr>;
          b2 = (case target of None \<Rightarrow> b1 | Some t \<Rightarrow> mark t scope (bind_targets scope None t None t b1));
          b3 = visit_all v body scope b2;
          ex = hd (loop_exit_stack b3);
          b4 = b3\<lparr>loop_exit_stack := tl (loop_exit_stack b3)\<rparr>;
          normal_outputs = incoming # continue_outputs ex @ (if statements_fall_through body then [states k b4] else []);
          b5 = visit_all v orelse scope (restore_states (merged_scope_states normal_outputs) b4);
          continuing_outputs = break_outputs ex @ (if statements_fall_through orelse then [states k b5] else [])
      in restore_states (if continuing_outputs = [] then incoming else merged_scope_states continuing_outputs) b5)"

definition visit_for :: "visitor \<Rightarrow> node \<Rightarrow> node \<Rightarrow> node list \<Rightarrow> node list \<Rightarrow> nat \<Rightarrow> builder \<Rightarrow> builder" where
  "visit_for v target iter body orelse scope b = visit_loop v (Some target) body orelse scope (v iter scope b)"

definition visit_while :: "visitor \<Rightarrow> node \<Rightarrow> node list \<Rightarrow> node list \<Rightarrow> nat \<Rightarrow> builder \<Rightarrow> builder" where
  "visit_while v test body orelse scope b = visit_loop v None body orelse scope (v test scope b)"

definition visit_break :: "builder \<Rightarrow> builder" where
  "visit_break b =
     (case loop_exit_stack b of
        [] \<Rightarrow> b
      | ex # rest \<Rightarrow>
          b\<lparr>loop_exit_stack := ex\<lparr>break_outputs := break_outputs ex @ [states (tracked_scopes ex) b]\<rparr> # rest\<rparr>)"

definition visit_continue :: "builder \<Rightarrow> builder" where
  "visit_continue b =
     (case loop_exit_stack b of
        [] \<Rightarrow> b
      | ex # rest \<Rightarrow>
          b\<lparr>loop_exit_stack := ex\<lparr>continue_outputs := continue_outputs ex @ [states (tracked_scopes ex) b]\<rparr> # rest\<rparr>)"

text \<open>
  Visits statements up to the first that does not fall through: whether all did, the states after
  each visited statement, and the builder.
\<close>

fun visit_until :: "visitor \<Rightarrow> nat \<Rightarrow> nat \<Rightarrow> node list \<Rightarrow> builder \<Rightarrow> bool \<times> active_state list list \<times> builder" where
  "visit_until v scope k [] b = (True, [], b)"
| "visit_until v scope k (s # ss) b =
     (let b' = v s scope b
      in if falls_through s
         then (let (ok, outputs, b'') = visit_until v scope k ss b' in (ok, states k b' # outputs, b''))
         else (False, [states k b'], b'))"

text \<open>The parser puts only \<open>ExceptHandler\<close> nodes there; another node would be a handler without parts.\<close>

definition handler_parts :: "node \<Rightarrow> node option \<times> string option \<times> node list" where
  "handler_parts h = (case as_handler h of None \<Rightarrow> (None, None, []) | Some parts \<Rightarrow> parts)"

lemma handler_parts_below: "handler_parts h = (ty, nm, body) \<Longrightarrow> set (opt_list ty @ body) \<subseteq> set (children h)"
  by (cases "as_handler h") (auto simp: handler_parts_def view_children)

fun visit_handlers ::
    "visitor \<Rightarrow> nat \<Rightarrow> nat \<Rightarrow> active_state list \<Rightarrow> node list \<Rightarrow> active_state list list \<Rightarrow> active_state list list \<Rightarrow> builder \<Rightarrow>
     active_state list list \<times> active_state list list \<times> builder" where
  "visit_handlers v scope k entry [] continuing abrupt b = (continuing, abrupt, b)"
| "visit_handlers v scope k entry (h # hs) continuing abrupt b =
     (let (ty, name, body) = handler_parts h;
          b1 = set_node_scope scope h (restore_states entry b);
          b2 = (case ty of None \<Rightarrow> b1 | Some t \<Rightarrow> v t scope b1);
          b3 = (case name of None \<Rightarrow> b2 | Some x \<Rightarrow> bind_name scope x None h None None b2);
          (ok, _, b4) = visit_until v scope k body b3;
          b5 = (case name of None \<Rightarrow> b4
                | Some x \<Rightarrow> update_scope (binding_scope b4 scope x)
                             (\<lambda>s. s\<lparr>active_bindings := AList.delete x (active_bindings s)\<rparr>) b4);
          output = states k b5
      in visit_handlers v scope k entry hs
           (if ok then continuing @ [output] else continuing) (if ok then abrupt else abrupt @ [output]) b5)"

text \<open>The recorded bindings of the nodes below some statements.\<close>

definition bindings_below :: "node list \<Rightarrow> builder \<Rightarrow> (nat \<times> binding list) list" where
  "bindings_below ss b =
     [(node_id c, bs). s \<leftarrow> ss, c \<leftarrow> walk_tree s, bs \<leftarrow> opt_list (map_of (node_bindings b) (node_id c))]"

definition visit_finally ::
    "visitor \<Rightarrow> nat \<Rightarrow> node list \<Rightarrow> active_state list list \<Rightarrow> active_state list list \<Rightarrow> builder \<Rightarrow> builder" where
  "visit_finally v scope finalbody final_inputs continuing b =
     (let b1 = visit_all v finalbody scope (restore_states (merged_scope_states final_inputs) b);
          final_node_bindings = bindings_below finalbody b1
      in if continuing = [] then b1
         else (let b2 = visit_all v finalbody scope (restore_states (merged_scope_states continuing) b1)
               in b2\<lparr>node_bindings := fold (\<lambda>(i, bs). AList.update i bs) final_node_bindings (node_bindings b2)\<rparr>))"

definition visit_try ::
    "visitor \<Rightarrow> node list \<Rightarrow> node list \<Rightarrow> node list \<Rightarrow> node list \<Rightarrow> nat \<Rightarrow> builder \<Rightarrow> builder" where
  "visit_try v body handlers orelse finalbody scope b =
     (let k = length (scope_list b);
          incoming = states k b;
          (ok, outputs, b1) = visit_until v scope k body b;
          exceptional = incoming # outputs;
          b2 = (if ok then visit_all v orelse scope b1 else b1);
          (continuing, abrupt, b3) =
            visit_handlers v scope k (merged_scope_states exceptional) handlers (if ok then [states k b2] else []) [] b2
      in if finalbody \<noteq> []
         then visit_finally v scope finalbody (continuing @ abrupt @ (if handlers = [] then exceptional else []))
                continuing b3
         else if continuing \<noteq> [] then restore_states (merged_scope_states continuing) b3
         else restore_states incoming b3)"

definition visit_match_head :: "visitor \<Rightarrow> nat \<Rightarrow> node \<Rightarrow> builder \<Rightarrow> builder" where
  "visit_match_head v scope c b =
     (case as_match_case c of
        None \<Rightarrow> b
      | Some (pattern, guard, body) \<Rightarrow>
          (case guard of None \<Rightarrow> v pattern scope b | Some g \<Rightarrow> v g scope (v pattern scope b)))"

definition case_body :: "node \<Rightarrow> node list" where
  "case_body c = (case as_match_case c of None \<Rightarrow> [] | Some (_, _, body) \<Rightarrow> body)"

definition visit_match :: "visitor \<Rightarrow> node \<Rightarrow> node list \<Rightarrow> nat \<Rightarrow> builder \<Rightarrow> builder" where
  "visit_match v subject match_cases scope b =
     visit_branches v (map case_body match_cases) scope True
       (fold (visit_match_head v scope) match_cases (v subject scope b))"

definition local_import :: "string \<times> string option \<Rightarrow> string \<times> string list" where
  "local_import al =
     (case snd al of
        Some a \<Rightarrow> (a, py_split ''.'' (fst al))
      | None \<Rightarrow> (hd (py_split ''.'' (fst al)), [hd (py_split ''.'' (fst al))]))"

definition visit_import :: "(string \<times> string option) list \<Rightarrow> node \<Rightarrow> nat \<Rightarrow> builder \<Rightarrow> builder" where
  "visit_import names n scope b =
     mark n scope
       (fold (\<lambda>al. bind_name scope (fst (local_import al)) None n (Some (snd (local_import al))) None) names b)"

definition relative_import_prefixes :: "string list \<Rightarrow> string option \<Rightarrow> nat \<Rightarrow> string list list" where
  "relative_import_prefixes modname module level =
     (let suffix = (case module of None \<Rightarrow> [] | Some m \<Rightarrow> if m = [] then [] else py_split ''.'' m);
          package_prefix = take (length modname + 1 - level) modname;
          module_prefix = take (length modname - level) modname
      in remdups_adj [package_prefix @ suffix, module_prefix @ suffix])"

definition import_prefix :: "string list \<Rightarrow> bool \<Rightarrow> string option \<Rightarrow> nat \<Rightarrow> string list" where
  "import_prefix modname package module level =
     (if level > 0
      then (let prefixes = relative_import_prefixes modname module level
            in if package then hd prefixes else last prefixes)
      else (case module of None \<Rightarrow> [] | Some m \<Rightarrow> if m = [] then [] else py_split ''.'' m))"

definition from_name :: "string \<times> string option \<Rightarrow> string" where
  "from_name al = (case snd al of Some a \<Rightarrow> a | None \<Rightarrow> fst al)"

definition bind_import_from :: "string list \<Rightarrow> nat \<Rightarrow> node \<Rightarrow> nat \<Rightarrow> string \<times> string option \<Rightarrow> builder \<Rightarrow> builder" where
  "bind_import_from pre level n scope al b =
     (if fst al = ''*'' \<and> pre = [''pytest''] \<and> level = 0
      then fold (\<lambda>x. bind_name scope x None n (Some [''pytest'', x]) None) [''skip'', ''mark'', ''pytestmark''] b
      else if fst al \<noteq> ''*''
      then bind_name scope (from_name al) None n (Some (pre @ [fst al])) None b
      else b)"

definition visit_importfrom ::
    "string option \<Rightarrow> (string \<times> string option) list \<Rightarrow> nat \<Rightarrow> node \<Rightarrow> nat \<Rightarrow> builder \<Rightarrow> builder" where
  "visit_importfrom module names level n scope b =
     mark n scope
       (fold (bind_import_from (import_prefix (module_parts b) (in_package b) module level) level n scope) names b)"

definition visit_assign :: "visitor \<Rightarrow> node list \<Rightarrow> node \<Rightarrow> node \<Rightarrow> nat \<Rightarrow> builder \<Rightarrow> builder" where
  "visit_assign v targets value n scope b =
     fold (\<lambda>t b. mark t scope (bind_targets scope (Some value) n None t b)) targets (v value scope b)"

definition visit_annassign :: "visitor \<Rightarrow> node \<Rightarrow> node \<Rightarrow> node option \<Rightarrow> node \<Rightarrow> nat \<Rightarrow> builder \<Rightarrow> builder" where
  "visit_annassign v target annotation value n scope b =
     mark target scope
       (bind_targets scope value n None target (visit_all v (annotation # opt_list value) scope b))"

definition visit_augassign :: "visitor \<Rightarrow> node \<Rightarrow> node \<Rightarrow> node \<Rightarrow> nat \<Rightarrow> builder \<Rightarrow> builder" where
  "visit_augassign v target value n scope b =
     mark target scope (v value scope (bind_targets scope None n None target b))"

definition visit_name :: "string \<Rightarrow> ctx \<Rightarrow> node \<Rightarrow> nat \<Rightarrow> builder \<Rightarrow> builder" where
  "visit_name x c n scope b = (if c = Store then bind_name scope x None n None None b else b)"

definition visit_global :: "string list \<Rightarrow> node \<Rightarrow> nat \<Rightarrow> builder \<Rightarrow> builder" where
  "visit_global names n scope b =
     mark n scope (update_scope scope (\<lambda>s. s\<lparr>global_names := global_names s \<union> set names\<rparr>) b)"

definition visit_nonlocal :: "string list \<Rightarrow> node \<Rightarrow> nat \<Rightarrow> builder \<Rightarrow> builder" where
  "visit_nonlocal names n scope b =
     mark n scope (update_scope scope (\<lambda>s. s\<lparr>nonlocal_names := nonlocal_names s \<union> set names\<rparr>) b)"

definition visit_namedexpr :: "visitor \<Rightarrow> node \<Rightarrow> node \<Rightarrow> node \<Rightarrow> nat \<Rightarrow> builder \<Rightarrow> builder" where
  "visit_namedexpr v target value n scope b =
     (let binding_scope = skip_kind ComprehensionScope (scope_list b) scope
      in mark target scope (bind_targets binding_scope (Some value) n None target (v value scope b)))"

definition header_expressions :: "node list \<Rightarrow> node \<Rightarrow> node option \<Rightarrow> node list" where
  "header_expressions decorators args returns =
     decorators @ argument_defaults args @
     concat (map (\<lambda>a. case as_arg a of Some (_, Some ann) \<Rightarrow> [ann] | _ \<Rightarrow> []) (function_arguments args)) @
     opt_list returns"

definition visit_argument :: "nat \<Rightarrow> node \<Rightarrow> builder \<Rightarrow> builder" where
  "visit_argument scope a b =
     (case as_arg a of
        None \<Rightarrow> b
      | Some (x, _) \<Rightarrow> set_node_scope scope a (bind_name scope x None a None None b))"

definition visit_arguments :: "node \<Rightarrow> nat \<Rightarrow> builder \<Rightarrow> builder" where
  "visit_arguments args scope b = fold (visit_argument scope) (function_arguments args) b"

definition visit_lambda :: "visitor \<Rightarrow> node \<Rightarrow> node \<Rightarrow> nat \<Rightarrow> builder \<Rightarrow> builder" where
  "visit_lambda v args body scope b =
     (let b1 = visit_all v (argument_defaults args) scope b;
          lambda_scope = length (scope_list b1);
          b2 = push_scope (Some (function_parent b1 scope)) FunctionScope b1
      in v body lambda_scope (visit_arguments args lambda_scope b2))"

fun visit_generators :: "visitor \<Rightarrow> nat \<Rightarrow> nat \<Rightarrow> nat \<Rightarrow> node list \<Rightarrow> builder \<Rightarrow> builder" where
  "visit_generators v scope comp_scope index [] b = b"
| "visit_generators v scope comp_scope index (g # gs) b =
     (case as_comprehension g of
        None \<Rightarrow> visit_generators v scope comp_scope (Suc index) gs b
      | Some (target, iter, ifs, _) \<Rightarrow>
          let phase = index + 1;
              b1 = mark_phase iter index (v iter (if index = 0 then scope else comp_scope) b);
              b2 = mark target comp_scope (bind_targets comp_scope None target (Some phase) target b1);
              b3 = fold (\<lambda>c b. mark_phase c phase (v c comp_scope b)) ifs b2
          in visit_generators v scope comp_scope (Suc index) gs b3)"

definition visit_comprehension :: "visitor \<Rightarrow> node list \<Rightarrow> node list \<Rightarrow> nat \<Rightarrow> builder \<Rightarrow> builder" where
  "visit_comprehension v elts generators scope b =
     (let comp_scope = length (scope_list b);
          b1 = push_scope (Some (function_parent b scope)) ComprehensionScope b;
          b2 = visit_generators v scope comp_scope 0 generators b1
      in fold (\<lambda>e b. mark_phase e (length generators) (v e comp_scope b)) elts b2)"

definition declared_globals :: "node list \<Rightarrow> string set" where
  "declared_globals body =
     (\<Union>s \<in> set (scope_statements body). case shape s of Stmt (NGlobal xs) \<Rightarrow> set xs | _ \<Rightarrow> {})"

definition declared_nonlocals :: "node list \<Rightarrow> string set" where
  "declared_nonlocals body =
     (\<Union>s \<in> set (scope_statements body). case shape s of Stmt (NNonlocal xs) \<Rightarrow> set xs | _ \<Rightarrow> {})"

definition visit_function_body ::
    "visitor \<Rightarrow> string \<Rightarrow> node \<Rightarrow> node list \<Rightarrow> node list \<Rightarrow> node option \<Rightarrow> node \<Rightarrow> nat \<Rightarrow> builder \<Rightarrow> builder" where
  "visit_function_body v name args body decorators returns n scope b =
     (let b1 = visit_all v (header_expressions decorators args returns) scope
                 (bind_name scope name None n None None b);
          function_scope = length (scope_list b1);
          b2 = push_scope (Some (function_parent b1 scope)) FunctionScope b1;
          b3 = update_scope function_scope
                 (\<lambda>s. s\<lparr>global_names := declared_globals body, nonlocal_names := declared_nonlocals body\<rparr>) b2;
          b4 = visit_arguments args function_scope b3;
          incoming = states function_scope b4;
          b5 = visit_all v body function_scope b4
      in restore_states (map (\<lambda>(i, out). merge_states [i, out]) (zip incoming (states function_scope b5))) b5)"

definition visit_classdef ::
    "visitor \<Rightarrow> string \<Rightarrow> node list \<Rightarrow> node list \<Rightarrow> node list \<Rightarrow> node list \<Rightarrow> node \<Rightarrow> nat \<Rightarrow> builder \<Rightarrow> builder" where
  "visit_classdef v name bases keywords body decorators n scope b =
     (let b1 = visit_all v (decorators @ bases @ keywords) scope
                 (bind_name scope name None n (Some [''<local>'', name]) None b);
          class_scope = length (scope_list b1);
          b2 = push_scope (Some scope) ClassScope b1
      in visit_all v body class_scope b2)"

section \<open>The visitor\<close>

definition visit_statement :: "visitor \<Rightarrow> node \<Rightarrow> node stmt \<Rightarrow> nat \<Rightarrow> builder \<Rightarrow> builder" where
  "visit_statement v n s scope =
     (case s of
        NImport names \<Rightarrow> visit_import names n scope
      | NImportFrom module names level \<Rightarrow> visit_importfrom module names level n scope
      | NAssign targets value \<Rightarrow> visit_assign v targets value n scope
      | NAnnAssign target annotation value \<Rightarrow> visit_annassign v target annotation value n scope
      | NAugAssign target value \<Rightarrow> visit_augassign v target value n scope
      | NGlobal names \<Rightarrow> visit_global names n scope
      | NNonlocal names \<Rightarrow> visit_nonlocal names n scope
      | NFunctionDef _ name args body decorators returns _ \<Rightarrow>
          visit_function_body v name args body decorators returns n scope
      | NClassDef name bases keywords body decorators _ \<Rightarrow>
          visit_classdef v name bases keywords body decorators n scope
      | NIf test body orelse \<Rightarrow> visit_if v test body orelse scope
      | NFor _ target iter body orelse \<Rightarrow> visit_for v target iter body orelse scope
      | NWhile test body orelse \<Rightarrow> visit_while v test body orelse scope
      | NBreak \<Rightarrow> visit_break
      | NContinue \<Rightarrow> visit_continue
      | NTry _ body handlers orelse finalbody \<Rightarrow> visit_try v body handlers orelse finalbody scope
      | NMatch subject match_cases \<Rightarrow> visit_match v subject match_cases scope
      | _ \<Rightarrow> visit_all v (stmt_children s) scope)"

definition visit_expression :: "visitor \<Rightarrow> node \<Rightarrow> node expr \<Rightarrow> nat \<Rightarrow> builder \<Rightarrow> builder" where
  "visit_expression v n e scope =
     (case e of
        NName x c \<Rightarrow> visit_name x c n scope
      | NNamedExpr target value \<Rightarrow> visit_namedexpr v target value n scope
      | NLambda args body \<Rightarrow> visit_lambda v args body scope
      | NComp _ elts generators \<Rightarrow> visit_comprehension v elts generators scope
      | _ \<Rightarrow> visit_all v (expr_children e) scope)"

definition visit_step :: "visitor \<Rightarrow> node \<Rightarrow> nat \<Rightarrow> builder \<Rightarrow> builder" where
  "visit_step v n scope b =
     (case shape n of
        Stmt s \<Rightarrow> visit_statement v n s scope
      | Expr e \<Rightarrow> visit_expression v n e scope
      | Plain p \<Rightarrow> visit_all v (plain_children p) scope) (enter n scope b)"

text \<open>A handler calls the visitor only below its own node, so that the recursion ends.\<close>

named_theorems visit_congs
  \<comment> \<open>handlers depend on the visitor only at the given nodes\<close>

lemma visit_all_cong [visit_congs]:
  "(\<And>d. d \<in> set ns \<Longrightarrow> v d = v' d) \<Longrightarrow> visit_all v ns scope b = visit_all v' ns scope b"
  unfolding visit_all_def by (rule fold_cong) simp_all

lemma visit_branch_list_cong:
  "(\<And>ns d. ns \<in> set branches \<Longrightarrow> d \<in> set ns \<Longrightarrow> v d = v' d) \<Longrightarrow>
   visit_branch_list v scope k inc branches outs b = visit_branch_list v' scope k inc branches outs b"
proof (induction branches arbitrary: outs b)
  case (Cons ns branches)
  have "visit_all v ns scope c = visit_all v' ns scope c" for c
    by (rule visit_all_cong) (rule Cons.prems[of ns], simp_all)
  moreover have "visit_branch_list v scope k inc branches os c = visit_branch_list v' scope k inc branches os c" for os c
    by (rule Cons.IH) (rule Cons.prems, auto)
  ultimately show ?case by (simp add: Let_def)
qed simp

lemma visit_branches_cong [visit_congs]:
  "(\<And>ns d. ns \<in> set branches \<Longrightarrow> d \<in> set ns \<Longrightarrow> v d = v' d) \<Longrightarrow>
   visit_branches v branches scope inc b = visit_branches v' branches scope inc b"
  unfolding visit_branches_def Let_def using visit_branch_list_cong[of branches v v'] by simp

lemma visit_loop_cong [visit_congs]:
  "(\<And>d. d \<in> set body \<union> set orelse \<Longrightarrow> v d = v' d) \<Longrightarrow>
   visit_loop v t body orelse scope b = visit_loop v' t body orelse scope b"
  unfolding visit_loop_def Let_def
  using visit_all_cong[of body v v'] visit_all_cong[of orelse v v'] by simp

lemma visit_until_cong:
  "(\<And>d. d \<in> set ns \<Longrightarrow> v d = v' d) \<Longrightarrow> visit_until v scope k ns b = visit_until v' scope k ns b"
  by (induction ns arbitrary: b) (simp_all add: Let_def)

lemma visit_handlers_cong:
  "(\<And>h d. h \<in> set hs \<Longrightarrow> d \<in> set (children h) \<Longrightarrow> v d = v' d) \<Longrightarrow>
   visit_handlers v scope k entry hs cont abr b = visit_handlers v' scope k entry hs cont abr b"
proof (induction hs arbitrary: cont abr b)
  case (Cons h hs)
  have IH: "visit_handlers v scope k entry hs c a x = visit_handlers v' scope k entry hs c a x" for c a x
    by (rule Cons.IH, rule Cons.prems) simp_all
  obtain ty nm body where x: "handler_parts h = (ty, nm, body)" by (cases "handler_parts h")
  have ch: "\<And>d. d \<in> set (opt_list ty @ body) \<Longrightarrow> v d = v' d"
    using Cons.prems[of h] handler_parts_below[OF x] by auto
  have until: "visit_until v scope k body c = visit_until v' scope k body c" for c
    by (rule visit_until_cong) (simp add: ch)
  have head: "(case ty of None \<Rightarrow> c | Some t \<Rightarrow> v t scope c) = (case ty of None \<Rightarrow> c | Some t \<Rightarrow> v' t scope c)" for c
    using ch by (cases ty) simp_all
  show ?case unfolding visit_handlers.simps x prod.case Let_def until head IH ..
qed simp

lemma visit_try_cong [visit_congs]:
  assumes "\<And>d. d \<in> set body \<union> set orelse \<union> set finalbody \<Longrightarrow> v d = v' d"
    and "\<And>h d. h \<in> set hs \<Longrightarrow> d \<in> set (children h) \<Longrightarrow> v d = v' d"
  shows "visit_try v body hs orelse finalbody scope b = visit_try v' body hs orelse finalbody scope b"
proof -
  have eqs: "visit_all v orelse scope x = visit_all v' orelse scope x"
    "visit_all v finalbody scope x = visit_all v' finalbody scope x"
    "visit_until v scope k body x = visit_until v' scope k body x"
    "visit_handlers v scope k entry hs cont abr x = visit_handlers v' scope k entry hs cont abr x"
    for x k entry cont abr
    by (rule visit_all_cong visit_until_cong visit_handlers_cong assms; simp add: assms)+
  show ?thesis unfolding visit_try_def visit_finally_def Let_def eqs ..
qed

lemma visit_match_cong [visit_congs]:
  assumes "v subject = v' subject" and "\<And>c d. c \<in> set cs \<Longrightarrow> d \<in> set (children c) \<Longrightarrow> v d = v' d"
  shows "visit_match v subject cs scope b = visit_match v' subject cs scope b"
proof -
  have ch: "v p = v' p" "\<And>x. g = Some x \<Longrightarrow> v x = v' x" "\<And>d. d \<in> set body \<Longrightarrow> v d = v' d"
    if "c \<in> set cs" "as_match_case c = Some (p, g, body)" for c p g body
    using assms(2)[OF that(1)] view_children(8)[OF that(2)] by auto
  have "visit_match_head v scope c x = visit_match_head v' scope c x" if "c \<in> set cs" for c x
    using ch[OF that] by (auto simp: visit_match_head_def split: option.splits)
  then have "fold (visit_match_head v scope) cs x = fold (visit_match_head v' scope) cs x" for x
    by (intro fold_cong) auto
  moreover have "visit_branches v (map case_body cs) scope True x = visit_branches v' (map case_body cs) scope True x" for x
    by (rule visit_branches_cong) (auto simp: case_body_def split: option.split_asm intro: ch(3)[OF _ sym])
  ultimately show ?thesis by (simp add: visit_match_def assms(1))
qed

lemma visit_generators_cong:
  "(\<And>g d. g \<in> set gs \<Longrightarrow> d \<in> set (children g) \<Longrightarrow> v d = v' d) \<Longrightarrow>
   visit_generators v scope cs i gs b = visit_generators v' scope cs i gs b"
proof (induction gs arbitrary: i b)
  case (Cons g gs)
  have IH: "visit_generators v scope cs j gs x = visit_generators v' scope cs j gs x" for j x
    by (rule Cons.IH, rule Cons.prems) simp_all
  show ?case
  proof (cases "as_comprehension g")
    case (Some x)
    obtain t it ifs a where x: "x = (t, it, ifs, a)" by (cases x)
    have ch: "\<And>d. d \<in> set (t # it # ifs) \<Longrightarrow> v d = v' d"
      using Cons.prems[of g] view_children(6)[of g t it ifs a] Some x by simp
    then have "fold (\<lambda>c b. mark_phase c (i + 1) (v c cs b)) ifs y = fold (\<lambda>c b. mark_phase c (i + 1) (v' c cs b)) ifs y" for y
      by (intro fold_cong) auto
    then show ?thesis using ch by (simp add: Some x Let_def IH)
  qed (simp add: IH)
qed simp

lemma visit_comprehension_cong [visit_congs]:
  assumes "\<And>d. d \<in> set elts \<Longrightarrow> v d = v' d" and "\<And>g d. g \<in> set gs \<Longrightarrow> d \<in> set (children g) \<Longrightarrow> v d = v' d"
  shows "visit_comprehension v elts gs scope b = visit_comprehension v' elts gs scope b"
proof -
  have eqs: "visit_generators v scope c 0 gs x = visit_generators v' scope c 0 gs x" for c x
    by (rule visit_generators_cong) (rule assms(2))
  show ?thesis unfolding visit_comprehension_def Let_def eqs by (rule fold_cong) (simp_all add: assms(1))
qed

lemma header_expressions_below:
  "set (header_expressions decs args returns) \<subseteq>
     set decs \<union> set (children args) \<union> (\<Union>a \<in> set (children args). set (children a)) \<union> set_option returns"
  using arguments_children[of args]
  by (fastforce simp: header_expressions_def split: option.splits prod.splits dest: view_children(9)[OF sym])

lemma visit_function_body_cong [visit_congs]:
  assumes "\<And>d. d \<in> set (header_expressions decs args returns) \<union> set body \<Longrightarrow> v d = v' d"
  shows "visit_function_body v x args body decs returns n scope b = visit_function_body v' x args body decs returns n scope b"
proof -
  have eqs: "visit_all v (header_expressions decs args returns) s c = visit_all v' (header_expressions decs args returns) s c"
    "visit_all v body s c = visit_all v' body s c" for s c
    by (rule visit_all_cong; simp add: assms)+
  show ?thesis unfolding visit_function_body_def Let_def eqs ..
qed

lemma visit_classdef_cong [visit_congs]:
  assumes "\<And>d. d \<in> set (decs @ bases @ kws @ body) \<Longrightarrow> v d = v' d"
  shows "visit_classdef v x bases kws body decs n scope b = visit_classdef v' x bases kws body decs n scope b"
proof -
  have eqs: "visit_all v (decs @ bases @ kws) s c = visit_all v' (decs @ bases @ kws) s c"
    "visit_all v body s c = visit_all v' body s c" for s c
    by (rule visit_all_cong, rule assms, auto)+
  show ?thesis unfolding visit_classdef_def Let_def eqs ..
qed

lemma visit_lambda_cong [visit_congs]:
  assumes "\<And>d. d \<in> set (argument_defaults args) \<Longrightarrow> v d = v' d" "v body = v' body"
  shows "visit_lambda v args body scope b = visit_lambda v' args body scope b"
proof -
  have eqs: "visit_all v (argument_defaults args) s c = visit_all v' (argument_defaults args) s c" for s c
    by (rule visit_all_cong; simp add: assms)+
  show ?thesis unfolding visit_lambda_def Let_def eqs assms(2) ..
qed

lemma grandchild_size: "d \<in> set (children c) \<Longrightarrow> c \<in> set (children n) \<Longrightarrow> size d < size n"
  using child_size less_trans by blast

lemma visit_statement_cong:
  assumes "shape n = Stmt s" "\<And>d. size d < size n \<Longrightarrow> v d = v' d"
  shows "visit_statement v n s scope b = visit_statement v' n s scope b"
proof -
  have c: "v d = v' d" if "d \<in> set (stmt_children s)" for d
    using that assms child_size[of d n] by (simp add: children_def)
  have cc: "v d = v' d" if "e \<in> set (stmt_children s)" "d \<in> set (children e)" for d e
    using that assms grandchild_size[of d e n] by (simp add: children_def)
  have ccc: "v d = v' d" if "e \<in> set (stmt_children s)" "f \<in> set (children e)" "d \<in> set (children f)" for d e f
    using that assms grandchild_size[of d f e] child_size[of e n] by (simp add: children_def)
  show ?thesis
  proof (cases s)
    case (NFunctionDef a x args body decs returns tps)
    have "v d = v' d" if "d \<in> set (header_expressions decs args returns) \<union> set body" for d
      using that header_expressions_below[of decs args returns] c[of d] cc[of args d] ccc[of args _ d] NFunctionDef
      by auto
    then show ?thesis
      unfolding NFunctionDef visit_statement_def stmt.case by (rule visit_function_body_cong)
  next
    case (NIf t body orelse)
    then show ?thesis
      using c by (auto simp: visit_statement_def visit_if_def intro!: visit_branches_cong)
  next
    case (NAnnAssign t a w)
    have eqs: "visit_all v (a # opt_list w) scope b = visit_all v' (a # opt_list w) scope b"
      by (rule visit_all_cong, rule c) (auto simp: NAnnAssign)
    show ?thesis unfolding NAnnAssign visit_statement_def stmt.case visit_annassign_def eqs ..
  qed (use c cc in \<open>auto simp: visit_statement_def visit_assign_def visit_augassign_def
        visit_for_def visit_while_def intro!: visit_congs\<close>)
qed

lemma visit_expression_cong:
  assumes "shape n = Expr e" "\<And>d. size d < size n \<Longrightarrow> v d = v' d"
  shows "visit_expression v n e scope b = visit_expression v' n e scope b"
proof -
  have c: "v d = v' d" if "d \<in> set (expr_children e)" for d
    using that assms child_size[of d n] by (simp add: children_def)
  have cc: "v d = v' d" if "f \<in> set (expr_children e)" "d \<in> set (children f)" for d f
    using that assms grandchild_size[of d f n] by (simp add: children_def)
  show ?thesis
  proof (cases e)
    case (NLambda args body)
    have "v d = v' d" if "d \<in> set (argument_defaults args)" for d
      using that arguments_children(2)[of args] cc[of args d] NLambda by auto
    then show ?thesis
      using c[of body] unfolding NLambda visit_expression_def expr.case by (intro visit_lambda_cong) simp_all
  qed (use c cc in \<open>auto simp: visit_expression_def visit_namedexpr_def intro!: visit_congs\<close>)
qed

lemma visit_step_cong [fundef_cong]:
  assumes "n = n'" "\<And>d. size d < size n' \<Longrightarrow> v d = v' d"
  shows "visit_step v n = visit_step v' n'"
proof (intro ext)
  fix scope b
  have "visit_all v (plain_children p) scope b = visit_all v' (plain_children p) scope b" if "shape n = Plain p" for p b
    by (rule visit_all_cong) (use that assms child_size[of _ n] in \<open>simp add: children_def\<close>)
  moreover have "visit_statement v n s scope b = visit_statement v' n s scope b" if "shape n = Stmt s" for s b
    using that assms by (intro visit_statement_cong) simp_all
  moreover have "visit_expression v n e scope b = visit_expression v' n e scope b" if "shape n = Expr e" for e b
    using that assms by (intro visit_expression_cong) simp_all
  ultimately show "visit_step v n scope b = visit_step v' n' scope b"
    unfolding visit_step_def assms(1)[symmetric] by (auto split: shape.split)
qed

function visit :: visitor where
  "visit n = visit_step visit n"
  by pat_completeness auto
termination
  by (relation "measure size") simp_all

declare visit.simps [simp del]

text \<open>The builder's constructor, and what \<open>build\<close> returns of it.\<close>

definition initial_builder :: "string list \<Rightarrow> bool \<Rightarrow> builder" where
  "initial_builder modname package =
     \<lparr>module_parts = modname, in_package = package, scope_list = [new_scope None ModuleScope], node_scopes = [],
      node_phases = [], node_bindings = [], loop_exit_stack = [], next_binding = 0\<rparr>"

definition scopes :: "node \<Rightarrow> string list \<Rightarrow> bool \<Rightarrow> builder" where
  "scopes tree modname package = visit tree 0 (initial_builder modname package)"

end
