(* ===== verification/ScopeResolve.thy ===== *)
theory ScopeResolve
  imports ScopeBuilder
begin

text \<open>
  Resolution of names over the scope analysis: the bindings that a reference can see, the dotted
  names an expression can evaluate to, the search for forbidden markers and the question whether
  an added line takes part in a resolution (\<open>check_policy.py\<close>, \<open>ast_names.py\<close>). Aliases may be
  cyclic; the code carries the set of the binding nodes it is resolving, and every recursive call
  either adds a node of the analysis to it or goes to a smaller expression.
\<close>

section \<open>Names\<close>

function dotted_name :: "node \<Rightarrow> string list option" where
  "dotted_name n =
     (case as_name n of
        Some (x, _) \<Rightarrow> Some [x]
      | None \<Rightarrow>
          (case as_attribute n of
             None \<Rightarrow> None
           | Some (v, a) \<Rightarrow> (case dotted_name v of None \<Rightarrow> None | Some parent \<Rightarrow> Some (parent @ [a]))))"
  by pat_completeness auto
termination by (relation "measure size") (auto intro!: child_size simp: view_children)

function root_name :: "node \<Rightarrow> node option" where
  "root_name n =
     (case as_attribute n of
        Some (v, _) \<Rightarrow> root_name v
      | None \<Rightarrow> (if as_name n = None then None else Some n))"
  by pat_completeness auto
termination by (relation "measure size") (auto intro!: child_size simp: view_children)

declare dotted_name.simps [simp del] root_name.simps [simp del]

lemma dotted_name_nonempty: "dotted_name n = Some xs \<Longrightarrow> xs \<noteq> []"
proof (induction n arbitrary: xs rule: dotted_name.induct)
  case (1 n)
  show ?case
    using 1(2) by (subst (asm) dotted_name.simps) (auto split: option.splits)
qed

section \<open>Bindings of a reference\<close>

definition unknown_binding :: "builder \<Rightarrow> node \<Rightarrow> binding" where
  "unknown_binding scs reference =
     \<lparr>bd_id = next_binding scs, bd_value = None, bd_node = reference, bd_imported = Some [], bd_phase = None\<rparr>"

definition visible_bindings :: "nat option \<Rightarrow> binding list \<Rightarrow> binding list" where
  "visible_bindings phase bs =
     (case phase of
        None \<Rightarrow> bs
      | Some p \<Rightarrow> filter (\<lambda>b. case bd_phase b of None \<Rightarrow> True | Some q \<Rightarrow> q \<le> p) bs)"

definition recorded_bindings :: "builder \<Rightarrow> node \<Rightarrow> binding list" where
  "recorded_bindings scs n = (case map_of (node_bindings scs) (node_id n) of None \<Rightarrow> [] | Some bs \<Rightarrow> bs)"

definition deferred_bindings :: "scope \<Rightarrow> string \<Rightarrow> binding list" where
  "deferred_bindings s name =
     (if get_bindings name (active_bindings s) \<noteq> [] then get_bindings name (active_bindings s)
      else get_bindings name (sc_bindings s))"

definition found_bindings :: "builder \<Rightarrow> string \<Rightarrow> bool \<Rightarrow> node option \<Rightarrow> scope \<Rightarrow> binding list" where
  "found_bindings scs name deferred first s =
     (case first of
        Some r \<Rightarrow> recorded_bindings scs r
      | None \<Rightarrow> if deferred then deferred_bindings s name else [])"

function bindings_from ::
    "builder \<Rightarrow> node \<Rightarrow> string \<Rightarrow> bool \<Rightarrow> nat option \<Rightarrow> node option \<Rightarrow> nat \<Rightarrow> binding list" where
  "bindings_from scs reference name deferred phase first i =
     (let s = scope_at scs i;
          visible = visible_bindings phase (found_bindings scs name deferred first s)
      in if visible \<noteq> [] then visible
         else if sc_kind s = FunctionScope \<and> name \<in> local_names s
         then (if get_bindings name (active_bindings s) \<noteq> [] then get_bindings name (active_bindings s)
               else [unknown_binding scs reference])
         else (case sc_parent s of
                 None \<Rightarrow> []
               | Some p \<Rightarrow> if p < i then bindings_from scs reference name deferred phase None p else []))"
  by pat_completeness auto
termination by (relation "measure (\<lambda>(_, _, _, _, _, _, i). i)") auto

declare bindings_from.simps [simp del]

definition bindings_for_name :: "string \<Rightarrow> node \<Rightarrow> builder \<Rightarrow> binding list" where
  "bindings_for_name name reference scs =
     (let i = (case map_of (node_scopes scs) (node_id reference) of None \<Rightarrow> 0 | Some j \<Rightarrow> j)
      in bindings_from scs reference name
           (sc_kind (scope_at scs i) = ComprehensionScope \<or> sc_kind (scope_at scs i) = FunctionScope)
           (map_of (node_phases scs) (node_id reference)) (root_name reference) i)"

text \<open>The nodes of the bindings that an analysis holds are finitely many.\<close>

definition state_bindings :: "active_state \<Rightarrow> binding set" where
  "state_bindings st = (\<Union>e \<in> set st. set (snd e))"

definition all_bindings :: "builder \<Rightarrow> binding set" where
  "all_bindings scs =
     (\<Union>e \<in> set (node_bindings scs). set (snd e)) \<union>
     (\<Union>s \<in> set (scope_list scs). state_bindings (active_bindings s) \<union> state_bindings (sc_bindings s))"

definition binding_nodes :: "builder \<Rightarrow> nat set" where
  "binding_nodes scs = (\<lambda>b. node_id (bd_node b)) ` all_bindings scs"

lemma finite_binding_nodes [simp]: "finite (binding_nodes scs)"
  by (simp add: binding_nodes_def all_bindings_def state_bindings_def)

lemma get_bindings_sub: "set (get_bindings name st) \<subseteq> state_bindings st"
  by (cases "map_of st name") (force simp: get_bindings_def state_bindings_def dest: map_of_SomeD)+

lemma new_scope_bindings [simp]:
  "get_bindings name (active_bindings (new_scope p k)) = []" "get_bindings name (sc_bindings (new_scope p k)) = []"
  by (simp_all add: new_scope_def get_bindings_def)

lemma scope_bindings_sub:
  "set (get_bindings name (active_bindings (scope_at scs i))) \<subseteq> all_bindings scs"
  "set (get_bindings name (sc_bindings (scope_at scs i))) \<subseteq> all_bindings scs"
  using get_bindings_sub[of name "active_bindings (scope_list scs ! i)"]
    get_bindings_sub[of name "sc_bindings (scope_list scs ! i)"] nth_mem[of i "scope_list scs"]
  by (auto simp: all_bindings_def scope_at_def)

lemma recorded_bindings_sub: "set (recorded_bindings scs r) \<subseteq> all_bindings scs"
  by (cases "map_of (node_bindings scs) (node_id r)")
    (force simp: recorded_bindings_def all_bindings_def dest: map_of_SomeD)+

lemma visible_bindings_sub: "set (visible_bindings phase bs) \<subseteq> set bs"
  by (cases phase) (auto simp: visible_bindings_def)

lemma deferred_bindings_sub: "set (deferred_bindings (scope_at scs i) name) \<subseteq> all_bindings scs"
  using scope_bindings_sub[of name scs i] by (simp add: deferred_bindings_def)

lemma bindings_from_sub:
  "set (bindings_from scs reference name deferred phase first i) \<subseteq>
     all_bindings scs \<union> {unknown_binding scs reference}"
proof (induction i arbitrary: first rule: less_induct)
  case (less i)
  have "set (visible_bindings phase (found_bindings scs name deferred first (scope_at scs i))) \<subseteq> all_bindings scs"
    using deferred_bindings_sub[of scs i name] recorded_bindings_sub[of scs]
    by (intro order_trans[OF visible_bindings_sub]) (simp add: found_bindings_def split: option.split)
  then show ?case
    using scope_bindings_sub(1)[of name scs i] less.IH
    by (cases "sc_parent (scope_at scs i)"; subst bindings_from.simps; auto simp: Let_def)
qed

lemma bindings_for_name_sub:
  "set (bindings_for_name name reference scs) \<subseteq> all_bindings scs \<union> {unknown_binding scs reference}"
  unfolding bindings_for_name_def Let_def by (rule bindings_from_sub)

text \<open>The measure of the recursions: the nodes not yet being resolved.\<close>

definition unresolved :: "builder \<Rightarrow> nat set \<Rightarrow> nat" where
  "unresolved scs resolving = card (binding_nodes scs - resolving)"

lemma unresolved_less:
  assumes "b \<in> set (bindings_for_name name reference scs)" "node_id (bd_node b) \<notin> resolving"
    and "bd_value b \<noteq> None"
  shows "unresolved scs (insert (node_id (bd_node b)) resolving) < unresolved scs resolving"
proof -
  have "b \<in> all_bindings scs"
    using assms(1,3) bindings_for_name_sub[of name reference scs] by (auto simp: unknown_binding_def)
  then have "node_id (bd_node b) \<in> binding_nodes scs - resolving"
    using assms(2) by (simp add: binding_nodes_def)
  then show ?thesis
    unfolding unresolved_def by (intro psubset_card_mono) auto
qed

section \<open>Resolved names\<close>

definition strip_named :: "node \<Rightarrow> node" where
  "strip_named n = (case as_named_expr n of Some (_, v) \<Rightarrow> v | None \<Rightarrow> n)"

lemma strip_named_size: "size (strip_named n) \<le> size n"
  using child_size[of _ n] by (force simp: strip_named_def view_children split: option.splits)

function resolved_names :: "builder \<Rightarrow> nat set \<Rightarrow> node \<Rightarrow> string list set" where
  "resolved_names scs resolving node =
     (let n = strip_named node
      in case as_if_exp n of
           Some (body, orelse) \<Rightarrow> resolved_names scs resolving body \<union> resolved_names scs resolving orelse
         | None \<Rightarrow>
             (case dotted_name n of
                None \<Rightarrow> {}
              | Some name \<Rightarrow>
                  let bs = bindings_for_name (hd name) n scs
                  in if bs = [] then {name}
                     else (\<Union>b \<in> set bs.
                             if node_id (bd_node b) \<in> resolving then {}
                             else (case bd_imported b of
                                     Some imported \<Rightarrow> {imported @ tl name}
                                   | None \<Rightarrow>
                                       (case bd_value b of
                                          None \<Rightarrow> {}
                                        | Some value \<Rightarrow>
                                            (\<lambda>x. x @ tl name) `
                                              resolved_names scs (insert (node_id (bd_node b)) resolving) value)))))"
  by pat_completeness auto
termination
proof (relation "measures [\<lambda>(scs, r, n). unresolved scs r, \<lambda>(scs, r, n). size n]")
  fix scs :: builder and resolving :: "nat set" and node n :: node and x :: "node \<times> node" and body orelse :: node
  assume "n = strip_named node" "as_if_exp n = Some x" "(body, orelse) = x"
  then show "((scs, resolving, body), scs, resolving, node) \<in>
      measures [\<lambda>(scs, r, n). unresolved scs r, \<lambda>(scs, r, n). size n]"
    "((scs, resolving, orelse), scs, resolving, node) \<in>
      measures [\<lambda>(scs, r, n). unresolved scs r, \<lambda>(scs, r, n). size n]"
    using if_exp_children[of n body orelse] child_size[of _ n] strip_named_size[of node] by fastforce+
qed (auto intro: unresolved_less)

declare resolved_names.simps [simp del]

definition DYNAMIC_CLIENT_NAMES :: "string list set" where
  "DYNAMIC_CLIENT_NAMES =
     {[''kubernetes'', ''dynamic'', ''DynamicClient''], [''kubernetes'', ''dynamic'', ''client'', ''DynamicClient'']}"

definition FORBIDDEN_SKIP_MARKERS :: "string list set" where
  "FORBIDDEN_SKIP_MARKERS = {[''pytest'', ''mark'', ''skip''], [''pytest'', ''mark'', ''skipif'']}"

definition is_dynamic_client_call :: "builder \<Rightarrow> node \<Rightarrow> bool" where
  "is_dynamic_client_call scs func \<longleftrightarrow>
     resolved_names scs {} func \<inter> ({[''DynamicClient'']} \<union> DYNAMIC_CLIENT_NAMES) \<noteq> {}"

definition is_pytest_skip_call :: "builder \<Rightarrow> node \<Rightarrow> bool" where
  "is_pytest_skip_call scs func \<longleftrightarrow> [''pytest'', ''skip''] \<in> resolved_names scs {} func"

section \<open>Forbidden markers\<close>

definition pytestmark_value_children :: "node \<Rightarrow> node list" where
  "pytestmark_value_children n =
     (case shape n of
        Expr (NComp _ elts gens) \<Rightarrow>
          elts @ concat (map (\<lambda>g. case as_comprehension g of None \<Rightarrow> [] | Some (_, it, _, _) \<Rightarrow> [it]) gens) @
          concat (map (\<lambda>g. case as_comprehension g of None \<Rightarrow> [] | Some (_, _, ifs, _) \<Rightarrow> ifs) gens)
      | _ \<Rightarrow> filter is_expr (children n))"

lemma pytestmark_child_size: "c \<in> set (pytestmark_value_children n) \<Longrightarrow> size c < size n"
proof (cases "\<exists>k elts gens. shape n = Expr (NComp k elts gens)")
  case True
  then obtain k elts gens where n: "shape n = Expr (NComp k elts gens)" by blast
  assume "c \<in> set (pytestmark_value_children n)"
  then have "c \<in> set elts \<or> (\<exists>g \<in> set gens. c \<in> set (children g))"
    by (fastforce simp: pytestmark_value_children_def n split: option.splits dest: view_children(6)[OF sym])
  then show ?thesis
    using child_size[of c n] grandchild_size[of c _ n] by (auto simp: children_def n)
next
  case False
  assume "c \<in> set (pytestmark_value_children n)"
  with False have "c \<in> set (children n)"
    by (auto simp: pytestmark_value_children_def split: shape.splits expr.splits)
  then show ?thesis by (rule child_size)
qed

definition marker_of :: "node \<Rightarrow> node" where
  "marker_of n = (case as_call n of Some (f, _, _) \<Rightarrow> f | None \<Rightarrow> n)"

lemma marker_of_size: "size (marker_of n) \<le> size n"
  using child_size[of _ n] by (force simp: marker_of_def view_children split: option.splits)

function is_forbidden_skip_decorator :: "builder \<Rightarrow> nat set \<Rightarrow> node \<Rightarrow> bool"
  and is_forbidden_bound_name :: "builder \<Rightarrow> nat set \<Rightarrow> node \<Rightarrow> bool"
  and is_forbidden_pytestmark_value :: "builder \<Rightarrow> nat set \<Rightarrow> node \<Rightarrow> bool" where
  "is_forbidden_skip_decorator scs resolving n =
     (resolved_names scs {} (marker_of n) \<inter> FORBIDDEN_SKIP_MARKERS \<noteq> {} \<or>
      is_forbidden_bound_name scs resolving (marker_of n))"
| "is_forbidden_bound_name scs resolving n =
     (case as_name n of
        None \<Rightarrow> False
      | Some (x, _) \<Rightarrow>
          (\<exists>b \<in> set (bindings_for_name x n scs).
             if node_id (bd_node b) \<in> resolving then False
             else (case bd_imported b of Some im \<Rightarrow> im \<in> FORBIDDEN_SKIP_MARKERS | None \<Rightarrow> False) \<or>
                  (case bd_value b of
                     None \<Rightarrow> False
                   | Some value \<Rightarrow>
                       is_forbidden_pytestmark_value scs (insert (node_id (bd_node b)) resolving) value)))"
| "is_forbidden_pytestmark_value scs resolving n =
     (is_forbidden_skip_decorator scs resolving n \<or>
      (\<exists>c \<in> set (pytestmark_value_children n). is_forbidden_pytestmark_value scs resolving c))"
  by pat_completeness auto
termination
proof (relation "measures [case_sum (\<lambda>(scs, r, n). unresolved scs r)
      (case_sum (\<lambda>(scs, r, n). unresolved scs r) (\<lambda>(scs, r, n). unresolved scs r)),
    case_sum (\<lambda>(scs, r, n). size n) (case_sum (\<lambda>(scs, r, n). size n) (\<lambda>(scs, r, n). size n)),
    case_sum (\<lambda>_. 1) (case_sum (\<lambda>_. 0) (\<lambda>_. 2))]")
qed (use marker_of_size[THEN le_imp_less_or_eq] in \<open>auto simp: pytestmark_child_size intro: unresolved_less\<close>)

lemmas forbidden_simps =
  is_forbidden_skip_decorator.simps is_forbidden_bound_name.simps is_forbidden_pytestmark_value.simps

declare forbidden_simps [simp del]

section \<open>Added lines\<close>

definition node_intersects :: "nat set option \<Rightarrow> node \<Rightarrow> bool" where
  "node_intersects added n =
     (case added of
        None \<Rightarrow> True
      | Some ls \<Rightarrow>
          (case position n of
             None \<Rightarrow> False
           | Some p \<Rightarrow>
               (case sp_end p of None \<Rightarrow> False | Some e \<Rightarrow> \<exists>l \<in> ls. sp_line p \<le> l \<and> l \<le> e)))"

function value_intersects :: "builder \<Rightarrow> nat set \<Rightarrow> nat set \<Rightarrow> node \<Rightarrow> bool" where
  "value_intersects scs ls resolving n =
     ((case as_name n of
         None \<Rightarrow> False
       | Some (x, _) \<Rightarrow>
           (\<exists>b \<in> set (bindings_for_name x n scs).
              if node_id (bd_node b) \<in> resolving then False
              else node_intersects (Some ls) (bd_node b) \<or>
                   (case bd_value b of
                      None \<Rightarrow> False
                    | Some value \<Rightarrow> value_intersects scs ls (insert (node_id (bd_node b)) resolving) value))) \<or>
      (\<exists>c \<in> set (children n). value_intersects scs ls resolving c))"
  by pat_completeness auto
termination
  by (relation "measures [\<lambda>(scs, ls, r, n). unresolved scs r, \<lambda>(scs, ls, r, n). size n]")
    (auto simp: child_size intro: unresolved_less)

declare value_intersects.simps [simp del]

definition value_intersects_added_lines :: "builder \<Rightarrow> nat set option \<Rightarrow> node \<Rightarrow> bool" where
  "value_intersects_added_lines scs added n =
     (case added of None \<Rightarrow> True | Some ls \<Rightarrow> value_intersects scs ls {} n)"

definition node_or_dependency_intersects :: "builder \<Rightarrow> nat set option \<Rightarrow> node \<Rightarrow> node \<Rightarrow> bool" where
  "node_or_dependency_intersects scs added n dependency \<longleftrightarrow>
     node_intersects added n \<or> value_intersects_added_lines scs added dependency"

end
