(* ===== verification/SourceChecks.thy ===== *)
theory SourceChecks
  imports PolicyTypes ScopeResolve
begin

text \<open>
  The checks of a module's tree for forbidden calls, markers and decorators
  (\<open>scripts/pre_commit_hooks/check_policy.py\<close>). Every check looks at one node, asks the resolution
  of names whether the node is forbidden, and reports it when an added line takes part in it;
  \<open>added\<close> is None when the whole file is checked.
\<close>

definition DYNAMIC_CLIENT_MESSAGE :: string where
  "DYNAMIC_CLIENT_MESSAGE = ''reuse the DynamicClient passed through the call path instead of constructing one''"

definition skip_call_message :: string where
  "skip_call_message = ''pytest.skip() is forbidden''"

definition skip_marker_message :: string where
  "skip_marker_message = ''pytest.mark.skip and pytest.mark.skipif are forbidden''"

definition pytestmark_message :: string where
  "pytestmark_message = ''module-level pytestmark skip markers are forbidden''"

definition node_line :: "node \<Rightarrow> nat option" where
  "node_line n = map_option sp_line (position n)"

definition violation_at :: "path \<Rightarrow> node \<Rightarrow> string \<Rightarrow> policy_violation" where
  "violation_at p n msg = \<lparr>file_path = p, line_number = node_line n, message = msg\<rparr>"

section \<open>Assignments to pytestmark\<close>

definition is_pytestmark :: "node \<Rightarrow> bool" where
  "is_pytestmark target = (case as_name target of Some (x, _) \<Rightarrow> x = ''pytestmark'' | None \<Rightarrow> False)"

definition pytestmark_value :: "node \<Rightarrow> node option" where
  "pytestmark_value n =
     (case shape n of
        Stmt (NAssign targets w) \<Rightarrow> if list_ex is_pytestmark targets then Some w else None
      | Stmt (NAnnAssign target _ w) \<Rightarrow> if is_pytestmark target then w else None
      | Stmt (NAugAssign target w) \<Rightarrow> if is_pytestmark target then Some w else None
      | _ \<Rightarrow> None)"

definition pytestmark_is_added :: "builder \<Rightarrow> nat set option \<Rightarrow> node \<Rightarrow> node \<Rightarrow> bool" where
  "pytestmark_is_added scs added n w = node_or_dependency_intersects scs added n w"

definition check_module_pytestmark :: "path \<Rightarrow> builder \<Rightarrow> nat set option \<Rightarrow> node \<Rightarrow> policy_violation option" where
  "check_module_pytestmark p scs added n =
     (case pytestmark_value n of
        None \<Rightarrow> None
      | Some w \<Rightarrow>
          if \<not> is_forbidden_pytestmark_value scs {} w then None
          else if \<not> pytestmark_is_added scs added n w then None
          else Some (violation_at p n pytestmark_message))"

section \<open>Calls\<close>

definition call_message :: "builder \<Rightarrow> node \<Rightarrow> string option" where
  "call_message scs func =
     (if is_dynamic_client_call scs func then Some DYNAMIC_CLIENT_MESSAGE
      else if is_pytest_skip_call scs func then Some skip_call_message
      else None)"

definition keyword_value :: "string \<Rightarrow> node list \<Rightarrow> node option" where
  "keyword_value x kws =
     map_option snd (List.find (\<lambda>(arg, _). arg = Some x) (List.map_filter as_keyword kws))"

definition pytest_param_marker_message :: "builder \<Rightarrow> node \<Rightarrow> node list \<Rightarrow> string option" where
  "pytest_param_marker_message scs func kws =
     (if [''pytest'', ''param''] \<notin> resolved_names scs {} func then None
      else (case keyword_value ''marks'' kws of
              None \<Rightarrow> None
            | Some marks \<Rightarrow> if is_forbidden_pytestmark_value scs {} marks then Some skip_marker_message else None))"

definition check_call :: "path \<Rightarrow> builder \<Rightarrow> nat set option \<Rightarrow> node \<Rightarrow> node \<Rightarrow> node list \<Rightarrow> policy_violation option" where
  "check_call p scs added n func kws =
     (let (msg, dependency) =
            (case call_message scs func of
               None \<Rightarrow> (pytest_param_marker_message scs func kws, n)
             | Some m \<Rightarrow> (Some m, func))
      in if \<not> node_or_dependency_intersects scs added n dependency then None
         else map_option (violation_at p n) msg)"

section \<open>Decorators\<close>

definition check_decorators :: "path \<Rightarrow> builder \<Rightarrow> nat set option \<Rightarrow> node list \<Rightarrow> policy_violation list" where
  "check_decorators p scs added decorators =
     map (\<lambda>d. violation_at p d skip_marker_message)
       (filter (\<lambda>d. is_forbidden_skip_decorator scs {} d \<and> node_or_dependency_intersects scs added d d) decorators)"

section \<open>The module\<close>

definition check_ast_node :: "path \<Rightarrow> builder \<Rightarrow> nat set option \<Rightarrow> node \<Rightarrow> policy_violation list" where
  "check_ast_node p scs added n =
     (case shape n of
        Expr (NCall func args kws) \<Rightarrow> opt_list (check_call p scs added n func kws)
      | Stmt (NClassDef _ _ _ _ decorators _) \<Rightarrow> check_decorators p scs added decorators
      | Stmt (NFunctionDef _ _ _ _ decorators _ _) \<Rightarrow> check_decorators p scs added decorators
      | _ \<Rightarrow> [])"

definition is_assignment :: "node \<Rightarrow> bool" where
  "is_assignment n =
     (case shape n of Stmt (NAssign _ _) \<Rightarrow> True | Stmt (NAnnAssign _ _ _) \<Rightarrow> True | Stmt (NAugAssign _ _) \<Rightarrow> True | _ \<Rightarrow> False)"

definition check_module_assignments :: "path \<Rightarrow> builder \<Rightarrow> nat set option \<Rightarrow> node \<Rightarrow> policy_violation list" where
  "check_module_assignments p scs added tree =
     List.map_filter (check_module_pytestmark p scs added)
       (filter (\<lambda>n. is_assignment n \<and> map_of (node_scopes scs) (node_id n) = Some 0) (walk_tree tree))"

definition check_ast_nodes :: "path \<Rightarrow> builder \<Rightarrow> nat set option \<Rightarrow> node \<Rightarrow> policy_violation list" where
  "check_ast_nodes p scs added tree = concat (map (check_ast_node p scs added) (walk_tree tree))"

text \<open>The dotted name of the module of a file.\<close>

definition module_name_of :: "path \<Rightarrow> string list res" where
  "module_name_of p =
     bind_res (with_suffix p []) (\<lambda>parts.
       Inr (if parts \<noteq> [] \<and> last parts = ''__init__'' then butlast parts else parts))"

definition is_package :: "path \<Rightarrow> bool" where
  "is_package p \<longleftrightarrow> path_name p = ''__init__.py''"

end
