(* ===== verification/AstNames.thy ===== *)
theory AstNames
  imports ScopeResolve
begin

text \<open>
  Names resolved by the syntax of a module alone (\<open>scripts/pre_commit_hooks/ast_names.py\<close>), without
  the scope analysis. A dictionary is an association list in insertion order, since one caller
  goes over its items.
\<close>

text \<open>\<open>ast.parse\<close>: the tree, or the line and message of the \<open>SyntaxError\<close>.\<close>

type_synonym parser = "string \<Rightarrow> (nat option \<times> string) + node"

definition parse_tree :: "parser \<Rightarrow> string \<Rightarrow> node res" where
  "parse_tree parse source = (case parse source of Inl _ \<Rightarrow> Inl SyntaxError | Inr tree \<Rightarrow> Inr tree)"

type_synonym name_bindings = "(string \<times> string list) list"

definition module_body :: "node \<Rightarrow> node list" where
  "module_body tree = (case shape tree of Plain (NModule body) \<Rightarrow> body | _ \<Rightarrow> [])"

definition resolve_syntax :: "name_bindings \<Rightarrow> node \<Rightarrow> string list option" where
  "resolve_syntax bs n =
     (case dotted_name n of
        None \<Rightarrow> None
      | Some name \<Rightarrow> Some ((case map_of bs (hd name) of None \<Rightarrow> [hd name] | Some b \<Rightarrow> b) @ tl name))"

definition is_lambda :: "node \<Rightarrow> bool" where
  "is_lambda n = (case shape n of Expr (NLambda _ _) \<Rightarrow> True | _ \<Rightarrow> False)"

definition walrus_target :: "node \<Rightarrow> string set" where
  "walrus_target n =
     (case as_named_expr n of
        None \<Rightarrow> {}
      | Some (target, _) \<Rightarrow> (case as_name target of None \<Rightarrow> {} | Some (x, _) \<Rightarrow> {x}))"

function walrus_bound_names :: "node \<Rightarrow> string set" where
  "walrus_bound_names n =
     walrus_target n \<union>
     (\<Union>c \<in> set (children n). if opens_scope c \<or> is_lambda c then {} else walrus_bound_names c)"
  by pat_completeness auto
termination by (relation "measure size") (simp_all add: child_size)

declare walrus_bound_names.simps [simp del]

definition bind_import_statement :: "node \<Rightarrow> name_bindings \<Rightarrow> name_bindings" where
  "bind_import_statement n bs =
     (case shape n of
        Stmt (NImport names) \<Rightarrow> fold (\<lambda>al. AList.update (fst (local_import al)) (snd (local_import al))) names bs
      | Stmt (NImportFrom (Some m) names 0) \<Rightarrow>
          if m = [] then bs
          else fold (\<lambda>al. AList.update (from_name al) (py_split ''.'' m @ [fst al]))
                 (filter (\<lambda>al. fst al \<noteq> ''*'') names) bs
      | _ \<Rightarrow> bs)"

definition import_bindings :: "node \<Rightarrow> name_bindings" where
  "import_bindings tree = fold bind_import_statement (module_body tree) []"

text \<open>What an assignment, an annotated or an augmented one binds, and its value.\<close>

definition assignment_parts :: "node \<Rightarrow> (node list \<times> node option) option" where
  "assignment_parts n =
     (case shape n of
        Stmt (NAssign ts v) \<Rightarrow> Some (ts, Some v)
      | Stmt (NAnnAssign t _ v) \<Rightarrow> Some ([t], v)
      | Stmt (NAugAssign t v) \<Rightarrow> Some ([t], Some v)
      | _ \<Rightarrow> None)"

definition bind_resolved :: "string list option \<Rightarrow> node \<Rightarrow> name_bindings \<Rightarrow> name_bindings" where
  "bind_resolved resolved target bs =
     (case as_name target of
        None \<Rightarrow> bs
      | Some (x, _) \<Rightarrow> (case resolved of None \<Rightarrow> AList.delete x bs | Some r \<Rightarrow> AList.update x r bs))"

definition bind_simple_statement :: "node \<Rightarrow> name_bindings \<Rightarrow> name_bindings" where
  "bind_simple_statement n bs =
     (case shape n of
        Stmt (NAssign ts v) \<Rightarrow> fold (bind_resolved (resolve_syntax bs v)) ts bs
      | Stmt (NAnnAssign t _ v) \<Rightarrow> bind_resolved (Option.bind v (resolve_syntax bs)) t bs
      | Stmt (NClassDef x _ _ _ _ _) \<Rightarrow> AList.update x [x] bs
      | Stmt (NFunctionDef _ x _ _ _ _ _) \<Rightarrow> AList.delete x bs
      | _ \<Rightarrow> bs)"

definition simple_bindings :: "node \<Rightarrow> name_bindings" where
  "simple_bindings tree = fold bind_simple_statement (module_body tree) (import_bindings tree)"

definition simple_name_resolver :: "node \<Rightarrow> node \<Rightarrow> string list set" where
  "simple_name_resolver tree n = set_option (resolve_syntax (simple_bindings tree) n)"

section \<open>Parents\<close>

text \<open>The dictionary from every node to its parent, and the way up to the root.\<close>

definition parent_entries :: "node \<Rightarrow> (nat \<times> node) list" where
  "parent_entries tree = [(node_id c, p). p \<leftarrow> walk_tree tree, c \<leftarrow> children p]"

definition parent_of :: "node \<Rightarrow> node \<Rightarrow> node option" where
  "parent_of tree n = map_of (rev (parent_entries tree)) (node_id n)"

text \<open>A parent is larger than its child and not larger than the tree, so that the way up ends.\<close>

function ancestors :: "node \<Rightarrow> node \<Rightarrow> node list" where
  "ancestors tree n =
     (case parent_of tree n of
        None \<Rightarrow> []
      | Some p \<Rightarrow> p # (if size n < size p \<and> size p \<le> size tree then ancestors tree p else []))"
  by pat_completeness auto
termination by (relation "measure (\<lambda>(tree, n). size tree - size n)") auto

declare ancestors.simps [simp del]

lemma in_parent_entries: "(i, p) \<in> set (parent_entries tree) \<longleftrightarrow>
    p \<in> set (subtree tree) \<and> (\<exists>c \<in> set (children p). node_id c = i)"
  by (auto simp: parent_entries_def set_walk_tree)

lemma distinct_subtree_unique:
  assumes "distinct (map node_id (subtree tree))" "m \<in> set (subtree tree)" "n \<in> set (subtree tree)" "node_id m = node_id n"
  shows "m = n"
  using assms by (metis distinct_map inj_onD)

lemma child_in_subtree: "c \<in> set (children q) \<Longrightarrow> q \<in> set (subtree p) \<Longrightarrow> c \<in> set (subtree p)"
  using subtree_trans[of q p] subtree_child[of c q] subtree_self[of c] by blast

lemma distinct_subtrees:
  assumes "distinct (map node_id (subtree n))"
  shows "c \<in> set (children n) \<Longrightarrow> distinct (map node_id (subtree c))"
    and "c \<in> set (children n) \<Longrightarrow> c' \<in> set (children n) \<Longrightarrow> c \<noteq> c' \<Longrightarrow>
      node_id ` set (subtree c) \<inter> node_id ` set (subtree c') = {}"
proof -
  have d: "distinct (concat (map (\<lambda>c. map node_id (subtree c)) (children n)))"
    using assms unfolding subtree.simps[of n] by (simp add: map_concat o_def)
  then show "c \<in> set (children n) \<Longrightarrow> distinct (map node_id (subtree c))"
    by (auto simp: distinct_concat_iff)
  show "c \<in> set (children n) \<Longrightarrow> c' \<in> set (children n) \<Longrightarrow> c \<noteq> c' \<Longrightarrow>
      node_id ` set (subtree c) \<inter> node_id ` set (subtree c') = {}"
  proof -
    assume c: "c \<in> set (children n)" "c' \<in> set (children n)" "c \<noteq> c'"
    have "map node_id (subtree c) \<noteq> map node_id (subtree c')"
    proof
      assume "map node_id (subtree c) = map node_id (subtree c')"
      then have "node_id c = node_id c'" unfolding subtree.simps[of c] subtree.simps[of c'] by simp
      moreover have "c \<in> set (subtree n)" "c' \<in> set (subtree n)" using c subtree_child[of _ n] subtree_self by blast+
      ultimately show False using distinct_subtree_unique[OF assms] c(3) by blast
    qed
    then have "set (map node_id (subtree c)) \<inter> set (map node_id (subtree c')) = {}"
      using d c by (metis (no_types, lifting) distinct_concat_iff image_eqI list.set_map)
    then show ?thesis by simp
  qed
qed

lemma parent_unique:
  assumes "distinct (map node_id (subtree tree))"
  shows "p \<in> set (subtree tree) \<Longrightarrow> p' \<in> set (subtree tree) \<Longrightarrow> n \<in> set (children p) \<Longrightarrow> n \<in> set (children p') \<Longrightarrow>
    p = p'"
  using assms
proof (induction tree rule: subtree.induct)
  case (1 tree)
  note parts = distinct_subtrees[OF "1.prems"(5)]
  have root: "q = tree" if q: "q \<in> set (subtree tree)" "n \<in> set (children q)" and n: "n \<in> set (children tree)" for q
  proof (rule ccontr)
    assume "q \<noteq> tree"
    then obtain c where c: "c \<in> set (children tree)" "q \<in> set (subtree c)" using q(1) by (auto simp: set_subtree[of tree])
    have nc: "n \<in> set (subtree c)" using child_in_subtree[OF q(2) c(2)] by simp
    have "c = n"
      using parts(2)[OF c(1) n] nc subtree_self[of n] by blast
    then show False using subtree_size[OF c(2)] child_size[OF q(2)] by simp
  qed
  show ?case
  proof (cases "n \<in> set (children tree)")
    case True
    then show ?thesis using root "1.prems" by metis
  next
    case False
    then have "p \<noteq> tree" "p' \<noteq> tree" using "1.prems"(3,4) by auto
    then obtain c c' where c: "c \<in> set (children tree)" "p \<in> set (subtree c)" "c' \<in> set (children tree)" "p' \<in> set (subtree c')"
      using "1.prems"(1,2) by (auto simp: set_subtree[of tree])
    have "n \<in> set (subtree c)" "n \<in> set (subtree c')"
      using child_in_subtree "1.prems"(3,4) c(2,4) by auto
    then have "c = c'" using parts(2)[OF c(1,3)] by blast
    then show ?thesis using "1.IH"[of c] c "1.prems"(3,4) parts(1) by blast
  qed
qed

lemma parent_of_iff:
  assumes "distinct (map node_id (subtree tree))" "n \<in> set (subtree tree)"
  shows "parent_of tree n = Some p \<longleftrightarrow> p \<in> set (subtree tree) \<and> n \<in> set (children p)"
proof
  have child: "n \<in> set (children q)" if "q \<in> set (subtree tree)" "c \<in> set (children q)" "node_id c = node_id n" for q c
    using distinct_subtree_unique[OF assms(1) _ assms(2) that(3)] child_in_subtree[OF that(2,1)] that(2) by simp
  {
    fix q assume "parent_of tree n = Some q"
    then have "q \<in> set (subtree tree)" "n \<in> set (children q)"
      using child by (auto simp: parent_of_def in_parent_entries dest!: map_of_SomeD)
  } note sound = this
  show "parent_of tree n = Some p \<Longrightarrow> p \<in> set (subtree tree) \<and> n \<in> set (children p)" using sound by blast
  assume p: "p \<in> set (subtree tree) \<and> n \<in> set (children p)"
  then have "(node_id n, p) \<in> set (rev (parent_entries tree))" by (auto simp: in_parent_entries)
  then obtain q where "parent_of tree n = Some q" using weak_map_of_SomeI[of "node_id n" p "rev (parent_entries tree)"] by (auto simp: parent_of_def)
  then show "parent_of tree n = Some p" using sound parent_unique[OF assms(1)] p by blast
qed

text \<open>The nodes on the way up are those that contain the node.\<close>

lemma in_below_iff: "n \<in> below p \<longleftrightarrow> (\<exists>q \<in> set (subtree p). n \<in> set (children q))"
proof
  show "n \<in> below p \<Longrightarrow> \<exists>q \<in> set (subtree p). n \<in> set (children q)"
  proof (induction p rule: subtree.induct)
    case (1 p)
    then obtain c where c: "c \<in> set (children p)" "n \<in> set (subtree c)" by (auto simp: below_unfold)
    show ?case
    proof (cases "n = c")
      case False
      then show ?thesis using 1(1)[OF c(1)] c subtree_child[OF c(1)] by (auto simp: below_def)
    qed (use c(1) in auto)
  qed
  assume "\<exists>q \<in> set (subtree p). n \<in> set (children q)"
  then obtain q where q: "q \<in> set (subtree p)" "n \<in> set (children q)" by blast
  then have "n \<in> set (subtree p)" using child_in_subtree[OF q(2,1)] by simp
  moreover have "n \<noteq> p" using child_size[OF q(2)] subtree_size[OF q(1)] by auto
  ultimately show "n \<in> below p" by (simp add: below_def)
qed

lemma set_ancestors:
  assumes "distinct (map node_id (subtree tree))" "n \<in> set (subtree tree)"
  shows "set (ancestors tree n) = {p \<in> set (subtree tree). n \<in> below p}"
  using assms
proof (induction tree n rule: ancestors.induct)
  case (1 tree n)
  note parent = parent_of_iff[OF "1.prems"]
  show ?case
  proof (cases "parent_of tree n")
    case None
    have "n \<notin> below p" if "p \<in> set (subtree tree)" for p
      using None parent subtree_trans[OF that] by (auto simp: in_below_iff)
    then show ?thesis by (subst ancestors.simps) (auto simp: None)
  next
    case (Some q)
    then have q: "q \<in> set (subtree tree)" "n \<in> set (children q)" using parent by auto
    have "ancestors tree n = q # ancestors tree q"
      using child_size[OF q(2)] subtree_size[OF q(1)] by (subst ancestors.simps) (simp add: Some)
    moreover have "set (ancestors tree q) = {p \<in> set (subtree tree). q \<in> below p}"
      using "1.IH"[OF Some] child_size[OF q(2)] subtree_size[OF q(1)] "1.prems"(1) q(1) by simp
    moreover have "n \<in> below p \<longleftrightarrow> p = q \<or> q \<in> below p" if p: "p \<in> set (subtree tree)" for p
    proof -
      have "n \<in> below p \<longleftrightarrow> q \<in> set (subtree p)"
        unfolding in_below_iff using parent_unique[OF "1.prems"(1)] subtree_trans[OF p] q by blast
      then show ?thesis by (auto simp: below_def)
    qed
    ultimately show ?thesis using q(1) by auto
  qed
qed

end
