(* ===== verification/TestBasics.thy ===== *)
theory TestBasics
  imports SourceChecks AstNames
begin

text \<open>
  The mechanical rules for Python sources (\<open>scripts/pre_commit_hooks/check_test_basics.py\<close>):
  relative imports, asserts without a message, asynchronous code, comparisons with None and
  booleans, calls of \<open>time.sleep\<close> and markers of special hardware. The resolver of names and the
  test whether an added line takes part are arguments, as in the code. A violation per resolved
  name is reported in the order of the names; the code goes over a set, whose order Python leaves open.
\<close>

section \<open>Constants\<close>

definition MAX_CONSTANT_DEPTH :: nat where "MAX_CONSTANT_DEPTH = 12"

definition MAX_CONSTANT_STRING_LENGTH :: nat where "MAX_CONSTANT_STRING_LENGTH = 4096"

definition MAX_CONSTANT_INTEGER_BITS :: nat where "MAX_CONSTANT_INTEGER_BITS = 256"

text \<open>\<open>i.bit_length() <= bits\<close>.\<close>

definition fits_bits :: "nat \<Rightarrow> int \<Rightarrow> bool" where
  "fits_bits bits i \<longleftrightarrow> \<bar>i\<bar> < 2 ^ bits"

definition constant_value :: "pconstant \<Rightarrow> pconstant option" where
  "constant_value k =
     (case k of
        KStr s \<Rightarrow> if length s > MAX_CONSTANT_STRING_LENGTH then None else Some k
      | KBytes s \<Rightarrow> if length s > MAX_CONSTANT_STRING_LENGTH then None else Some k
      | KInt i \<Rightarrow> if fits_bits MAX_CONSTANT_INTEGER_BITS i then Some k else None
      | _ \<Rightarrow> Some k)"

definition add_constants :: "pconstant option \<Rightarrow> pconstant option \<Rightarrow> pconstant option" where
  "add_constants l r =
     (case (l, r) of
        (Some (KStr a), Some (KStr b)) \<Rightarrow>
          if length a + length b > MAX_CONSTANT_STRING_LENGTH then None else Some (KStr (a @ b))
      | (Some (KInt a), Some (KInt b)) \<Rightarrow>
          if fits_bits MAX_CONSTANT_INTEGER_BITS (a + b) then Some (KInt (a + b)) else None
      | _ \<Rightarrow> None)"

fun join_constants :: "nat \<Rightarrow> pconstant option list \<Rightarrow> string option" where
  "join_constants output_length [] = Some []"
| "join_constants output_length (Some (KStr s) # vs) =
     (if output_length + length s > MAX_CONSTANT_STRING_LENGTH then None
      else map_option ((@) s) (join_constants (output_length + length s) vs))"
| "join_constants output_length (v # vs) = None"

function resolve_constant_expression :: "nat \<Rightarrow> node \<Rightarrow> pconstant option" where
  "resolve_constant_expression depth n =
     (if depth > MAX_CONSTANT_DEPTH then None
      else case shape n of
             Expr (NConstant k) \<Rightarrow> constant_value k
           | Expr (NBinOp True l r) \<Rightarrow>
               add_constants (resolve_constant_expression (depth + 1) l) (resolve_constant_expression (depth + 1) r)
           | Expr (NFormattedValue v conversion spec) \<Rightarrow>
               if conversion \<noteq> -1 \<or> spec \<noteq> None then None
               else (case resolve_constant_expression (depth + 1) v of Some (KStr s) \<Rightarrow> Some (KStr s) | _ \<Rightarrow> None)
           | Expr (NJoinedStr vs) \<Rightarrow>
               map_option KStr (join_constants 0 (map (resolve_constant_expression (depth + 1)) vs))
           | _ \<Rightarrow> None)"
  by pat_completeness auto
termination
  by (relation "measure (\<lambda>(_, n). size n)") (auto intro!: child_size simp: children_def)

declare resolve_constant_expression.simps [simp del]

section \<open>Single nodes\<close>

definition RELATIVE_IMPORT_MESSAGE :: string where
  "RELATIVE_IMPORT_MESSAGE = ''relative imports are forbidden; use absolute imports''"

definition ASYNC_FUNCTION_MESSAGE :: string where
  "ASYNC_FUNCTION_MESSAGE = ''test-basics: async functions are forbidden; use synchronous code''"

definition ASYNC_COMPREHENSION_MESSAGE :: string where
  "ASYNC_COMPREHENSION_MESSAGE =
     ''test-basics: async comprehensions are forbidden; use a synchronous comprehension''"

definition AWAIT_MESSAGE :: string where
  "AWAIT_MESSAGE = ''test-basics: await is forbidden; use synchronous code''"

definition ASYNC_FOR_MESSAGE :: string where
  "ASYNC_FOR_MESSAGE = ''test-basics: async for is forbidden; use a synchronous loop''"

definition ASYNC_WITH_MESSAGE :: string where
  "ASYNC_WITH_MESSAGE = ''test-basics: async with is forbidden; use a synchronous context manager''"

type_synonym resolver = "node \<Rightarrow> string list set"

definition is_relative_dynamic_import :: "resolver \<Rightarrow> node \<Rightarrow> node list \<Rightarrow> node list \<Rightarrow> bool" where
  "is_relative_dynamic_import resolve func args kws =
     (if [''importlib'', ''import_module''] \<in> resolve func
      then (case Option.bind (if args \<noteq> [] then Some (hd args) else keyword_value ''name'' kws)
                   (resolve_constant_expression 0) of
              Some (KStr s) \<Rightarrow> startswith s ''.''
            | _ \<Rightarrow> False)
      else if resolve func \<inter> {[''__import__''], [''builtins'', ''__import__'']} = {} then False
      else (case Option.bind (if length args > 4 then Some (args ! 4) else keyword_value ''level'' kws)
                   (resolve_constant_expression 0) of
              Some (KInt i) \<Rightarrow> i > 0
            | _ \<Rightarrow> False))"

definition is_none_constant :: "node \<Rightarrow> bool" where
  "is_none_constant n = (case shape n of Expr (NConstant KNone) \<Rightarrow> True | _ \<Rightarrow> False)"

definition is_bool_constant :: "node \<Rightarrow> bool" where
  "is_bool_constant n = (case shape n of Expr (NConstant (KBool _)) \<Rightarrow> True | _ \<Rightarrow> False)"

fun comparison_step :: "(bool \<times> node \<times> node) list \<Rightarrow> string option" where
  "comparison_step [] = None"
| "comparison_step ((equality, l, r) # rest) =
     (if \<not> equality then comparison_step rest
      else if is_none_constant l \<or> is_none_constant r
      then Some ''test-basics: compare None with 'is' or 'is not', not == or !=''
      else if is_bool_constant l \<or> is_bool_constant r
      then Some ''test-basics: use the value's implicit truthiness instead of comparing with True or False''
      else comparison_step rest)"

definition comparison_message :: "node \<Rightarrow> bool list \<Rightarrow> node list \<Rightarrow> string option" where
  "comparison_message left ops comparators = comparison_step (zip ops (zip (left # comparators) comparators))"

definition assert_message :: "node option \<Rightarrow> string option" where
  "assert_message msg =
     (let missing = Some ''test-basics: add a descriptive failure message to this assert''
      in case msg of
           None \<Rightarrow> missing
         | Some m \<Rightarrow>
             (case resolve_constant_expression 0 m of
                None \<Rightarrow> None
              | Some (KStr s) \<Rightarrow> if py_strip s = [] then missing else None
              | Some _ \<Rightarrow> missing))"

definition has_async_generator :: "node list \<Rightarrow> bool" where
  "has_async_generator generators \<longleftrightarrow>
     list_ex (\<lambda>g. case as_comprehension g of Some (_, _, _, is_async) \<Rightarrow> is_async | None \<Rightarrow> False) generators"

definition is_self_assert :: "node \<Rightarrow> bool" where
  "is_self_assert func =
     (case as_attribute func of
        None \<Rightarrow> False
      | Some (v, attr) \<Rightarrow>
          (case as_name v of Some (x, _) \<Rightarrow> x = ''self'' \<and> startswith attr ''assert'' | None \<Rightarrow> False))"

text \<open>\<open>added_lines is None or node.lineno in added_lines\<close>.\<close>

definition line_added :: "nat set option \<Rightarrow> node \<Rightarrow> bool" where
  "line_added added n =
     (case added of None \<Rightarrow> True | Some ls \<Rightarrow> (case node_line n of None \<Rightarrow> False | Some l \<Rightarrow> l \<in> ls))"

text \<open>The branches of \<open>_BasicsVisitor._visit\<close> on a node that is not a function definition.\<close>

definition basics_message :: "nat set option \<Rightarrow> node \<Rightarrow> string option" where
  "basics_message added n =
     (case shape n of
        Stmt (NAssert _ msg) \<Rightarrow> if node_intersects added n then assert_message msg else None
      | Expr (NComp _ _ generators) \<Rightarrow>
          if has_async_generator generators \<and> node_intersects added n then Some ASYNC_COMPREHENSION_MESSAGE else None
      | Expr (NAwait _) \<Rightarrow> if node_intersects added n then Some AWAIT_MESSAGE else None
      | Stmt (NFor True _ _ _ _) \<Rightarrow> if line_added added n then Some ASYNC_FOR_MESSAGE else None
      | Stmt (NWith True _ _) \<Rightarrow> if line_added added n then Some ASYNC_WITH_MESSAGE else None
      | Expr (NCall func _ _) \<Rightarrow>
          if node_intersects added n \<and> is_self_assert func
          then Some ''test-basics: replace unittest self.assert* with a pytest assert'' else None
      | Expr (NCompare left ops comparators) \<Rightarrow>
          if node_intersects added n then comparison_message left ops comparators else None
      | _ \<Rightarrow> None)"

definition function_header :: "node list \<Rightarrow> node \<Rightarrow> node option \<Rightarrow> node list" where
  "function_header decorators args returns = header_expressions decorators args returns"

lemma as_function_shape:
  "as_function n = Some (a, x, args, body, decs, returns) \<longleftrightarrow>
    (\<exists>tps. shape n = Stmt (NFunctionDef a x args body decs returns tps))"
  by (auto simp: as_function_def split: shape.splits stmt.splits)

lemma function_parts_size:
  assumes "as_function n = Some (a, x, args, body, decs, returns)"
    and "e \<in> set (function_header decs args returns) \<or> e \<in> set body"
  shows "size e < size n"
proof -
  have c: "set decs \<union> {args} \<union> set_option returns \<union> set body \<subseteq> set (children n)"
    using assms(1) by (auto simp: as_function_shape children_def)
  from assms(2) header_expressions_below[of decs args returns]
  have "e \<in> set (children n) \<or> e \<in> set (children args) \<or> (\<exists>m \<in> set (children args). e \<in> set (children m))"
    using c by (auto simp: function_header_def)
  then show ?thesis using child_size[of args n] c by (auto dest!: child_size)
qed

function basics_visit :: "path \<Rightarrow> nat set option \<Rightarrow> node \<Rightarrow> policy_violation list" where
  "basics_visit p added n =
     (case as_function n of
        Some (is_async, x, args, body, decorators, returns) \<Rightarrow>
          concat (map (basics_visit p added) (function_header decorators args returns)) @
          (if is_async \<and> line_added added n then [violation_at p n ASYNC_FUNCTION_MESSAGE]
           else concat (map (basics_visit p added) body))
      | None \<Rightarrow>
          opt_list (map_option (violation_at p n) (basics_message added n)) @
          concat (map (basics_visit p added) (children n)))"
  by pat_completeness auto
termination
  by (relation "measure (\<lambda>(_, _, n). size n)") (auto simp: function_parts_size child_size)

declare basics_visit.simps [simp del]

section \<open>Markers of special hardware\<close>

definition SPECIAL_INFRA_REQUIRED_MARKERS :: "string set" where
  "SPECIAL_INFRA_REQUIRED_MARKERS =
     {''gpu'', ''sriov'', ''bgp'', ''ibm_bare_metal'', ''dpdk'', ''swap'', ''cpu_manager'', ''numa'', ''hugepages'',
      ''jumbo_frame'', ''rwx_default_storage'', ''descheduler'', ''high_resource_vm''}"

definition special_infra_message :: "string \<Rightarrow> string" where
  "special_infra_message marker =
     ''test-basics: marker '' @ marker @ '' requires @pytest.mark.special_infra at module, class, or test level''"

definition single_chain :: "string list set \<Rightarrow> string list set" where
  "single_chain cs = (if card cs > 1 then {} else cs)"

text \<open>The elements of a list, set or tuple display.\<close>

definition display_elements :: "node \<Rightarrow> node list option" where
  "display_elements n =
     (case shape n of
        Expr (NList es) \<Rightarrow> Some es | Expr (NSet es) \<Rightarrow> Some es | Expr (NTuple es) \<Rightarrow> Some es | _ \<Rightarrow> None)"

definition is_marker_reference :: "node \<Rightarrow> bool" where
  "is_marker_reference n \<longleftrightarrow> as_attribute n \<noteq> None \<or> (\<exists>x \<in> set_option (as_name n). snd x = Load)"

lemma display_size: "display_elements n = Some es \<Longrightarrow> e \<in> set es \<Longrightarrow> size e < size n"
  by (rule child_size) (auto simp: display_elements_def children_def split: shape.splits expr.splits)

lemma call_size: "as_call n = Some (f, args, kws) \<Longrightarrow> size f < size n"
  by (rule child_size) (simp add: view_children)

function expression_marker_chains :: "resolver \<Rightarrow> node \<Rightarrow> string list set" where
  "expression_marker_chains resolve n =
     (case as_call n of
        Some (func, args, kws) \<Rightarrow> expression_marker_chains resolve func
      | None \<Rightarrow>
          (case display_elements n of
             Some es \<Rightarrow> (\<Union>e \<in> set es. expression_marker_chains resolve e)
           | None \<Rightarrow> if is_marker_reference n then single_chain (resolve n) else {}))"
  by pat_completeness auto
termination by (relation "measure (\<lambda>(_, n). size n)") (auto simp: display_size call_size)

function direct_application_nodes :: "node \<Rightarrow> node list" where
  "direct_application_nodes n =
     (case as_call n of
        Some (func, args, kws) \<Rightarrow> direct_application_nodes func
      | None \<Rightarrow>
          (case display_elements n of
             Some es \<Rightarrow> concat (map direct_application_nodes es)
           | None \<Rightarrow> if is_marker_reference n then [n] else []))"
  by pat_completeness auto
termination by (relation "measure size") (auto simp: display_size call_size)

function assignment_target_names :: "node \<Rightarrow> string set" where
  "assignment_target_names n =
     (case as_name n of
        Some (x, _) \<Rightarrow> {x}
      | None \<Rightarrow>
          (case as_starred n of
             Some v \<Rightarrow> assignment_target_names v
           | None \<Rightarrow>
               (case as_sequence n of
                  Some es \<Rightarrow> (\<Union>e \<in> set es. assignment_target_names e)
                | None \<Rightarrow> {})))"
  by pat_completeness auto
termination by (relation "measure size") (auto intro!: child_size simp: view_children)

declare expression_marker_chains.simps [simp del] direct_application_nodes.simps [simp del]
  assignment_target_names.simps [simp del]

text \<open>The statements of the blocks of a statement that run in the same scope.\<close>

definition handler_body :: "node \<Rightarrow> node list" where
  "handler_body h = (case handler_parts h of (_, _, body) \<Rightarrow> body)"

definition nested_blocks :: "node \<Rightarrow> node list" where
  "nested_blocks n =
     (case shape n of
        Stmt (NIf _ body orelse) \<Rightarrow> body @ orelse
      | Stmt (NWhile _ body orelse) \<Rightarrow> body @ orelse
      | Stmt (NFor _ _ _ body _) \<Rightarrow> body
      | Stmt (NTry _ body handlers orelse finalbody) \<Rightarrow>
          body @ orelse @ finalbody @ concat (map handler_body handlers)
      | Stmt (NWith False _ body) \<Rightarrow> body
      | Stmt (NMatch _ match_cases) \<Rightarrow> concat (map case_body match_cases)
      | _ \<Rightarrow> [])"

lemma handler_body_child: "s \<in> set (handler_body h) \<Longrightarrow> s \<in> set (children h)"
  using handler_parts_below[of h] by (cases "handler_parts h") (auto simp: handler_body_def)

lemma case_body_child: "s \<in> set (case_body c) \<Longrightarrow> s \<in> set (children c)"
  by (cases "as_match_case c") (auto simp: case_body_def view_children)

lemma nested_block_below:
  "s \<in> set (nested_blocks n) \<Longrightarrow> s \<in> set (children n) \<or> (\<exists>c \<in> set (children n). s \<in> set (children c))"
proof (cases "shape n")
  case (Stmt st)
  assume "s \<in> set (nested_blocks n)"
  then show ?thesis
    by (cases st) (auto simp: nested_blocks_def children_def[of n] Stmt dest: handler_body_child case_body_child
        split: bool.splits if_splits)
qed (simp_all add: nested_blocks_def)

lemma nested_block_size: "s \<in> set (nested_blocks n) \<Longrightarrow> size s < size n"
  using nested_block_below[of s n] child_size[of s n] grandchild_size[of s _ n] by auto

definition binds_pytestmark :: "node list \<Rightarrow> bool" where
  "binds_pytestmark targets \<longleftrightarrow> list_ex (\<lambda>t. ''pytestmark'' \<in> assignment_target_names t) targets"

definition statement_mutates :: "nat set \<Rightarrow> node \<Rightarrow> bool" where
  "statement_mutates top_level n =
     (case assignment_parts n of
        Some (targets, _) \<Rightarrow>
          if binds_pytestmark targets then node_id n \<notin> top_level else ''pytestmark'' \<in> walrus_bound_names n
      | None \<Rightarrow>
          (case shape n of
             Stmt (NDelete targets) \<Rightarrow> binds_pytestmark targets \<or> ''pytestmark'' \<in> walrus_bound_names n
           | _ \<Rightarrow> ''pytestmark'' \<in> walrus_bound_names n))"

function mutation_below :: "nat set \<Rightarrow> node \<Rightarrow> bool" where
  "mutation_below top_level n =
     (if opens_scope n then False
      else statement_mutates top_level n \<or> (\<exists>s \<in> set (nested_blocks n). mutation_below top_level s))"
  by pat_completeness auto
termination by (relation "measure (\<lambda>(_, n). size n)") (auto simp: nested_block_size)

definition has_dynamic_pytestmark_mutation :: "node \<Rightarrow> nat set \<Rightarrow> bool" where
  "has_dynamic_pytestmark_mutation tree top_level = list_ex (mutation_below top_level) (module_body tree)"

record module_marks =
  effective_mark :: "node option"
  augmented_marks :: "node list"
  top_level_marks :: "nat set"

definition is_augmented :: "node \<Rightarrow> bool" where
  "is_augmented n = (case shape n of Stmt (NAugAssign _ _) \<Rightarrow> True | _ \<Rightarrow> False)"

definition record_mark :: "node \<Rightarrow> module_marks \<Rightarrow> module_marks" where
  "record_mark n m =
     (case assignment_parts n of
        None \<Rightarrow> m
      | Some (targets, v) \<Rightarrow>
          if \<not> list_ex is_pytestmark targets then m
          else (let m' = m\<lparr>top_level_marks := insert (node_id n) (top_level_marks m)\<rparr>
                in case v of
                     None \<Rightarrow> m'
                   | Some w \<Rightarrow>
                       if is_augmented n then m'\<lparr>augmented_marks := augmented_marks m' @ [w]\<rparr>
                       else m'\<lparr>effective_mark := Some w, augmented_marks := []\<rparr>))"

definition marks_of_module :: "node \<Rightarrow> module_marks" where
  "marks_of_module tree =
     fold record_mark (module_body tree) \<lparr>effective_mark = None, augmented_marks = [], top_level_marks = {}\<rparr>"

definition decorators_of :: "node \<Rightarrow> node list" where
  "decorators_of n =
     (case shape n of
        Stmt (NFunctionDef _ _ _ _ decorators _ _) \<Rightarrow> decorators
      | Stmt (NClassDef _ _ _ _ decorators _) \<Rightarrow> decorators
      | _ \<Rightarrow> [])"

definition module_mark_values :: "node \<Rightarrow> node list" where
  "module_mark_values tree =
     (let m = marks_of_module tree
      in if has_dynamic_pytestmark_mutation tree (top_level_marks m) then []
         else opt_list (effective_mark m) @ augmented_marks m)"

definition scope_marker_chains :: "node \<Rightarrow> resolver \<Rightarrow> node \<Rightarrow> string list set" where
  "scope_marker_chains tree resolve n =
     (\<Union>e \<in> set (module_mark_values tree @ concat (map decorators_of (ancestors tree n))).
        expression_marker_chains resolve e)"

function application_values :: "node \<Rightarrow> node list" where
  "application_values n =
     (if opens_scope n then []
      else case assignment_parts n of
             Some (targets, v) \<Rightarrow> if binds_pytestmark targets then opt_list v else []
           | None \<Rightarrow> concat (map application_values (nested_blocks n)))"
  by pat_completeness auto
termination by (relation "measure size") (auto simp: nested_block_size)

declare mutation_below.simps [simp del] application_values.simps [simp del]

definition marker_application_expressions :: "node \<Rightarrow> node list" where
  "marker_application_expressions tree =
     concat (map decorators_of (walk_tree tree)) @ concat (map application_values (module_body tree))"

definition requires_special_infra :: "string list \<Rightarrow> bool" where
  "requires_special_infra chain \<longleftrightarrow>
     length chain = 3 \<and> take 2 chain = [''pytest'', ''mark''] \<and> chain ! 2 \<in> SPECIAL_INFRA_REQUIRED_MARKERS"

definition special_infra_violations ::
    "path \<Rightarrow> node \<Rightarrow> resolver \<Rightarrow> (node \<Rightarrow> node \<Rightarrow> bool) \<Rightarrow> policy_violation list" where
  "special_infra_violations p tree resolve intersects =
     [violation_at p n (special_infra_message (chain ! 2)).
        e \<leftarrow> marker_application_expressions tree, n \<leftarrow> direct_application_nodes e,
        chain \<leftarrow> sorted_list_of_set (resolve n),
        requires_special_infra chain \<and> intersects n n \<and>
          [''pytest'', ''mark'', ''special_infra''] \<notin> scope_marker_chains tree resolve n]"

section \<open>The check\<close>

definition CHECKED_ROOTS :: "string set" where
  "CHECKED_ROOTS = {''libs'', ''scripts'', ''tests'', ''utilities''}"

definition is_relative_import :: "node \<Rightarrow> bool" where
  "is_relative_import n = (case shape n of Stmt (NImportFrom _ _ level) \<Rightarrow> level > 0 | _ \<Rightarrow> False)"

definition is_module :: "node \<Rightarrow> bool" where
  "is_module n = (case shape n of Plain (NModule _) \<Rightarrow> True | _ \<Rightarrow> False)"

definition containing_scope :: "node \<Rightarrow> node \<Rightarrow> nat option" where
  "containing_scope tree n =
     map_option node_id (List.find (\<lambda>p. opens_scope p \<or> is_module p) (ancestors tree n))"

text \<open>A class of the same scope that ends above the call and is named like the object of the call.\<close>

definition shadowed_by_class :: "node \<Rightarrow> node \<Rightarrow> node \<Rightarrow> bool" where
  "shadowed_by_class tree n func =
     (case as_attribute func of
        None \<Rightarrow> False
      | Some (v, _) \<Rightarrow>
          (case as_name v of
             None \<Rightarrow> False
           | Some (x, _) \<Rightarrow>
               list_ex (\<lambda>c.
                 (case as_class c of Some (y, _) \<Rightarrow> y = x | None \<Rightarrow> False) \<and>
                 containing_scope tree c = containing_scope tree n \<and>
                 (case (Option.bind (position c) sp_end, node_line n) of
                    (Some e, Some l) \<Rightarrow> e < l
                  | _ \<Rightarrow> False)) (walk_tree tree)))"

definition line_key :: "policy_violation \<Rightarrow> nat" where
  "line_key v = (case line_number v of None \<Rightarrow> 0 | Some l \<Rightarrow> l)"

definition check_calls :: "path \<Rightarrow> node \<Rightarrow> string \<Rightarrow> (node \<Rightarrow> node \<Rightarrow> node list \<Rightarrow> node list \<Rightarrow> bool) \<Rightarrow> policy_violation list" where
  "check_calls p tree msg forbidden =
     [violation_at p n msg. n \<leftarrow> walk_tree tree,
        case as_call n of Some (func, args, kws) \<Rightarrow> forbidden n func args kws | None \<Rightarrow> False]"

definition check_test_basics ::
    "path \<Rightarrow> node \<Rightarrow> nat set option \<Rightarrow> resolver option \<Rightarrow> (node \<Rightarrow> node \<Rightarrow> bool) option \<Rightarrow> policy_violation list" where
  "check_test_basics p tree added resolve_name intersection =
     (let resolve = (case resolve_name of None \<Rightarrow> simple_name_resolver tree | Some r \<Rightarrow> r);
          intersects = (case intersection of None \<Rightarrow> (\<lambda>n _. node_intersects added n) | Some f \<Rightarrow> f);
          found =
            [violation_at p n RELATIVE_IMPORT_MESSAGE. n \<leftarrow> walk_tree tree, is_relative_import n \<and> node_intersects added n] @
            (if take 1 p = [''tests''] then special_infra_violations p tree resolve intersects else []) @
            check_calls p tree RELATIVE_IMPORT_MESSAGE
              (\<lambda>n func args kws. is_relative_dynamic_import resolve func args kws \<and> intersects n func) @
            check_calls p tree ''test-basics: replace time.sleep() with TimeoutSampler''
              (\<lambda>n func args kws. [''time'', ''sleep''] \<in> resolve func \<and> \<not> shadowed_by_class tree n func \<and>
                 intersects n func)
      in sort_key line_key
           (if p = [] \<or> hd p \<notin> CHECKED_ROOTS then found else found @ basics_visit p added tree))"

end
