(* ===== verification/StagedState.thy ===== *)
theory StagedState
  imports PolicyTypes
begin

text \<open>
  The staged state of the repository that the policy hook reads once, and the reader of
  tracked modules (\<open>_staged_changes\<close>, \<open>_index_source_reader\<close>, \<open>_resolved_added_lines\<close>). The
  commands are run by a function of another package, which is the parameter \<open>run\<close>: it
  returns whether the command succeeded and its two outputs.
\<close>

type_synonym command_runner = "string list \<Rightarrow> bool \<times> string \<times> string"

definition git_output :: "command_runner \<Rightarrow> string list \<Rightarrow> string res" where
  "git_output run command =
     (let (success, stdout, stderr) = run command
      in if success then Inr stdout
         else Inl (RuntimeError (''Git command failed: '' @ py_join '' '' command @ '': '' @ stderr)))"

definition EXCEPTIONS_PATH :: path where
  "EXCEPTIONS_PATH = [''scripts'', ''pre_commit_hooks'', ''exceptions.toml'']"

definition STAGED_DIFF_OPTIONS :: "string list" where
  "STAGED_DIFF_OPTIONS =
     [''--cached'', ''--find-renames'', ''--unified=0'', ''--no-color'', ''--no-ext-diff'', ''--no-textconv'']"

record staged_changes =
  changed_paths :: "path set"
  deleted_paths :: "path set"
  renamed_paths :: "path set"
  renamed_away_paths :: "path set"
  symlinked_paths :: "path set"
  sc_added_lines :: line_dict
  sources :: "(path \<times> string) list"
  head_sources :: "(path \<times> string) list"
  copied_paths :: "path set"

definition symlinked_staged_paths :: "command_runner \<Rightarrow> path set \<Rightarrow> path set res" where
  "symlinked_staged_paths run staged_paths =
     bind_res (git_output run [''git'', ''ls-files'', ''--stage'', ''-z'', ''--'']) (\<lambda>output.
       Inr {p \<in> staged_paths. (''120000'', p) \<in> set (parse_index_stage_records output)})"

text \<open>A dictionary comprehension that runs \<open>git show\<close> for every entry.\<close>

fun show_all :: "command_runner \<Rightarrow> string \<Rightarrow> (path \<times> path) list \<Rightarrow> (path \<times> string) list \<Rightarrow> (path \<times> string) list res" where
  "show_all run ref [] d = Inr d"
| "show_all run ref ((key, p) # rest) d =
     bind_res (git_output run [''git'', ''show'', ref @ '':'' @ path_str p]) (\<lambda>text.
       show_all run ref rest (AList.update key text d))"

definition all_lines :: "string \<Rightarrow> nat set" where
  "all_lines source = {1..length (py_split newline source)}"

fun mark_copied :: "path list \<Rightarrow> (path \<times> string) list \<Rightarrow> line_dict \<Rightarrow> line_dict" where
  "mark_copied [] srcs d = d"
| "mark_copied (p # ps) srcs d =
     (case map_of srcs p of
        None \<Rightarrow> mark_copied ps srcs d
      | Some source \<Rightarrow> mark_copied ps srcs (AList.update p (all_lines source) d))"

definition source_entry :: "path set \<Rightarrow> staged_entry \<Rightarrow> bool" where
  "source_entry symlinked e \<longleftrightarrow>
     (path_suffix (se_path e) = ''.py'' \<or> se_path e = EXCEPTIONS_PATH) \<and> se_path e \<notin> symlinked"

definition known_paths :: "staged_entry list \<Rightarrow> path set" where
  "known_paths entries = se_path ` set entries \<union> {p. \<exists>e \<in> set entries. source_path e = Some p}"

definition status_paths :: "char \<Rightarrow> staged_entry list \<Rightarrow> path set" where
  "status_paths c entries = se_path ` {e \<in> set entries. se_status e = c}"

definition staged_of_entries ::
    "command_runner \<Rightarrow> (path set \<Rightarrow> path list) \<Rightarrow> staged_entry list \<Rightarrow> path set \<Rightarrow> staged_changes res" where
  "staged_of_entries run iter entries deleted =
     (let active = filter (\<lambda>e. se_status e \<noteq> CHR ''D'') entries;
          base = \<lparr>changed_paths = se_path ` set entries, deleted_paths = deleted,
                  renamed_paths = status_paths (CHR ''R'') entries, renamed_away_paths = renamed_away entries,
                  symlinked_paths = {}, sc_added_lines = [], sources = [], head_sources = [], copied_paths = {}\<rparr>
      in if active = [] then Inr base
         else bind_res (symlinked_staged_paths run (se_path ` set active)) (\<lambda>symlinked.
              bind_res (if list_ex (\<lambda>e. path_suffix (se_path e) = ''.py'') active
                        then git_output run ([''git'', ''diff''] @ STAGED_DIFF_OPTIONS @ [''--'']) else Inr []) (\<lambda>staged_diff.
              bind_res (added_lines_by_path staged_diff None) (\<lambda>added.
                (let known = filter (\<lambda>(p, _). p \<in> known_paths entries) added;
                     source_paths = se_path ` {e \<in> set active. source_entry symlinked e};
                     copied = status_paths (CHR ''C'') active
                 in bind_res (show_all run '':0'' (map (\<lambda>p. (p, p)) (iter source_paths)) []) (\<lambda>srcs.
                    bind_res (show_all run ''HEAD''
                        (List.map_filter (\<lambda>e. if se_path e \<in> source_paths
                           then map_option (\<lambda>h. (se_path e, h)) (head_path e) else None) active) []) (\<lambda>heads.
                      Inr (base\<lparr>symlinked_paths := symlinked,
                                sc_added_lines := mark_copied (iter copied) srcs known,
                                sources := srcs, head_sources := heads, copied_paths := copied\<rparr>)))))))) "

definition read_staged_changes :: "command_runner \<Rightarrow> (path set \<Rightarrow> path list) \<Rightarrow> staged_changes res" where
  "read_staged_changes run iter =
     bind_res (git_output run [''git'', ''diff'', ''--cached'', ''--find-renames'', ''--name-status'', ''-z'', ''--'']) (\<lambda>status_output.
     bind_res (parse_staged_entries status_output) (\<lambda>entries.
     bind_res (parse_staged_status status_output) (\<lambda>deleted.
       staged_of_entries run iter entries deleted)))"

text \<open>The lines to check in a file: \<open>None\<close> for every line, the empty set when nothing is staged for it.\<close>

definition resolved_added_lines :: "staged_changes \<Rightarrow> path \<Rightarrow> nat set option" where
  "resolved_added_lines sc p =
     (case map_of (sc_added_lines sc) p of
        None \<Rightarrow> if map_of (sources sc) p \<noteq> None then None else Some {}
      | Some ns \<Rightarrow>
          if p \<in> changed_paths sc \<and> map_of (sources sc) p \<noteq> None \<and> ns = {} \<and> map_of (head_sources sc) p = None
          then None else Some ns)"

section \<open>Tracked modules\<close>

record index_source_reader =
  module_paths :: "(string list \<times> path) list"
  read_sources :: "(string list \<times> string) list"

definition module_parts :: "path \<Rightarrow> string list" where
  "module_parts p =
     (let parts = butlast p @ [fst (splitext (path_name p))]
      in if last parts = ''__init__'' then butlast parts else parts)"

definition index_source_reader_of :: "command_runner \<Rightarrow> index_source_reader res" where
  "index_source_reader_of run =
     bind_res (git_output run [''git'', ''ls-files'', ''--stage'', ''-z'', ''--'', ''libs'', ''tests'', ''utilities'']) (\<lambda>tracked.
       Inr \<lparr>module_paths = fold (\<lambda>(mode, p) d.
              if mode = ''120000'' \<or> path_suffix p \<noteq> ''.py'' then d else AList.update (module_parts p) p d)
              (parse_index_stage_records tracked) [],
            read_sources = []\<rparr>)"

definition read_module ::
    "command_runner \<Rightarrow> string list \<Rightarrow> index_source_reader \<Rightarrow> (string option \<times> index_source_reader) res" where
  "read_module run name r =
     (case map_of (module_paths r) name of
        None \<Rightarrow> Inr (None, r)
      | Some p \<Rightarrow>
          (case map_of (read_sources r) name of
             Some text \<Rightarrow> Inr (Some text, r)
           | None \<Rightarrow> bind_res (git_output run [''git'', ''show'', '':0:'' @ path_str p]) (\<lambda>text.
               Inr (Some text, r\<lparr>read_sources := AList.update name text (read_sources r)\<rparr>))))"

section \<open>The sources of the staged state\<close>

lemma git_output_Inr: "git_output run cmd = Inr t \<longleftrightarrow> (\<exists>err. run cmd = (True, t, err))"
  by (auto simp: git_output_def split: prod.splits if_splits)

lemma show_all_Inr:
  assumes "show_all run ref ps d = Inr d'"
  shows "map_of d' k \<noteq> None \<longleftrightarrow> map_of d k \<noteq> None \<or> k \<in> fst ` set ps"
    and "map_of d' k = Some t \<Longrightarrow> map_of d k = Some t \<or>
           (\<exists>p. (k, p) \<in> set ps \<and> git_output run [''git'', ''show'', ref @ '':'' @ path_str p] = Inr t)"
  using assms
proof (induction ps arbitrary: d)
  case (Cons kp ps)
  obtain k0 p where kp: "kp = (k0, p)" by (cases kp)
  { case 1
    then obtain x where "show_all run ref ps (AList.update k0 x d) = Inr d'"
      using kp by (auto simp: bind_res_Inr_iff)
    from Cons.IH(1)[OF this] show ?case using kp by (auto simp: update_conv)
  next
    case 2
    then show ?case using kp Cons.IH(2) by (fastforce simp: bind_res_Inr_iff update_conv split: if_splits) }
qed simp_all

lemma mark_copied_lookup:
  "map_of (mark_copied ps srcs d) p =
     (case map_of srcs p of
        Some source \<Rightarrow> if p \<in> set ps then Some (all_lines source) else map_of d p
      | None \<Rightarrow> map_of d p)"
  by (induction ps srcs d rule: mark_copied.induct) (auto simp: update_conv split: option.splits)

lemma all_lines_nonempty: "all_lines source \<noteq> {}"
  using py_split_nonempty[of newline source] by (cases "py_split newline source") (auto simp: all_lines_def)

lemma map_of_filter_key: "map_of (filter (\<lambda>(k, _). P k) d) k = (if P k then map_of d k else None)"
  by (induction d) auto

text \<open>What a staged state consists of, when some entry is not a deletion.\<close>

lemma staged_of_entries_cases:
  assumes "staged_of_entries run iter entries deleted = Inr sc"
  obtains (none) "sources sc = []" "sc_added_lines sc = []" "filter (\<lambda>e. se_status e \<noteq> CHR ''D'') entries = []"
      "changed_paths sc = se_path ` set entries" "deleted_paths sc = deleted" "symlinked_paths sc = {}"
  | (some) active symlinked diff added srcs heads where
      "active = filter (\<lambda>e. se_status e \<noteq> CHR ''D'') entries"
      "symlinked_staged_paths run (se_path ` set active) = Inr symlinked"
      "(if list_ex (\<lambda>e. path_suffix (se_path e) = ''.py'') active
        then git_output run ([''git'', ''diff''] @ STAGED_DIFF_OPTIONS @ [''--'']) else Inr []) = Inr diff"
      "added_lines_by_path diff None = Inr added"
      "show_all run '':0'' (map (\<lambda>p. (p, p)) (iter (se_path ` {e \<in> set active. source_entry symlinked e}))) [] = Inr srcs"
      "symlinked_paths sc = symlinked" "sources sc = srcs" "head_sources sc = heads"
      "sc_added_lines sc = mark_copied (iter (status_paths (CHR ''C'') active)) srcs
         (filter (\<lambda>(p, _). p \<in> known_paths entries) added)"
      "changed_paths sc = se_path ` set entries" "deleted_paths sc = deleted"
proof (cases "filter (\<lambda>e. se_status e \<noteq> CHR ''D'') entries = []")
  case True
  then show ?thesis using assms none by (auto simp: staged_of_entries_def)
next
  case False
  then show ?thesis
    using assms some by (auto simp: staged_of_entries_def Let_def bind_res_Inr_iff)
qed

lemma staged_sources:
  assumes "staged_of_entries run iter entries deleted = Inr sc" and "iterates iter"
  shows "map_of (sources sc) p \<noteq> None \<longleftrightarrow>
      (\<exists>e \<in> set entries. se_status e \<noteq> CHR ''D'' \<and> source_entry (symlinked_paths sc) e \<and> se_path e = p)"
    and "map_of (sources sc) p = Some t \<Longrightarrow> git_output run [''git'', ''show'', '':0:'' @ path_str p] = Inr t"
proof -
  have "(map_of (sources sc) p \<noteq> None \<longleftrightarrow>
      (\<exists>e \<in> set entries. se_status e \<noteq> CHR ''D'' \<and> source_entry (symlinked_paths sc) e \<and> se_path e = p)) \<and>
     (map_of (sources sc) p = Some t \<longrightarrow> git_output run [''git'', ''show'', '':0:'' @ path_str p] = Inr t)"
    using assms(1)
  proof (cases rule: staged_of_entries_cases)
    case none
    then show ?thesis by (auto simp: filter_empty_conv)
  next
    case (some active symlinked diff added srcs heads)
    have it: "set (iter (se_path ` {e \<in> set active. source_entry symlinked e})) = se_path ` {e \<in> set active. source_entry symlinked e}"
      using assms(2) by (simp add: iterates_def)
    show ?thesis
      using show_all_Inr[OF some(5), where k = p] some it by (auto simp: image_iff)
  qed
  then show "map_of (sources sc) p \<noteq> None \<longleftrightarrow>
      (\<exists>e \<in> set entries. se_status e \<noteq> CHR ''D'' \<and> source_entry (symlinked_paths sc) e \<and> se_path e = p)"
    and "map_of (sources sc) p = Some t \<Longrightarrow> git_output run [''git'', ''show'', '':0:'' @ path_str p] = Inr t"
    by blast+
qed

text \<open>
  The staged state fails closed: a staged source without a version in \<open>HEAD\<close> is checked on
  every line or on a set of lines that is not empty.
\<close>

lemma resolved_not_empty:
  assumes "staged_of_entries run iter entries deleted = Inr sc" and "iterates iter"
    and "map_of (sources sc) p \<noteq> None" and "map_of (head_sources sc) p = None"
  shows "resolved_added_lines sc p \<noteq> Some {}"
proof -
  have "p \<in> changed_paths sc"
    using staged_sources(1)[OF assms(1,2), of p] assms(1,3) by (auto elim: staged_of_entries_cases)
  then show ?thesis using assms(3,4) by (auto simp: resolved_added_lines_def split: option.splits)
qed

text \<open>A file that Git reports as copied is checked on every line; other files on what the diff adds.\<close>

lemma resolved_copied:
  assumes "staged_of_entries run iter entries deleted = Inr sc" and "iterates iter"
    and "e \<in> set entries" and "se_status e = CHR ''C''" and "map_of (sources sc) (se_path e) = Some t"
  shows "resolved_added_lines sc (se_path e) = Some (all_lines t)"
  using assms(1)
proof (cases rule: staged_of_entries_cases)
  case none
  then show ?thesis using assms(5) by simp
next
  case (some active symlinked diff added srcs heads)
  have "se_path e \<in> set (iter (status_paths (CHR ''C'') active))"
    using assms(2-4) some(1) by (simp add: iterates_def status_paths_def)
  then show ?thesis
    using some assms(5) by (simp add: resolved_added_lines_def mark_copied_lookup all_lines_nonempty)
qed

lemma resolved_from_diff:
  assumes "staged_of_entries run iter entries deleted = Inr sc" and "iterates iter"
    and "run ([''git'', ''diff''] @ STAGED_DIFF_OPTIONS @ [''--'']) = (True, staged_text fs, err)"
    and "list_all file_diff_ok fs" and "p \<in> fd_path ` set fs" and "path_suffix p = ''.py''"
    and "map_of (sources sc) p \<noteq> None" and "p \<notin> status_paths (CHR ''C'') entries"
  shows "resolved_added_lines sc p =
     (let new = (\<Union>f \<in> {f \<in> set fs. fd_path f = p}. file_added f)
      in if new = {} \<and> map_of (head_sources sc) p = None then None else Some new)"
  using assms(1)
proof (cases rule: staged_of_entries_cases)
  case none
  then show ?thesis using assms(7) by simp
next
  case (some active symlinked diff added srcs heads)
  have s: "\<exists>e \<in> set entries. se_status e \<noteq> CHR ''D'' \<and> se_path e = p"
    using staged_sources(1)[OF assms(1,2), of p] assms(7) by auto
  then have "list_ex (\<lambda>e. path_suffix (se_path e) = ''.py'') active"
    using some(1) assms(6) by (auto simp: list_ex_iff)
  then have "diff = staged_text fs" using some(3) assms(3) by (simp add: git_output_def)
  then have a: "map_of added p = Some (\<Union>f \<in> {f \<in> set fs. fd_path f = p}. file_added f)"
    using added_lines_staged_text[OF assms(4)] some(4) assms(5) by auto
  have "p \<in> known_paths entries" using s by (auto simp: known_paths_def)
  moreover have "p \<notin> set (iter (status_paths (CHR ''C'') active))"
    using assms(2,8) some(1) by (auto simp: iterates_def status_paths_def)
  ultimately have "map_of (sc_added_lines sc) p = map_of added p"
    using some(9) by (simp add: mark_copied_lookup map_of_filter_key split: option.splits)
  moreover have "p \<in> changed_paths sc" using s some(10) by auto
  ultimately show ?thesis using a assms(7) by (simp add: resolved_added_lines_def Let_def)
qed

section \<open>The module reader\<close>

text \<open>
  The reader remembers what it has read. Reading through it gives what reading from Git gives,
  in any sequence of requests.
\<close>

definition reader_ok :: "command_runner \<Rightarrow> index_source_reader \<Rightarrow> bool" where
  "reader_ok run r \<longleftrightarrow> (\<forall>name text. map_of (read_sources r) name = Some text \<longrightarrow>
     (\<exists>p. map_of (module_paths r) name = Some p \<and> git_output run [''git'', ''show'', '':0:'' @ path_str p] = Inr text))"

definition direct_read :: "command_runner \<Rightarrow> (string list \<times> path) list \<Rightarrow> string list \<Rightarrow> string option res" where
  "direct_read run paths name =
     (case map_of paths name of
        None \<Rightarrow> Inr None
      | Some p \<Rightarrow> bind_res (git_output run [''git'', ''show'', '':0:'' @ path_str p]) (\<lambda>t. Inr (Some t)))"

fun read_modules :: "command_runner \<Rightarrow> string list list \<Rightarrow> index_source_reader \<Rightarrow> string option list res" where
  "read_modules run [] r = Inr []"
| "read_modules run (n # ns) r =
     bind_res (read_module run n r) (\<lambda>(t, r'). bind_res (read_modules run ns r') (\<lambda>ts. Inr (t # ts)))"

fun direct_reads :: "command_runner \<Rightarrow> (string list \<times> path) list \<Rightarrow> string list list \<Rightarrow> string option list res" where
  "direct_reads run paths [] = Inr []"
| "direct_reads run paths (n # ns) =
     bind_res (direct_read run paths n) (\<lambda>t. bind_res (direct_reads run paths ns) (\<lambda>ts. Inr (t # ts)))"

lemma read_module_step:
  assumes "reader_ok run r"
  shows "(\<exists>t r'. read_module run n r = Inr (t, r') \<and> direct_read run (module_paths r) n = Inr t \<and>
            reader_ok run r' \<and> module_paths r' = module_paths r) \<or>
         (\<exists>e. read_module run n r = Inl e \<and> direct_read run (module_paths r) n = Inl e)"
proof (cases "map_of (module_paths r) n")
  case None
  then show ?thesis using assms by (auto simp: read_module_def direct_read_def)
next
  case (Some p)
  show ?thesis
  proof (cases "map_of (read_sources r) n")
    case (Some t)
    then show ?thesis using assms \<open>map_of (module_paths r) n = Some p\<close>
      by (fastforce simp: read_module_def direct_read_def reader_ok_def)
  next
    case None
    then show ?thesis using assms Some
      by (cases "git_output run [''git'', ''show'', '':0:'' @ path_str p]")
         (auto simp: read_module_def direct_read_def reader_ok_def update_conv)
  qed
qed

lemma read_modules_direct:
  "reader_ok run r \<Longrightarrow> read_modules run ns r = direct_reads run (module_paths r) ns"
proof (induction ns arbitrary: r)
  case (Cons n ns)
  then show ?case using read_module_step[OF Cons.prems, of n] by (auto simp: bind_res_def)
qed simp

lemma new_reader_ok: "index_source_reader_of run = Inr r \<Longrightarrow> reader_ok run r"
  by (auto simp: index_source_reader_of_def bind_res_Inr_iff reader_ok_def)

end
