(* ===== verification/LinterDirectives.thy ===== *)
theory LinterDirectives
  imports StagedState "HOL-Library.Multiset"
begin

text \<open>
  Suppression comments and the manifest of reviewed exceptions
  (\<open>scripts/pre_commit_hooks/check_linter_directives.py\<close>). The parser, the tokenizer, the
  TOML reader, the URL parser and SHA-256 of the standard library are functions of an
  environment; of a parsed module the code uses its statements, in the order of \<open>walk\<close>, with
  their positions and their dump.
\<close>

section \<open>Data\<close>

datatype toml = TString string | TArray "toml list" | TTable "(string \<times> toml) list" | TOther

record stmt_info =
  st_lineno :: nat
  st_end_lineno :: "nat option"
  st_col_offset :: nat
  st_dump :: string

datatype lint_error = ManifestError string | InvalidDirective nat string | Raised py_error

record lint_env =
  parse_statements :: "string \<Rightarrow> lint_error + stmt_info list"
  comment_tokens :: "string \<Rightarrow> (nat \<times> string) list"
  sha256_hex :: "string \<Rightarrow> string"
  toml_loads :: "string \<Rightarrow> string + (string \<times> toml) list"
  url_parts :: "string \<Rightarrow> string \<times> string"

record directive_exception =
  de_rule :: string
  de_path :: string
  de_directive :: string
  source_fingerprint :: string
  reason :: string
  approval_url :: string

record directive =
  d_rule :: string
  d_text :: string
  d_line_number :: nat
  d_fingerprint :: string

definition identity :: "directive \<Rightarrow> string \<times> string \<times> string" where
  "identity d = (d_rule d, d_text d, d_fingerprint d)"

definition DIRECTIVE_PATTERNS :: "(string \<times> regex) list" where
  "DIRECTIVE_PATTERNS =
     [(''noqa'', RSeqs [RLit ''#'', RStar RSpace, nocase ''noqa'', RBound]),
      (''type-ignore'', RSeqs [RLit ''#'', RStar RSpace, nocase ''type'', RStar RSpace, RLit '':'',
         RStar RSpace, nocase ''ignore'', RBound]),
      (''pylint-disable'', RSeqs [RLit ''#'', RStar RSpace, nocase ''pylint'', RStar RSpace, RLit '':'',
         RStar RSpace, nocase ''disable'', RBound])]"

definition PLACEHOLDER_VALUES :: "string set" where
  "PLACEHOLDER_VALUES = {'''', ''-'', ''.'', ''n/a'', ''none'', ''tba'', ''tbd''}"

section \<open>Directives of a source\<close>

text \<open>\<open>split()\<close> without a separator: the maximal runs of characters that are not white space.\<close>

function split_ws :: "string \<Rightarrow> string list" where
  "split_ws [] = []"
| "split_ws (c # cs) =
     (if is_space c then split_ws cs
      else (c # takeWhile (\<lambda>x. \<not> is_space x) cs) # split_ws (dropWhile (\<lambda>x. \<not> is_space x) cs))"
  by pat_completeness auto
termination
  by (relation "measure length") (auto simp: less_Suc_eq_le length_dropWhile_le)

definition normalized_directive :: "string \<Rightarrow> string" where
  "normalized_directive comment = py_join '' '' (split_ws (py_strip comment))"

definition matching_rules :: "string \<Rightarrow> string list" where
  "matching_rules text = map fst (filter (\<lambda>(_, pattern). re_search pattern text \<noteq> None) DIRECTIVE_PATTERNS)"

definition rule_for_directive :: "string \<Rightarrow> lint_error + string" where
  "rule_for_directive text =
     (case matching_rules text of
        [rule] \<Rightarrow> Inr rule
      | _ \<Rightarrow> Inl (ManifestError (''directive must contain exactly one supported suppression: '' @ py_repr text)))"

definition stmt_end :: "stmt_info \<Rightarrow> nat" where
  "stmt_end st = (case st_end_lineno st of None \<Rightarrow> st_lineno st | Some e \<Rightarrow> if e = 0 then st_lineno st else e)"

definition stmt_key :: "stmt_info \<Rightarrow> int \<times> int" where
  "stmt_key st = (int (stmt_end st) - int (st_lineno st), - int (st_col_offset st))"

fun min_by :: "('a \<Rightarrow> 'b::linorder) \<Rightarrow> 'a \<Rightarrow> 'a list \<Rightarrow> 'a" where
  "min_by key m [] = m"
| "min_by key m (x # xs) = min_by key (if key x < key m then x else m) xs"

definition statement_fingerprint_source :: "stmt_info list \<Rightarrow> nat \<Rightarrow> string" where
  "statement_fingerprint_source tree line =
     (case filter (\<lambda>st. st_lineno st \<le> line \<and> line \<le> stmt_end st) tree of
        [] \<Rightarrow> ''comment''
      | st # sts \<Rightarrow> st_dump (min_by stmt_key st sts))"

definition compute_source_fingerprint_of :: "lint_env \<Rightarrow> stmt_info list \<Rightarrow> nat \<Rightarrow> string \<Rightarrow> string \<Rightarrow> string" where
  "compute_source_fingerprint_of env tree line text rule =
     ''sha256:'' @ sha256_hex env (rule @ nul @ normalized_directive text @ nul @ statement_fingerprint_source tree line)"

definition compute_source_fingerprint :: "lint_env \<Rightarrow> string \<Rightarrow> nat \<Rightarrow> string \<Rightarrow> lint_error + string" where
  "compute_source_fingerprint env source line text =
     (let normalized = normalized_directive text
      in bind_res (parse_statements env source) (\<lambda>tree.
         bind_res (rule_for_directive normalized) (\<lambda>rule.
           Inr (compute_source_fingerprint_of env tree line normalized rule))))"

fun directives_of :: "lint_env \<Rightarrow> stmt_info list \<Rightarrow> (nat \<times> string) list \<Rightarrow> lint_error + directive list" where
  "directives_of env tree [] = Inr []"
| "directives_of env tree ((line, comment) # rest) =
     (let normalized = normalized_directive comment
      in case matching_rules normalized of
           [] \<Rightarrow> directives_of env tree rest
         | [rule] \<Rightarrow> bind_res (directives_of env tree rest) (\<lambda>ds.
             Inr (\<lparr>d_rule = rule, d_text = normalized, d_line_number = line,
                   d_fingerprint = compute_source_fingerprint_of env tree line normalized rule\<rparr> # ds))
         | _ \<Rightarrow> Inl (InvalidDirective line normalized))"

definition directives :: "lint_env \<Rightarrow> string \<Rightarrow> lint_error + directive list" where
  "directives env source =
     bind_res (parse_statements env source) (\<lambda>tree. directives_of env tree (comment_tokens env source))"

section \<open>The manifest\<close>

definition at_index :: "nat \<Rightarrow> string \<Rightarrow> string" where
  "at_index i text = ''exceptions['' @ show_nat i @ '']'' @ text"

definition required_string :: "(string \<times> toml) list \<Rightarrow> string \<Rightarrow> nat \<Rightarrow> lint_error + string" where
  "required_string record field i =
     (case map_of record field of
        Some (TString s) \<Rightarrow>
          if py_lower (py_strip s) \<in> PLACEHOLDER_VALUES
          then Inl (ManifestError (at_index i (''.'' @ field @ '' must be a non-placeholder string'')))
          else Inr (py_strip s)
      | _ \<Rightarrow> Inl (ManifestError (at_index i (''.'' @ field @ '' must be a non-placeholder string''))))"

definition is_absolute :: "path \<Rightarrow> bool" where
  "is_absolute p \<longleftrightarrow> p \<noteq> [] \<and> (hd p = ''/'' \<or> hd p = ''//'')"

definition validate_path :: "string \<Rightarrow> nat \<Rightarrow> lint_error + string" where
  "validate_path p i =
     (if p \<noteq> path_str (py_path p) \<or> is_absolute (py_path p) \<or> ''..'' \<in> set (py_path p)
      then Inl (ManifestError (at_index i ''.path must be a normalized repository-relative path''))
      else if list_ex (\<lambda>c. c \<in> set p) ''*?[]''
      then Inl (ManifestError (at_index i ''.path cannot contain wildcards''))
      else Inr p)"

definition validate_approval_url :: "lint_env \<Rightarrow> string \<Rightarrow> nat \<Rightarrow> lint_error + string" where
  "validate_approval_url env url i =
     (if fst (url_parts env url) \<notin> {''http'', ''https''} \<or> snd (url_parts env url) = []
      then Inl (ManifestError (at_index i ''.approval_url must be an http(s) review URL''))
      else Inr url)"

definition expected_fields :: "string set" where
  "expected_fields = {''rule'', ''path'', ''directive'', ''source_fingerprint'', ''reason'', ''approval_url''}"

definition is_fingerprint :: "string \<Rightarrow> bool" where
  "is_fingerprint s \<longleftrightarrow> startswith s ''sha256:'' \<and> length (drop 7 s) = 64 \<and>
     list_all (\<lambda>c. c \<in> set ''0123456789abcdef'') (drop 7 s)"

definition load_record :: "lint_env \<Rightarrow> nat \<Rightarrow> toml \<Rightarrow> lint_error + directive_exception" where
  "load_record env i raw =
     (case raw of
        TTable record \<Rightarrow>
          if fst ` set record \<noteq> expected_fields
          then Inl (ManifestError (at_index i ('' must contain exactly: '' @ py_join '', '' (sorted_list_of_set expected_fields))))
          else
            bind_res (required_string record ''rule'' i) (\<lambda>rule.
            if rule \<notin> fst ` set DIRECTIVE_PATTERNS
            then Inl (ManifestError (at_index i (''.rule must be one of: '' @
                   py_join '', '' (sorted_list_of_set (fst ` set DIRECTIVE_PATTERNS)))))
            else
            bind_res (required_string record ''directive'' i) (\<lambda>text.
            bind_res (rule_for_directive text) (\<lambda>r.
            if r \<noteq> rule then Inl (ManifestError (at_index i ''.directive does not match its rule''))
            else
            bind_res (required_string record ''source_fingerprint'' i) (\<lambda>fingerprint.
            if \<not> is_fingerprint fingerprint
            then Inl (ManifestError (at_index i ''.source_fingerprint must be a sha256 fingerprint''))
            else
            bind_res (required_string record ''path'' i) (\<lambda>raw_path.
            bind_res (validate_path raw_path i) (\<lambda>p.
            bind_res (required_string record ''reason'' i) (\<lambda>why.
            bind_res (required_string record ''approval_url'' i) (\<lambda>raw_url.
            bind_res (validate_approval_url env raw_url i) (\<lambda>url.
              Inr \<lparr>de_rule = rule, de_path = p, de_directive = normalized_directive text,
                   source_fingerprint = fingerprint, reason = why, approval_url = url\<rparr>)))))))))
      | _ \<Rightarrow> Inl (ManifestError (at_index i ('' must contain exactly: '' @
               py_join '', '' (sorted_list_of_set expected_fields)))))"

fun load_records :: "lint_env \<Rightarrow> nat \<Rightarrow> toml list \<Rightarrow> lint_error + directive_exception list" where
  "load_records env i [] = Inr []"
| "load_records env i (raw # raws) =
     bind_res (load_record env i raw) (\<lambda>r. bind_res (load_records env (Suc i) raws) (\<lambda>rs. Inr (r # rs)))"

type_synonym record_identity = "string \<times> string \<times> string \<times> string"

definition record_identity :: "directive_exception \<Rightarrow> record_identity" where
  "record_identity r = (de_rule r, de_path r, de_directive r, source_fingerprint r)"

definition load_exceptions :: "lint_env \<Rightarrow> string \<Rightarrow> lint_error + directive_exception list" where
  "load_exceptions env source =
     (case toml_loads env source of
        Inl err \<Rightarrow> Inl (ManifestError (''invalid TOML: '' @ err))
      | Inr data \<Rightarrow>
          (case (fst ` set data = {''exceptions''}, map_of data ''exceptions'') of
             (True, Some (TArray raws)) \<Rightarrow>
               bind_res (load_records env 0 raws) (\<lambda>rs.
                 if distinct (map record_identity rs) then Inr rs
                 else Inl (ManifestError ''duplicate exception records are not allowed''))
           | _ \<Rightarrow> Inl (ManifestError (''manifest must contain only an '' @ py_repr ''exceptions'' @ '' array''))))"

section \<open>Counters\<close>

definition count_in :: "('k \<times> nat) list \<Rightarrow> 'k \<Rightarrow> nat" where
  "count_in c k = (case map_of c k of None \<Rightarrow> 0 | Some n \<Rightarrow> n)"

definition add_one :: "'k \<Rightarrow> ('k \<times> nat) list \<Rightarrow> ('k \<times> nat) list" where
  "add_one k c = AList.update k (Suc (count_in c k)) c"

definition take_one :: "'k \<Rightarrow> ('k \<times> nat) list \<Rightarrow> ('k \<times> nat) list" where
  "take_one k c = AList.update k (count_in c k - 1) c"

definition counter_of :: "'k list \<Rightarrow> ('k \<times> nat) list" where
  "counter_of ks = fold add_one ks []"

section \<open>The checks\<close>

definition path_identity :: "path \<Rightarrow> directive \<Rightarrow> record_identity" where
  "path_identity p d = (d_rule d, path_str p, d_text d, d_fingerprint d)"

fun new_directives :: "directive list \<Rightarrow> ((string \<times> string \<times> string) \<times> nat) list \<Rightarrow> directive list" where
  "new_directives [] head_counts = []"
| "new_directives (d # ds) head_counts =
     (if count_in head_counts (identity d) > 0 then new_directives ds (take_one (identity d) head_counts)
      else d # new_directives ds head_counts)"

definition new_directive_identities ::
    "lint_env \<Rightarrow> path \<Rightarrow> string \<Rightarrow> string option \<Rightarrow> lint_error + record_identity list" where
  "new_directive_identities env p indexed_source head_source =
     bind_res (directives env indexed_source) (\<lambda>indexed.
     bind_res (directives env (case head_source of None \<Rightarrow> [] | Some s \<Rightarrow> s)) (\<lambda>heads.
       Inr (sort (map (path_identity p) (new_directives indexed (counter_of (map identity heads)))))))"

definition manifest_violation :: "path \<Rightarrow> string \<Rightarrow> policy_violation" where
  "manifest_violation p text = \<lparr>file_path = p, line_number = None, message = ''linter-directives: '' @ text\<rparr>"

text \<open>Sources that do not parse or carry several suppressions in a comment are skipped here.\<close>

fun staged_directives ::
    "lint_env \<Rightarrow> (path \<times> string \<times> string option) list \<Rightarrow> (record_identity \<times> nat) list \<Rightarrow>
     lint_error + (record_identity \<times> nat) list" where
  "staged_directives env [] c = Inr c"
| "staged_directives env ((p, source, at_head) # rest) c =
     (case new_directive_identities env p source at_head of
        Inr ids \<Rightarrow> staged_directives env rest (fold add_one ids c)
      | Inl (Raised SyntaxError) \<Rightarrow> staged_directives env rest c
      | Inl (InvalidDirective _ _) \<Rightarrow> staged_directives env rest c
      | Inl e \<Rightarrow> Inl e)"

definition metadata_changed :: "directive_exception list \<Rightarrow> directive_exception \<Rightarrow> bool" where
  "metadata_changed indexed old =
     (case map_of (map (\<lambda>r. (record_identity r, r)) (rev indexed)) (record_identity old) of
        None \<Rightarrow> False
      | Some new \<Rightarrow> (reason new, approval_url new) \<noteq> (reason old, approval_url old))"

fun unmatched_records ::
    "record_identity list \<Rightarrow> (record_identity \<times> nat) list \<Rightarrow> record_identity list \<times> (record_identity \<times> nat) list" where
  "unmatched_records [] c = ([], c)"
| "unmatched_records (i # is) c =
     (if count_in c i > 0 then unmatched_records is (take_one i c)
      else (let (us, c') = unmatched_records is c in (i # us, c')))"

definition record_unmatched :: "path \<Rightarrow> record_identity \<Rightarrow> policy_violation" where
  "record_unmatched p i = manifest_violation p
     (''each new exception record must match one newly staged suppression '' @
      ''directive occurrence in the same index snapshot: '' @ fst (snd i) @ '' '' @ py_repr (fst (snd (snd i))))"

definition guidance :: "record_identity set \<Rightarrow> record_identity \<Rightarrow> string" where
  "guidance indexed_ids i =
     (if i \<in> indexed_ids
      then ''additional identical suppression occurrences cannot be authorized because duplicate exception '' @
           ''records are forbidden; remove the additional suppression''
      else ''add one new exact exception record for this newly staged suppression'')"

definition leftover_violations ::
    "path \<Rightarrow> record_identity set \<Rightarrow> (record_identity \<times> nat) list \<Rightarrow> policy_violation list" where
  "leftover_violations p indexed_ids c =
     concat (map (\<lambda>(i, n). replicate n (manifest_violation p
        (guidance indexed_ids i @ '': '' @ fst (snd i) @ '' '' @ py_repr (fst (snd (snd i)))))) (sort c))"

definition retained_violations :: "path \<Rightarrow> directive_exception list \<Rightarrow> path set \<Rightarrow> policy_violation list" where
  "retained_violations p indexed renamed =
     map (\<lambda>q. manifest_violation p (''this path was renamed; remove the obsolete exception record for '' @ path_str q))
       (sorted_list_of_set ((\<lambda>r. py_path (de_path r)) ` set indexed \<inter> renamed))"

definition load_both :: "lint_env \<Rightarrow> string \<Rightarrow> string option \<Rightarrow> lint_error + directive_exception list \<times> directive_exception list" where
  "load_both env indexed_source head_source =
     bind_res (load_exceptions env indexed_source) (\<lambda>indexed.
     bind_res (case head_source of None \<Rightarrow> Inr [] | Some s \<Rightarrow> load_exceptions env s) (\<lambda>head. Inr (indexed, head)))"

definition check_manifest_update ::
    "lint_env \<Rightarrow> string \<Rightarrow> string option \<Rightarrow> path \<Rightarrow> (path \<times> string \<times> string option) list \<Rightarrow> path set \<Rightarrow>
     lint_error + policy_violation list" where
  "check_manifest_update env indexed_source head_source p staged_sources renamed =
     (case load_both env indexed_source head_source of
        Inl (ManifestError err) \<Rightarrow> Inr [manifest_violation p (''fix malformed exception manifest: '' @ err)]
      | Inl e \<Rightarrow> Inl e
      | Inr (indexed, head) \<Rightarrow>
          if list_ex (metadata_changed indexed) head
          then Inr [manifest_violation p (''do not modify existing reason/approval_url fields; '' @
                 ''add a separately reviewed exception record'')]
          else bind_res (staged_directives env staged_sources []) (\<lambda>staged.
            (let ids = record_identity ` set indexed;
                 (unmatched, left) = unmatched_records (sorted_list_of_set (ids - record_identity ` set head)) staged
             in Inr (map (record_unmatched p) unmatched @ leftover_violations p ids left @
                     retained_violations p indexed renamed))))"

fun unapproved ::
    "path \<Rightarrow> directive list \<Rightarrow> ((string \<times> string \<times> string) \<times> nat) list \<Rightarrow> (record_identity \<times> nat) list \<Rightarrow>
     directive list" where
  "unapproved p [] head_counts allowed = []"
| "unapproved p (d # ds) head_counts allowed =
     (if count_in head_counts (identity d) > 0 then unapproved p ds (take_one (identity d) head_counts) allowed
      else if count_in allowed (path_identity p d) > 0 then unapproved p ds head_counts (take_one (path_identity p d) allowed)
      else d # unapproved p ds head_counts allowed)"

definition directive_violation :: "path \<Rightarrow> directive \<Rightarrow> policy_violation" where
  "directive_violation p d =
     \<lparr>file_path = p, line_number = Some (d_line_number d),
      message = ''linter-directives/'' @ d_rule d @ '': remove '' @ py_repr (d_text d) @
        '' or add an exact, reviewed exceptions.toml record''\<rparr>"

definition invalid_directive_message :: "nat \<Rightarrow> string \<Rightarrow> string" where
  "invalid_directive_message line text =
     ''line '' @ show_nat line @ '' must contain exactly one supported suppression: '' @ py_repr text"

definition check_linter_directives ::
    "lint_env \<Rightarrow> path \<Rightarrow> string \<Rightarrow> string option \<Rightarrow> directive_exception list \<Rightarrow> lint_error + policy_violation list" where
  "check_linter_directives env p indexed_source head_source exceptions =
     (case bind_res (directives env indexed_source) (\<lambda>indexed.
             bind_res (directives env (case head_source of None \<Rightarrow> [] | Some s \<Rightarrow> s)) (\<lambda>heads. Inr (indexed, heads))) of
        Inl (InvalidDirective line text) \<Rightarrow>
          Inr [\<lparr>file_path = p, line_number = Some line,
                message = ''linter-directives: '' @ invalid_directive_message line text\<rparr>]
      | Inl e \<Rightarrow> Inl e
      | Inr (indexed, heads) \<Rightarrow>
          Inr (map (directive_violation p)
            (unapproved p indexed (counter_of (map identity heads)) (counter_of (map record_identity exceptions)))))"

end
