(* ===== verification/LinterProps.thy ===== *)
theory LinterProps
  imports LinterDirectives
begin

text \<open>
  The counters of the directive checks as multisets. Three loops withdraw from a counter and
  keep the items for which nothing is left; their common contract is a locale. From it follow
  the exact sets of reported suppressions and when a change of the manifest is accepted.
\<close>

section \<open>Counters stand for multisets\<close>

definition counts :: "('k \<times> nat) list \<Rightarrow> 'k multiset \<Rightarrow> bool" where
  "counts c M \<longleftrightarrow> (\<forall>k. count_in c k = count M k)"

lemma counts_empty: "counts [] {#}"
  by (simp add: counts_def count_in_def)

lemma counts_add_one: "counts c M \<Longrightarrow> counts (add_one k c) (add_mset k M)"
  by (auto simp: counts_def add_one_def count_in_def update_conv)

lemma counts_take_one: "counts c M \<Longrightarrow> counts (take_one k c) (M - {#k#})"
  by (auto simp: counts_def take_one_def count_in_def update_conv)

lemma counts_fold: "counts c M \<Longrightarrow> counts (fold add_one ks c) (M + mset ks)"
proof (induction ks arbitrary: c M)
  case (Cons k ks)
  from Cons.IH[OF counts_add_one[OF Cons.prems]] show ?case by simp
qed simp

lemma counts_counter_of: "counts (counter_of ks) (mset ks)"
  using counts_fold[OF counts_empty] by (simp add: counter_of_def)

lemma counts_pos: "counts c M \<Longrightarrow> count_in c k > 0 \<longleftrightarrow> k \<in># M"
  by (simp add: counts_def)

locale withdrawal =
  fixes key :: "'x \<Rightarrow> 'k"
    and left :: "'x list \<Rightarrow> ('k \<times> nat) list \<Rightarrow> 'x list"
  assumes left_Nil: "left [] c = []"
    and left_Cons: "left (x # xs) c =
      (if count_in c (key x) > 0 then left xs (take_one (key x) c) else x # left xs c)"
begin

lemma mset_left: "counts c M \<Longrightarrow> mset (map key (left xs c)) = mset (map key xs) - M"
proof (induction xs arbitrary: c M)
  case (Cons x xs)
  show ?case
  proof (cases "key x \<in># M")
    case True
    then have "mset (map key (left (x # xs) c)) = mset (map key xs) - (M - {#key x#})"
      using Cons counts_pos[OF Cons.prems] counts_take_one[OF Cons.prems] by (simp add: left_Cons)
    moreover obtain N where "M = add_mset (key x) N" using True by (meson multi_member_split)
    ultimately show ?thesis by simp
  next
    case False
    then show ?thesis
      using Cons counts_pos[OF Cons.prems] by (simp add: left_Cons diff_union_single_conv add_mset_diff_bothsides)
  qed
qed (simp add: left_Nil)

lemma left_subseq: "subseq (left xs c) xs"
  by (induction xs arbitrary: c) (auto simp: left_Nil left_Cons)

lemma left_empty_iff: "counts c M \<Longrightarrow> left xs c = [] \<longleftrightarrow> mset (map key xs) \<subseteq># M"
  using mset_left[of c M xs] by (metis Diff_eq_empty_iff_mset map_is_Nil_conv mset_zero_iff)

end

interpretation introduced: withdrawal identity new_directives
  by unfold_locales auto

interpretation approvals: withdrawal "path_identity p" "\<lambda>ds allowed. unapproved p ds [] allowed" for p
  by unfold_locales (auto simp: count_in_def)

interpretation records: withdrawal "\<lambda>i. i" "\<lambda>is c. fst (unmatched_records is c)"
  by unfold_locales (auto split: prod.splits)

section \<open>Suppressions of a file\<close>

lemma unapproved_new: "unapproved p ds heads allowed = unapproved p (new_directives ds heads) [] allowed"
  by (induction p ds heads allowed rule: unapproved.induct) (auto simp: count_in_def)

definition at_path :: "path \<Rightarrow> string \<times> string \<times> string \<Rightarrow> record_identity" where
  "at_path p i = (fst i, path_str p, snd i)"

lemma path_identity_at: "path_identity p d = at_path p (identity d)"
  by (simp add: path_identity_def at_path_def identity_def)

lemma inj_at_path: "inj (at_path p)"
  by (auto simp: inj_def at_path_def prod_eq_iff)

lemma mset_path_identity: "mset (map (path_identity p) ds) = image_mset (at_path p) (mset (map identity ds))"
  by (induction ds) (simp_all add: path_identity_at)

lemma mset_new_directives:
  "mset (map (path_identity p) (new_directives ds (counter_of (map identity heads)))) =
     mset (map (path_identity p) ds) - mset (map (path_identity p) heads)"
  using introduced.mset_left[OF counts_counter_of, of ds "map identity heads"]
  by (simp only: mset_path_identity image_mset_diff_if_inj[OF inj_at_path])

lemma mset_unapproved:
  "mset (map (path_identity p) (unapproved p ds (counter_of (map identity heads)) (counter_of (map record_identity rs)))) =
     mset (map (path_identity p) ds) - mset (map (path_identity p) heads) - mset (map record_identity rs)"
  unfolding unapproved_new[of p ds]
  using approvals.mset_left[OF counts_counter_of, of p "new_directives ds (counter_of (map identity heads))" "map record_identity rs"]
  by (simp only: mset_new_directives)

lemma subseq_unapproved: "subseq (unapproved p ds heads allowed) ds"
  unfolding unapproved_new[of p ds]
  using approvals.left_subseq introduced.left_subseq subseq_order.trans by blast

lemma check_linter_directives_exact:
  assumes "directives env indexed_source = Inr indexed"
    and "directives env (case head_source of None \<Rightarrow> [] | Some s \<Rightarrow> s) = Inr heads"
  shows "\<exists>bad. check_linter_directives env p indexed_source head_source exceptions = Inr (map (directive_violation p) bad) \<and>
     subseq bad indexed \<and>
     mset (map (path_identity p) bad) =
       mset (map (path_identity p) indexed) - mset (map (path_identity p) heads) - mset (map record_identity exceptions)"
  using assms subseq_unapproved mset_unapproved
  by (intro exI[of _ "unapproved p indexed (counter_of (map identity heads)) (counter_of (map record_identity exceptions))"])
     (simp add: check_linter_directives_def)

section \<open>The manifest\<close>

text \<open>The remaining counter after the new records were matched.\<close>

lemma unmatched_counts: "counts c M \<Longrightarrow> counts (snd (unmatched_records is c)) (M - mset is)"
proof (induction "is" arbitrary: c M)
  case (Cons i "is")
  show ?case
  proof (cases "i \<in># M")
    case True
    then show ?thesis
      using Cons.IH[OF counts_take_one[OF Cons.prems]] counts_pos[OF Cons.prems] by simp
  next
    case False
    then show ?thesis
      using Cons.IH[OF Cons.prems] counts_pos[OF Cons.prems] by (simp add: split_beta)
  qed
qed simp

lemma distinct_counters:
  "distinct (map fst c) \<Longrightarrow> distinct (map fst (add_one k c))"
  "distinct (map fst c) \<Longrightarrow> distinct (map fst (take_one k c))"
  by (simp_all add: add_one_def take_one_def distinct_update)

lemma distinct_fold: "distinct (map fst c) \<Longrightarrow> distinct (map fst (fold add_one ks c))"
  by (induction ks arbitrary: c) (simp_all add: distinct_counters)

lemma distinct_unmatched: "distinct (map fst c) \<Longrightarrow> distinct (map fst (snd (unmatched_records is c)))"
  by (induction "is" c rule: unmatched_records.induct) (auto simp: distinct_counters split: prod.splits)

lemma leftover_none:
  assumes "distinct (map fst c)" and "counts c M"
  shows "leftover_violations p ids c = [] \<longleftrightarrow> M = {#}"
proof -
  have "leftover_violations p ids c = [] \<longleftrightarrow> (\<forall>(k, n) \<in> set c. n = 0)"
    by (auto simp: leftover_violations_def)
  also have "\<dots> \<longleftrightarrow> (\<forall>k. count_in c k = 0)"
    using assms(1) by (auto simp: count_in_def split: option.splits dest: map_of_SomeD)
  finally show ?thesis using assms(2) by (simp add: counts_def multiset_eq_iff)
qed

text \<open>The newly staged suppressions of all sources that can be read.\<close>

definition staged_new :: "lint_env \<Rightarrow> (path \<times> string \<times> string option) list \<Rightarrow> record_identity multiset" where
  "staged_new env srcs = (\<Sum>(p, s, h)\<leftarrow>srcs. case new_directive_identities env p s h of Inr ids \<Rightarrow> mset ids | Inl _ \<Rightarrow> {#})"

lemma staged_directives_counts:
  assumes "staged_directives env srcs c = Inr c'" and "counts c M" and "distinct (map fst c)"
  shows "counts c' (M + staged_new env srcs) \<and> distinct (map fst c')"
  using assms
proof (induction srcs arbitrary: c M)
  case (Cons src rest)
  obtain p source at_head where src: "src = (p, source, at_head)" by (cases src)
  show ?case
  proof (cases "new_directive_identities env p source at_head")
    case (Inr ids)
    have "counts c' ((M + mset ids) + staged_new env rest) \<and> distinct (map fst c')"
      by (rule Cons.IH[where c = "fold add_one ids c"])
         (use Cons.prems Inr src in \<open>simp_all add: counts_fold distinct_fold\<close>)
    then show ?thesis using Inr src by (simp add: staged_new_def add.assoc)
  next
    case (Inl e)
    then have "staged_directives env rest c = Inr c'"
      using Cons.prems src by (auto split: lint_error.splits py_error.splits)
    from Cons.IH[OF this Cons.prems(2,3)] show ?thesis using Inl src by (simp add: staged_new_def)
  qed
qed (simp add: staged_new_def)

lemma metadata_kept:
  assumes "distinct (map record_identity indexed)"
  shows "list_ex (metadata_changed indexed) head \<longleftrightarrow>
    (\<exists>old \<in> set head. \<exists>new \<in> set indexed. record_identity new = record_identity old \<and>
       (reason new, approval_url new) \<noteq> (reason old, approval_url old))"
proof -
  have "map_of (map (\<lambda>r. (record_identity r, r)) (rev indexed)) i = Some new \<longleftrightarrow>
      new \<in> set indexed \<and> record_identity new = i" for i new
  proof -
    have "distinct (map fst (map (\<lambda>r. (record_identity r, r)) (rev indexed)))"
      using assms by (simp add: comp_def rev_map[symmetric])
    then show ?thesis by (auto simp: map_of_eq_Some_iff)
  qed
  note lookup = this
  have "metadata_changed indexed old \<longleftrightarrow> (\<exists>new \<in> set indexed. record_identity new = record_identity old \<and>
       (reason new, approval_url new) \<noteq> (reason old, approval_url old))" for old
  proof (cases "map_of (map (\<lambda>r. (record_identity r, r)) (rev indexed)) (record_identity old)")
    case None
    then show ?thesis using lookup[of "record_identity old"] by (auto simp: metadata_changed_def)
  next
    case (Some new)
    have "r = new" if "r \<in> set indexed" "record_identity r = record_identity old" for r
      using lookup[of "record_identity old" r] that Some by simp
    then show ?thesis using lookup[of "record_identity old" new] Some by (auto simp: metadata_changed_def)
  qed
  then show ?thesis by (simp add: list_ex_iff)
qed

lemma loaded_distinct: "load_exceptions env source = Inr rs \<Longrightarrow> distinct (map record_identity rs)"
  by (auto simp: load_exceptions_def bind_res_Inr_iff split: sum.splits bool.splits option.splits toml.splits if_splits)

lemma manifest_update_accepted:
  assumes "load_both env indexed_source head_source = Inr (indexed, head)"
    and "staged_directives env srcs [] = Inr staged"
  shows "check_manifest_update env indexed_source head_source p srcs renamed = Inr [] \<longleftrightarrow>
     (\<forall>old \<in> set head. \<forall>new \<in> set indexed. record_identity new = record_identity old \<longrightarrow>
        (reason new, approval_url new) = (reason old, approval_url old)) \<and>
     staged_new env srcs = mset_set (record_identity ` set indexed - record_identity ` set head) \<and>
     (\<forall>r \<in> set indexed. py_path (de_path r) \<notin> renamed)"
proof -
  let ?ids = "record_identity ` set indexed" and ?new = "sorted_list_of_set (record_identity ` set indexed - record_identity ` set head)"
  have "distinct (map record_identity indexed)"
    using assms(1) loaded_distinct by (auto simp: load_both_def bind_res_Inr_iff)
  note kept = metadata_kept[OF this, of head]
  have c: "counts staged (staged_new env srcs)" "distinct (map fst staged)"
    using staged_directives_counts[OF assms(2) counts_empty] by simp_all
  have m: "mset ?new = mset_set (?ids - record_identity ` set head)"
    by (metis mset_sorted_list_of_multiset sorted_list_of_mset_set)
  have "fst (unmatched_records ?new staged) = [] \<and> leftover_violations p ?ids (snd (unmatched_records ?new staged)) = [] \<longleftrightarrow>
      mset ?new \<subseteq># staged_new env srcs \<and> staged_new env srcs - mset ?new = {#}"
    using records.left_empty_iff[OF c(1), of ?new] leftover_none[OF distinct_unmatched[OF c(2)] unmatched_counts[OF c(1)]]
    by simp
  also have "\<dots> \<longleftrightarrow> staged_new env srcs = mset ?new"
    by (metis Diff_eq_empty_iff_mset subset_mset.antisym subset_mset.order_refl)
  finally have u: "fst (unmatched_records ?new staged) = [] \<and> leftover_violations p ?ids (snd (unmatched_records ?new staged)) = [] \<longleftrightarrow>
      staged_new env srcs = mset_set (?ids - record_identity ` set head)"
    by (simp only: m)
  have r: "retained_violations p indexed renamed = [] \<longleftrightarrow> (\<forall>r \<in> set indexed. py_path (de_path r) \<notin> renamed)"
    by (auto simp: retained_violations_def)
  show ?thesis
    using assms kept u r
    by (auto simp: check_manifest_update_def split_beta Let_def)
qed

section \<open>Loaded records\<close>

text \<open>What a record of an accepted manifest looks like.\<close>

definition exception_ok :: "lint_env \<Rightarrow> directive_exception \<Rightarrow> bool" where
  "exception_ok env r \<longleftrightarrow>
     de_rule r \<in> {''noqa'', ''type-ignore'', ''pylint-disable''} \<and>
     path_str (py_path (de_path r)) = de_path r \<and> \<not> is_absolute (py_path (de_path r)) \<and>
     ''..'' \<notin> set (py_path (de_path r)) \<and> set (de_path r) \<inter> set ''*?[]'' = {} \<and>
     is_fingerprint (source_fingerprint r) \<and>
     py_lower (reason r) \<notin> PLACEHOLDER_VALUES \<and>
     fst (url_parts env (approval_url r)) \<in> {''http'', ''https''} \<and> snd (url_parts env (approval_url r)) \<noteq> []"

lemma required_string_Inr:
  "required_string record field i = Inr s \<Longrightarrow> py_lower s \<notin> PLACEHOLDER_VALUES"
  by (auto simp: required_string_def split: option.splits toml.splits if_splits)

lemma load_record_ok: "load_record env i raw = Inr r \<Longrightarrow> exception_ok env r"
  by (auto simp: load_record_def exception_ok_def bind_res_Inr_iff validate_path_def validate_approval_url_def
      DIRECTIVE_PATTERNS_def list_ex_iff dest: required_string_Inr split: toml.splits if_splits)

lemma load_records_ok: "load_records env i raws = Inr rs \<Longrightarrow> list_all (exception_ok env) rs"
  by (induction raws arbitrary: i rs) (auto simp: bind_res_Inr_iff dest: load_record_ok)

lemma load_exceptions_ok: "load_exceptions env source = Inr rs \<Longrightarrow> list_all (exception_ok env) rs"
  by (auto simp: load_exceptions_def bind_res_Inr_iff dest: load_records_ok
      split: sum.splits bool.splits option.splits toml.splits if_splits)

end
