(* ===== verification/PolicyChecks.thy ===== *)
theory PolicyChecks
  imports LinterProps
begin

text \<open>
  The check families of the policy hook that do not analyse Python code: staged paths,
  suppressions with the exception manifest, and references to design documents
  (\<open>check_policy.py\<close>, \<open>check_stp_links.py\<close>).
\<close>

section \<open>Paths\<close>

definition check_site_path :: "path \<Rightarrow> policy_violation option" where
  "check_site_path p =
     (if take 2 p = [''docs'', ''site'']
      then Some \<lparr>file_path = p, line_number = None, message = ''docs/site/ is generated and must not be modified''\<rparr>
      else None)"

definition is_top_level_test :: "path \<Rightarrow> bool" where
  "is_top_level_test p \<longleftrightarrow>
     length p = 2 \<and> hd p = ''tests'' \<and> path_suffix p = ''.py'' \<and>
     (startswith (path_name p) ''test_'' \<or> endswith (path_name p) ''_test.py'')"

definition check_top_level_test_path :: "path \<Rightarrow> policy_violation option" where
  "check_top_level_test_path p =
     (if is_top_level_test p
      then Some \<lparr>file_path = p, line_number = None,
                 message = ''test files must be placed in a feature subdirectory under tests/''\<rparr>
      else None)"

definition SYMLINKED_PYTHON_MESSAGE :: string where
  "SYMLINKED_PYTHON_MESSAGE =
     ''policy: staged Python symlinks are not allowed; commit the real file so its source is checked''"

definition SYMLINKED_MANIFEST_MESSAGE :: string where
  "SYMLINKED_MANIFEST_MESSAGE =
     ''policy: the exception manifest must be a real file; commit the actual manifest so its records are checked''"

definition path_policy_violations :: "staged_changes \<Rightarrow> policy_violation list" where
  "path_policy_violations sc =
     concat (map (\<lambda>p. List.map_filter (\<lambda>path_check. path_check p) [check_site_path, check_top_level_test_path])
       (sorted_list_of_set (changed_paths sc \<union> deleted_paths sc))) @
     map (\<lambda>p. \<lparr>file_path = p, line_number = None,
               message = if p = EXCEPTIONS_PATH then SYMLINKED_MANIFEST_MESSAGE else SYMLINKED_PYTHON_MESSAGE\<rparr>)
       (sorted_list_of_set {p \<in> symlinked_paths sc. path_suffix p = ''.py'' \<or> p = EXCEPTIONS_PATH}) @
     (if EXCEPTIONS_PATH \<in> deleted_paths sc
      then [manifest_violation EXCEPTIONS_PATH ''the exception manifest must not be deleted''] else [])"

section \<open>Suppressions\<close>

text \<open>
  Git's message says when the manifest is missing; any other failure is raised again. The
  local variable of the loaded records has no value when the manifest cannot be loaded.
\<close>

definition missing_in_git :: "string \<Rightarrow> bool" where
  "missing_in_git err \<longleftrightarrow> py_in ''does not exist'' err \<or> py_in ''not in the index'' err"

definition read_if_present :: "command_runner \<Rightarrow> string \<Rightarrow> lint_error + string option" where
  "read_if_present run object =
     (case git_output run [''git'', ''show'', object] of
        Inr text \<Rightarrow> Inr (Some text)
      | Inl (RuntimeError err) \<Rightarrow> if missing_in_git err then Inr None else Inl (Raised (RuntimeError err))
      | Inl e \<Rightarrow> Inl (Raised e))"

definition indexed_manifest ::
    "command_runner \<Rightarrow> staged_changes \<Rightarrow> (path \<times> string \<times> string option) list \<Rightarrow>
     lint_error + string option \<times> policy_violation list" where
  "indexed_manifest run sc python_sources =
     (let staged = map_of (sources sc) EXCEPTIONS_PATH
      in if EXCEPTIONS_PATH \<notin> symlinked_paths sc \<and> (python_sources \<noteq> [] \<or> staged \<noteq> None) \<and> staged = None \<and>
            EXCEPTIONS_PATH \<notin> deleted_paths sc
         then bind_res (read_if_present run ('':0:'' @ path_str EXCEPTIONS_PATH)) (\<lambda>text.
                Inr (text, if text = None
                           then [manifest_violation EXCEPTIONS_PATH ''the exception manifest must exist in the Git index'']
                           else []))
         else Inr (staged, []))"

definition head_manifest ::
    "command_runner \<Rightarrow> staged_changes \<Rightarrow> (path \<times> string \<times> string option) list \<Rightarrow> lint_error + string option" where
  "head_manifest run sc python_sources =
     (let staged_head = map_of (head_sources sc) EXCEPTIONS_PATH
      in if map_of (sources sc) EXCEPTIONS_PATH = None \<and> python_sources \<noteq> []
         then bind_res (read_if_present run (''HEAD:'' @ path_str EXCEPTIONS_PATH)) (\<lambda>text.
                Inr (case text of None \<Rightarrow> staged_head | Some t \<Rightarrow> Some t))
         else Inr staged_head)"

definition manifest_checks ::
    "lint_env \<Rightarrow> command_runner \<Rightarrow> staged_changes \<Rightarrow> (path \<times> string \<times> string option) list \<Rightarrow>
     string option \<Rightarrow> policy_violation list \<Rightarrow>
     lint_error + directive_exception list option \<times> policy_violation list" where
  "manifest_checks env run sc python_sources exceptions_source vs =
     (case exceptions_source of
        None \<Rightarrow> Inr (Some [], vs)
      | Some text \<Rightarrow>
          bind_res (head_manifest run sc python_sources) (\<lambda>head.
          bind_res (if map_of (sources sc) EXCEPTIONS_PATH \<noteq> None \<or> python_sources \<noteq> []
                    then check_manifest_update env text head EXCEPTIONS_PATH python_sources (renamed_away_paths sc)
                    else Inr []) (\<lambda>updates.
            (case load_exceptions env text of
               Inr exceptions \<Rightarrow> Inr (Some exceptions, vs @ updates)
             | Inl (ManifestError err) \<Rightarrow>
                 Inr (None, vs @ updates @
                   (if list_ex (\<lambda>v. file_path v = EXCEPTIONS_PATH) (vs @ updates) then []
                    else [manifest_violation EXCEPTIONS_PATH (''fix malformed exception manifest: '' @ err)]))
             | Inl e \<Rightarrow> Inl e))))"

fun check_staged_files ::
    "lint_env \<Rightarrow> staged_changes \<Rightarrow> directive_exception list option \<Rightarrow> path list \<Rightarrow> lint_error + policy_violation list" where
  "check_staged_files env sc exceptions [] = Inr []"
| "check_staged_files env sc exceptions (p # ps) =
     (case (map_of (sources sc) p, exceptions) of
        (None, _) \<Rightarrow> Inl (Raised KeyError)
      | (_, None) \<Rightarrow> Inl (Raised UnboundLocalError)
      | (Some source, Some records) \<Rightarrow>
          bind_res (check_linter_directives env p source (map_of (head_sources sc) p) records) (\<lambda>vs.
          bind_res (check_staged_files env sc exceptions ps) (\<lambda>ws. Inr (vs @ ws))))"

definition linter_directives_violations ::
    "lint_env \<Rightarrow> command_runner \<Rightarrow> staged_changes \<Rightarrow> (path \<times> string \<times> string option) list \<Rightarrow> path list \<Rightarrow>
     lint_error + policy_violation list" where
  "linter_directives_violations env run sc python_sources python_paths =
     bind_res (indexed_manifest run sc python_sources) (\<lambda>(exceptions_source, vs).
     bind_res (manifest_checks env run sc python_sources exceptions_source vs) (\<lambda>(exceptions, ws).
     bind_res (check_staged_files env sc exceptions python_paths) (\<lambda>fs. Inr (ws @ fs))))"

section \<open>References to design documents\<close>

definition STP_REPOSITORY :: string where
  "STP_REPOSITORY = ''RedHatQE/openshift-virtualization-tests-design-docs''"

definition stp_path_char :: "char \<Rightarrow> bool" where
  "stp_path_char c \<longleftrightarrow> \<not> is_space c \<and> c \<notin> set '')>]#?''"

definition STP_URL :: regex where
  "STP_URL = RSeqs [nocase ''http'', ROpt (nocase ''s''), nocase ''://github.com/'', nocase (py_lower STP_REPOSITORY),
     RLit ''/'', RAlt (nocase ''blob'') (nocase ''tree''), RLit ''/'',
     RPlus (RChar (\<lambda>c. \<not> is_space c \<and> c \<noteq> CHR ''/'')), RLit ''/'',
     RGroup 1 (RSeq (nocase ''stps/'') (RPlus (RChar stp_path_char)))]"

definition rstrip_chars :: "string \<Rightarrow> string \<Rightarrow> string" where
  "rstrip_chars chars s = rev (dropWhile (\<lambda>c. c \<in> set chars) (rev s))"

definition reference_path :: "string \<Rightarrow> string" where
  "reference_path url = (case re_match_group STP_URL 1 url of None \<Rightarrow> [] | Some p \<Rightarrow> rstrip_chars ''/'' p)"

definition line_urls :: "string \<Rightarrow> string list" where
  "line_urls line = map (rstrip_chars (''.,;:!'' @ [CHR 0x27, CHR 0x22])) (re_findall STP_URL line)"

fun stp_lines :: "nat set option \<Rightarrow> nat \<Rightarrow> string list \<Rightarrow> (string \<times> nat) list \<Rightarrow> (string \<times> nat) list" where
  "stp_lines added n [] refs = refs"
| "stp_lines added n (l # ls) refs =
     (if added \<noteq> None \<and> n \<notin> the added then stp_lines added (Suc n) ls refs
      else stp_lines added (Suc n) ls (fold (\<lambda>url. setdefault url n) (line_urls l) refs))"

definition stp_references :: "string \<Rightarrow> nat set option \<Rightarrow> (string \<times> nat) list" where
  "stp_references indexed_source added = stp_lines added 1 (py_split newline indexed_source) []"

definition stp_violation :: "path \<Rightarrow> string \<times> nat \<Rightarrow> policy_violation" where
  "stp_violation p r =
     \<lparr>file_path = p, line_number = Some (snd r),
      message = ''stp-links: STP document is not merged in '' @ STP_REPOSITORY @ '' on the default branch: '' @ fst r\<rparr>"

definition check_stp_links :: "path \<Rightarrow> (string \<times> nat) list \<Rightarrow> string set \<Rightarrow> policy_violation list" where
  "check_stp_links p references merged_paths =
     map (stp_violation p) (filter (\<lambda>r. reference_path (fst r) \<notin> merged_paths) (sort_key snd references))"

definition unverified_stp_violation :: "path \<Rightarrow> string \<Rightarrow> policy_violation" where
  "unverified_stp_violation p err =
     \<lparr>file_path = p, line_number = None,
      message = ''stp-links: could not verify STP documents against '' @ STP_REPOSITORY @ '': '' @ err\<rparr>"

text \<open>
  The listing of the design documents: \<open>tree_listing\<close> decodes the JSON answer into whether it
  was truncated and its paths, or says why it cannot.
\<close>

definition merged_stp_paths ::
    "command_runner \<Rightarrow> (string \<Rightarrow> string + bool \<times> string list) \<Rightarrow> string set res" where
  "merged_stp_paths run tree_listing =
     bind_res (git_output run [''gh'', ''api'', ''repos/'' @ STP_REPOSITORY @ ''/git/trees/main?recursive=1'']) (\<lambda>text.
       (case tree_listing text of
          Inl err \<Rightarrow> Inl (RuntimeError (''design-docs tree listing failed: '' @ err))
        | Inr (truncated, paths) \<Rightarrow>
            if truncated then Inl (RuntimeError ''design-docs tree listing was truncated by the GitHub API'')
            else Inr (set paths)))"

fun collect_references ::
    "staged_changes \<Rightarrow> path list \<Rightarrow> (path \<times> (string \<times> nat) list) list \<Rightarrow> (path \<times> (string \<times> nat) list) list res" where
  "collect_references sc [] refs = Inr refs"
| "collect_references sc (p # ps) refs =
     (if take 1 p \<noteq> [''tests''] then collect_references sc ps refs
      else (case map_of (sources sc) p of
              None \<Rightarrow> Inl KeyError
            | Some source \<Rightarrow>
                (let r = stp_references source (resolved_added_lines sc p)
                 in collect_references sc ps (if r = [] then refs else AList.update p r refs))))"

definition stp_links_violations ::
    "command_runner \<Rightarrow> (string \<Rightarrow> string + bool \<times> string list) \<Rightarrow> staged_changes \<Rightarrow> path list \<Rightarrow>
     policy_violation list res" where
  "stp_links_violations run tree_listing sc python_paths =
     bind_res (collect_references sc python_paths []) (\<lambda>refs.
       if refs = [] then Inr []
       else (case merged_stp_paths run tree_listing of
               Inl (RuntimeError err) \<Rightarrow> Inr (map (\<lambda>(p, _). unverified_stp_violation p err) refs)
             | Inl e \<Rightarrow> Inl e
             | Inr merged \<Rightarrow> Inr (concat (map (\<lambda>(p, r). check_stp_links p r merged) refs))))"

section \<open>When the path policy is kept\<close>

lemma staged_finite:
  assumes "read_staged_changes run iter = Inr sc"
  shows "finite (changed_paths sc)" and "finite (deleted_paths sc)" and "finite (symlinked_paths sc)"
proof -
  obtain out entries deleted where e: "staged_of_entries run iter entries deleted = Inr sc" "parse_staged_status out = Inr deleted"
    "parse_staged_entries out = Inr entries"
    using assms by (auto simp: read_staged_changes_def bind_res_Inr_iff)
  have "finite (renamed_away entries)"
    by (rule finite_subset[of _ "the ` head_path ` set entries"]) (force simp: renamed_away_def)+
  then have d: "finite deleted" using e(2,3) by (auto simp: parse_staged_status_def)
  from e(1) have "finite (changed_paths sc) \<and> deleted_paths sc = deleted \<and> finite (symlinked_paths sc)"
  proof (cases rule: staged_of_entries_cases)
    case none
    then show ?thesis by simp
  next
    case (some active symlinked diff added srcs heads)
    then have "symlinked \<subseteq> se_path ` set active" by (auto simp: symlinked_staged_paths_def bind_res_Inr_iff)
    then have "finite symlinked" by (rule finite_subset) simp
    with some show ?thesis by simp
  qed
  with d show "finite (changed_paths sc)" "finite (deleted_paths sc)" "finite (symlinked_paths sc)" by auto
qed

lemma path_policy_kept:
  assumes "finite (changed_paths sc)" "finite (deleted_paths sc)" "finite (symlinked_paths sc)"
  shows "path_policy_violations sc = [] \<longleftrightarrow>
    (\<forall>p \<in> changed_paths sc \<union> deleted_paths sc. take 2 p \<noteq> [''docs'', ''site''] \<and> \<not> is_top_level_test p) \<and>
    (\<forall>p \<in> symlinked_paths sc. path_suffix p \<noteq> ''.py'' \<and> p \<noteq> EXCEPTIONS_PATH) \<and>
    EXCEPTIONS_PATH \<notin> deleted_paths sc"
  using assms
  by (auto simp: path_policy_violations_def map_filter_simps check_site_path_def check_top_level_test_path_def
      split: if_splits)

section \<open>A malformed manifest\<close>

lemma malformed_manifest_unbound:
  assumes "map_of (sources sc) EXCEPTIONS_PATH = Some text"
    and "load_exceptions env text = Inl (ManifestError err)"
    and "map_of (sources sc) p \<noteq> None"
  shows "linter_directives_violations env run sc python_sources (p # ps) = Inl (Raised UnboundLocalError)"
proof -
  have "load_both env text h = Inl (ManifestError err)" for h
    using assms(2) by (simp add: load_both_def)
  then have "check_manifest_update env text h EXCEPTIONS_PATH python_sources r =
      Inr [manifest_violation EXCEPTIONS_PATH (''fix malformed exception manifest: '' @ err)]" for h r
    by (simp add: check_manifest_update_def)
  then show ?thesis
    using assms
    by (auto simp: linter_directives_violations_def indexed_manifest_def manifest_checks_def head_manifest_def)
qed

section \<open>Which references are checked\<close>

lemma setdefault_lookup: "map_of (setdefault k v d) k' = (if k' = k \<and> map_of d k = None then Some v else map_of d k')"
  by (auto simp: setdefault_def update_conv)

lemma fold_setdefault:
  "map_of (fold (\<lambda>url. setdefault url n) urls refs) u =
     (case map_of refs u of Some m \<Rightarrow> Some m | None \<Rightarrow> if u \<in> set urls then Some n else None)"
proof (induction urls arbitrary: refs)
  case (Cons v urls)
  show ?case by (simp only: fold_simps Cons) (auto simp: setdefault_lookup split: option.splits)
qed (simp split: option.splits)

definition inspected :: "nat set option \<Rightarrow> nat \<Rightarrow> bool" where
  "inspected added n \<longleftrightarrow> (case added of None \<Rightarrow> True | Some ns \<Rightarrow> n \<in> ns)"

definition mentions :: "nat set option \<Rightarrow> string list \<Rightarrow> nat \<Rightarrow> string \<Rightarrow> nat \<Rightarrow> bool" where
  "mentions added ls first u n \<longleftrightarrow>
     first \<le> n \<and> n < first + length ls \<and> inspected added n \<and> u \<in> set (line_urls (ls ! (n - first)))"

lemma mentions_Cons:
  "mentions added (l # ls) n u k \<longleftrightarrow> (k = n \<and> inspected added n \<and> u \<in> set (line_urls l)) \<or> mentions added ls (Suc n) u k"
  by (cases "k = n") (auto simp: mentions_def nth_Cons' Suc_le_eq le_less)

lemma stp_lines_first:
  "map_of (stp_lines added n ls refs) u =
     (case map_of refs u of
        Some m \<Rightarrow> Some m
      | None \<Rightarrow> if \<exists>k. mentions added ls n u k then Some (LEAST k. mentions added ls n u k) else None)"
proof (induction ls arbitrary: n refs)
  case Nil
  then show ?case by (simp add: mentions_def split: option.splits)
next
  case (Cons l ls)
  show ?case
  proof (cases "inspected added n \<and> u \<in> set (line_urls l)")
    case True
    then have now: "mentions added (l # ls) n u n" by (simp add: mentions_Cons)
    moreover have "n \<le> k" if "mentions added (l # ls) n u k" for k using that by (simp add: mentions_def)
    ultimately have "(LEAST k. mentions added (l # ls) n u k) = n" by (rule Least_equality)
    moreover have "\<not> (added \<noteq> None \<and> n \<notin> the added)" using True by (auto simp: inspected_def split: option.splits)
    ultimately show ?thesis
      using True now by (auto simp: Cons fold_setdefault split: option.splits)
  next
    case False
    then have m: "mentions added (l # ls) n u = mentions added ls (Suc n) u"
      by (auto simp: fun_eq_iff mentions_Cons)
    show ?thesis
    proof (cases "added \<noteq> None \<and> n \<notin> the added")
      case True
      then have "stp_lines added n (l # ls) refs = stp_lines added (Suc n) ls refs" by simp
      then show ?thesis by (simp only: Cons m)
    next
      case ins: False
      then have "inspected added n" by (auto simp: inspected_def split: option.splits)
      then have "u \<notin> set (line_urls l)" using False by simp
      then show ?thesis using ins by (simp add: Cons m fold_setdefault split: option.splits)
    qed
  qed
qed

lemma collect_references_keys:
  assumes "collect_references sc ps refs = Inr refs'"
  shows "map_of refs' p = (if p \<in> set ps \<and> take 1 p = [''tests''] \<and>
      stp_references (the (map_of (sources sc) p)) (resolved_added_lines sc p) \<noteq> []
    then Some (stp_references (the (map_of (sources sc) p)) (resolved_added_lines sc p)) else map_of refs p)"
  using assms
proof (induction sc ps refs rule: collect_references.induct)
  case (2 sc q ps refs)
  then show ?case
    by (auto simp: Let_def update_conv split: if_splits option.splits)
qed simp

lemma collect_references_total:
  assumes "\<And>p. p \<in> set ps \<Longrightarrow> map_of (sources sc) p \<noteq> None"
  shows "\<exists>refs'. collect_references sc ps refs = Inr refs'"
  using assms
proof (induction ps arbitrary: refs)
  case (Cons p ps)
  obtain source where "map_of (sources sc) p = Some source" using Cons.prems[of p] by auto
  moreover have "\<exists>refs'. collect_references sc ps r = Inr refs'" for r using Cons by simp
  ultimately show ?case by (simp add: Let_def)
qed simp

lemma collect_references_distinct:
  "collect_references sc ps refs = Inr refs' \<Longrightarrow> distinct (map fst refs) \<Longrightarrow> distinct (map fst refs')"
  by (induction sc ps refs rule: collect_references.induct)
     (auto simp: Let_def distinct_update split: if_splits option.splits)

lemma git_output_error: "git_output run cmd = Inl e \<Longrightarrow> \<exists>err. e = RuntimeError err"
  by (auto simp: git_output_def split: prod.splits if_splits)

lemma merged_error:
  assumes "merged_stp_paths run tree_listing = Inl e"
  shows "\<exists>err. e = RuntimeError err"
proof (cases "git_output run [''gh'', ''api'', ''repos/'' @ STP_REPOSITORY @ ''/git/trees/main?recursive=1'']")
  case (Inl e')
  then show ?thesis using assms git_output_error[OF Inl] by (simp add: merged_stp_paths_def)
next
  case (Inr answer)
  then show ?thesis
    using assms by (cases "tree_listing answer") (auto simp: merged_stp_paths_def split: if_splits)
qed

lemma no_stp_violation: "check_stp_links p refs merged = [] \<longleftrightarrow> (\<forall>(u, n) \<in> set refs. reference_path u \<in> merged)"
  by (auto simp: check_stp_links_def filter_empty_conv)

lemma stp_links_verified:
  assumes "\<And>p. p \<in> set ps \<Longrightarrow> map_of (sources sc) p \<noteq> None"
  shows "\<exists>vs. stp_links_violations run tree_listing sc ps = Inr vs \<and>
    (vs = [] \<longleftrightarrow> (\<forall>p \<in> set ps. take 1 p = [''tests''] \<longrightarrow>
       (\<forall>(u, n) \<in> set (stp_references (the (map_of (sources sc) p)) (resolved_added_lines sc p)).
          \<exists>merged. merged_stp_paths run tree_listing = Inr merged \<and> reference_path u \<in> merged)))"
proof -
  let ?refs = "\<lambda>p. stp_references (the (map_of (sources sc) p)) (resolved_added_lines sc p)"
  obtain refs where c: "collect_references sc ps [] = Inr refs" using collect_references_total[OF assms] by blast
  have "distinct (map fst refs)" using collect_references_distinct[OF c] by simp
  then have entries: "(p, r) \<in> set refs \<longleftrightarrow> p \<in> set ps \<and> take 1 p = [''tests''] \<and> ?refs p \<noteq> [] \<and> r = ?refs p" for p r
    using collect_references_keys[OF c, of p] map_of_eq_Some_iff[of refs p r] by (simp split: if_splits) blast
  show ?thesis
  proof (cases "merged_stp_paths run tree_listing")
    case (Inl e)
    then obtain err where e: "merged_stp_paths run tree_listing = Inl (RuntimeError err)" using merged_error by blast
    have "refs = [] \<longleftrightarrow> (\<forall>p \<in> set ps. take 1 p = [''tests''] \<longrightarrow> ?refs p = [])"
    proof
      assume "refs = []"
      then show "\<forall>p \<in> set ps. take 1 p = [''tests''] \<longrightarrow> ?refs p = []" using entries by auto
    next
      assume none: "\<forall>p \<in> set ps. take 1 p = [''tests''] \<longrightarrow> ?refs p = []"
      show "refs = []"
      proof (rule ccontr)
        assume "refs \<noteq> []"
        then obtain p r where "(p, r) \<in> set refs" by (cases refs) auto
        then show False using entries none by blast
      qed
    qed
    moreover have "(\<forall>(u, n) \<in> set (?refs p). False) \<longleftrightarrow> ?refs p = []" for p
      by (cases "?refs p") auto
    ultimately show ?thesis using c e by (simp add: stp_links_violations_def)
  next
    case (Inr merged)
    have "concat (map (\<lambda>(p, r). check_stp_links p r merged) refs) = [] \<longleftrightarrow>
        (\<forall>(p, r) \<in> set refs. \<forall>(u, n) \<in> set r. reference_path u \<in> merged)"
      by (simp add: no_stp_violation split_beta)
    also have "\<dots> \<longleftrightarrow> (\<forall>p \<in> set ps. take 1 p = [''tests''] \<longrightarrow> (\<forall>(u, n) \<in> set (?refs p). reference_path u \<in> merged))"
      using entries by fastforce
    finally show ?thesis using c Inr by (auto simp: stp_links_violations_def)
  qed
qed

end
