(* ===== verification/BannedChecks.thy ===== *)
theory BannedChecks
  imports TestBasics PolicyChecks
begin

text \<open>
  The checks of whole files that need no Git state (\<open>scripts/pre_commit_hooks/check_banned.py\<close>). The
  files of the worktree and the parser are functions of an environment: reading a file gives its
  text or the message of the exception, parsing gives the tree or the line and message of the
  \<open>SyntaxError\<close>.
\<close>

record worktree =
  wt_is_symlink :: "path \<Rightarrow> bool"
  wt_read_text :: "path \<Rightarrow> string + string"
  wt_parse :: parser

definition BANNED_FAMILIES :: "string list" where
  "BANNED_FAMILIES = [''banned-paths'', ''banned-constructs'']"

definition BANNED_CONSTRUCT_MESSAGES :: "string set" where
  "BANNED_CONSTRUCT_MESSAGES =
     {RELATIVE_IMPORT_MESSAGE, ASYNC_FUNCTION_MESSAGE, ASYNC_COMPREHENSION_MESSAGE, AWAIT_MESSAGE, ASYNC_FOR_MESSAGE,
      ASYNC_WITH_MESSAGE}"

definition BANNED_SYMLINK_MESSAGE :: string where
  "BANNED_SYMLINK_MESSAGE =
     ''policy: Python symlinks are not allowed; commit the real file so its source is checked''"

definition banned_path_violations :: "worktree \<Rightarrow> path \<Rightarrow> policy_violation list" where
  "banned_path_violations wt p =
     opt_list (check_top_level_test_path p) @
     (if \<not> wt_is_symlink wt p then []
      else if path_suffix p = ''.py''
      then [\<lparr>file_path = p, line_number = None, message = BANNED_SYMLINK_MESSAGE\<rparr>]
      else if p = EXCEPTIONS_PATH
      then [\<lparr>file_path = p, line_number = None, message = SYMLINKED_MANIFEST_MESSAGE\<rparr>]
      else [])"

definition banned_in_tree :: "path \<Rightarrow> string list \<Rightarrow> node \<Rightarrow> policy_violation list" where
  "banned_in_tree p modname tree =
     (let scs = scopes tree modname (is_package p)
      in sort_key line_key
           (filter (\<lambda>v. message v \<in> BANNED_CONSTRUCT_MESSAGES)
              (check_test_basics p tree None (Some (resolved_names scs {})) None) @
            check_calls p tree DYNAMIC_CLIENT_MESSAGE (\<lambda>n func args kws. is_dynamic_client_call scs func)))"

datatype check_failure = NotParsed "nat option" string | Failed py_error

definition banned_construct_violations :: "parser \<Rightarrow> path \<Rightarrow> string \<Rightarrow> check_failure + policy_violation list" where
  "banned_construct_violations parse p source =
     (case parse source of
        Inl (line, msg) \<Rightarrow> Inl (NotParsed line msg)
      | Inr tree \<Rightarrow>
          (case module_name_of p of
             Inl e \<Rightarrow> Inl (Failed e)
           | Inr modname \<Rightarrow> Inr (banned_in_tree p modname tree)))"

definition banned_construct_violations_for_path :: "worktree \<Rightarrow> path \<Rightarrow> policy_violation list res" where
  "banned_construct_violations_for_path wt p =
     (case wt_read_text wt p of
        Inl err \<Rightarrow> Inr [\<lparr>file_path = p, line_number = None, message = ''could not be read: '' @ err\<rparr>]
      | Inr source \<Rightarrow>
          (case banned_construct_violations (wt_parse wt) p source of
             Inr vs \<Rightarrow> Inr vs
           | Inl (NotParsed line msg) \<Rightarrow>
               Inr [\<lparr>file_path = p, line_number = line, message = ''could not be parsed: '' @ msg\<rparr>]
           | Inl (Failed e) \<Rightarrow> Inl e))"

fun banned_files :: "worktree \<Rightarrow> string set \<Rightarrow> string list \<Rightarrow> policy_violation list res" where
  "banned_files wt selected [] = Inr []"
| "banned_files wt selected (name # names) =
     (let p = py_path name
      in bind_res (if ''banned-constructs'' \<in> selected \<and> path_suffix p = ''.py''
                   then banned_construct_violations_for_path wt p else Inr []) (\<lambda>constructs.
         bind_res (banned_files wt selected names) (\<lambda>rest.
           Inr ((if ''banned-paths'' \<in> selected then banned_path_violations wt p else []) @ constructs @ rest))))"

definition banned_main :: "worktree \<Rightarrow> string list \<Rightarrow> (string list \<times> nat) res" where
  "banned_main wt arguments =
     bind_res (parse_check_arguments ''check_banned'' BANNED_FAMILIES arguments) (\<lambda>(names, selected).
     bind_res (banned_files wt selected names) (\<lambda>vs. Inr (report_violations vs)))"

end
