(* ===== verification/ScopeInvariant.thy ===== *)
theory ScopeInvariant
  imports ScopeResolve
begin

text \<open>
  What every visit of the scope analysis keeps: parents precede their scopes, an active binding
  is a recorded one, and the states saved for loops and branches stay within the recorded
  bindings. A visit records only at the nodes below its own and declares names only in its own
  scope.
\<close>

section \<open>The invariant\<close>

definition within :: "active_state \<Rightarrow> active_state \<Rightarrow> bool" where
  "within st st' \<longleftrightarrow> (\<forall>x. set (get_bindings x st) \<subseteq> set (get_bindings x st'))"

definition valid_states :: "builder \<Rightarrow> active_state list \<Rightarrow> bool" where
  "valid_states b sts \<longleftrightarrow>
     length sts \<le> length (scope_list b) \<and> (\<forall>i < length sts. within (sts ! i) (sc_bindings (scope_list b ! i)))"

definition wf_exits :: "builder \<Rightarrow> loop_exits \<Rightarrow> bool" where
  "wf_exits b ex \<longleftrightarrow>
     (\<forall>out \<in> set (break_outputs ex) \<union> set (continue_outputs ex).
        length out = tracked_scopes ex \<and> valid_states b out) \<and> tracked_scopes ex \<le> length (scope_list b)"

definition wf_scope :: "builder \<Rightarrow> nat \<Rightarrow> bool" where
  "wf_scope b i \<longleftrightarrow>
     (case sc_parent (scope_list b ! i) of None \<Rightarrow> i = 0 | Some p \<Rightarrow> p < i) \<and>
     within (active_bindings (scope_list b ! i)) (sc_bindings (scope_list b ! i)) \<and>
     (\<forall>x. inj_on bd_id (set (get_bindings x (sc_bindings (scope_list b ! i)))) \<and>
        (\<forall>bd \<in> set (get_bindings x (sc_bindings (scope_list b ! i))). bd_id bd < next_binding b))"

definition wf_builder :: "builder \<Rightarrow> bool" where
  "wf_builder b \<longleftrightarrow>
     scope_list b \<noteq> [] \<and> (\<forall>i < length (scope_list b). wf_scope b i) \<and>
     (\<forall>ex \<in> set (loop_exit_stack b). wf_exits b ex) \<and>
     (\<forall>i \<in> ran (map_of (node_scopes b)). i < length (scope_list b))"

section \<open>What a visit may change\<close>

definition same_scope :: "bool \<Rightarrow> scope \<Rightarrow> scope \<Rightarrow> bool" where
  "same_scope own s s' \<longleftrightarrow>
     sc_parent s' = sc_parent s \<and> sc_kind s' = sc_kind s \<and> within (sc_bindings s) (sc_bindings s') \<and>
     local_names s \<subseteq> local_names s' \<and>
     (\<not> own \<longrightarrow> global_names s' = global_names s \<and> nonlocal_names s' = nonlocal_names s)"

definition same_exits :: "builder \<Rightarrow> builder \<Rightarrow> bool" where
  "same_exits b b' \<longleftrightarrow>
     (case loop_exit_stack b of
        [] \<Rightarrow> loop_exit_stack b' = []
      | ex # rest \<Rightarrow> \<exists>ex'. loop_exit_stack b' = ex' # rest \<and> tracked_scopes ex' = tracked_scopes ex)"

definition grows :: "nat set \<Rightarrow> nat \<Rightarrow> builder \<Rightarrow> builder \<Rightarrow> bool" where
  "grows A scope b b' \<longleftrightarrow>
     wf_builder b' \<and> length (scope_list b) \<le> length (scope_list b') \<and>
     (\<forall>i < length (scope_list b). same_scope (i = scope) (scope_list b ! i) (scope_list b' ! i)) \<and>
     next_binding b \<le> next_binding b' \<and> same_exits b b' \<and>
     (\<forall>i. i \<notin> A \<longrightarrow> map_of (node_bindings b') i = map_of (node_bindings b) i) \<and>
     module_parts b' = module_parts b \<and> in_package b' = in_package b"

lemma within_refl [simp]: "within st st"
  by (simp add: within_def)

lemma within_trans: "within st st' \<Longrightarrow> within st' st'' \<Longrightarrow> within st st''"
  unfolding within_def by blast

lemma same_scope_refl [simp]: "same_scope own s s"
  by (simp add: same_scope_def)

lemma same_scope_trans:
  "same_scope own s s' \<Longrightarrow> same_scope own' s' s'' \<Longrightarrow> (own' \<Longrightarrow> own) \<Longrightarrow> same_scope own s s''"
  by (auto simp: same_scope_def intro: within_trans)

lemma same_exits_refl [simp]: "same_exits b b"
  by (simp add: same_exits_def split: list.splits)

lemma same_exits_trans: "same_exits b b' \<Longrightarrow> same_exits b' b'' \<Longrightarrow> same_exits b b''"
  by (auto simp: same_exits_def split: list.splits)

lemma grows_refl: "wf_builder b \<Longrightarrow> grows A scope b b"
  by (simp add: grows_def)

text \<open>A step in a scope that is new since \<open>b\<close> leaves the declarations of the scopes of \<open>b\<close> alone.\<close>

lemma grows_trans:
  assumes "grows A scope b b'" "grows A scope' b' b''" "scope' = scope \<or> length (scope_list b) \<le> scope'"
  shows "grows A scope b b''"
proof -
  have "same_scope (i = scope) (scope_list b ! i) (scope_list b'' ! i)" if "i < length (scope_list b)" for i
  proof (rule same_scope_trans)
    show "same_scope (i = scope) (scope_list b ! i) (scope_list b' ! i)"
      using assms(1) that by (simp add: grows_def)
    show "same_scope (i = scope') (scope_list b' ! i) (scope_list b'' ! i)"
      using assms(1,2) that by (simp add: grows_def)
  qed (use assms(3) that in auto)
  then show ?thesis
    using assms same_exits_trans[of b b' b''] by (simp add: grows_def)
qed

lemma grows_mono: "grows A scope b b' \<Longrightarrow> A \<subseteq> A' \<Longrightarrow> grows A' scope b b'"
  by (auto simp: grows_def)

lemma grows_wf: "grows A scope b b' \<Longrightarrow> wf_builder b'"
  by (simp add: grows_def)

lemma grows_length: "grows A scope b b' \<Longrightarrow> length (scope_list b) \<le> length (scope_list b')"
  by (simp add: grows_def)

lemma valid_states_grows: "valid_states b sts \<Longrightarrow> grows A scope b b' \<Longrightarrow> valid_states b' sts"
  by (auto simp: valid_states_def grows_def same_scope_def intro: within_trans)

section \<open>States\<close>

lemma get_bindings_Nil [simp]: "get_bindings x [] = []"
  by (simp add: get_bindings_def)

lemma get_bindings_update [simp]:
  "get_bindings x (AList.update y bs st) = (if x = y then bs else get_bindings x st)"
  by (simp add: get_bindings_def update_conv)

lemma get_bindings_delete [simp]:
  "get_bindings x (AList.delete y st) = (if x = y then [] else get_bindings x st)"
  by (simp add: get_bindings_def delete_conv)

lemma add_distinct_sub: "set (add_distinct bs xs) \<subseteq> set bs \<union> set xs"
proof (induction xs arbitrary: bs)
  case (Cons x xs)
  then show ?case using Cons[of "bs @ [x]"] Cons[of bs] by (auto split: if_splits)
qed simp

lemma add_distinct_ids: "bd_id ` set (add_distinct bs xs) = bd_id ` (set bs \<union> set xs)"
proof (induction xs arbitrary: bs)
  case (Cons x xs)
  then show ?case by (auto simp: image_Un intro: rev_image_eqI)
qed simp

lemma map_of_map_pair: "map_of (map (\<lambda>x. (x, f x)) xs) x = (if x \<in> set xs then Some (f x) else None)"
  by (induction xs) auto

lemma map_of_filter_map_pair:
  "map_of (filter (\<lambda>(x, bs). P bs) (map (\<lambda>x. (x, f x)) xs)) x = (if x \<in> set xs \<and> P (f x) then Some (f x) else None)"
  by (induction xs) auto

lemma get_bindings_merge:
  "get_bindings x (merge_states sts) = add_distinct [] (concat (map (get_bindings x) sts))"
proof -
  have "get_bindings x st = []" if "x \<notin> fst ` set st" for st
    using that map_of_eq_None_iff[of st x] by (simp add: get_bindings_def)
  then have none: "concat (map (get_bindings x) sts) = []" if "x \<notin> (\<Union>st \<in> set sts. fst ` set st)"
    using that by auto
  show ?thesis
  proof (cases "x \<in> (\<Union>st \<in> set sts. fst ` set st)")
    case True
    then show ?thesis
      by (auto simp: merge_states_def Let_def get_bindings_def map_of_filter_map_pair)
  next
    case False
    have "map_of (merge_states sts) x = None"
      using False by (auto simp: merge_states_def Let_def map_of_filter_map_pair)
    then show ?thesis by (simp add: get_bindings_def[of _ "merge_states sts"] none[OF False])
  qed
qed

lemma merge_within: "(\<And>st. st \<in> set sts \<Longrightarrow> within st st') \<Longrightarrow> within (merge_states sts) st'"
  using add_distinct_sub[of "[]"] by (fastforce simp: within_def get_bindings_merge)

lemma length_restore [simp]: "length (scope_list (restore_states sts b)) = length (scope_list b)"
  by (auto simp: restore_states_def)

lemma nth_restore:
  "i < length (scope_list b) \<Longrightarrow>
   scope_list (restore_states sts b) ! i =
     (if i < length sts then (scope_list b ! i)\<lparr>active_bindings := sts ! i\<rparr> else scope_list b ! i)"
  by (auto simp: restore_states_def nth_append)

lemma restore_other [simp]:
  "node_scopes (restore_states sts b) = node_scopes b" "node_bindings (restore_states sts b) = node_bindings b"
  "loop_exit_stack (restore_states sts b) = loop_exit_stack b" "next_binding (restore_states sts b) = next_binding b"
  "module_parts (restore_states sts b) = module_parts b" "in_package (restore_states sts b) = in_package b"
  by (simp_all add: restore_states_def)

lemma length_states [simp]: "length (states k b) = min (length (scope_list b)) k"
  by (simp add: states_def min.commute)

lemma nth_states [simp]: "i < k \<Longrightarrow> i < length (scope_list b) \<Longrightarrow> states k b ! i = active_bindings (scope_list b ! i)"
  by (simp add: states_def)

lemma valid_states_now: "wf_builder b \<Longrightarrow> valid_states b (states k b)"
  by (auto simp: valid_states_def wf_builder_def wf_scope_def)

lemma valid_merged:
  assumes "outputs \<noteq> []" "\<And>out. out \<in> set outputs \<Longrightarrow> valid_states b out \<and> length out = k"
  shows "valid_states b (merged_scope_states outputs)" "length (merged_scope_states outputs) = k"
proof -
  have k: "length (hd outputs) = k" using assms by simp
  show "length (merged_scope_states outputs) = k" by (simp add: merged_scope_states_def k)
  have "within (merge_states (map (\<lambda>out. out ! i) outputs)) (sc_bindings (scope_list b ! i))" if "i < k" for i
    by (rule merge_within) (use assms(2) that in \<open>auto simp: valid_states_def\<close>)
  moreover have "k \<le> length (scope_list b)"
    using assms by (cases outputs) (auto simp: valid_states_def)
  ultimately show "valid_states b (merged_scope_states outputs)"
    by (simp add: valid_states_def merged_scope_states_def k)
qed

section \<open>Elementary steps\<close>

lemma grows_intro:
  assumes wf: "wf_builder b" and len: "length (scope_list b) \<le> length (scope_list b')"
    and same: "\<And>i. i < length (scope_list b) \<Longrightarrow> same_scope (i = scope) (scope_list b ! i) (scope_list b' ! i)"
    and scopes: "\<And>i. i < length (scope_list b') \<Longrightarrow> wf_scope b' i"
    and nxt: "next_binding b \<le> next_binding b'" and stack: "loop_exit_stack b' = loop_exit_stack b"
    and marks: "\<And>i. i \<in> ran (map_of (node_scopes b')) \<Longrightarrow> i < length (scope_list b')"
    and uses: "\<And>i. i \<notin> A \<Longrightarrow> map_of (node_bindings b') i = map_of (node_bindings b) i"
    and module: "module_parts b' = module_parts b" "in_package b' = in_package b"
  shows "grows A scope b b'"
proof -
  have valid: "valid_states b' sts" if "valid_states b sts" for sts
    using that len same by (auto simp: valid_states_def same_scope_def intro: within_trans)
  have "wf_exits b' ex" if "ex \<in> set (loop_exit_stack b)" for ex
    using wf that valid len by (fastforce simp: wf_builder_def wf_exits_def)
  moreover have "scope_list b' \<noteq> []" using wf len by (auto simp: wf_builder_def)
  ultimately have "wf_builder b'" using scopes marks by (simp add: wf_builder_def stack)
  then show ?thesis
    using assms by (simp add: grows_def same_exits_def split: list.split)
qed

lemma wf_scopeD: "wf_builder b \<Longrightarrow> i < length (scope_list b) \<Longrightarrow> wf_scope b i"
  by (simp add: wf_builder_def)

lemma wf_marksD: "wf_builder b \<Longrightarrow> i \<in> ran (map_of (node_scopes b)) \<Longrightarrow> i < length (scope_list b)"
  by (simp add: wf_builder_def)

lemma wf_scope_cong:
  "scope_list b' = scope_list b \<Longrightarrow> next_binding b' = next_binding b \<Longrightarrow> wf_scope b' i = wf_scope b i"
  by (simp add: wf_scope_def)

lemma grows_restore:
  assumes "wf_builder b" "valid_states b sts"
  shows "grows A scope b (restore_states sts b)"
proof (rule grows_intro[OF assms(1)])
  fix i assume i: "i < length (scope_list (restore_states sts b))"
  then show "wf_scope (restore_states sts b) i"
    using wf_scopeD[OF assms(1), of i] assms(2) by (auto simp: wf_scope_def nth_restore valid_states_def split: option.splits)
next
  fix i assume "i < length (scope_list b)"
  then show "same_scope (i = scope) (scope_list b ! i) (scope_list (restore_states sts b) ! i)"
    by (simp add: nth_restore same_scope_def)
qed (use wf_marksD[OF assms(1)] in simp_all)

lemma ran_update: "ran (map_of (AList.update k v m)) \<subseteq> insert v (ran (map_of m))"
  by (auto simp: ran_def update_conv split: if_splits)

lemma set_node_scope_fields [simp]:
  "scope_list (set_node_scope s n b) = scope_list b" "node_bindings (set_node_scope s n b) = node_bindings b"
  "loop_exit_stack (set_node_scope s n b) = loop_exit_stack b" "next_binding (set_node_scope s n b) = next_binding b"
  "node_scopes (set_node_scope s n b) = AList.update (node_id n) s (node_scopes b)"
  "module_parts (set_node_scope s n b) = module_parts b" "in_package (set_node_scope s n b) = in_package b"
  by (simp_all add: set_node_scope_def)

lemma enter_fields [simp]:
  "scope_list (enter n s b) = scope_list b"
  "loop_exit_stack (enter n s b) = loop_exit_stack b" "next_binding (enter n s b) = next_binding b"
  "node_scopes (enter n s b) = AList.update (node_id n) s (node_scopes b)"
  "module_parts (enter n s b) = module_parts b" "in_package (enter n s b) = in_package b"
  by (simp_all add: enter_def Let_def split: option.split)

lemma grows_marks:
  assumes "wf_builder b" "s < length (scope_list b)" "scope_list b' = scope_list b"
    and "next_binding b' = next_binding b" "loop_exit_stack b' = loop_exit_stack b"
    and "node_scopes b' = AList.update i s (node_scopes b) \<or> node_scopes b' = node_scopes b"
    and "\<And>i. i \<notin> A \<Longrightarrow> map_of (node_bindings b') i = map_of (node_bindings b) i"
    and "module_parts b' = module_parts b" "in_package b' = in_package b"
  shows "grows A scope b b'"
proof (rule grows_intro[OF assms(1)])
  fix j assume "j \<in> ran (map_of (node_scopes b'))"
  then show "j < length (scope_list b')"
    using assms ran_update[of i s "node_scopes b"] wf_marksD[OF assms(1), of j] by auto
qed (use assms wf_scopeD[OF assms(1)] wf_scope_cong[of b' b] in simp_all)

lemma grows_set_node_scope:
  "wf_builder b \<Longrightarrow> s < length (scope_list b) \<Longrightarrow> grows A scope b (set_node_scope s n b)"
  by (rule grows_marks[where s = s and i = "node_id n"]) simp_all

lemma grows_enter:
  "wf_builder b \<Longrightarrow> s < length (scope_list b) \<Longrightarrow> node_id n \<in> A \<Longrightarrow> grows A scope b (enter n s b)"
  by (rule grows_marks[where s = s and i = "node_id n"]) (auto simp: enter_def[of n] update_conv Let_def split: option.split)

lemma grows_fold:
  assumes "wf_builder b" "s < length (scope_list b)"
    and "\<And>x b. x \<in> set xs \<Longrightarrow> wf_builder b \<Longrightarrow> s < length (scope_list b) \<Longrightarrow> grows A scope b (f x b)"
  shows "grows A scope b (fold f xs b)"
  using assms
proof (induction xs arbitrary: b)
  case (Cons x xs)
  have *: "grows A scope b (f x b)" by (rule Cons.prems) (simp_all add: Cons.prems)
  moreover have "grows A scope (f x b) (fold f xs (f x b))"
    by (rule Cons.IH) (use Cons.prems grows_wf[OF *] grows_length[OF *] in auto)
  ultimately show ?case by (auto intro: grows_trans)
qed (simp add: grows_refl)

lemma grows_mark:
  assumes "wf_builder b" "s < length (scope_list b)"
  shows "grows A scope b (mark n s b)"
  unfolding mark_def by (rule grows_fold[OF assms]) (rule grows_set_node_scope)

lemma grows_set_default_phase: "wf_builder b \<Longrightarrow> grows A scope b (set_default_phase p n b)"
  by (rule grows_marks[where s = 0]) (auto simp: set_default_phase_def wf_builder_def)

lemma grows_mark_phase: "wf_builder b \<Longrightarrow> grows A scope b (mark_phase n p b)"
  unfolding mark_phase_def
  by (rule grows_fold[where s = 0]) (auto simp: wf_builder_def intro!: grows_set_default_phase)

lemma nonlocal_scope_less: "nonlocal_scope ss i = Some p \<Longrightarrow> p < i"
proof (induction ss i rule: nonlocal_scope.induct)
  case (1 ss i)
  show ?case
    using 1(2) 1(1) by (subst (asm) nonlocal_scope.simps) (fastforce split: option.splits if_splits)
qed

lemma skip_kind_le: "skip_kind k ss i \<le> i"
proof (induction k ss i rule: skip_kind.induct)
  case (1 k ss i)
  then show ?case
    by (subst skip_kind.simps) (fastforce split: option.split)
qed

lemma binding_scope_less: "s < length (scope_list b) \<Longrightarrow> binding_scope b s x < length (scope_list b)"
  using nonlocal_scope_less[of "scope_list b" s] by (fastforce simp: binding_scope_def split: option.split)

lemma update_scope_fields [simp]:
  "length (scope_list (update_scope i f b)) = length (scope_list b)"
  "node_bindings (update_scope i f b) = node_bindings b" "node_scopes (update_scope i f b) = node_scopes b"
  "loop_exit_stack (update_scope i f b) = loop_exit_stack b" "next_binding (update_scope i f b) = next_binding b"
  "module_parts (update_scope i f b) = module_parts b" "in_package (update_scope i f b) = in_package b"
  by (simp_all add: update_scope_def)

lemma nth_update_scope:
  "j < length (scope_list b) \<Longrightarrow>
   scope_list (update_scope i f b) ! j = (if i = j then f (scope_list b ! j) else scope_list b ! j)"
  by (simp add: update_scope_def nth_list_update)

lemma grows_update_scope:
  assumes "wf_builder b" "i < length (scope_list b)" "next_binding b \<le> m"
    and "same_scope (i = scope) (scope_list b ! i) (f (scope_list b ! i))"
    and "within (active_bindings (f (scope_list b ! i))) (sc_bindings (f (scope_list b ! i)))"
    and "\<And>x bd. bd \<in> set (get_bindings x (sc_bindings (f (scope_list b ! i)))) \<Longrightarrow> bd_id bd < m"
    and "\<And>x. inj_on bd_id (set (get_bindings x (sc_bindings (f (scope_list b ! i)))))"
  shows "grows A scope b ((update_scope i f b)\<lparr>next_binding := m\<rparr>)" (is "grows _ _ _ ?b'")
proof (rule grows_intro[OF assms(1)])
  fix j assume "j < length (scope_list ?b')"
  then have j: "j < length (scope_list b)" by simp
  show "wf_scope ?b' j"
  proof (cases "i = j")
    case True
    then show ?thesis
      using wf_scopeD[OF assms(1) j] assms(4-) j by (simp add: wf_scope_def nth_update_scope same_scope_def)
  next
    case False
    then show ?thesis
      using wf_scopeD[OF assms(1) j] assms(3) j by (force simp: wf_scope_def nth_update_scope)
  qed
qed (use assms wf_marksD[OF assms(1)] in \<open>auto simp: nth_update_scope\<close>)

lemma grows_bind_name:
  assumes "wf_builder b" "s < length (scope_list b)"
  shows "grows A scope b (bind_name s x v n im ph b)"
  unfolding bind_name_def
proof (rule grows_update_scope[OF assms(1) binding_scope_less[OF assms(2)]])
  let ?i = "binding_scope b s x"
  have "wf_scope b ?i" using assms by (intro wf_scopeD binding_scope_less)
  then show "\<And>y bd. bd \<in> set (get_bindings y (sc_bindings (add_binding x
      \<lparr>bd_id = next_binding b, bd_value = v, bd_node = n, bd_imported = im, bd_phase = ph\<rparr> (scope_list b ! ?i)))) \<Longrightarrow>
      bd_id bd < Suc (next_binding b)"
    by (auto simp: add_binding_def wf_scope_def less_SucI split: if_splits)
  show "inj_on bd_id (set (get_bindings y (sc_bindings (add_binding x
      \<lparr>bd_id = next_binding b, bd_value = v, bd_node = n, bd_imported = im, bd_phase = ph\<rparr> (scope_list b ! ?i)))))" for y
    using \<open>wf_scope b ?i\<close> by (fastforce simp: add_binding_def wf_scope_def)
qed (use wf_scopeD[OF assms(1) binding_scope_less[OF assms(2)]] in
    \<open>auto simp: add_binding_def same_scope_def wf_scope_def within_def\<close>)

lemma grows_bind_targets:
  assumes "wf_builder b" "s < length (scope_list b)"
  shows "grows A scope b (bind_targets s v n ph t b)"
  using assms
proof (induction s v n ph t b rule: bind_targets.induct)
  case (1 s v n ph t b)
  show ?case
  proof (cases "as_name t")
    case (Some p)
    then show ?thesis
      using 1(3-) by (subst bind_targets.simps) (auto simp: grows_bind_name split: prod.split)
  next
    case no: None
    show ?thesis
    proof (cases "as_starred t")
      case (Some t')
      then show ?thesis using 1(2)[OF no Some] 1(3-) no by (subst bind_targets.simps) simp
    next
      case ns: None
      show ?thesis
      proof (cases "as_sequence t")
        case (Some es)
        show ?thesis
          using no ns Some 1(3-)
          by (subst bind_targets.simps)
            (auto simp: Let_def split: prod.split intro!: grows_fold[where s = s] 1(1)[OF no ns Some refl refl])
      qed (use no ns 1(3-) in \<open>subst bind_targets.simps; simp add: grows_refl\<close>)
    qed
  qed
qed

section \<open>Handlers\<close>

definition visitor_ok :: "nat set \<Rightarrow> node set \<Rightarrow> visitor \<Rightarrow> bool" where
  "visitor_ok A D v \<longleftrightarrow>
     (\<forall>d \<in> D. \<forall>s b. wf_builder b \<longrightarrow> s < length (scope_list b) \<longrightarrow> grows A s b (v d s b))"

lemma visitor_okD:
  "visitor_ok A D v \<Longrightarrow> d \<in> D \<Longrightarrow> wf_builder b \<Longrightarrow> s < length (scope_list b) \<Longrightarrow> grows A s b (v d s b)"
  by (simp add: visitor_ok_def)

lemma visitor_ok_subset: "visitor_ok A D v \<Longrightarrow> D' \<subseteq> D \<Longrightarrow> visitor_ok A D' v"
  by (auto simp: visitor_ok_def)

text \<open>Saved states of the first \<open>k\<close> scopes.\<close>

definition saved :: "builder \<Rightarrow> nat \<Rightarrow> active_state list list \<Rightarrow> bool" where
  "saved b k outs \<longleftrightarrow> k \<le> length (scope_list b) \<and> (\<forall>out \<in> set outs. valid_states b out \<and> length out = k)"

lemma saved_grows: "saved b k outs \<Longrightarrow> grows A s b b' \<Longrightarrow> saved b' k outs"
  using valid_states_grows[of b _ A s b'] grows_length[of A s b b'] by (auto simp: saved_def)

lemma saved_states: "wf_builder b \<Longrightarrow> k \<le> length (scope_list b) \<Longrightarrow> saved b k [states k b]"
  by (simp add: saved_def valid_states_now)

lemma saved_append [simp]: "saved b k (xs @ ys) \<longleftrightarrow> saved b k xs \<and> saved b k ys"
  by (auto simp: saved_def)

lemma saved_Cons: "saved b k (x # xs) \<longleftrightarrow> saved b k [x] \<and> saved b k xs"
  by (auto simp: saved_def)

lemma saved_Nil: "k \<le> length (scope_list b) \<Longrightarrow> saved b k []"
  by (simp add: saved_def)

lemma grows_restore_saved: "wf_builder b \<Longrightarrow> saved b k [st] \<Longrightarrow> grows A s b (restore_states st b)"
  by (rule grows_restore) (simp_all add: saved_def)

lemma saved_merged: "saved b k outs \<Longrightarrow> outs \<noteq> [] \<Longrightarrow> saved b k [merged_scope_states outs]"
  using valid_merged[of outs b k] by (simp add: saved_def)

lemma grows_visit_all:
  assumes "visitor_ok A D v" "set ns \<subseteq> D" "wf_builder b" "s < length (scope_list b)"
  shows "grows A s b (visit_all v ns s b)"
  unfolding visit_all_def
  by (rule grows_fold[OF assms(3,4)]) (rule visitor_okD[OF assms(1)], use assms(2) in auto)

lemma grows_push_scope:
  assumes "wf_builder b" "p < length (scope_list b)"
  shows "grows A scope b (push_scope (Some p) k b)"
proof (rule grows_intro[OF assms(1)])
  fix j assume "j < length (scope_list (push_scope (Some p) k b))"
  then show "wf_scope (push_scope (Some p) k b) j"
    using wf_scopeD[OF assms(1), of j] assms(2)
    by (cases "j < length (scope_list b)")
      (auto simp: wf_scope_def push_scope_def nth_append new_scope_def within_def less_Suc_eq)
qed (use wf_marksD[OF assms(1)] in \<open>auto simp: push_scope_def nth_append less_SucI\<close>)

lemma length_push_scope [simp]: "length (scope_list (push_scope p k b)) = Suc (length (scope_list b))"
  by (simp add: push_scope_def)

lemma grows_branch_list:
  assumes "visitor_ok A D v" "\<And>ns. ns \<in> set branches \<Longrightarrow> set ns \<subseteq> D"
    and "wf_builder b" "s < length (scope_list b)" "saved b k [incoming]" "saved b k outs"
    and "visit_branch_list v s k incoming branches outs b = (outs', b')"
  shows "grows A s b b' \<and> saved b' k outs'"
  using assms(2-)
proof (induction branches arbitrary: outs b)
  case Nil
  then show ?case by (simp add: grows_refl)
next
  case (Cons ns branches)
  let ?b1 = "restore_states incoming b"
  let ?b2 = "visit_all v ns s ?b1"
  have g1: "grows A s b ?b1" by (rule grows_restore_saved) (use Cons.prems in auto)
  have g2: "grows A s ?b1 ?b2"
    by (rule grows_visit_all[OF assms(1)]) (use Cons.prems grows_wf[OF g1] in auto)
  have g: "grows A s b ?b2" using grows_trans[OF g1 g2] by simp
  note sv = saved_grows[OF Cons.prems(4) g] saved_grows[OF Cons.prems(5) g]
  have outs: "saved ?b2 k (if statements_fall_through ns then outs @ [states k ?b2] else outs)"
    using sv saved_states[OF grows_wf[OF g], of k] by (auto simp: saved_def)
  have rest: "visit_branch_list v s k incoming branches
      (if statements_fall_through ns then outs @ [states k ?b2] else outs) ?b2 = (outs', b')"
    using Cons.prems(6) by (simp add: Let_def)
  have "grows A s ?b2 b' \<and> saved b' k outs'"
    by (rule Cons.IH[OF _ grows_wf[OF g] _ sv(1) outs rest])
      (use Cons.prems grows_length[OF g] in auto)
  then show ?case using grows_trans[OF g, of s b'] by simp
qed

lemma grows_branches:
  assumes "visitor_ok A D v" "\<And>ns. ns \<in> set branches \<Longrightarrow> set ns \<subseteq> D" "wf_builder b" "s < length (scope_list b)"
  shows "grows A s b (visit_branches v branches s inc b)"
proof -
  let ?k = "length (scope_list b)"
  obtain outs b' where v: "visit_branch_list v s ?k (states ?k b) branches (if inc then [states ?k b] else []) b = (outs, b')"
    by fastforce
  have now: "saved b ?k [states ?k b]" by (rule saved_states) (simp_all add: assms)
  have g: "grows A s b b'" "saved b' ?k outs"
    using grows_branch_list[OF assms(1,2,3,4) now _ v] now saved_Nil[of ?k b] by (auto split: if_splits)
  have "saved b' ?k [if outs = [] then states ?k b else merged_scope_states outs]"
    using saved_grows[OF now g(1)] saved_merged[OF g(2)] by simp
  then have "grows A s b' (restore_states (if outs = [] then states ?k b else merged_scope_states outs) b')"
    by (rule grows_restore_saved[OF grows_wf[OF g(1)]])
  then show ?thesis
    using grows_trans[OF g(1)] v by (simp add: visit_branches_def Let_def)
qed

lemma wf_exits_cong: "scope_list b' = scope_list b \<Longrightarrow> wf_exits b' ex = wf_exits b ex"
  by (simp add: wf_exits_def valid_states_def)

lemma wf_builder_stack:
  assumes "wf_builder b" "\<And>ex. ex \<in> set st \<Longrightarrow> wf_exits b ex"
  shows "wf_builder (b\<lparr>loop_exit_stack := st\<rparr>)"
  using assms by (auto simp: wf_builder_def wf_scope_def wf_exits_def valid_states_def)

definition open_loop :: "builder \<Rightarrow> builder" where
  "open_loop b =
     b\<lparr>loop_exit_stack :=
        \<lparr>tracked_scopes = length (scope_list b), break_outputs = [], continue_outputs = []\<rparr> # loop_exit_stack b\<rparr>"

definition close_loop :: "builder \<Rightarrow> builder" where
  "close_loop b = b\<lparr>loop_exit_stack := tl (loop_exit_stack b)\<rparr>"

lemma loop_fields [simp]:
  "scope_list (open_loop b) = scope_list b" "scope_list (close_loop b) = scope_list b"
  by (simp_all add: open_loop_def close_loop_def)

lemma open_loop_wf: "wf_builder b \<Longrightarrow> wf_builder (open_loop b)"
  unfolding open_loop_def by (rule wf_builder_stack) (auto simp: wf_builder_def wf_exits_def)

lemma loop_body_grows:
  assumes "wf_builder b" "grows A s (open_loop b) b3"
  shows "grows A s b (close_loop b3)"
    and "saved (close_loop b3) (length (scope_list b)) (break_outputs (hd (loop_exit_stack b3)))"
    and "saved (close_loop b3) (length (scope_list b)) (continue_outputs (hd (loop_exit_stack b3)))"
proof -
  obtain ex where ex: "loop_exit_stack b3 = ex # loop_exit_stack b" "tracked_scopes ex = length (scope_list b)"
    using assms(2) by (auto simp: grows_def same_exits_def open_loop_def)
  have wf3: "wf_builder b3" by (rule grows_wf[OF assms(2)])
  have wfc: "wf_builder (close_loop b3)"
    unfolding close_loop_def by (rule wf_builder_stack[OF wf3]) (use wf3 ex in \<open>auto simp: wf_builder_def\<close>)
  show "grows A s b (close_loop b3)"
    using assms(2) wfc ex
    by (auto simp: grows_def close_loop_def open_loop_def same_exits_def split: list.splits)
  have "wf_exits b3 ex" using wf3 ex by (simp add: wf_builder_def)
  then show "saved (close_loop b3) (length (scope_list b)) (break_outputs (hd (loop_exit_stack b3)))"
    "saved (close_loop b3) (length (scope_list b)) (continue_outputs (hd (loop_exit_stack b3)))"
    using ex grows_length[OF assms(2)] by (auto simp: saved_def wf_exits_def valid_states_def)
qed

lemma grows_visit_loop:
  assumes "visitor_ok A D v" "set body \<subseteq> D" "set orelse \<subseteq> D" "wf_builder b" "s < length (scope_list b)"
  shows "grows A s b (visit_loop v t body orelse s b)"
proof -
  let ?k = "length (scope_list b)"
  define b2 where "b2 = (case t of None \<Rightarrow> open_loop b | Some t \<Rightarrow> mark t s (bind_targets s None t None t (open_loop b)))"
  define b3 where "b3 = visit_all v body s b2"
  define b4 where "b4 = close_loop b3"
  define normal where "normal = states ?k b # continue_outputs (hd (loop_exit_stack b3)) @
    (if statements_fall_through body then [states ?k b4] else [])"
  define b5 where "b5 = visit_all v orelse s (restore_states (merged_scope_states normal) b4)"
  define cont where "cont = break_outputs (hd (loop_exit_stack b3)) @
    (if statements_fall_through orelse then [states ?k b5] else [])"
  have result: "visit_loop v t body orelse s b =
      restore_states (if cont = [] then states ?k b else merged_scope_states cont) b5"
    unfolding visit_loop_def Let_def cont_def b5_def normal_def b4_def b3_def b2_def close_loop_def open_loop_def
    by (rule refl)
  have s1: "s < length (scope_list (open_loop b))" using assms(5) by simp
  have g2: "grows A s (open_loop b) b2"
  proof (cases t)
    case (Some x)
    have *: "grows A s (open_loop b) (bind_targets s None x None x (open_loop b))"
      by (rule grows_bind_targets[OF open_loop_wf[OF assms(4)] s1])
    have "grows A s (bind_targets s None x None x (open_loop b)) b2"
      unfolding b2_def Some option.case
      by (rule grows_mark[OF grows_wf[OF *]]) (use s1 grows_length[OF *] in simp)
    then show ?thesis using grows_trans[OF *] by blast
  qed (simp add: b2_def grows_refl open_loop_wf[OF assms(4)])
  have "grows A s b2 b3"
    unfolding b3_def
    by (rule grows_visit_all[OF assms(1,2) grows_wf[OF g2]]) (use s1 grows_length[OF g2] in simp)
  then have g3: "grows A s (open_loop b) b3" using grows_trans[OF g2] by blast
  note loop = loop_body_grows[OF assms(4) g3, folded b4_def]
  have now: "saved b ?k [states ?k b]" by (rule saved_states[OF assms(4)]) simp
  have "saved b4 ?k normal"
    using saved_grows[OF now loop(1)] loop(3) saved_states[OF grows_wf[OF loop(1)], of ?k] grows_length[OF loop(1)]
    by (auto simp: normal_def saved_Cons[of _ _ "states _ _"] saved_def)
  then have "saved b4 ?k [merged_scope_states normal]" by (rule saved_merged) (simp add: normal_def)
  then have g4: "grows A s b4 (restore_states (merged_scope_states normal) b4)"
    by (rule grows_restore_saved[OF grows_wf[OF loop(1)]])
  have "grows A s (restore_states (merged_scope_states normal) b4) b5"
    unfolding b5_def
    by (rule grows_visit_all[OF assms(1,3) grows_wf[OF g4]]) (use assms(5) grows_length[OF loop(1)] in simp)
  then have g5: "grows A s b4 b5" using grows_trans[OF g4] by blast
  then have g: "grows A s b b5" using grows_trans[OF loop(1)] by blast
  have "saved b5 ?k cont"
    using saved_grows[OF loop(2) g5] saved_states[OF grows_wf[OF g], of ?k] grows_length[OF g]
    by (auto simp: cont_def saved_def)
  then have "saved b5 ?k [if cont = [] then states ?k b else merged_scope_states cont]"
    using saved_grows[OF now g] saved_merged[of b5 ?k cont] by simp
  then have "grows A s b5 (visit_loop v t body orelse s b)"
    unfolding result by (rule grows_restore_saved[OF grows_wf[OF g]])
  then show ?thesis using grows_trans[OF g] by blast
qed

lemma grows_exit:
  assumes "wf_builder b" "loop_exit_stack b = ex # rest" "tracked_scopes ex' = tracked_scopes ex"
    and "set (break_outputs ex') \<union> set (continue_outputs ex') \<subseteq>
      insert (states (tracked_scopes ex) b) (set (break_outputs ex) \<union> set (continue_outputs ex))"
  shows "grows A s b (b\<lparr>loop_exit_stack := ex' # rest\<rparr>)"
proof -
  have ex: "wf_exits b ex" and rest: "\<And>e. e \<in> set rest \<Longrightarrow> wf_exits b e"
    using assms(1,2) by (auto simp: wf_builder_def)
  have "wf_exits b ex'"
    using ex assms(3,4) valid_states_now[OF assms(1), of "tracked_scopes ex"]
    by (fastforce simp: wf_exits_def min_def)
  then have "wf_builder (b\<lparr>loop_exit_stack := ex' # rest\<rparr>)"
    by (intro wf_builder_stack[OF assms(1)]) (auto simp: rest)
  then show ?thesis using assms by (simp add: grows_def same_exits_def)
qed

lemma grows_break_continue:
  assumes "wf_builder b"
  shows "grows A s b (visit_break b)" "grows A s b (visit_continue b)"
  by (auto simp: visit_break_def visit_continue_def split: list.split
      intro!: grows_exit[OF assms] grows_refl[OF assms])

lemma grows_until:
  assumes "visitor_ok A D v" "set ns \<subseteq> D" "wf_builder b" "s < length (scope_list b)" "k \<le> length (scope_list b)"
    and "visit_until v s k ns b = (ok, outs, b')"
  shows "grows A s b b' \<and> saved b' k outs"
  using assms(2-)
proof (induction ns arbitrary: b ok outs)
  case Nil
  then show ?case by (simp add: grows_refl saved_def)
next
  case (Cons n ns)
  let ?b1 = "v n s b"
  have g: "grows A s b ?b1" by (rule visitor_okD[OF assms(1)]) (use Cons.prems in auto)
  have now: "saved ?b1 k [states k ?b1]"
    by (rule saved_states[OF grows_wf[OF g]]) (use Cons.prems(4) grows_length[OF g] in simp)
  show ?case
  proof (cases "falls_through n")
    case True
    obtain ok' outs' where rest: "visit_until v s k ns ?b1 = (ok', outs', b')" and outs: "outs = states k ?b1 # outs'"
      using Cons.prems(5) True by (auto simp: Let_def split: prod.splits)
    have "grows A s ?b1 b' \<and> saved b' k outs'"
      by (rule Cons.IH[OF _ grows_wf[OF g] _ _ rest]) (use Cons.prems grows_length[OF g] in auto)
    then show ?thesis
      using grows_trans[OF g, of s b'] saved_grows[OF now, of A s b'] saved_Cons[of b' k "states k ?b1" outs'] outs by simp
  next
    case False
    then show ?thesis using Cons.prems(5) g now by (auto simp: Let_def)
  qed
qed

lemma grows_update_scope_plain:
  assumes "wf_builder b" "i < length (scope_list b)"
    and "same_scope (i = scope) (scope_list b ! i) (f (scope_list b ! i))"
    and "sc_bindings (f (scope_list b ! i)) = sc_bindings (scope_list b ! i)"
    and "within (active_bindings (f (scope_list b ! i))) (active_bindings (scope_list b ! i))"
  shows "grows A scope b (update_scope i f b)"
proof -
  have eq: "(update_scope i f b)\<lparr>next_binding := next_binding b\<rparr> = update_scope i f b"
    by (simp add: update_scope_def)
  have "grows A scope b ((update_scope i f b)\<lparr>next_binding := next_binding b\<rparr>)"
    by (rule grows_update_scope[where f = f, OF assms(1,2) order_refl assms(3)])
      (use wf_scopeD[OF assms(1,2)] assms(4,5) in \<open>auto simp: wf_scope_def intro: within_trans\<close>)
  then show ?thesis unfolding eq .
qed

lemma grows_pop_active:
  assumes "wf_builder b" "s < length (scope_list b)"
  shows "grows A scope b
    (update_scope (binding_scope b s x) (\<lambda>sc. sc\<lparr>active_bindings := AList.delete x (active_bindings sc)\<rparr>) b)"
  by (rule grows_update_scope_plain[OF assms(1) binding_scope_less[OF assms(2)]])
    (auto simp: same_scope_def within_def)

lemma grows_handlers:
  assumes "visitor_ok A D v" "\<And>h. h \<in> set hs \<Longrightarrow> set (children h) \<subseteq> D"
    and "wf_builder b" "s < length (scope_list b)" "saved b k [entry]" "saved b k cont" "saved b k abr"
    and "visit_handlers v s k entry hs cont abr b = (cont', abr', b')"
  shows "grows A s b b' \<and> saved b' k cont' \<and> saved b' k abr'"
  using assms(2-)
proof (induction hs arbitrary: cont abr b)
  case Nil
  then show ?case by (simp add: grows_refl)
next
  case (Cons h hs)
  obtain ty nm body where x: "handler_parts h = (ty, nm, body)" by (cases "handler_parts h")
  have D: "set (opt_list ty) \<subseteq> D" "set body \<subseteq> D"
    using Cons.prems(1)[of h] handler_parts_below[OF x] by auto
  let ?b1 = "set_node_scope s h (restore_states entry b)"
  let ?b2 = "case ty of None \<Rightarrow> ?b1 | Some t \<Rightarrow> v t s ?b1"
  let ?b3 = "case nm of None \<Rightarrow> ?b2 | Some y \<Rightarrow> bind_name s y None h None None ?b2"
  obtain ok outs b4 where b4: "visit_until v s k body ?b3 = (ok, outs, b4)" by (cases "visit_until v s k body ?b3")
  let ?b5 = "case nm of None \<Rightarrow> b4 | Some y \<Rightarrow> update_scope (binding_scope b4 s y)
    (\<lambda>sc. sc\<lparr>active_bindings := AList.delete y (active_bindings sc)\<rparr>) b4"
  have g0: "grows A s b (restore_states entry b)" by (rule grows_restore_saved[OF Cons.prems(2,4)])
  have "grows A s (restore_states entry b) ?b1"
    by (rule grows_set_node_scope[OF grows_wf[OF g0]]) (simp add: Cons.prems)
  then have g1: "grows A s b ?b1" using grows_trans[OF g0] by blast
  have "grows A s ?b1 ?b2"
    using D(1) visitor_okD[OF assms(1) _ grows_wf[OF g1]] grows_refl[OF grows_wf[OF g1]] Cons.prems(3)
    by (cases ty) auto
  then have g2: "grows A s b ?b2" using grows_trans[OF g1] by blast
  have s2: "s < length (scope_list ?b2)" using Cons.prems(3) grows_length[OF g2] by linarith
  have "grows A s ?b2 ?b3"
    using grows_bind_name[OF grows_wf[OF g2] s2] grows_refl[OF grows_wf[OF g2]] by (cases nm) auto
  then have g3: "grows A s b ?b3" using grows_trans[OF g2] by blast
  have k3: "s < length (scope_list ?b3)" "k \<le> length (scope_list ?b3)"
    using Cons.prems(3,4) grows_length[OF g3] unfolding saved_def by linarith+
  have "grows A s ?b3 b4" using grows_until[OF assms(1) D(2) grows_wf[OF g3] k3 b4] by simp
  then have g4: "grows A s b b4" using grows_trans[OF g3] by blast
  have s4: "s < length (scope_list b4)" using Cons.prems(3) grows_length[OF g4] by linarith
  have "grows A s b4 ?b5"
    using grows_pop_active[OF grows_wf[OF g4] s4] grows_refl[OF grows_wf[OF g4]] by (cases nm) auto
  then have g5: "grows A s b ?b5" using grows_trans[OF g4] by blast
  have k5: "s < length (scope_list ?b5)" "k \<le> length (scope_list ?b5)"
    using Cons.prems(3,4) grows_length[OF g5] unfolding saved_def by linarith+
  note sv = saved_grows[OF Cons.prems(4) g5] saved_grows[OF Cons.prems(5) g5] saved_grows[OF Cons.prems(6) g5]
    saved_states[OF grows_wf[OF g5] k5(2)]
  have rest: "visit_handlers v s k entry hs (if ok then cont @ [states k ?b5] else cont)
      (if ok then abr else abr @ [states k ?b5]) ?b5 = (cont', abr', b')"
    using Cons.prems(7) unfolding visit_handlers.simps x prod.case Let_def b4 .
  have "grows A s ?b5 b' \<and> saved b' k cont' \<and> saved b' k abr'"
    by (rule Cons.IH[OF _ grows_wf[OF g5] k5(1) sv(1) _ _ rest]) (use Cons.prems(1) sv in auto)
  then show ?case using grows_trans[OF g5] by blast
qed

lemma visit_handlers_outputs:
  "visit_handlers v s k entry hs cont abr b = (cont', abr', b') \<Longrightarrow>
   length cont + length abr + length hs = length cont' + length abr'"
proof (induction hs arbitrary: cont abr b)
  case (Cons h hs)
  obtain ty nm body where x: "handler_parts h = (ty, nm, body)" by (cases "handler_parts h")
  show ?case
    using Cons.prems unfolding visit_handlers.simps x prod.case Let_def
    by (auto split: prod.splits if_splits dest!: Cons.IH)
qed simp

lemma bindings_below_ids:
  "(i, bs) \<in> set (bindings_below ss b) \<Longrightarrow> \<exists>n \<in> set ss. i \<in> node_id ` set (subtree n)"
  by (auto simp: bindings_below_def set_walk_tree)

lemma map_of_fold_update:
  "i \<notin> fst ` set kvs \<Longrightarrow> map_of (fold (\<lambda>(k, v). AList.update k v) kvs m) i = map_of m i"
  by (induction kvs arbitrary: m) (auto simp: update_conv)

lemma grows_finally:
  assumes "visitor_ok A D v" "set finalbody \<subseteq> D" "\<And>n. n \<in> set finalbody \<Longrightarrow> node_id ` set (subtree n) \<subseteq> A"
    and "wf_builder b" "s < length (scope_list b)" "saved b k inputs" "inputs \<noteq> []" "saved b k cont"
  shows "grows A s b (visit_finally v s finalbody inputs cont b)"
proof -
  let ?r1 = "restore_states (merged_scope_states inputs) b"
  let ?b1 = "visit_all v finalbody s ?r1"
  let ?r2 = "restore_states (merged_scope_states cont) ?b1"
  let ?b2 = "visit_all v finalbody s ?r2"
  let ?b3 = "?b2\<lparr>node_bindings := fold (\<lambda>(i, bs). AList.update i bs) (bindings_below finalbody ?b1) (node_bindings ?b2)\<rparr>"
  have g0: "grows A s b ?r1" by (rule grows_restore_saved[OF assms(4) saved_merged[OF assms(6,7)]])
  have "grows A s ?r1 ?b1" by (rule grows_visit_all[OF assms(1,2) grows_wf[OF g0]]) (simp add: assms(5))
  then have g1: "grows A s b ?b1" using grows_trans[OF g0] by blast
  show ?thesis
  proof (cases "cont = []")
    case False
    have "grows A s ?b1 ?r2"
      by (rule grows_restore_saved[OF grows_wf[OF g1] saved_merged[OF saved_grows[OF assms(8) g1] False]])
    then have g2: "grows A s b ?r2" using grows_trans[OF g1] by blast
    have "grows A s ?r2 ?b2"
      by (rule grows_visit_all[OF assms(1,2) grows_wf[OF g2]]) (use assms(5) grows_length[OF g2] in linarith)
    then have g3: "grows A s b ?b2" using grows_trans[OF g2] by blast
    have "map_of (node_bindings ?b3) i = map_of (node_bindings ?b2) i" if "i \<notin> A" for i
    proof -
      have "i \<notin> fst ` set (bindings_below finalbody ?b1)"
        using that assms(3) bindings_below_ids[of i _ finalbody ?b1] by fastforce
      then show ?thesis by (simp add: map_of_fold_update)
    qed
    then have "grows A s ?b2 ?b3"
      by (intro grows_marks[OF grows_wf[OF g3], where s = 0]) (use grows_wf[OF g3] in \<open>auto simp: wf_builder_def\<close>)
    then have "grows A s b ?b3" using grows_trans[OF g3] by blast
    then show ?thesis using False by (simp add: visit_finally_def Let_def)
  qed (simp add: visit_finally_def Let_def g1)
qed

lemma grows_visit_try:
  assumes "visitor_ok A D v" "set body \<subseteq> D" "set orelse \<subseteq> D" "set finalbody \<subseteq> D"
    and "\<And>h. h \<in> set hs \<Longrightarrow> set (children h) \<subseteq> D" "\<And>n. n \<in> set finalbody \<Longrightarrow> node_id ` set (subtree n) \<subseteq> A"
    and "wf_builder b" "s < length (scope_list b)"
  shows "grows A s b (visit_try v body hs orelse finalbody s b)"
proof -
  let ?k = "length (scope_list b)"
  obtain ok outs b1 where b1: "visit_until v s ?k body b = (ok, outs, b1)" by (cases "visit_until v s ?k body b")
  define exc where "exc = states ?k b # outs"
  define b2 where "b2 = (if ok then visit_all v orelse s b1 else b1)"
  obtain cont abr b3 where b3: "visit_handlers v s ?k (merged_scope_states exc) hs
      (if ok then [states ?k b2] else []) [] b2 = (cont, abr, b3)"
    by (cases "visit_handlers v s ?k (merged_scope_states exc) hs (if ok then [states ?k b2] else []) [] b2")
  have g1: "grows A s b b1" and o1: "saved b1 ?k outs"
    using grows_until[OF assms(1,2,7,8) order_refl b1] by simp_all
  have now: "saved b ?k [states ?k b]" by (rule saved_states[OF assms(7) order_refl])
  have e1: "saved b1 ?k exc" unfolding exc_def using saved_grows[OF now g1] o1 saved_Cons by blast
  have "grows A s b1 b2"
    using grows_visit_all[OF assms(1,3) grows_wf[OF g1]] grows_refl[OF grows_wf[OF g1]] grows_length[OF g1] assms(8)
    by (auto simp: b2_def)
  then have g2: "grows A s b b2" and e2: "saved b2 ?k exc"
    using grows_trans[OF g1] saved_grows[OF e1] by blast+
  have k2: "s < length (scope_list b2)" "?k \<le> length (scope_list b2)" using assms(8) grows_length[OF g2] by linarith+
  have m2: "saved b2 ?k [merged_scope_states exc]" by (rule saved_merged[OF e2]) (simp add: exc_def)
  have c2: "saved b2 ?k (if ok then [states ?k b2] else [])"
    using saved_states[OF grows_wf[OF g2] k2(2)] saved_Nil[OF k2(2)] by simp
  have h: "grows A s b2 b3" "saved b3 ?k cont" "saved b3 ?k abr"
    using grows_handlers[OF assms(1,5) grows_wf[OF g2] k2(1) m2 c2 saved_Nil[OF k2(2)] b3] by simp_all
  then have g3: "grows A s b b3" using grows_trans[OF g2] by blast
  have s3: "s < length (scope_list b3)" using assms(8) grows_length[OF g3] by linarith
  let ?inputs = "cont @ abr @ (if hs = [] then exc else [])"
  have i3: "saved b3 ?k ?inputs"
    using h saved_grows[OF e2 h(1)] saved_Nil[of ?k b3] unfolding saved_def by auto
  have ne: "?inputs \<noteq> []"
    using visit_handlers_outputs[OF b3] by (cases hs) (auto simp: exc_def)
  have result: "visit_try v body hs orelse finalbody s b =
      (if finalbody \<noteq> [] then visit_finally v s finalbody ?inputs cont b3
       else if cont \<noteq> [] then restore_states (merged_scope_states cont) b3 else restore_states (states ?k b) b3)"
    unfolding visit_try_def Let_def b1 prod.case exc_def[symmetric] b2_def[symmetric] b3 ..
  have "grows A s b3 (visit_try v body hs orelse finalbody s b)"
    unfolding result
    using grows_finally[OF assms(1,4,6) grows_wf[OF g3] s3 i3 ne h(2)]
      grows_restore_saved[OF grows_wf[OF g3] saved_merged[OF h(2)]]
      grows_restore_saved[OF grows_wf[OF g3] saved_grows[OF now g3]] by simp
  then show ?thesis using grows_trans[OF g3] by blast
qed

text \<open>Composition of steps, in the same scope and in a new one.\<close>

lemma grows_then:
  assumes "grows A s b b1" "wf_builder b1 \<Longrightarrow> length (scope_list b) \<le> length (scope_list b1) \<Longrightarrow> grows A s b1 b2"
  shows "grows A s b b2"
  using grows_trans[OF assms(1) assms(2)[OF grows_wf[OF assms(1)] grows_length[OF assms(1)]]] by simp

lemma grows_then_new:
  assumes "grows A s b b1" "length (scope_list b) \<le> s'"
    and "wf_builder b1 \<Longrightarrow> length (scope_list b) \<le> length (scope_list b1) \<Longrightarrow> grows A s' b1 b2"
  shows "grows A s b b2"
  using grows_trans[OF assms(1) assms(3)[OF grows_wf[OF assms(1)] grows_length[OF assms(1)]]] assms(2) by simp

lemma grows_visit_match:
  assumes "visitor_ok A D v" "subject \<in> D" "\<And>c. c \<in> set cs \<Longrightarrow> set (children c) \<subseteq> D"
    and "wf_builder b" "s < length (scope_list b)"
  shows "grows A s b (visit_match v subject cs s b)"
  unfolding visit_match_def
proof (rule grows_then)
  have head: "grows A s b (visit_match_head v s c b)"
    if c: "c \<in> set cs" and b: "wf_builder b" "s < length (scope_list b)" for c b
  proof (cases "as_match_case c")
    case (Some x)
    obtain p g body where x: "x = (p, g, body)" by (cases x)
    have D: "p \<in> D" "\<And>y. g = Some y \<Longrightarrow> y \<in> D"
      using assms(3)[OF c] view_children(8)[of c p g body] Some x by auto
    have p: "grows A s b (v p s b)" by (rule visitor_okD[OF assms(1) D(1) b])
    have "grows A s (v p s b) (v y s (v p s b))" if "g = Some y" for y
      by (rule visitor_okD[OF assms(1) D(2)[OF that] grows_wf[OF p]]) (use b(2) grows_length[OF p] in simp)
    then show ?thesis
      using p grows_trans[OF p] Some x by (auto simp: visit_match_head_def split: option.split)
  qed (simp add: visit_match_head_def grows_refl b)
  have sub: "grows A s b (v subject s b)" by (rule visitor_okD[OF assms(1,2,4,5)])
  show "grows A s b (fold (visit_match_head v s) cs (v subject s b))"
    by (rule grows_then[OF sub], rule grows_fold[where s = s]) (use head assms(5) in auto)
  then show "grows A s (fold (visit_match_head v s) cs (v subject s b))
      (visit_branches v (map case_body cs) s True (fold (visit_match_head v s) cs (v subject s b)))"
  proof (intro grows_branches[OF assms(1)])
    fix ns assume "ns \<in> set (map case_body cs)"
    then show "set ns \<subseteq> D"
      using assms(3) view_children(8) by (fastforce simp: case_body_def split: option.splits)
  qed (use assms(5) in \<open>auto dest: grows_wf grows_length\<close>)
qed

lemma grows_import:
  assumes "wf_builder b" "s < length (scope_list b)"
  shows "grows A s b (visit_import names n s b)"
  unfolding visit_import_def
  by (rule grows_then, rule grows_fold[OF assms], erule (1) grows_bind_name, erule grows_mark) (use assms in simp)

lemma grows_importfrom:
  assumes "wf_builder b" "s < length (scope_list b)"
  shows "grows A s b (visit_importfrom m names level n s b)"
  unfolding visit_importfrom_def
proof (rule grows_then, rule grows_fold[OF assms])
  fix al b assume b: "wf_builder b" "s < length (scope_list b)"
  show "grows A s b (bind_import_from pre level n s al b)" for pre
  proof (cases "fst al = ''*'' \<and> pre = [''pytest''] \<and> level = 0")
    case True
    show ?thesis
      unfolding bind_import_from_def if_P[OF True] by (rule grows_fold[OF b]) (erule (1) grows_bind_name)
  qed (use grows_bind_name[OF b] grows_refl[OF b(1)] in \<open>auto simp: bind_import_from_def\<close>)
qed (use assms in \<open>auto intro: grows_mark\<close>)

lemma grows_assign:
  assumes "visitor_ok A D v" "value \<in> D" "wf_builder b" "s < length (scope_list b)"
  shows "grows A s b (visit_assign v targets value n s b)"
  unfolding visit_assign_def
proof (rule grows_then[OF visitor_okD[OF assms]], rule grows_fold[where s = s])
  fix t b assume b: "wf_builder b" "s < length (scope_list b)"
  show "grows A s b (mark t s (bind_targets s (Some value) n None t b))"
    by (rule grows_then[OF grows_bind_targets[OF b]], erule grows_mark) (use b in simp)
qed (use assms in auto)

lemma grows_annassign:
  assumes "visitor_ok A D v" "annotation \<in> D" "set_option value \<subseteq> D" "wf_builder b" "s < length (scope_list b)"
  shows "grows A s b (visit_annassign v t annotation value n s b)"
proof -
  have "set (annotation # opt_list value) \<subseteq> D" using assms(2,3) by (cases "value") auto
  note 1 = grows_visit_all[OF assms(1) this assms(4,5)]
  have 2: "grows A s b (bind_targets s value n None t (visit_all v (annotation # opt_list value) s b))"
    by (rule grows_then[OF 1], erule grows_bind_targets) (use assms(5) in linarith)
  show ?thesis
    unfolding visit_annassign_def by (rule grows_then[OF 2], erule grows_mark) (use assms(5) in linarith)
qed

lemma grows_augassign:
  assumes "visitor_ok A D v" "value \<in> D" "wf_builder b" "s < length (scope_list b)"
  shows "grows A s b (visit_augassign v t value n s b)"
proof -
  have 1: "grows A s b (v value s (bind_targets s None n None t b))"
    by (rule grows_then[OF grows_bind_targets[OF assms(3,4)]], erule visitor_okD[OF assms(1,2)])
      (use assms(4) in linarith)
  show ?thesis
    unfolding visit_augassign_def by (rule grows_then[OF 1], erule grows_mark) (use assms(4) in linarith)
qed

lemma grows_declare:
  assumes "wf_builder b" "s < length (scope_list b)"
  shows "grows A s b (visit_global names n s b)" "grows A s b (visit_nonlocal names n s b)"
proof -
  have 1: "grows A s b (update_scope s (\<lambda>sc. sc\<lparr>global_names := global_names sc \<union> set names\<rparr>) b)"
    "grows A s b (update_scope s (\<lambda>sc. sc\<lparr>nonlocal_names := nonlocal_names sc \<union> set names\<rparr>) b)"
    by (rule grows_update_scope_plain[OF assms]; simp add: same_scope_def)+
  show "grows A s b (visit_global names n s b)"
    unfolding visit_global_def by (rule grows_then[OF 1(1)], erule grows_mark) (use assms(2) in linarith)
  show "grows A s b (visit_nonlocal names n s b)"
    unfolding visit_nonlocal_def by (rule grows_then[OF 1(2)], erule grows_mark) (use assms(2) in linarith)
qed

lemma grows_namedexpr:
  assumes "visitor_ok A D v" "value \<in> D" "wf_builder b" "s < length (scope_list b)"
  shows "grows A s b (visit_namedexpr v t value n s b)"
proof -
  let ?s = "skip_kind ComprehensionScope (scope_list b) s"
  have s: "?s < length (scope_list b)"
    using skip_kind_le[of ComprehensionScope "scope_list b" s] assms(4) by linarith
  have 1: "grows A s b (bind_targets ?s (Some value) n None t (v value s b))"
    by (rule grows_then[OF visitor_okD[OF assms]], erule grows_bind_targets) (use s in linarith)
  show ?thesis
    unfolding visit_namedexpr_def Let_def by (rule grows_then[OF 1], erule grows_mark) (use assms(4) in linarith)
qed

lemma grows_arguments:
  assumes "wf_builder b" "s < length (scope_list b)"
  shows "grows A s b (visit_arguments args s b)"
  unfolding visit_arguments_def
proof (rule grows_fold[OF assms])
  fix a b assume b: "wf_builder b" "s < length (scope_list b)"
  have "grows A s b (set_node_scope s a (bind_name s x None a None None b))" for x
    by (rule grows_then[OF grows_bind_name[OF b]], erule grows_set_node_scope) (use b(2) in linarith)
  then show "grows A s b (visit_argument s a b)"
    using grows_refl[OF b(1)] by (auto simp: visit_argument_def split: option.split)
qed

lemma function_parent_less: "s < length (scope_list b) \<Longrightarrow> function_parent b s < length (scope_list b)"
  using skip_kind_le[of ClassScope "scope_list b" s] by (simp add: function_parent_def)

text \<open>A scope that opens below the current one, with what happens in it.\<close>

lemma grows_new_scope:
  assumes "grows A s b b1" "s < length (scope_list b)" "p < length (scope_list b1)"
    and "wf_builder (push_scope (Some p) k b1) \<Longrightarrow>
      grows A (length (scope_list b1)) (push_scope (Some p) k b1) b2"
  shows "grows A s b b2"
proof -
  have "grows A s b (push_scope (Some p) k b1)"
    by (rule grows_then[OF assms(1)], erule grows_push_scope) (rule assms(3))
  then show ?thesis
    by (rule grows_then_new[of A s b _ "length (scope_list b1)"]) (use grows_length[OF assms(1)] assms(4) in auto)
qed

lemma grows_lambda:
  assumes "visitor_ok A D v" "set (argument_defaults args) \<subseteq> D" "body \<in> D" "wf_builder b" "s < length (scope_list b)"
  shows "grows A s b (visit_lambda v args body s b)"
proof -
  define b1 where "b1 = visit_all v (argument_defaults args) s b"
  have g: "grows A s b b1" unfolding b1_def by (rule grows_visit_all[OF assms(1,2,4,5)])
  have p: "function_parent b1 s < length (scope_list b1)"
    using function_parent_less[of s b1] grows_length[OF g] assms(5) by simp
  show ?thesis
    unfolding visit_lambda_def Let_def b1_def[symmetric]
  proof (rule grows_new_scope[OF g assms(5) p, where k = FunctionScope])
    let ?b2 = "push_scope (Some (function_parent b1 s)) FunctionScope b1"
    assume wf: "wf_builder ?b2"
    have "grows A (length (scope_list b1)) ?b2 (visit_arguments args (length (scope_list b1)) ?b2)"
      by (rule grows_arguments[OF wf]) simp
    then show "grows A (length (scope_list b1)) ?b2
        (v body (length (scope_list b1)) (visit_arguments args (length (scope_list b1)) ?b2))"
      by (rule grows_then) (rule visitor_okD[OF assms(1,3)], auto)
  qed
qed

lemma grows_generators:
  assumes "visitor_ok A D v" "\<And>g. g \<in> set gs \<Longrightarrow> set (children g) \<subseteq> D"
    and "grows A s b0 b" "s < length (scope_list b0)" "length (scope_list b0) \<le> c" "c < length (scope_list b)"
  shows "grows A s b0 (visit_generators v s c i gs b) \<and>
    length (scope_list b) \<le> length (scope_list (visit_generators v s c i gs b))"
  using assms(2,3,6)
proof (induction gs arbitrary: i b)
  case (Cons g gs)
  show ?case
  proof (cases "as_comprehension g")
    case None
    then show ?thesis using Cons.IH[of b "Suc i"] Cons.prems by auto
  next
    case (Some x)
    obtain t it ifs a where x: "x = (t, it, ifs, a)" by (cases x)
    have D: "it \<in> D" "set ifs \<subseteq> D"
      using Cons.prems(1)[of g] view_children(6)[of g t it ifs a] Some x by auto
    let ?s = "if i = 0 then s else c"
    let ?b1 = "mark_phase it i (v it ?s b)"
    let ?b2 = "mark t c (bind_targets c None t (Some (i + 1)) t ?b1)"
    let ?b3 = "fold (\<lambda>e b. mark_phase e (i + 1) (v e c b)) ifs ?b2"
    have step: "grows A s' b' (mark_phase e p (v e s' b'))"
      if "e \<in> D" "wf_builder b'" "s' < length (scope_list b')" for e p s' b'
      by (rule grows_then[OF visitor_okD[OF assms(1) that]]) (erule grows_mark_phase)
    have sl: "?s < length (scope_list b)" using Cons.prems assms(4) grows_length[OF Cons.prems(2)] by auto
    have g1: "grows A s b0 ?b1"
      by (rule grows_trans[OF Cons.prems(2) step[OF D(1) grows_wf[OF Cons.prems(2)] sl]]) (use assms(5) in auto)
    have l1: "c < length (scope_list ?b1)"
      using grows_length[OF step[OF D(1) grows_wf[OF Cons.prems(2)] sl]] Cons.prems(3) by (rule less_le_trans[rotated])
    have "grows A c ?b1 ?b2"
      by (rule grows_then[OF grows_bind_targets[OF grows_wf[OF g1] l1]], erule grows_mark) (use l1 in linarith)
    then have g2: "grows A c ?b1 ?b3"
      by (rule grows_then, intro grows_fold[where s = c]) (use step D(2) l1 in auto)
    have g3: "grows A s b0 ?b3" by (rule grows_trans[OF g1 g2]) (use assms(5) in simp)
    have "grows A s b0 (visit_generators v s c (Suc i) gs ?b3) \<and>
        length (scope_list ?b3) \<le> length (scope_list (visit_generators v s c (Suc i) gs ?b3))"
      by (rule Cons.IH[OF _ g3]) (use Cons.prems(1) grows_length[OF g2] l1 in auto)
    moreover have "length (scope_list b) \<le> length (scope_list ?b3)"
      using grows_length[OF step[OF D(1) grows_wf[OF Cons.prems(2)] sl]] grows_length[OF g2] by (rule order_trans)
    ultimately show ?thesis by (simp add: Some x Let_def)
  qed
qed simp

lemma grows_comprehension:
  assumes "visitor_ok A D v" "set elts \<subseteq> D" "\<And>g. g \<in> set gs \<Longrightarrow> set (children g) \<subseteq> D"
    and "wf_builder b" "s < length (scope_list b)"
  shows "grows A s b (visit_comprehension v elts gs s b)"
proof -
  let ?c = "length (scope_list b)"
  let ?b1 = "push_scope (Some (function_parent b s)) ComprehensionScope b"
  let ?b2 = "visit_generators v s ?c 0 gs ?b1"
  have g1: "grows A s b ?b1" by (rule grows_push_scope[OF assms(4) function_parent_less[OF assms(5)]])
  have g2: "grows A s b ?b2" and "length (scope_list ?b1) \<le> length (scope_list ?b2)"
    using grows_generators[OF assms(1,3) g1 assms(5) order_refl, where i = 0] by simp_all
  then have l2: "?c < length (scope_list ?b2)" by simp
  have "grows A ?c ?b2 (fold (\<lambda>e b. mark_phase e (length gs) (v e ?c b)) elts ?b2)"
  proof (rule grows_fold[OF grows_wf[OF g2] l2])
    fix e b' assume "e \<in> set elts" and b': "wf_builder b'" "?c < length (scope_list b')"
    then show "grows A ?c b' (mark_phase e (length gs) (v e ?c b'))"
      using assms(2) by (intro grows_then[OF visitor_okD[OF assms(1) _ b'] grows_mark_phase]) auto
  qed
  then show ?thesis
    unfolding visit_comprehension_def Let_def by (rule grows_trans[OF g2]) simp
qed

lemma grows_function_body:
  assumes "visitor_ok A D v" "set (header_expressions decs args returns) \<subseteq> D" "set body \<subseteq> D"
    and "wf_builder b" "s < length (scope_list b)"
  shows "grows A s b (visit_function_body v x args body decs returns n s b)"
proof -
  define b1 where "b1 = visit_all v (header_expressions decs args returns) s (bind_name s x None n None None b)"
  define f where "f = length (scope_list b1)"
  define b3 where "b3 = update_scope f (\<lambda>sc. sc\<lparr>global_names := declared_globals body,
      nonlocal_names := declared_nonlocals body\<rparr>) (push_scope (Some (function_parent b1 s)) FunctionScope b1)"
  define b4 where "b4 = visit_arguments args f b3"
  define b5 where "b5 = visit_all v body f b4"
  let ?out = "map (\<lambda>(i, out). merge_states [i, out]) (zip (states f b4) (states f b5))"
  have g1: "grows A s b b1"
    unfolding b1_def by (rule grows_then[OF grows_bind_name[OF assms(4,5)]], rule grows_visit_all[OF assms(1,2)])
      (use assms(5) in auto)
  have p: "function_parent b1 s < length (scope_list b1)"
    using function_parent_less[of s b1] grows_length[OF g1] assms(5) by simp
  have "grows A s b (restore_states ?out b5)"
  proof (rule grows_new_scope[OF g1 assms(5) p, where k = FunctionScope], fold f_def)
    let ?b2 = "push_scope (Some (function_parent b1 s)) FunctionScope b1"
    assume wf: "wf_builder ?b2"
    have g3: "grows A f ?b2 b3"
      unfolding b3_def
      by (rule grows_update_scope_plain[OF wf]) (auto simp: f_def same_scope_def)
    have g4: "grows A f ?b2 b4"
      unfolding b4_def by (rule grows_then[OF g3], rule grows_arguments) (auto simp: f_def)
    have g45: "grows A f b4 b5"
      unfolding b5_def
      by (rule grows_visit_all[OF assms(1,3) grows_wf[OF g4]]) (use grows_length[OF g4] in \<open>simp add: f_def\<close>)
    have g5: "grows A f ?b2 b5" using grows_trans[OF g4 g45] by simp
    have len: "f \<le> length (scope_list b4)" "f \<le> length (scope_list b5)"
      using grows_length[OF g4] grows_length[OF g5] by (simp_all add: f_def)
    have v4: "valid_states b5 (states f b4)"
      by (rule valid_states_grows[OF valid_states_now[OF grows_wf[OF g4]] g45])
    note v5 = valid_states_now[OF grows_wf[OF g5], of f]
    have "within (?out ! i) (sc_bindings (scope_list b5 ! i))" if "i < f" for i
    proof -
      have "within (states f b4 ! i) (sc_bindings (scope_list b5 ! i))"
        "within (states f b5 ! i) (sc_bindings (scope_list b5 ! i))"
        using v4 v5 that len by (simp_all add: valid_states_def)
      then have "within (merge_states [states f b4 ! i, states f b5 ! i]) (sc_bindings (scope_list b5 ! i))"
        by (intro merge_within) auto
      then show ?thesis using that len by simp
    qed
    then have "valid_states b5 ?out" using len by (simp add: valid_states_def)
    then show "grows A f ?b2 (restore_states ?out b5)"
      by (rule grows_trans[OF g5 grows_restore[OF grows_wf[OF g5]], where scope' = f]) simp
  qed
  then show ?thesis
    unfolding visit_function_body_def Let_def b1_def[symmetric] f_def[symmetric] b3_def[symmetric] b4_def[symmetric]
      b5_def[symmetric] .
qed

lemma grows_classdef:
  assumes "visitor_ok A D v" "set (decs @ bases @ kws) \<subseteq> D" "set body \<subseteq> D" "wf_builder b" "s < length (scope_list b)"
  shows "grows A s b (visit_classdef v x bases kws body decs n s b)"
proof -
  define b1 where "b1 = visit_all v (decs @ bases @ kws) s (bind_name s x None n (Some [''<local>'', x]) None b)"
  have g1: "grows A s b b1"
    unfolding b1_def by (rule grows_then[OF grows_bind_name[OF assms(4,5)]], rule grows_visit_all[OF assms(1,2)])
      (use assms(5) in auto)
  have s1: "s < length (scope_list b1)" using grows_length[OF g1] assms(5) by linarith
  show ?thesis
    unfolding visit_classdef_def Let_def b1_def[symmetric]
    by (rule grows_new_scope[OF g1 assms(5) s1, where k = ClassScope], rule grows_visit_all[OF assms(1,3)]) simp_all
qed

section \<open>The visitor\<close>

lemma grows_visit_statement:
  assumes "visitor_ok A (below n) v" "shape n = Stmt st" "node_id ` set (subtree n) \<subseteq> A"
    and "wf_builder b" "s < length (scope_list b)"
  shows "grows A s b (visit_statement v n st s b)"
proof -
  have c: "set (stmt_children st) \<subseteq> below n"
    using children_below[of n] assms(2) by (simp add: children_def)
  have cc: "set (children e) \<subseteq> below n" if "e \<in> set (stmt_children st)" for e
    using that c below_children by blast
  have A: "node_id ` set (subtree e) \<subseteq> A" if "e \<in> set (stmt_children st)" for e
    using subtree_child[of e n] that assms(2,3) by (auto simp: children_def)
  note ok = assms(1) and b = assms(4,5)
  show ?thesis
  proof (cases st)
    case (NFunctionDef a x args body decs returns tps)
    have args: "set (children args) \<subseteq> below n" using cc[of args] by (simp add: NFunctionDef)
    have "set (header_expressions decs args returns) \<subseteq> below n"
      by (intro order_trans[OF header_expressions_below] Un_least UN_least)
        (use c args below_children[OF subsetD[OF args]] in \<open>simp_all add: NFunctionDef set_opt_list\<close>)
    then show ?thesis
      using c unfolding NFunctionDef visit_statement_def stmt.case
      by (intro grows_function_body[OF ok _ _ b]) (auto simp: NFunctionDef)
  next
    case (NClassDef x bases kws body decs tps)
    then show ?thesis
      using c unfolding NClassDef visit_statement_def stmt.case by (intro grows_classdef[OF ok _ _ b]) auto
  next
    case (NIf t body orelse)
    have t: "grows A s b (v t s b)" by (rule visitor_okD[OF ok _ b]) (use c NIf in auto)
    show ?thesis
      unfolding NIf visit_statement_def stmt.case visit_if_def
      by (rule grows_then[OF t], rule grows_branches[OF ok]) (use c NIf b(2) in \<open>auto split: if_splits\<close>)
  next
    case (NFor a t it body orelse)
    have i: "grows A s b (v it s b)" by (rule visitor_okD[OF ok _ b]) (use c NFor in auto)
    show ?thesis
      unfolding NFor visit_statement_def stmt.case visit_for_def
      by (rule grows_then[OF i], rule grows_visit_loop[OF ok]) (use c NFor b(2) in auto)
  next
    case (NWhile t body orelse)
    have i: "grows A s b (v t s b)" by (rule visitor_okD[OF ok _ b]) (use c NWhile in auto)
    show ?thesis
      unfolding NWhile visit_statement_def stmt.case visit_while_def
      by (rule grows_then[OF i], rule grows_visit_loop[OF ok]) (use c NWhile b(2) in auto)
  next
    case (NTry star body hs orelse finalbody)
    show ?thesis
      unfolding NTry visit_statement_def stmt.case
      by (rule grows_visit_try[OF ok _ _ _ _ _ b]) (use c cc A NTry in auto)
  next
    case (NMatch subject cs)
    show ?thesis
      unfolding NMatch visit_statement_def stmt.case
      by (rule grows_visit_match[OF ok _ _ b]) (use c cc NMatch in auto)
  next
    case (NAnnAssign t a w)
    show ?thesis
      unfolding NAnnAssign visit_statement_def stmt.case
      by (rule grows_annassign[OF ok _ _ b]) (use c NAnnAssign in \<open>auto simp: set_opt_list\<close>)
  qed (use c grows_assign[OF ok _ b] grows_augassign[OF ok _ b] grows_visit_all[OF ok _ b] in
      \<open>auto simp: visit_statement_def grows_import[OF b] grows_importfrom[OF b] grows_declare[OF b]
        grows_break_continue[OF b(1)]\<close>)
qed

lemma grows_visit_expression:
  assumes "visitor_ok A (below n) v" "shape n = Expr e" "wf_builder b" "s < length (scope_list b)"
  shows "grows A s b (visit_expression v n e s b)"
proof -
  have c: "set (expr_children e) \<subseteq> below n"
    using children_below[of n] assms(2) by (simp add: children_def)
  have cc: "set (children f) \<subseteq> below n" if "f \<in> set (expr_children e)" for f
    using that c below_children by blast
  note ok = assms(1) and b = assms(3,4)
  show ?thesis
  proof (cases e)
    case (NLambda args body)
    show ?thesis
      unfolding NLambda visit_expression_def expr.case
      by (rule grows_lambda[OF ok _ _ b]) (use c cc[of args] arguments_children(2)[of args] NLambda in auto)
  next
    case (NComp k elts gens)
    show ?thesis
      unfolding NComp visit_expression_def expr.case
      by (rule grows_comprehension[OF ok _ _ b]) (use c cc NComp in auto)
  qed (use c grows_namedexpr[OF ok _ b] grows_visit_all[OF ok _ b] grows_bind_name[OF b] grows_refl[OF b(1)] in
      \<open>auto simp: visit_expression_def visit_name_def\<close>)
qed

theorem grows_visit:
  "wf_builder b \<Longrightarrow> s < length (scope_list b) \<Longrightarrow> grows (node_id ` set (subtree n)) s b (visit n s b)"
proof (induction n arbitrary: s b rule: measure_induct_rule[of size])
  case (less n)
  let ?A = "node_id ` set (subtree n)"
  have "visitor_ok ?A (below n) visit"
    unfolding visitor_ok_def
  proof (intro ballI allI impI)
    fix d s' b' assume d: "d \<in> below n" and b': "wf_builder b'" "s' < length (scope_list b')"
    then obtain c where "c \<in> set (children n)" "d \<in> set (subtree c)" by (auto simp: below_unfold)
    then have "size d < size n" "set (subtree d) \<subseteq> set (subtree n)"
      using child_size[of c n] subtree_size[of d c] subtree_trans[of d c] subtree_child[of c n] by auto
    then show "grows ?A s' b' (visit d s' b')"
      using grows_mono[OF less.IH[of d, OF _ b'], of ?A] by (simp add: image_mono)
  qed
  note ok = this
  have e: "grows ?A s b (enter n s b)" by (rule grows_enter[OF less.prems]) simp
  have "grows ?A s (enter n s b) (visit n s b)"
  proof (cases "shape n")
    case (Stmt st)
    then show ?thesis
      using grows_visit_statement[OF ok Stmt subset_refl grows_wf[OF e]] less.prems(2)
      by (simp add: visit.simps[of n] visit_step_def)
  next
    case (Expr x)
    then show ?thesis
      using grows_visit_expression[OF ok Expr grows_wf[OF e]] less.prems(2) by (simp add: visit.simps[of n] visit_step_def)
  next
    case (Plain p)
    have "set (plain_children p) \<subseteq> below n" using children_below[of n] Plain by (simp add: children_def)
    then show ?thesis
      using grows_visit_all[OF ok _ grows_wf[OF e]] less.prems(2) Plain by (simp add: visit.simps[of n] visit_step_def)
  qed
  then show ?case using grows_trans[OF e] by blast
qed

lemma wf_initial: "wf_builder (initial_builder modname package)"
  by (auto simp: wf_builder_def initial_builder_def wf_scope_def new_scope_def)

lemma visitor_ok_visit: "node_id ` (\<Union>d \<in> D. set (subtree d)) \<subseteq> A \<Longrightarrow> visitor_ok A D visit"
  unfolding visitor_ok_def by (intro ballI allI impI grows_mono[OF grows_visit]) auto

end
