(* ===== verification/ScopeSound.thy ===== *)
theory ScopeSound
  imports ScopeInvariant "HOL-Library.Multiset"
begin

text \<open>
  Soundness of the scope analysis on the straight-line code of a module. An execution of module
  statements binds names and reads them; what is bound is a \<open>site\<close>, the binding statement with the
  value or the imported name it gives. It follows assignments to names and tuples of names, expression
  statements, \<open>return\<close>, \<open>raise\<close>, \<open>assert\<close>, \<open>pass\<close>, imports without \<open>*\<close>, \<open>if\<close>, and the headers of functions and
  classes, over expressions without \<open>:=\<close>, \<open>lambda\<close> and comprehensions. Conditions are not evaluated:
  either branch of an \<open>if\<close> may run; the run may stop before any statement. The bindings that the analysis
  records at a name contain the site that the name is bound to whenever an execution reads it. For
  loops this fails, and in the bodies of classes the analysis does not see the names of the module.
\<close>

section \<open>Executions\<close>

type_synonym site = "node option \<times> node \<times> string list option"

type_synonym env = "string \<Rightarrow> site option"

text \<open>Expressions that bind nothing and open no scope.\<close>

definition plain_node :: "node \<Rightarrow> bool" where
  "plain_node n =
     (case shape n of
        Expr (NNamedExpr _ _) \<Rightarrow> False
      | Expr (NLambda _ _) \<Rightarrow> False
      | Expr (NComp _ _ _) \<Rightarrow> False
      | Expr (NName _ c) \<Rightarrow> c \<noteq> Store
      | Expr _ \<Rightarrow> True
      | Plain (NKeyword _ _) \<Rightarrow> True
      | _ \<Rightarrow> False)"

definition plain_expr :: "node \<Rightarrow> bool" where
  "plain_expr n \<longleftrightarrow> (\<forall>m \<in> set (subtree n). plain_node m)"

text \<open>The names that evaluating an expression reads, with the sites they are bound to.\<close>

definition node_read :: "env \<Rightarrow> node \<Rightarrow> (nat \<times> site) list" where
  "node_read \<rho> m =
     (case as_name m of None \<Rightarrow> [] | Some (x, _) \<Rightarrow> map (Pair (node_id m)) (opt_list (\<rho> x)))"

lemma in_node_read:
  "(i, site) \<in> set (node_read \<rho> m) \<longleftrightarrow> (\<exists>x c. as_name m = Some (x, c) \<and> i = node_id m \<and> \<rho> x = Some site)"
  by (cases "as_name m") (auto simp: node_read_def)

definition name_reads :: "env \<Rightarrow> node \<Rightarrow> (nat \<times> site) list" where
  "name_reads \<rho> n = concat (map (node_read \<rho>) (subtree n))"

function target_binds :: "node option \<Rightarrow> node \<Rightarrow> node \<Rightarrow> (string \<times> site) list" where
  "target_binds value n target =
     (case as_name target of
        Some (x, _) \<Rightarrow> [(x, (value, n, None))]
      | None \<Rightarrow>
          (case as_starred target of
             Some t \<Rightarrow> target_binds None n t
           | None \<Rightarrow>
               (case as_sequence target of
                  Some elts \<Rightarrow>
                    let values = (case value of None \<Rightarrow> [] | Some w \<Rightarrow>
                                    (case as_sequence w of None \<Rightarrow> []
                                     | Some es \<Rightarrow> if length es = length elts then es else []));
                        child_values = (if values = [] then replicate (length elts) None else map Some values)
                    in concat (map (\<lambda>(t, w). target_binds w n t) (zip elts child_values))
                | None \<Rightarrow> [])))"
  by pat_completeness auto
termination
  by (relation "measure (\<lambda>(_, _, t). size t)")
    (auto simp: view_children intro!: child_size dest: set_zip_leftD)

declare target_binds.simps [simp del]

definition is_target :: "node \<Rightarrow> bool" where
  "is_target t \<longleftrightarrow> (\<forall>m \<in> set (subtree t). as_name m \<noteq> None \<or> as_starred m \<noteq> None \<or> as_sequence m \<noteq> None)"

text \<open>Simple statements: what they evaluate, and what they bind afterwards.\<close>

definition simple_stmt :: "node \<Rightarrow> bool" where
  "simple_stmt n =
     (case shape n of
        Stmt (NAssign ts v) \<Rightarrow> list_all is_target ts
      | Stmt (NExpr v) \<Rightarrow> True
      | Stmt (NReturn v) \<Rightarrow> True
      | Stmt (NRaise vs) \<Rightarrow> True
      | Stmt (NAssert t m) \<Rightarrow> True
      | Stmt (NImport names) \<Rightarrow> True
      | Stmt (NImportFrom m names level) \<Rightarrow> list_all (\<lambda>al. fst al \<noteq> ''*'') names
      | Stmt NPass \<Rightarrow> True
      | _ \<Rightarrow> False)"

definition evaluated :: "node \<Rightarrow> node list" where
  "evaluated n =
     (case shape n of
        Stmt (NAssign ts v) \<Rightarrow> [v]
      | Stmt (NExpr v) \<Rightarrow> [v]
      | Stmt (NReturn v) \<Rightarrow> opt_list v
      | Stmt (NRaise vs) \<Rightarrow> vs
      | Stmt (NAssert t m) \<Rightarrow> t # opt_list m
      | _ \<Rightarrow> [])"

definition stmt_binds :: "string list \<times> bool \<Rightarrow> node \<Rightarrow> (string \<times> site) list" where
  "stmt_binds M n =
     (case shape n of
        Stmt (NAssign ts v) \<Rightarrow> concat (map (target_binds (Some v) n) ts)
      | Stmt (NImport names) \<Rightarrow>
          map (\<lambda>al. (fst (local_import al), (None, n, Some (snd (local_import al))))) names
      | Stmt (NImportFrom m names level) \<Rightarrow>
          map (\<lambda>al. (from_name al, (None, n, Some (import_prefix (fst M) (snd M) m level @ [fst al])))) names
      | _ \<Rightarrow> [])"

definition bind_all :: "(string \<times> site) list \<Rightarrow> env \<Rightarrow> env" where
  "bind_all bs \<rho> = fold (\<lambda>(x, site) \<rho>. \<rho>(x := Some site)) bs \<rho>"

definition stmt_reads :: "env \<Rightarrow> node list \<Rightarrow> (nat \<times> site) list" where
  "stmt_reads \<rho> es = concat (map (name_reads \<rho>) es)"

definition leaves_block :: "node \<Rightarrow> bool" where
  "leaves_block n = (case shape n of Stmt (NReturn _) \<Rightarrow> True | Stmt (NRaise _) \<Rightarrow> True | _ \<Rightarrow> False)"

text \<open>Python rejects a function that declares one of its arguments \<open>global\<close> or \<open>nonlocal\<close>.\<close>

definition arguments_local :: "node \<Rightarrow> node list \<Rightarrow> bool" where
  "arguments_local args body \<longleftrightarrow>
     (\<forall>a \<in> set (function_arguments args). \<forall>y ann. as_arg a = Some (y, ann) \<longrightarrow>
        y \<notin> declared_globals body \<and> y \<notin> declared_nonlocals body)"

text \<open>
  The members of a class that is followed: simple statements and function definitions. What the body of
  a class reads is not followed, since the analysis does not see the names of the module there.
\<close>

definition class_member :: "node \<Rightarrow> bool" where
  "class_member n \<longleftrightarrow>
     simple_stmt n \<and> list_all plain_expr (evaluated n) \<or>
     (\<exists>a x args body decs returns tps. shape n = Stmt (NFunctionDef a x args body decs returns tps) \<and>
        list_all plain_expr (header_expressions decs args returns) \<and> arguments_local args body)"

definition mentions_name :: "string \<Rightarrow> node list \<Rightarrow> bool" where
  "mentions_name x es \<longleftrightarrow> (\<exists>e \<in> set es. \<exists>m \<in> set (subtree e). \<exists>c. as_name m = Some (x, c))"

text \<open>
  \<open>exec M ns \<rho> us \<rho>' ok\<close>: running the statements from \<open>\<rho>\<close> reads \<open>us\<close>, and ends with \<open>\<rho>'\<close> after the last
  statement (\<open>ok\<close>) or stops before, whatever statements are left. A function definition evaluates its
  decorators, defaults and annotations and binds its name; its body runs later and is not followed. A class
  evaluates its decorators, bases and keywords and binds its name. There is no rule for other
  statements: loops, \<open>try\<close>, \<open>with\<close>, \<open>match\<close>, augmented and annotated assignments, deletions.
\<close>

inductive exec :: "string list \<times> bool \<Rightarrow> node list \<Rightarrow> env \<Rightarrow> (nat \<times> site) list \<Rightarrow> env \<Rightarrow> bool \<Rightarrow> bool"
  for M where
  finish: "exec M [] \<rho> [] \<rho> True"
| stop: "exec M ns \<rho> [] \<rho> False"
| step: "simple_stmt n \<Longrightarrow> list_all plain_expr (evaluated n) \<Longrightarrow> \<not> leaves_block n \<Longrightarrow>
    exec M ns (bind_all (stmt_binds M n) \<rho>) us \<rho>' ok \<Longrightarrow>
    exec M (n # ns) \<rho> (stmt_reads \<rho> (evaluated n) @ us) \<rho>' ok"
| abrupt: "simple_stmt n \<Longrightarrow> list_all plain_expr (evaluated n) \<Longrightarrow>
    exec M (n # ns) \<rho> (stmt_reads \<rho> (evaluated n)) \<rho> False"
| branch: "shape n = Stmt (NIf test body orelse) \<Longrightarrow> plain_expr test \<Longrightarrow> branch \<in> {body, orelse} \<Longrightarrow>
    exec M branch \<rho> us \<rho>' True \<Longrightarrow> exec M ns \<rho>' us' \<rho>'' ok \<Longrightarrow>
    exec M (n # ns) \<rho> (name_reads \<rho> test @ us @ us') \<rho>'' ok"
| branch_abrupt: "shape n = Stmt (NIf test body orelse) \<Longrightarrow> plain_expr test \<Longrightarrow> branch \<in> {body, orelse} \<Longrightarrow>
    exec M branch \<rho> us \<rho>' False \<Longrightarrow>
    exec M (n # ns) \<rho> (name_reads \<rho> test @ us) \<rho>' False"
| definition_stmt: "shape n = Stmt (NFunctionDef a x args body decs returns tps) \<Longrightarrow>
    list_all plain_expr (header_expressions decs args returns) \<Longrightarrow>
    \<not> mentions_name x (header_expressions decs args returns) \<Longrightarrow>
    arguments_local args body \<Longrightarrow>
    exec M ns (\<rho>(x := Some (None, n, None))) us \<rho>' ok \<Longrightarrow>
    exec M (n # ns) \<rho> (stmt_reads \<rho> (header_expressions decs args returns) @ us) \<rho>' ok"
| class_stmt: "shape n = Stmt (NClassDef x bases kws body decs tps) \<Longrightarrow>
    list_all plain_expr (decs @ bases @ kws) \<Longrightarrow> \<not> mentions_name x (decs @ bases @ kws) \<Longrightarrow>
    list_all class_member body \<Longrightarrow>
    exec M ns (\<rho>(x := Some (None, n, Some [''<local>'', x]))) us \<rho>' ok \<Longrightarrow>
    exec M (n # ns) \<rho> (stmt_reads \<rho> (decs @ bases @ kws) @ us) \<rho>' ok"

section \<open>What the analysis covers\<close>

definition site_of :: "binding \<Rightarrow> site" where
  "site_of b = (bd_value b, bd_node b, bd_imported b)"

text \<open>Bindings of a comprehension have a phase and are not seen by the module.\<close>

definition sites :: "binding list \<Rightarrow> site set" where
  "sites bs = site_of ` {b \<in> set bs. bd_phase b = None}"

lemma sites_mono: "set bs \<subseteq> set bs' \<Longrightarrow> sites bs \<subseteq> sites bs'"
  by (auto simp: sites_def)

abbreviation module_scope :: "builder \<Rightarrow> scope" where
  "module_scope b \<equiv> scope_list b ! 0"

abbreviation active_at :: "builder \<Rightarrow> string \<Rightarrow> binding list" where
  "active_at b x \<equiv> get_bindings x (active_bindings (module_scope b))"

definition covers :: "builder \<Rightarrow> env \<Rightarrow> bool" where
  "covers b \<rho> \<longleftrightarrow> (\<forall>x site. \<rho> x = Some site \<longrightarrow> site \<in> sites (active_at b x))"

definition covers_reads :: "builder \<Rightarrow> (nat \<times> site) list \<Rightarrow> bool" where
  "covers_reads b us \<longleftrightarrow>
     (\<forall>(i, site) \<in> set us. \<exists>bs. map_of (node_bindings b) i = Some bs \<and> site \<in> sites bs)"

lemma covers_reads_append [simp]: "covers_reads b (us @ us') \<longleftrightarrow> covers_reads b us \<and> covers_reads b us'"
  by (simp add: covers_reads_def ball_Un)

lemma covers_reads_Nil [simp]: "covers_reads b []"
  by (simp add: covers_reads_def)

lemma covers_reads_kept:
  "covers_reads b us \<Longrightarrow> (\<And>i. i \<in> fst ` set us \<Longrightarrow> map_of (node_bindings b') i = map_of (node_bindings b) i) \<Longrightarrow>
   covers_reads b' us"
  by (fastforce simp: covers_reads_def)

lemma covers_active: "covers b \<rho> \<Longrightarrow> (\<And>x. set (active_at b x) \<subseteq> set (active_at b' x)) \<Longrightarrow> covers b' \<rho>"
  unfolding covers_def using sites_mono by blast

text \<open>A module binds in its own scope.\<close>

lemma wf_module: "wf_builder b \<Longrightarrow> 0 < length (scope_list b) \<and> sc_parent (module_scope b) = None"
  using wf_scopeD[of b 0] by (auto simp: wf_builder_def wf_scope_def split: option.splits)

lemma module_binding_scope: "wf_builder b \<Longrightarrow> binding_scope b 0 x = 0"
  using wf_module[of b] by (simp add: binding_scope_def nonlocal_scope.simps[of _ 0])

lemma active_at_bind_name:
  "wf_builder b \<Longrightarrow>
   active_at (bind_name 0 x v n im ph b) y =
     (if y = x
      then [\<lparr>bd_id = next_binding b, bd_value = v, bd_node = n, bd_imported = im, bd_phase = ph\<rparr>]
      else active_at b y)"
  using wf_module[of b]
  by (auto simp: bind_name_def module_binding_scope nth_update_scope update_scope_def add_binding_def)

lemma node_bindings_bind_name [simp]: "node_bindings (bind_name s x v n im ph b) = node_bindings b"
  by (simp add: bind_name_def)

lemma covers_bind_name:
  "wf_builder b \<Longrightarrow> covers b \<rho> \<Longrightarrow> covers (bind_name 0 x v n im None b) (\<rho>(x := Some (v, n, im)))"
  by (auto simp: covers_def active_at_bind_name sites_def site_of_def)

lemma mark_fields [simp]:
  "scope_list (mark n s b) = scope_list b" "node_bindings (mark n s b) = node_bindings b"
proof -
  have "scope_list (fold (set_node_scope s) ns b) = scope_list b \<and>
      node_bindings (fold (set_node_scope s) ns b) = node_bindings b" for ns
    by (induction ns arbitrary: b) simp_all
  then show "scope_list (mark n s b) = scope_list b" "node_bindings (mark n s b) = node_bindings b"
    by (simp_all add: mark_def)
qed

lemma covers_cong: "scope_list b' = scope_list b \<Longrightarrow> covers b' \<rho> = covers b \<rho>"
  by (simp add: covers_def)

definition bind_site :: "nat \<Rightarrow> nat option \<Rightarrow> string \<times> site \<Rightarrow> builder \<Rightarrow> builder" where
  "bind_site s ph xs = (case xs of (x, v, n, im) \<Rightarrow> bind_name s x v n im ph)"

lemma bind_targets_sites: "bind_targets s v n ph t b = fold (bind_site s ph) (target_binds v n t) b"
proof (induction s v n ph t b rule: bind_targets.induct)
  case (1 s v n ph t b)
  consider (name) x c where "as_name t = Some (x, c)"
    | (starred) t' where "as_name t = None" "as_starred t = Some t'"
    | (seq) es where "as_name t = None" "as_starred t = None" "as_sequence t = Some es"
    | (other) "as_name t = None" "as_starred t = None" "as_sequence t = None"
    by fastforce
  then show ?case
  proof cases
    case seq
    define vals where "vals = (case v of None \<Rightarrow> [] | Some w \<Rightarrow>
      (case as_sequence w of None \<Rightarrow> [] | Some ws \<Rightarrow> if length ws = length es then ws else []))"
    define zs where "zs = zip es (if vals = [] then replicate (length es) None else map Some vals)"
    have "fold (\<lambda>(t, w). bind_targets s w n ph t) zs b = fold (\<lambda>(t, w). fold (bind_site s ph) (target_binds w n t)) zs b"
      by (rule fold_cong) (auto simp: fun_eq_iff intro!: 1(1)[OF seq refl refl, folded vals_def, folded zs_def])
    also have "\<dots> = fold (bind_site s ph) (concat (map (\<lambda>(t, w). target_binds w n t) zs)) b"
      by (simp add: fold_concat_map case_prod_unfold)
    also have "concat (map (\<lambda>(t, w). target_binds w n t) zs) = target_binds v n t"
      using seq by (subst target_binds.simps[of v n t]) (simp add: Let_def zs_def vals_def)
    also have "fold (\<lambda>(t, w). bind_targets s w n ph t) zs b = bind_targets s v n ph t b"
      using seq by (subst bind_targets.simps[of s v n ph t b]) (simp add: Let_def zs_def vals_def)
    finally show ?thesis .
  next
    case name
    then show ?thesis
      by (subst bind_targets.simps, subst target_binds.simps) (simp add: bind_site_def[of _ _ "(_, _)"])
  next
    case starred
    then show ?thesis
      using 1(2)[OF starred] by (subst bind_targets.simps, subst target_binds.simps) simp
  next
    case other
    then show ?thesis
      by (subst bind_targets.simps, subst target_binds.simps) simp
  qed
qed

lemma covers_bind_sites:
  assumes "wf_builder b" "covers b \<rho>"
  shows "wf_builder (fold (bind_site 0 None) bs b) \<and> covers (fold (bind_site 0 None) bs b) (bind_all bs \<rho>) \<and>
    node_bindings (fold (bind_site 0 None) bs b) = node_bindings b"
  using assms
proof (induction bs arbitrary: b \<rho>)
  case (Cons e bs)
  obtain x v n im where e: "e = (x, v, n, im)" by (cases e)
  have wf: "wf_builder (bind_name 0 x v n im None b)"
    using grows_wf[OF grows_bind_name[of b 0]] wf_module[OF Cons.prems(1)] Cons.prems(1) by blast
  from Cons.IH[OF wf covers_bind_name[OF Cons.prems]] show ?case
    by (simp add: e bind_site_def[of _ _ "(x, v, n, im)"] bind_all_def del: fun_upd_apply)
qed (simp add: bind_all_def)

section \<open>Simple statements\<close>

text \<open>Visiting an expression that binds nothing records the active bindings at its names.\<close>

lemma plain_children: "plain_expr n \<Longrightarrow> c \<in> set (children n) \<Longrightarrow> plain_expr c"
  using subtree_child[of c n] by (auto simp: plain_expr_def)

lemma visit_plain_step:
  assumes "plain_node n"
  shows "visit n s b = visit_all visit (children n) s (enter n s b)"
proof (cases "shape n")
  case (Expr e)
  then show ?thesis
    using assms by (cases e)
      (auto simp: visit.simps[of n] visit_step_def visit_expression_def plain_node_def children_def visit_name_def visit_all_def)
next
  case (Plain p)
  then show ?thesis by (simp add: visit.simps[of n] visit_step_def children_def)
qed (use assms in \<open>simp add: plain_node_def\<close>)

definition ids :: "node list \<Rightarrow> nat list" where
  "ids ns = map node_id (concat (map subtree ns))"

lemma ids_simps [simp]: "ids [] = []" "ids (n # ns) = map node_id (subtree n) @ ids ns" "ids (xs @ ys) = ids xs @ ids ys"
  by (simp_all add: ids_def)

lemma distinct_ids_member: "distinct (ids ns) \<Longrightarrow> n \<in> set ns \<Longrightarrow> distinct (ids [n])"
  by (induction ns) auto

lemma ids_subtree: "map node_id (subtree n) = node_id n # ids (children n)"
  by (subst subtree.simps) (simp add: ids_def)

text \<open>Recording at some names, the scopes being as before.\<close>

definition records :: "node list \<Rightarrow> nat \<Rightarrow> builder \<Rightarrow> builder \<Rightarrow> bool" where
  "records ns s b b' \<longleftrightarrow>
     scope_list b' = scope_list b \<and>
     (\<forall>i. i \<notin> set (ids ns) \<longrightarrow> map_of (node_bindings b') i = map_of (node_bindings b) i) \<and>
     (\<forall>n \<in> set ns. \<forall>m \<in> set (subtree n). \<forall>x c. as_name m = Some (x, c) \<longrightarrow>
        map_of (node_bindings b') (node_id m) = Some (get_bindings x (active_bindings (scope_at b s))))"

lemma set_ids: "set (ids ns) = (\<Union>n \<in> set ns. node_id ` set (subtree n))"
  by (auto simp: ids_def)

lemma records_all:
  assumes "\<And>n b. n \<in> set ns \<Longrightarrow> records [n] s b (visit n s b)" "distinct (ids ns)"
  shows "records ns s b (visit_all visit ns s b)"
  using assms
proof (induction ns arbitrary: b)
  case Nil
  then show ?case by (simp add: records_def visit_all_def)
next
  case (Cons n ns)
  let ?b1 = "visit n s b"
  have 1: "records [n] s b ?b1" by (rule Cons.prems) simp
  have 2: "records ns s ?b1 (visit_all visit ns s ?b1)"
    by (rule Cons.IH) (use Cons.prems in auto)
  have eq: "visit_all visit (n # ns) s b = visit_all visit ns s ?b1" by (simp add: visit_all_def)
  have sc: "scope_at ?b1 s = scope_at b s" using 1 by (simp add: records_def scope_at_def)
  have disj: "node_id m \<notin> set (ids ns)" if "m \<in> set (subtree n)" for m
    using that Cons.prems(2) by auto
  show ?case
    using 1 2 disj unfolding eq by (auto simp: records_def sc)
qed

lemma visit_plain:
  "plain_expr n \<Longrightarrow> distinct (ids [n]) \<Longrightarrow> records [n] s b (visit n s b)"
proof (induction n arbitrary: b rule: measure_induct_rule[of size])
  case (less n)
  let ?e = "enter n s b"
  have plain: "plain_node n" using less.prems(1) by (simp add: plain_expr_def)
  have dist: "node_id n \<notin> set (ids (children n))" "distinct (ids (children n))"
    using less.prems(2) by (simp_all add: ids_subtree)
  have R: "records (children n) s ?e (visit_all visit (children n) s ?e)"
    using less.IH plain_children[OF less.prems(1)] child_size[of _ n] distinct_ids_member[OF dist(2)] dist(2)
    by (intro records_all) blast+
  have old: "map_of (node_bindings ?e) i = map_of (node_bindings b) i" if "i \<noteq> node_id n" for i
    using that by (simp add: enter_def Let_def update_conv split: option.split)
  have here: "map_of (node_bindings ?e) (node_id n) = Some (get_bindings x (active_bindings (scope_at b s)))"
    if "as_name n = Some (x, c)" for x c
    using that by (simp add: enter_def Let_def update_conv scope_at_def)
  have sc: "scope_at ?e s = scope_at b s" by (simp add: scope_at_def)
  show ?case
    unfolding visit_plain_step[OF plain] records_def
  proof (intro conjI allI impI ballI)
    fix i assume "i \<notin> set (ids [n])"
    then have "i \<noteq> node_id n" "i \<notin> set (ids (children n))" by (simp_all add: ids_subtree[unfolded ids_def] ids_def)
    then show "map_of (node_bindings (visit_all visit (children n) s ?e)) i = map_of (node_bindings b) i"
      using R old by (simp add: records_def)
  next
    fix n' m x c assume m: "n' \<in> set [n]" "m \<in> set (subtree n')" "as_name m = Some (x, c)"
    show "map_of (node_bindings (visit_all visit (children n) s ?e)) (node_id m) =
        Some (get_bindings x (active_bindings (scope_at b s)))"
    proof (cases "m = n")
      case True
      then show ?thesis using R dist(1) here m by (simp add: records_def)
    next
      case False
      then show ?thesis using R m set_subtree[of n] by (auto simp: records_def sc)
    qed
  qed (use R in \<open>simp add: records_def\<close>)
qed

lemma fst_name_reads: "fst ` set (name_reads \<rho> n) \<subseteq> set (ids [n])"
  by (auto simp: name_reads_def node_read_def ids_def split: option.splits)

lemma fst_stmt_reads: "fst ` set (stmt_reads \<rho> es) \<subseteq> set (ids es)"
  using fst_name_reads by (force simp: stmt_reads_def set_ids)

lemma records_reads:
  assumes "records es 0 b b'" "covers b \<rho>" "wf_builder b"
  shows "covers_reads b' (stmt_reads \<rho> es)"
proof -
  have "\<exists>bs. map_of (node_bindings b') i = Some bs \<and> site \<in> sites bs"
    if read: "(i, site) \<in> set (stmt_reads \<rho> es)" for i site
  proof -
    from read obtain e m x c where m: "e \<in> set es" "m \<in> set (subtree e)" "as_name m = Some (x, c)"
      "i = node_id m" "\<rho> x = Some site"
      by (auto simp: stmt_reads_def name_reads_def in_node_read)
    have "map_of (node_bindings b') i = Some (active_at b x)"
      using assms(1) m wf_module[OF assms(3)] by (auto simp: records_def scope_at_def)
    moreover have "site \<in> sites (active_at b x)" using assms(2) m(5) unfolding covers_def by blast
    ultimately show ?thesis by blast
  qed
  then show ?thesis by (auto simp: covers_reads_def)
qed

lemma wf_visit: "wf_builder b \<Longrightarrow> wf_builder (visit n 0 b)"
  using grows_wf[OF grows_visit[of b 0 n]] wf_module by blast

lemma wf_visit_all: "wf_builder b \<Longrightarrow> wf_builder (visit_all visit ns 0 b)"
  by (induction ns arbitrary: b) (simp_all add: visit_all_def wf_visit)

lemma wf_enter: "wf_builder b \<Longrightarrow> wf_builder (enter n 0 b)"
  using grows_wf[OF grows_enter[of b 0 n "{node_id n}"]] wf_module[of b] by auto

lemma wf_mark: "wf_builder b \<Longrightarrow> wf_builder (mark t 0 b)"
  using grows_wf[OF grows_mark[of b 0]] wf_module[of b] by blast

text \<open>Binding after the evaluation, whatever is marked in between.\<close>

lemma covers_targets:
  assumes "wf_builder b" "covers b \<rho>"
  shows "covers (fold (\<lambda>t b. mark t 0 (bind_targets 0 v n None t b)) ts b) (bind_all (concat (map (target_binds v n) ts)) \<rho>) \<and>
    node_bindings (fold (\<lambda>t b. mark t 0 (bind_targets 0 v n None t b)) ts b) = node_bindings b"
  using assms
proof (induction ts arbitrary: b \<rho>)
  case (Cons t ts)
  let ?b = "mark t 0 (bind_targets 0 v n None t b)"
  have "covers ?b (bind_all (target_binds v n t) \<rho>)" "wf_builder ?b" "node_bindings ?b = node_bindings b"
    using covers_bind_sites[OF Cons.prems, of "target_binds v n t"] covers_cong[of ?b "bind_targets 0 v n None t b"]
    by (simp_all add: bind_targets_sites wf_mark)
  with Cons.IH[of ?b "bind_all (target_binds v n t) \<rho>"] show ?case by (simp add: bind_all_def)
qed (simp add: bind_all_def)

lemma simple_stmtE:
  assumes "simple_stmt n"
  obtains (assign) ts v where "shape n = Stmt (NAssign ts v)"
    | (import_names) names where "shape n = Stmt (NImport names)"
    | (import_from) m names level where "shape n = Stmt (NImportFrom m names level)" "list_all (\<lambda>al. fst al \<noteq> ''*'') names"
    | (evaluate) "evaluated n = children n" "\<And>M. stmt_binds M n = []"
        "\<And>v s b. visit_step v n s b = visit_all v (children n) s (enter n s b)"
proof (cases "shape n")
  case (Stmt st)
  then show thesis
    using assms that
    by (cases st) (auto simp: simple_stmt_def evaluated_def stmt_binds_def visit_step_def visit_statement_def children_def)
qed (use assms in \<open>simp_all add: simple_stmt_def\<close>)

lemma evaluated_distinct:
  assumes "simple_stmt n" "distinct (ids [n])"
  shows "distinct (ids (evaluated n))" "m \<in> set (evaluated n) \<Longrightarrow> distinct (ids [m])"
proof -
  have "distinct (ids (children n))" using assms(2) by (simp add: ids_subtree)
  with assms(1) show d: "distinct (ids (evaluated n))"
    by (cases rule: simple_stmtE) (auto simp: evaluated_def children_def)
  then show "m \<in> set (evaluated n) \<Longrightarrow> distinct (ids [m])" using distinct_ids_member by blast
qed

text \<open>A simple statement is its evaluation followed by its bindings.\<close>

lemma visit_simple_step:
  assumes "simple_stmt n" "wf_builder b"
    and r: "wf_builder (visit_all visit (evaluated n) 0 (enter n 0 b))"
      "covers (visit_all visit (evaluated n) 0 (enter n 0 b)) \<rho>"
  shows "covers (visit n 0 b) (bind_all (stmt_binds (module_parts b, in_package b) n) \<rho>) \<and>
    node_bindings (visit n 0 b) = node_bindings (visit_all visit (evaluated n) 0 (enter n 0 b))"
  using assms(1)
proof (cases rule: simple_stmtE)
  case (assign ts v)
  then show ?thesis
    using covers_targets[of "visit v 0 (enter n 0 b)" \<rho> "Some v" n ts] r
    by (simp add: visit.simps[of n] visit_step_def visit_statement_def visit_assign_def evaluated_def stmt_binds_def visit_all_def)
next
  case (import_names names)
  let ?bs = "map (\<lambda>al. (fst (local_import al), (None, n, Some (snd (local_import al))))) names"
  have "visit n 0 b = mark n 0 (fold (bind_site 0 None) ?bs (enter n 0 b))"
    using import_names
    by (simp add: visit.simps[of n] visit_step_def visit_statement_def visit_import_def fold_map comp_def bind_site_def)
  then show ?thesis
    using covers_bind_sites[OF r, of ?bs] covers_cong[of "visit n 0 b" "fold (bind_site 0 None) ?bs (enter n 0 b)"]
    import_names by (simp add: evaluated_def stmt_binds_def visit_all_def)
next
  case (import_from m names level)
  let ?pre = "import_prefix (module_parts b) (in_package b) m level"
  let ?bs = "map (\<lambda>al. (from_name al, (None, n, Some (?pre @ [fst al])))) names"
  have "fold (bind_import_from ?pre level n 0) names c = fold (bind_site 0 None) ?bs c" for c
    unfolding fold_map by (rule fold_cong) (use import_from(2) in \<open>auto simp: list_all_iff fun_eq_iff bind_import_from_def bind_site_def\<close>)
  then have "visit n 0 b = mark n 0 (fold (bind_site 0 None) ?bs (enter n 0 b))"
    using import_from(1) by (simp add: visit.simps[of n] visit_step_def visit_statement_def visit_importfrom_def)
  then show ?thesis
    using covers_bind_sites[OF r, of ?bs] covers_cong[of "visit n 0 b" "fold (bind_site 0 None) ?bs (enter n 0 b)"]
    import_from(1) by (simp add: evaluated_def stmt_binds_def visit_all_def)
next
  case evaluate
  then show ?thesis using r by (simp add: visit.simps[of n] bind_all_def)
qed

lemma visit_evaluated:
  assumes "list_all plain_expr es" "distinct (ids es)" "wf_builder b" "covers b \<rho>"
  shows "wf_builder (visit_all visit es 0 b)" "covers (visit_all visit es 0 b) \<rho>"
    "covers_reads (visit_all visit es 0 b) (stmt_reads \<rho> es)"
proof -
  have rec: "records es 0 b (visit_all visit es 0 b)"
    using assms(1) distinct_ids_member[OF assms(2)] by (intro records_all assms(2) visit_plain) (auto simp: list_all_iff)
  show "wf_builder (visit_all visit es 0 b)" by (rule wf_visit_all[OF assms(3)])
  show "covers (visit_all visit es 0 b) \<rho>"
    using rec assms(4) covers_cong[of "visit_all visit es 0 b" b] by (simp add: records_def)
  show "covers_reads (visit_all visit es 0 b) (stmt_reads \<rho> es)" by (rule records_reads[OF rec assms(4,3)])
qed

lemma covers_enter: "wf_builder b \<Longrightarrow> covers b \<rho> \<Longrightarrow> covers (enter n 0 b) \<rho>"
  using covers_cong[of "enter n 0 b" b] by simp

lemma visit_simple:
  assumes "simple_stmt n" "list_all plain_expr (evaluated n)" "distinct (ids [n])" "wf_builder b" "covers b \<rho>"
  shows "covers_reads (visit n 0 b) (stmt_reads \<rho> (evaluated n))"
    and "covers (visit n 0 b) (bind_all (stmt_binds (module_parts b, in_package b) n) \<rho>)"
proof -
  note r = visit_evaluated[OF assms(2) evaluated_distinct(1)[OF assms(1,3)] wf_enter[OF assms(4)] covers_enter[OF assms(4,5)]]
  show "covers (visit n 0 b) (bind_all (stmt_binds (module_parts b, in_package b) n) \<rho>)"
    using visit_simple_step[OF assms(1,4) r(1,2)] by simp
  show "covers_reads (visit n 0 b) (stmt_reads \<rho> (evaluated n))"
    using visit_simple_step[OF assms(1,4) r(1,2)] r(3) by (simp add: covers_reads_def)
qed

section \<open>Merged states\<close>

lemma merge_keeps:
  assumes "st \<in> set sts" "\<And>st. st \<in> set sts \<Longrightarrow> within st st'" "inj_on bd_id (set (get_bindings x st'))"
  shows "set (get_bindings x st) \<subseteq> set (get_bindings x (merge_states sts))"
proof
  fix e assume e: "e \<in> set (get_bindings x st)"
  have "bd_id e \<in> bd_id ` set (get_bindings x (merge_states sts))"
    using e assms(1) by (auto simp: get_bindings_merge add_distinct_ids)
  then obtain e' where e': "e' \<in> set (get_bindings x (merge_states sts))" "bd_id e' = bd_id e" by auto
  moreover have "within (merge_states sts) st'" by (rule merge_within) (rule assms(2))
  ultimately have "e' = e"
    using assms e by (metis (no_types, lifting) inj_onD subsetD within_def)
  then show "e \<in> set (get_bindings x (merge_states sts))" using e' by simp
qed

lemma wf_bindings_inj: "wf_builder b \<Longrightarrow> i < length (scope_list b) \<Longrightarrow>
    inj_on bd_id (set (get_bindings x (sc_bindings (scope_list b ! i))))"
  using wf_scopeD[of b i] by (simp add: wf_scope_def)

lemma active_restore:
  "0 < length sts \<Longrightarrow> wf_builder b \<Longrightarrow> active_at (restore_states sts b) x = get_bindings x (sts ! 0)"
  using wf_module[of b] by (simp add: nth_restore)

lemma restore_merged_active:
  assumes "wf_builder b" "saved b k outs" "out \<in> set outs" "0 < k"
  shows "set (get_bindings x (out ! 0)) \<subseteq> set (active_at (restore_states (merged_scope_states outs) b) x)"
proof -
  have "hd outs \<in> set outs" using assms(3) by (cases outs) auto
  then have len: "length (merged_scope_states outs) = k" "length (hd outs) = k"
    using assms(2) by (auto simp: saved_def merged_scope_states_def)
  have "set (get_bindings x (out ! 0)) \<subseteq> set (get_bindings x (merge_states (map (\<lambda>o'. o' ! 0) outs)))"
  proof (rule merge_keeps[where st' = "sc_bindings (module_scope b)"])
    show "within st (sc_bindings (module_scope b))" if "st \<in> set (map (\<lambda>o'. o' ! 0) outs)" for st
      using that assms(2,4) by (auto simp: saved_def valid_states_def)
  qed (use assms wf_module[OF assms(1)] in \<open>auto intro: wf_bindings_inj\<close>)
  then show ?thesis
    using active_restore[of "merged_scope_states outs" b] assms(1,4) len by (simp add: merged_scope_states_def)
qed

lemma saved_active: "wf_builder b \<Longrightarrow> 0 < k \<Longrightarrow> get_bindings x (states k b ! 0) = active_at b x"
  using wf_module[of b] by simp

section \<open>Branches and definitions\<close>

lemma visitor_ok_ids: "visitor_ok (set (ids ns)) (set ns) visit"
  by (rule visitor_ok_visit) (auto simp: set_ids)

lemma branch_outputs_kept:
  "visit_branch_list v s k inc branches outs b = (outs', b') \<Longrightarrow> set outs \<subseteq> set outs'"
  by (induction branches arbitrary: outs b) (fastforce simp: Let_def split: if_splits)+

lemma branch_taken:
  assumes "visit_branch_list visit 0 k inc branches outs b = (outs', b')" "br \<in> set branches"
    and "wf_builder b" "saved b k [inc]" "saved b k outs" "distinct (ids (concat branches))"
  shows "\<exists>c. wf_builder c \<and> saved c k [inc] \<and> module_parts c = module_parts b \<and> in_package c = in_package b \<and>
    (statements_fall_through br \<longrightarrow> states k (visit_all visit br 0 (restore_states inc c)) \<in> set outs') \<and>
    (\<forall>i \<in> set (ids br). map_of (node_bindings b') i =
       map_of (node_bindings (visit_all visit br 0 (restore_states inc c))) i)"
  using assms
proof (induction branches arbitrary: outs b)
  case (Cons ns branches)
  let ?r = "restore_states inc b"
  let ?b2 = "visit_all visit ns 0 ?r"
  let ?outs = "if statements_fall_through ns then outs @ [states k ?b2] else outs"
  have rest: "visit_branch_list visit 0 k inc branches ?outs ?b2 = (outs', b')"
    using Cons.prems(1) by (simp add: Let_def)
  have g1: "grows (set (ids ns)) 0 b ?r" by (rule grows_restore_saved[OF Cons.prems(3,4)])
  have "grows (set (ids ns)) 0 ?r ?b2"
    by (rule grows_visit_all[OF visitor_ok_ids subset_refl grows_wf[OF g1]])
      (use wf_module[OF grows_wf[OF g1]] in simp)
  then have g: "grows (set (ids ns)) 0 b ?b2" using grows_trans[OF g1] by blast
  have sv: "saved ?b2 k [inc]" "saved ?b2 k ?outs"
    using saved_grows[OF Cons.prems(4) g] saved_grows[OF Cons.prems(5) g] saved_states[OF grows_wf[OF g], of k]
    by (auto simp: saved_def)
  show ?case
  proof (cases "br = ns")
    case True
    have "grows (set (ids (concat branches))) 0 ?b2 b'"
      using grows_branch_list[OF visitor_ok_ids[of "concat branches"] _ grows_wf[OF g] _ sv rest] wf_module[OF grows_wf[OF g]]
      by auto
    then have "map_of (node_bindings b') i = map_of (node_bindings ?b2) i" if "i \<in> set (ids ns)" for i
      using that Cons.prems(6) by (auto simp: grows_def)
    moreover have "states k ?b2 \<in> set outs'" if "statements_fall_through ns"
      using branch_outputs_kept[OF rest] that by simp
    ultimately show ?thesis using True Cons.prems by blast
  next
    case False
    then obtain c where "wf_builder c" "saved c k [inc]" "module_parts c = module_parts ?b2" "in_package c = in_package ?b2"
      "statements_fall_through br \<longrightarrow> states k (visit_all visit br 0 (restore_states inc c)) \<in> set outs'"
      "\<forall>i \<in> set (ids br). map_of (node_bindings b') i =
        map_of (node_bindings (visit_all visit br 0 (restore_states inc c))) i"
      using Cons.IH[OF rest _ grows_wf[OF g] sv] Cons.prems by auto
    then show ?thesis using g by (auto simp: grows_def)
  qed
qed simp

lemma covers_restore:
  assumes "wf_builder b" "covers b \<rho>" "wf_builder c" "states (length (scope_list b)) b = inc"
  shows "covers (restore_states inc c) \<rho>"
proof (rule covers_active[OF assms(2)])
  have "length inc = length (scope_list b)" using assms(4)[symmetric] by simp
  then have "0 < length (scope_list b)" "0 < length inc" using wf_module[OF assms(1)] by auto
  then show "set (active_at b x) \<subseteq> set (active_at (restore_states inc c) x)" for x
    using active_restore[of inc c x] saved_active[of b "length (scope_list b)" x] assms by simp
qed

text \<open>
  Branches cover what they do on their own: a path through the branch that is taken is covered,
  and so is what holds before the branches when they may all be skipped.
\<close>

lemma visit_branches_sound:
  assumes b: "wf_builder b" "covers b \<rho>" and dist: "distinct (ids (concat branches))"
    and br: "branch \<in> set branches"
    and run: "\<And>c. wf_builder c \<Longrightarrow> covers c \<rho> \<Longrightarrow> module_parts c = module_parts b \<Longrightarrow> in_package c = in_package b \<Longrightarrow>
      covers_reads (visit_all visit branch 0 c) us \<and> (ok \<longrightarrow> covers (visit_all visit branch 0 c) \<rho>')"
    and us: "fst ` set us \<subseteq> set (ids branch)" and falls: "ok \<Longrightarrow> statements_fall_through branch"
  shows "covers_reads (visit_branches visit branches 0 inc b) us \<and>
    (ok \<longrightarrow> covers (visit_branches visit branches 0 inc b) \<rho>')"
proof -
  let ?k = "length (scope_list b)"
  let ?in = "states ?k b"
  obtain outs b' where v: "visit_branch_list visit 0 ?k ?in branches (if inc then [?in] else []) b = (outs, b')"
    by fastforce
  have now: "saved b ?k [?in]" by (rule saved_states[OF b(1) order_refl])
  have sv: "saved b ?k (if inc then [?in] else [])" using now saved_Nil[of ?k b] by simp
  have "0 < ?k" using wf_module[OF b(1)] by simp
  have g: "wf_builder b'" "saved b' ?k outs"
    using grows_branch_list[OF visitor_ok_ids[of "concat branches"] _ b(1) _ now sv v] \<open>0 < ?k\<close>
    by (auto dest: grows_wf)
  let ?f = "visit_branches visit branches 0 inc b"
  have f: "?f = restore_states (if outs = [] then ?in else merged_scope_states outs) b'"
    by (simp add: visit_branches_def Let_def v)
  obtain c where c: "wf_builder c" "saved c ?k [?in]" "module_parts c = module_parts b" "in_package c = in_package b"
    "statements_fall_through branch \<Longrightarrow> states ?k (visit_all visit branch 0 (restore_states ?in c)) \<in> set outs"
    "\<And>i. i \<in> set (ids branch) \<Longrightarrow>
      map_of (node_bindings b') i = map_of (node_bindings (visit_all visit branch 0 (restore_states ?in c))) i"
    using branch_taken[OF v br b(1) now sv dist] by blast
  let ?r = "restore_states ?in c"
  let ?b2 = "visit_all visit branch 0 ?r"
  have wfr: "wf_builder ?r" using grows_wf[OF grows_restore_saved[OF c(1,2)]] .
  have run': "covers_reads ?b2 us" "ok \<Longrightarrow> covers ?b2 \<rho>'"
    using run[OF wfr covers_restore[OF b c(1) refl]] c(3,4) by auto
  have "covers_reads ?f us"
    by (rule covers_reads_kept[OF run'(1)]) (use us c(6) f in auto)
  moreover have "covers ?f \<rho>'" if ok
  proof (rule covers_active[OF run'(2)[OF that]])
    fix x
    have "states ?k ?b2 \<in> set outs" using c(5) falls[OF that] by simp
    moreover from this have "outs \<noteq> []" by auto
    ultimately show "set (active_at ?b2 x) \<subseteq> set (active_at ?f x)"
      using restore_merged_active[OF g, of "states ?k ?b2" x] saved_active[OF wf_visit_all[OF wfr], of ?k x branch] \<open>0 < ?k\<close>
      unfolding f by auto
  qed
  ultimately show ?thesis by blast
qed

lemma visit_skip_sound:
  assumes "wf_builder b" "covers b \<rho>" "distinct (ids (concat branches))"
  shows "covers (visit_branches visit branches 0 True b) \<rho>"
proof -
  let ?k = "length (scope_list b)"
  let ?in = "states ?k b"
  obtain outs b' where v: "visit_branch_list visit 0 ?k ?in branches [?in] b = (outs, b')" by fastforce
  have now: "saved b ?k [?in]" by (rule saved_states[OF assms(1) order_refl])
  have "0 < ?k" using wf_module[OF assms(1)] by simp
  have g: "wf_builder b'" "saved b' ?k outs"
    using grows_branch_list[OF visitor_ok_ids[of "concat branches"] _ assms(1) _ now now v] \<open>0 < ?k\<close>
    by (auto dest: grows_wf)
  have "?in \<in> set outs" using branch_outputs_kept[OF v] by simp
  then have "outs \<noteq> []" "set (active_at b x) \<subseteq> set (active_at (restore_states (merged_scope_states outs) b') x)" for x
    using restore_merged_active[OF g, of ?in x] saved_active[OF assms(1), of ?k x] \<open>0 < ?k\<close> by auto
  then show ?thesis
    using covers_active[OF assms(2)] v by (simp add: visit_branches_def Let_def)
qed

text \<open>The header of a definition consists of nodes of it that are not in the body.\<close>

definition annotations :: "node list \<Rightarrow> node list" where
  "annotations as = concat (map (\<lambda>a. case as_arg a of Some (_, Some ann) \<Rightarrow> [ann] | _ \<Rightarrow> []) as)"

lemma mset_ids_annotations: "mset (ids (annotations as)) \<subseteq># mset (ids as)"
proof (induction as)
  case (Cons a as)
  have "mset (ids (case as_arg a of Some (_, Some ann) \<Rightarrow> [ann] | _ \<Rightarrow> [])) \<subseteq># mset (ids [a])"
  proof (cases "as_arg a")
    case (Some p)
    obtain x ann where p: "p = (x, ann)" by (cases p)
    have "ids [a] = node_id a # ids (opt_list ann)"
      using ids_subtree[of a] view_children(9)[of a x ann] Some p by simp
    then show ?thesis by (cases ann) (simp_all add: Some p subset_mset.add_increasing)
  qed simp
  then show ?case using Cons by (auto simp: annotations_def intro!: subset_mset.add_mono)
qed (simp add: annotations_def)

lemma mset_ids_header:
  "mset (ids (header_expressions decs args returns)) \<subseteq># mset (ids (args # decs @ opt_list returns))"
proof -
  have "mset (ids (argument_defaults args @ annotations (function_arguments args))) \<subseteq># mset (ids (children args))"
  proof (cases "\<exists>po a va ko kd kw d. shape args = Plain (NArguments po a va ko kd kw d)")
    case True
    then obtain po a va ko kd kw d where sh: "shape args = Plain (NArguments po a va ko kd kw d)" by blast
    show ?thesis
      using mset_ids_annotations[of "po @ a @ ko @ opt_list va @ opt_list kw"]
      by (simp add: argument_defaults_def function_arguments_def children_def sh ac_simps)
  next
    case False
    then have "argument_defaults args = []" "function_arguments args = []"
      by (auto simp: argument_defaults_def function_arguments_def split: shape.splits plain.splits)
    then show ?thesis by (simp add: annotations_def)
  qed
  then have "mset (ids (argument_defaults args @ annotations (function_arguments args))) \<subseteq># mset (ids [args])"
    using ids_subtree[of args] subset_mset.order_trans[of _ "mset (ids (children args))"] by simp
  then show ?thesis by (simp add: header_expressions_def annotations_def ac_simps)
qed

lemma distinct_mset_sub: "mset ys \<subseteq># mset xs \<Longrightarrow> distinct xs \<Longrightarrow> distinct ys"
proof -
  assume sub: "mset ys \<subseteq># mset xs" and "distinct xs"
  then have "count (mset xs) a \<le> 1" for a
    using distinct_count_atmost_1[of xs] by (metis le_refl zero_le_one)
  then have "count (mset ys) a \<le> 1" for a
    using order_trans[OF mset_subset_eq_count[OF sub, of a]] by blast
  moreover have "0 < count (mset ys) a" if "a \<in> set ys" for a
    using that by simp
  ultimately have "count (mset ys) a = (if a \<in> set ys then 1 else 0)" for a
    by (metis One_nat_def Suc_leI count_mset_0_iff le_antisym)
  then show "distinct ys" using distinct_count_atmost_1 by blast
qed

lemma header_distinct:
  assumes "shape n = Stmt (NFunctionDef a x args body decs returns tps)" "distinct (ids [n])"
  shows "distinct (ids (header_expressions decs args returns) @ ids body)"
proof (rule distinct_mset_sub)
  show "distinct (ids (children n))" using assms(2) by (simp add: ids_subtree)
  show "mset (ids (header_expressions decs args returns) @ ids body) \<subseteq># mset (ids (children n))"
    using subset_mset.order_trans[OF mset_ids_header[of decs args returns]]
    by (simp add: children_def assms(1) ac_simps)
qed

lemma name_reads_other:
  assumes "\<And>m c. m \<in> set (subtree e) \<Longrightarrow> as_name m \<noteq> Some (x, c)"
  shows "name_reads (\<rho>(x := y)) e = name_reads \<rho> e"
  unfolding name_reads_def
proof (intro arg_cong[where f = concat] map_cong refl)
  fix m assume "m \<in> set (subtree e)"
  then show "node_read (\<rho>(x := y)) m = node_read \<rho> m"
    using assms[of m] by (cases "as_name m") (fastforce simp: node_read_def)+
qed

lemma stmt_reads_other: "\<not> mentions_name x es \<Longrightarrow> stmt_reads (\<rho>(x := y)) es = stmt_reads \<rho> es"
  unfolding stmt_reads_def
  by (intro arg_cong[where f = concat] map_cong refl name_reads_other) (auto simp: mentions_name_def)

lemma arguments_in_scope:
  assumes "f < length (scope_list b)" "i \<noteq> f"
    and "\<And>a y ann. a \<in> set as \<Longrightarrow> as_arg a = Some (y, ann) \<Longrightarrow>
      y \<notin> global_names (scope_list b ! f) \<and> y \<notin> nonlocal_names (scope_list b ! f)"
  shows "scope_list (fold (visit_argument f) as b) ! i = scope_list b ! i \<and>
    node_bindings (fold (visit_argument f) as b) = node_bindings b"
  using assms
proof (induction as arbitrary: b)
  case (Cons a as)
  show ?case
  proof (cases "as_arg a")
    case None
    then have "visit_argument f a b = b" by (simp add: visit_argument_def)
    then show ?thesis using Cons.IH[OF Cons.prems(1,2)] Cons.prems(3) by auto
  next
    case (Some p)
    obtain y ann where p: "p = (y, ann)" by (cases p)
    let ?b = "visit_argument f a b"
    have y: "y \<notin> global_names (scope_list b ! f)" "y \<notin> nonlocal_names (scope_list b ! f)"
      using Cons.prems(3)[of a y ann] Some p by auto
    then have "binding_scope b f y = f" using Cons.prems(1) by (simp add: binding_scope_def scope_at_def)
    then have b: "scope_list ?b = (scope_list b)[f := add_binding y
        \<lparr>bd_id = next_binding b, bd_value = None, bd_node = a, bd_imported = None, bd_phase = None\<rparr> (scope_list b ! f)]"
      "node_bindings ?b = node_bindings b"
      by (simp_all add: visit_argument_def Some p bind_name_def update_scope_def)
    then have eqs: "scope_list ?b ! i = scope_list b ! i" "f < length (scope_list ?b)"
      "global_names (scope_list ?b ! f) = global_names (scope_list b ! f)"
      "nonlocal_names (scope_list ?b ! f) = nonlocal_names (scope_list b ! f)"
      using Cons.prems(1,2) by (simp_all add: add_binding_def)
    have "scope_list (fold (visit_argument f) as ?b) ! i = scope_list ?b ! i \<and>
        node_bindings (fold (visit_argument f) as ?b) = node_bindings ?b"
      by (rule Cons.IH[OF eqs(2) Cons.prems(2)]) (use Cons.prems(3) eqs(3,4) in auto)
    then show ?thesis using eqs(1) b(2) by simp
  qed
qed simp

text \<open>A function body can only add to what is active in the module.\<close>

lemma function_body_keeps:
  fixes b1 :: builder and body :: "node list" and args :: node
  assumes "wf_builder b1" "arguments_local args body" "s < length (scope_list b1)"
  defines "f \<equiv> length (scope_list b1)"
  defines "b4 \<equiv> visit_arguments args f (update_scope f (\<lambda>sc. sc\<lparr>global_names := declared_globals body,
      nonlocal_names := declared_nonlocals body\<rparr>) (push_scope (Some (function_parent b1 s)) FunctionScope b1))"
  defines "b5 \<equiv> visit_all visit body f b4"
  shows "set (active_at b1 x) \<subseteq> set (active_at (restore_states
      (map (\<lambda>(i, out). merge_states [i, out]) (zip (states f b4) (states f b5))) b5) x)"
    and "i \<notin> set (ids body) \<Longrightarrow> map_of (node_bindings b5) i = map_of (node_bindings b1) i"
proof -
  let ?b2 = "push_scope (Some (function_parent b1 s)) FunctionScope b1"
  let ?b3 = "update_scope f (\<lambda>sc. sc\<lparr>global_names := declared_globals body,
      nonlocal_names := declared_nonlocals body\<rparr>) ?b2"
  have f0: "0 < f" using wf_module[OF assms(1)] by (simp add: f_def)
  have "function_parent b1 s < length (scope_list b1)" by (rule function_parent_less[OF assms(3)])
  then have wf2: "wf_builder ?b2" using grows_wf[OF grows_push_scope[OF assms(1)]] by blast
  have wf3: "wf_builder ?b3"
    by (rule grows_wf[OF grows_update_scope_plain[OF wf2, where scope = f]]) (auto simp: f_def same_scope_def)
  have len3: "f < length (scope_list ?b3)" by (simp add: f_def)
  have b3: "scope_list ?b3 ! 0 = scope_list b1 ! 0" "node_bindings ?b3 = node_bindings b1"
    "global_names (scope_list ?b3 ! f) = declared_globals body" "nonlocal_names (scope_list ?b3 ! f) = declared_nonlocals body"
    using f0 by (simp_all add: f_def nth_update_scope push_scope_def nth_append)
  have "scope_list b4 ! 0 = scope_list ?b3 ! 0 \<and> node_bindings b4 = node_bindings ?b3"
    unfolding b4_def visit_arguments_def
    by (rule arguments_in_scope[OF len3]) (use f0 assms(2) b3 in \<open>auto simp: arguments_local_def\<close>)
  then have b4: "scope_list b4 ! 0 = scope_list b1 ! 0" "node_bindings b4 = node_bindings b1" using b3 by auto
  have g4: "grows {} f ?b3 b4" unfolding b4_def by (rule grows_arguments[OF wf3 len3])
  have len4: "f < length (scope_list b4)" using grows_length[OF g4] len3 by linarith
  have g5: "grows (set (ids body)) f b4 b5"
    unfolding b5_def by (rule grows_visit_all[OF visitor_ok_ids subset_refl grows_wf[OF g4] len4])
  show "map_of (node_bindings b5) i = map_of (node_bindings b1) i" if "i \<notin> set (ids body)"
    using g5 that b4 by (simp add: grows_def)
  have len5: "f < length (scope_list b5)" using grows_length[OF g5] len4 by linarith
  have "within (states f b4 ! 0) (sc_bindings (module_scope b5))" "within (states f b5 ! 0) (sc_bindings (module_scope b5))"
    using valid_states_grows[OF valid_states_now[OF grows_wf[OF g4]] g5, of f] valid_states_now[OF grows_wf[OF g5], of f]
      f0 order.strict_trans[OF f0 len4] order.strict_trans[OF f0 len5] by (auto simp: valid_states_def)
  then have "set (get_bindings x (states f b4 ! 0)) \<subseteq> set (get_bindings x (merge_states [states f b4 ! 0, states f b5 ! 0]))"
    by (intro merge_keeps[where st' = "sc_bindings (module_scope b5)"] wf_bindings_inj[OF grows_wf[OF g5]])
      (use order.strict_trans[OF f0 len5] in auto)
  then show "set (active_at b1 x) \<subseteq> set (active_at (restore_states
      (map (\<lambda>(i, out). merge_states [i, out]) (zip (states f b4) (states f b5))) b5) x)"
    using f0 len4 len5 order.strict_trans[OF f0 len4] order.strict_trans[OF f0 len5] b4(1)
    by (subst active_restore[OF _ grows_wf[OF g5]]) simp_all
qed

lemma visit_definition_sound:
  assumes n: "shape n = Stmt (NFunctionDef a x args body decs returns tps)" and dist: "distinct (ids [n])"
    and plain: "list_all plain_expr (header_expressions decs args returns)" "arguments_local args body"
    and own: "\<not> mentions_name x (header_expressions decs args returns)"
    and b: "wf_builder b" "covers b \<rho>"
  shows "covers_reads (visit n 0 b) (stmt_reads \<rho> (header_expressions decs args returns))"
    and "covers (visit n 0 b) (\<rho>(x := Some (None, n, None)))"
proof -
  let ?h = "header_expressions decs args returns"
  let ?\<rho> = "\<rho>(x := Some (None, n, None))"
  let ?b0 = "bind_name 0 x None n None None (enter n 0 b)"
  let ?b1 = "visit_all visit ?h 0 ?b0"
  have e: "wf_builder (enter n 0 b)" "covers (enter n 0 b) \<rho>" using b wf_enter covers_enter by auto
  have b0: "wf_builder ?b0" "covers ?b0 ?\<rho>"
    using grows_wf[OF grows_bind_name[OF e(1)]] wf_module[OF e(1)] covers_bind_name[OF e] by auto
  have d: "distinct (ids ?h)" "set (ids ?h) \<inter> set (ids body) = {}" using header_distinct[OF n dist] by auto
  note b1 = visit_evaluated[OF plain(1) d(1) b0]
  note reads = stmt_reads_other[OF own, of \<rho> "Some (None, n, None)"]
  have "0 < length (scope_list ?b1)" using wf_module[OF b1(1)] by simp
  note keeps = function_body_keeps[OF b1(1) plain(2) this]
  have visit: "visit n 0 b = visit_function_body visit x args body decs returns n 0 (enter n 0 b)"
    by (simp add: visit.simps[of n] visit_step_def visit_statement_def n)
  show "covers (visit n 0 b) ?\<rho>"
    unfolding visit visit_function_body_def Let_def by (rule covers_active[OF b1(2)]) (rule keeps(1))
  have "covers_reads (visit n 0 b) (stmt_reads ?\<rho> ?h)"
    unfolding visit visit_function_body_def Let_def
    by (rule covers_reads_kept[OF b1(3)]) (use keeps(2) fst_stmt_reads[of ?\<rho> ?h] d(2) in auto)
  then show "covers_reads (visit n 0 b) (stmt_reads \<rho> ?h)" unfolding reads .
qed

section \<open>Classes\<close>

text \<open>
  The members of a class bind in the scope of the class: what is active in the module stays active. A
  scope without \<open>global\<close> and \<open>nonlocal\<close> declarations keeps its bindings to itself.
\<close>

definition own_names :: "nat \<Rightarrow> builder \<Rightarrow> bool" where
  "own_names c b \<longleftrightarrow>
     wf_builder b \<and> 0 < c \<and> c < length (scope_list b) \<and>
     global_names (scope_list b ! c) = {} \<and> nonlocal_names (scope_list b ! c) = {}"

definition keeps_module :: "nat \<Rightarrow> builder \<Rightarrow> builder \<Rightarrow> bool" where
  "keeps_module c b b' \<longleftrightarrow> own_names c b' \<and> (\<forall>x. set (active_at b x) \<subseteq> set (active_at b' x))"

lemma keeps_module_trans: "keeps_module c b b' \<Longrightarrow> keeps_module c b' b'' \<Longrightarrow> keeps_module c b b''"
  unfolding keeps_module_def by blast

lemma keeps_module_same: "own_names c b \<Longrightarrow> wf_builder b' \<Longrightarrow> scope_list b' = scope_list b \<Longrightarrow> keeps_module c b b'"
  by (simp add: keeps_module_def own_names_def)

lemma keeps_bind_name:
  assumes "own_names c b"
  shows "keeps_module c b (bind_name c x v n im ph b)"
proof -
  have c: "wf_builder b" "0 < c" "c < length (scope_list b)" and scope: "binding_scope b c x = c"
    using assms by (auto simp: own_names_def binding_scope_def scope_at_def)
  have "wf_builder (bind_name c x v n im ph b)" using grows_wf[OF grows_bind_name[OF c(1,3)]] by blast
  moreover have "scope_list (bind_name c x v n im ph b) = (scope_list b)[c := add_binding x
      \<lparr>bd_id = next_binding b, bd_value = v, bd_node = n, bd_imported = im, bd_phase = ph\<rparr> (scope_list b ! c)]"
    by (simp add: bind_name_def scope update_scope_def)
  ultimately show ?thesis
    using assms by (simp add: keeps_module_def own_names_def add_binding_def)
qed

lemma keeps_fold:
  assumes "own_names c b" "\<And>y b. y \<in> set ys \<Longrightarrow> own_names c b \<Longrightarrow> keeps_module c b (f y b)"
  shows "keeps_module c b (fold f ys b)"
  using assms
proof (induction ys arbitrary: b)
  case Nil
  then show ?case by (simp add: keeps_module_def)
next
  case (Cons y ys)
  have 1: "keeps_module c b (f y b)" using Cons.prems by simp
  moreover have "keeps_module c (f y b) (fold f ys (f y b))"
    using Cons.IH[of "f y b"] Cons.prems 1 by (simp add: keeps_module_def)
  ultimately show ?case using keeps_module_trans by simp
qed

lemma keeps_bind_site: "own_names c b \<Longrightarrow> keeps_module c b (bind_site c ph e b)"
  using keeps_bind_name by (cases e) (simp add: bind_site_def)

lemma keeps_enter: "own_names c b \<Longrightarrow> keeps_module c b (enter n c b)"
  using grows_wf[OF grows_enter[of b c n "{node_id n}"]] by (intro keeps_module_same) (auto simp: own_names_def)

lemma keeps_mark: "own_names c b \<Longrightarrow> keeps_module c b (mark t c b)"
  using grows_wf[OF grows_mark[of b c]] by (intro keeps_module_same) (auto simp: own_names_def)

lemma keeps_marked: "keeps_module c b b' \<Longrightarrow> keeps_module c b (mark t c b')"
proof -
  assume k: "keeps_module c b b'"
  then have "own_names c b'" by (simp add: keeps_module_def)
  from keeps_module_trans[OF k keeps_mark[OF this]] show ?thesis .
qed

lemma keeps_plain:
  assumes "own_names c b" "list_all plain_expr es" "distinct (ids es)"
  shows "keeps_module c b (visit_all visit es c b)"
proof (rule keeps_module_same[OF assms(1)])
  have c: "wf_builder b" "c < length (scope_list b)" using assms(1) by (auto simp: own_names_def)
  show "wf_builder (visit_all visit es c b)"
    by (rule grows_wf[OF grows_visit_all[OF visitor_ok_ids subset_refl c]])
  have "records es c b (visit_all visit es c b)"
    using assms(2) distinct_ids_member[OF assms(3)] by (intro records_all assms(3) visit_plain) (auto simp: list_all_iff)
  then show "scope_list (visit_all visit es c b) = scope_list b" by (simp add: records_def)
qed

lemma keeps_targets:
  "own_names c b \<Longrightarrow> keeps_module c b (fold (\<lambda>t b. mark t c (bind_targets c v n None t b)) ts b)"
  unfolding bind_targets_sites
proof (rule keeps_fold)
  fix t b assume "own_names c b"
  then have 1: "keeps_module c b (fold (bind_site c None) (target_binds v n t) b)" by (rule keeps_fold) (rule keeps_bind_site)
  from 1 show "keeps_module c b (mark t c (fold (bind_site c None) (target_binds v n t) b))" by (rule keeps_marked)
qed

lemma keeps_simple:
  assumes "own_names c b" "simple_stmt n" "list_all plain_expr (evaluated n)" "distinct (ids [n])"
  shows "keeps_module c b (visit n c b)"
proof -
  let ?e = "enter n c b" and ?r = "visit_all visit (evaluated n) c (enter n c b)"
  have e: "keeps_module c b ?e" by (rule keeps_enter[OF assms(1)])
  then have r: "keeps_module c b ?r"
    using keeps_module_trans[OF e] keeps_plain[OF _ assms(3) evaluated_distinct(1)[OF assms(2,4)], of c ?e]
    by (simp add: keeps_module_def)
  then have own: "own_names c ?r" by (simp add: keeps_module_def)
  have "keeps_module c ?r (visit n c b)"
    using assms(2)
  proof (cases rule: simple_stmtE)
    case (assign ts v)
    then show ?thesis
      using keeps_targets[OF own, of "Some v" n ts]
      by (simp add: visit.simps[of n] visit_step_def visit_statement_def visit_assign_def evaluated_def visit_all_def)
  next
    case (import_names names)
    let ?f = "\<lambda>al. bind_name c (fst (local_import al)) None n (Some (snd (local_import al))) None"
    have eq: "visit n c b = mark n c (fold ?f names ?r)"
      using import_names
      by (simp add: visit.simps[of n] visit_step_def visit_statement_def visit_import_def evaluated_def visit_all_def)
    have "keeps_module c ?r (fold ?f names ?r)" by (rule keeps_fold[OF own]) (rule keeps_bind_name)
    then show ?thesis unfolding eq by (rule keeps_marked)
  next
    case (import_from m names level)
    let ?pre = "import_prefix (module_parts ?e) (in_package ?e) m level"
    have eq: "visit n c b = mark n c (fold (bind_import_from ?pre level n c) names ?r)"
      using import_from(1)
      by (simp add: visit.simps[of n] visit_step_def visit_statement_def visit_importfrom_def evaluated_def visit_all_def)
    have "keeps_module c ?r (fold (bind_import_from ?pre level n c) names ?r)"
      by (rule keeps_fold[OF own]) (use import_from(2) keeps_bind_name in \<open>auto simp: bind_import_from_def list_all_iff\<close>)
    then show ?thesis unfolding eq by (rule keeps_marked)
  next
    case evaluate
    then show ?thesis using own by (simp add: visit.simps[of n] keeps_module_def)
  qed
  then show ?thesis using keeps_module_trans[OF r] by blast
qed

lemma nth_restore_names:
  "i < length (scope_list b) \<Longrightarrow> global_names (scope_list (restore_states sts b) ! i) = global_names (scope_list b ! i)"
  "i < length (scope_list b) \<Longrightarrow> nonlocal_names (scope_list (restore_states sts b) ! i) = nonlocal_names (scope_list b ! i)"
  by (simp_all add: nth_restore)

lemma grows_other:
  assumes "grows A s b b'" "i < length (scope_list b)" "i \<noteq> s"
  shows "same_scope False (scope_list b ! i) (scope_list b' ! i)"
proof -
  have "same_scope (i = s) (scope_list b ! i) (scope_list b' ! i)" using assms(1,2) unfolding grows_def by blast
  then show ?thesis using assms(3) by simp
qed

lemma keeps_function:
  assumes "own_names c b" and n: "shape n = Stmt (NFunctionDef a x args body decs returns tps)" and dist: "distinct (ids [n])"
    and plain: "list_all plain_expr (header_expressions decs args returns)" "arguments_local args body"
  shows "keeps_module c b (visit n c b)"
proof -
  let ?b1 = "visit_all visit (header_expressions decs args returns) c (bind_name c x None n None None (enter n c b))"
  have e: "keeps_module c b (enter n c b)" by (rule keeps_enter[OF assms(1)])
  have b0: "keeps_module c b (bind_name c x None n None None (enter n c b))"
    using keeps_module_trans[OF e keeps_bind_name] e by (simp add: keeps_module_def)
  have "distinct (ids (header_expressions decs args returns))" using header_distinct[OF n dist] by simp
  then have b1: "keeps_module c b ?b1"
    using keeps_module_trans[OF b0 keeps_plain[OF _ plain(1)]] b0 by (simp add: keeps_module_def)
  then have own: "wf_builder ?b1" "c < length (scope_list ?b1)" "0 < c" "own_names c ?b1"
    by (auto simp: keeps_module_def own_names_def)
  have visit: "visit n c b = visit_function_body visit x args body decs returns n c (enter n c b)"
    by (simp add: visit.simps[of n] visit_step_def visit_statement_def n)
  let ?f = "length (scope_list ?b1)"
  let ?b2 = "push_scope (Some (function_parent ?b1 c)) FunctionScope ?b1"
  let ?b3 = "update_scope ?f (\<lambda>sc. sc\<lparr>global_names := declared_globals body, nonlocal_names := declared_nonlocals body\<rparr>) ?b2"
  let ?b4 = "visit_arguments args ?f ?b3"
  let ?b5 = "visit_all visit body ?f ?b4"
  have wf2: "wf_builder ?b2" using grows_wf[OF grows_push_scope[OF own(1) function_parent_less[OF own(2)]]] by blast
  have wf3: "wf_builder ?b3"
    by (rule grows_wf[OF grows_update_scope_plain[OF wf2, where scope = ?f]]) (auto simp: same_scope_def)
  have g4: "grows {} ?f ?b3 ?b4" by (rule grows_arguments[OF wf3]) simp
  have "?f < length (scope_list ?b4)" using grows_length[OF g4] by simp
  then have g5: "grows (set (ids body)) ?f ?b4 ?b5" by (rule grows_visit_all[OF visitor_ok_ids subset_refl grows_wf[OF g4]])
  have g: "grows (set (ids body)) ?f ?b3 ?b5" using grows_trans[OF grows_mono[OF g4] g5] by simp
  have "same_scope False (scope_list ?b3 ! c) (scope_list ?b5 ! c)"
    by (rule grows_other[OF g]) (use own(2) in simp_all)
  moreover have "scope_list ?b3 ! c = scope_list ?b1 ! c" using own(2) by (simp add: nth_update_scope push_scope_def nth_append)
  ultimately have names: "global_names (scope_list ?b5 ! c) = {}" "nonlocal_names (scope_list ?b5 ! c) = {}"
    using own(4) by (simp_all add: same_scope_def own_names_def)
  have len: "c < length (scope_list ?b5)" using grows_length[OF g] own(2) by simp
  have eq: "visit n c b = restore_states (map (\<lambda>(i, out). merge_states [i, out]) (zip (states ?f ?b4) (states ?f ?b5))) ?b5"
    unfolding visit visit_function_body_def Let_def ..
  have "keeps_module c ?b1 (visit n c b)"
    unfolding keeps_module_def
  proof (intro conjI allI)
    have "wf_builder (visit n c b)"
      using grows_wf[OF grows_visit[of b c n]] assms(1) by (simp add: own_names_def)
    then show "own_names c (visit n c b)"
      using names len own(3) unfolding own_names_def eq by (simp add: nth_restore_names)
    show "set (active_at ?b1 y) \<subseteq> set (active_at (visit n c b) y)" for y
      unfolding eq by (rule function_body_keeps(1)[OF own(1) plain(2) own(2)])
  qed
  then show ?thesis using keeps_module_trans[OF b1] by blast
qed

lemma keeps_member: "own_names c b \<Longrightarrow> class_member n \<Longrightarrow> distinct (ids [n]) \<Longrightarrow> keeps_module c b (visit n c b)"
  unfolding class_member_def using keeps_simple keeps_function by blast

lemma keeps_members:
  assumes "own_names c b" "list_all class_member ns" "distinct (ids ns)"
  shows "keeps_module c b (visit_all visit ns c b)"
  unfolding visit_all_def
proof (rule keeps_fold[OF assms(1)])
  fix n b assume "n \<in> set ns" "own_names c b"
  then show "keeps_module c b (visit n c b)"
    using assms(2) distinct_ids_member[OF assms(3)] keeps_member by (auto simp: list_all_iff)
qed

lemma visit_class_sound:
  assumes n: "shape n = Stmt (NClassDef x bases kws body decs tps)" and dist: "distinct (ids [n])"
    and plain: "list_all plain_expr (decs @ bases @ kws)" "\<not> mentions_name x (decs @ bases @ kws)" "list_all class_member body"
    and b: "wf_builder b" "covers b \<rho>"
  shows "covers_reads (visit n 0 b) (stmt_reads \<rho> (decs @ bases @ kws))"
    and "covers (visit n 0 b) (\<rho>(x := Some (None, n, Some [''<local>'', x])))"
proof -
  let ?h = "decs @ bases @ kws" and ?s = "Some (None, n, Some [''<local>'', x])"
  let ?b0 = "bind_name 0 x None n (Some [''<local>'', x]) None (enter n 0 b)"
  let ?b1 = "visit_all visit ?h 0 ?b0"
  let ?c = "length (scope_list ?b1)"
  let ?b2 = "push_scope (Some 0) ClassScope ?b1"
  let ?b3 = "visit_all visit body ?c ?b2"
  have e: "wf_builder (enter n 0 b)" "covers (enter n 0 b) \<rho>" using b wf_enter covers_enter by auto
  have b0: "wf_builder ?b0" "covers ?b0 (\<rho>(x := ?s))"
    using grows_wf[OF grows_bind_name[OF e(1)]] wf_module[OF e(1)] covers_bind_name[OF e] by auto
  have d: "distinct (ids ?h)" "set (ids ?h) \<inter> set (ids body) = {}" "distinct (ids body)"
    using dist n by (auto simp: ids_subtree[of n] children_def)
  note b1 = visit_evaluated[OF plain(1) d(1) b0]
  have c: "0 < ?c" using wf_module[OF b1(1)] by simp
  have wf2: "wf_builder ?b2" using grows_wf[OF grows_push_scope[OF b1(1) c]] by blast
  have own: "own_names ?c ?b2" using wf2 c by (simp add: own_names_def push_scope_def new_scope_def)
  have "keeps_module ?c ?b2 ?b3" by (rule keeps_members[OF own plain(3) d(3)])
  then have act: "set (active_at ?b1 y) \<subseteq> set (active_at ?b3 y)" for y
    using c by (auto simp: keeps_module_def push_scope_def nth_append)
  have visit: "visit n 0 b = ?b3"
    by (simp add: visit.simps[of n] visit_step_def visit_statement_def n visit_classdef_def Let_def)
  show "covers (visit n 0 b) (\<rho>(x := ?s))" unfolding visit by (rule covers_active[OF b1(2) act])
  have "grows (set (ids body)) ?c ?b2 ?b3" by (rule grows_visit_all[OF visitor_ok_ids subset_refl wf2]) simp
  then have "map_of (node_bindings ?b3) i = map_of (node_bindings ?b1) i" if "i \<notin> set (ids body)" for i
    using that by (simp add: grows_def push_scope_def)
  then have "covers_reads ?b3 (stmt_reads (\<rho>(x := ?s)) ?h)"
    by (intro covers_reads_kept[OF b1(3)]) (use fst_stmt_reads[of "\<rho>(x := ?s)" ?h] d(2) in auto)
  then show "covers_reads (visit n 0 b) (stmt_reads \<rho> ?h)" unfolding visit stmt_reads_other[OF plain(2)] .
qed

section \<open>Soundness\<close>

lemma exec_falls_through: "exec M ns \<rho> us \<rho>' ok \<Longrightarrow> ok \<Longrightarrow> statements_fall_through ns"
proof (induction rule: exec.induct)
  case (step n ns \<rho> us \<rho>' ok)
  have "falls_through n"
    using step.hyps(1,3) by (subst falls_through.simps) (auto simp: simple_stmt_def leaves_block_def split: shape.splits stmt.splits)
  then show ?case using step by (simp add: statements_fall_through_def)
next
  case (branch n test body orelse branch \<rho> us \<rho>' ns us' \<rho>'' ok)
  then show ?case by (auto simp: statements_fall_through_def falls_through.simps[of n])
next
  case (definition_stmt n a x args body decs returns tps ns \<rho> us \<rho>' ok)
  then show ?case by (simp add: statements_fall_through_def falls_through.simps[of n])
next
  case (class_stmt n x bases kws body decs tps ns \<rho> us \<rho>' ok)
  then show ?case by (simp add: statements_fall_through_def falls_through.simps[of n])
qed (simp_all add: statements_fall_through_def)

lemma header_ids: "shape n = Stmt (NFunctionDef a x args body decs returns tps) \<Longrightarrow>
    set (ids (header_expressions decs args returns)) \<subseteq> set (ids [n])"
  using mset_subset_eqD[OF mset_ids_header[of decs args returns]] ids_subtree[of n] by (auto simp: children_def)

lemma class_header_ids: "shape n = Stmt (NClassDef x bases kws body decs tps) \<Longrightarrow> set (ids (decs @ bases @ kws)) \<subseteq> set (ids [n])"
  using ids_subtree[of n] by (auto simp: children_def)

lemma evaluated_ids: "simple_stmt n \<Longrightarrow> set (ids (evaluated n)) \<subseteq> set (ids [n])"
  by (cases n rule: simple_stmtE) (auto simp: ids_subtree evaluated_def children_def)

lemma exec_reads_ids: "exec M ns \<rho> us \<rho>' ok \<Longrightarrow> fst ` set us \<subseteq> set (ids ns)"
proof (induction rule: exec.induct)
  case (step n ns \<rho> us \<rho>' ok)
  then show ?case using fst_stmt_reads[of \<rho> "evaluated n"] evaluated_ids[of n] by auto
next
  case (abrupt n ns \<rho>)
  then show ?case using fst_stmt_reads[of \<rho> "evaluated n"] evaluated_ids[of n] by auto
next
  case (branch n test body orelse branch \<rho> us \<rho>' ns us' \<rho>'' ok)
  then show ?case using fst_name_reads[of \<rho> test] ids_subtree[of n] by (auto simp: children_def)
next
  case (branch_abrupt n test body orelse branch \<rho> us \<rho>' ns)
  then show ?case using fst_name_reads[of \<rho> test] ids_subtree[of n] by (auto simp: children_def)
next
  case (definition_stmt n a x args body decs returns tps ns \<rho> us \<rho>' ok)
  show ?case using fst_stmt_reads[of \<rho> "header_expressions decs args returns"] header_ids[OF definition_stmt.hyps(1)]
      definition_stmt.IH by auto
next
  case (class_stmt n x bases kws body decs tps ns \<rho> us \<rho>' ok)
  show ?case using fst_stmt_reads[of \<rho> "decs @ bases @ kws"] class_header_ids[OF class_stmt.hyps(1)] class_stmt.IH by auto
qed simp_all

lemma visit_all_Cons: "visit_all v (n # ns) s b = visit_all v ns s (v n s b)"
  by (simp add: visit_all_def)

lemma covers_reads_grows:
  assumes "grows A s b b'" "covers_reads b us" "fst ` set us \<inter> A = {}"
  shows "covers_reads b' us"
proof (rule covers_reads_kept[OF assms(2)])
  fix i assume "i \<in> fst ` set us"
  then have "i \<notin> A" using assms(3) by blast
  then show "map_of (node_bindings b') i = map_of (node_bindings b) i" using assms(1) by (simp add: grows_def)
qed

lemma visit_rest:
  assumes "wf_builder b" "covers_reads b us" "fst ` set us \<inter> set (ids ns) = {}"
  shows "covers_reads (visit_all visit ns 0 b) us"
  by (rule covers_reads_grows[OF grows_visit_all[OF visitor_ok_ids subset_refl assms(1)] assms(2,3)])
    (use wf_module[OF assms(1)] in simp)

lemma visit_module_parts:
  "wf_builder b \<Longrightarrow> module_parts (visit n 0 b) = module_parts b \<and> in_package (visit n 0 b) = in_package b"
  using grows_visit[of b 0 n] wf_module[of b] by (simp add: grows_def)

text \<open>An \<open>if\<close> statement, with what is known of the branch that runs.\<close>

lemma visit_if_sound:
  assumes n: "shape n = Stmt (NIf test body orelse)" and dist: "distinct (ids [n])" and test: "plain_expr test"
    and br: "branch \<in> {body, orelse}" and b: "wf_builder b" "covers b \<rho>"
    and run: "\<And>c. wf_builder c \<Longrightarrow> covers c \<rho> \<Longrightarrow> module_parts c = module_parts b \<Longrightarrow> in_package c = in_package b \<Longrightarrow>
      covers_reads (visit_all visit branch 0 c) us \<and> (ok \<longrightarrow> covers (visit_all visit branch 0 c) \<rho>')"
    and us: "fst ` set us \<subseteq> set (ids branch)" and falls: "ok \<Longrightarrow> statements_fall_through branch"
    and empty: "branch = [] \<Longrightarrow> us = [] \<and> \<rho>' = \<rho>"
  shows "covers_reads (visit n 0 b) (name_reads \<rho> test @ us) \<and> (ok \<longrightarrow> covers (visit n 0 b) \<rho>')"
proof -
  let ?t = "visit test 0 (enter n 0 b)"
  let ?brs = "if orelse = [] then [body] else [body, orelse]"
  have d: "distinct (ids [test])" "distinct (ids (concat ?brs))" "set (ids [test]) \<inter> set (ids (concat ?brs)) = {}"
    using dist n by (auto simp: ids_subtree[of n] children_def)
  have e: "wf_builder (enter n 0 b)" "covers (enter n 0 b) \<rho>" using b wf_enter covers_enter by auto
  have t: "wf_builder ?t" "covers ?t \<rho>" "covers_reads ?t (name_reads \<rho> test)"
    using visit_evaluated[OF _ d(1) e] test by (simp_all add: visit_all_def stmt_reads_def)
  have parts: "module_parts ?t = module_parts b" "in_package ?t = in_package b"
    using visit_module_parts[OF e(1), of test] by simp_all
  have visit: "visit n 0 b = visit_branches visit ?brs 0 (orelse = []) ?t"
    by (simp add: visit.simps[of n] visit_step_def visit_statement_def visit_if_def n)
  have "grows (set (ids (concat ?brs))) 0 ?t (visit n 0 b)"
    unfolding visit by (rule grows_branches[OF visitor_ok_ids _ t(1)]) (use wf_module[OF t(1)] in auto)
  then have "covers_reads (visit n 0 b) (name_reads \<rho> test)"
    by (rule covers_reads_grows[OF _ t(3)]) (use fst_name_reads[of \<rho> test] d(3) in blast)
  moreover have "covers_reads (visit n 0 b) us \<and> (ok \<longrightarrow> covers (visit n 0 b) \<rho>')"
  proof (cases "branch \<in> set ?brs")
    case True
    then show ?thesis
      unfolding visit by (rule visit_branches_sound[OF t(1,2) d(2) _ _ us falls]) (use run parts in auto)
  next
    case False
    then have "orelse = []" "branch = []" using br by (auto split: if_splits)
    then show ?thesis using visit_skip_sound[OF t(1,2) d(2)] empty visit by simp
  qed
  ultimately show ?thesis by simp
qed

lemma if_reads_ids:
  assumes "shape n = Stmt (NIf test body orelse)" "branch \<in> {body, orelse}" "fst ` set us \<subseteq> set (ids branch)"
  shows "fst ` set (name_reads \<rho> test @ us) \<subseteq> set (ids [n])"
proof -
  have "set (ids [test]) \<subseteq> set (ids [n])" "set (ids branch) \<subseteq> set (ids [n])"
    using assms(1,2) by (auto simp: ids_subtree[of n] children_def)
  then show ?thesis
    unfolding set_append image_Un
    by (intro Un_least order_trans[OF fst_name_reads] order_trans[OF assms(3)])
qed

inductive_cases exec_NilE: "exec M [] \<rho> us \<rho>' ok"

theorem exec_sound:
  assumes "exec M ns \<rho> us \<rho>' ok"
    and "wf_builder b" "covers b \<rho>" "M = (module_parts b, in_package b)" "distinct (ids ns)"
  shows "covers_reads (visit_all visit ns 0 b) us \<and> (ok \<longrightarrow> covers (visit_all visit ns 0 b) \<rho>')"
  using assms
proof (induction arbitrary: b rule: exec.induct)
  case (finish \<rho>)
  then show ?case by (simp add: visit_all_def)
next
  case (stop ns \<rho>)
  then show ?case by simp
next
  case (step n ns \<rho> us \<rho>' ok)
  note d = step.prems(4)[unfolded ids_simps] and M = step.prems(3)
  have "distinct (ids [n])" using d by simp
  note s = visit_simple[OF step.hyps(1,2) this step.prems(1,2)] and wf = wf_visit[OF step.prems(1), of n]
  have "covers_reads (visit_all visit ns 0 (visit n 0 b)) (stmt_reads \<rho> (evaluated n))"
    by (rule visit_rest[OF wf s(1)]) (use fst_stmt_reads[of \<rho> "evaluated n"] evaluated_ids[OF step.hyps(1)] d in auto)
  moreover have "covers_reads (visit_all visit ns 0 (visit n 0 b)) us \<and>
      (ok \<longrightarrow> covers (visit_all visit ns 0 (visit n 0 b)) \<rho>')"
    by (rule step.IH[OF wf]) (use s(2) M visit_module_parts[OF step.prems(1), of n] d in auto)
  ultimately show ?case by (simp add: visit_all_Cons)
next
  case (abrupt n ns \<rho>)
  note d = abrupt.prems(4)[unfolded ids_simps]
  have "distinct (ids [n])" using d by simp
  note s = visit_simple[OF abrupt.hyps this abrupt.prems(1,2)]
  show ?case
    using visit_rest[OF wf_visit[OF abrupt.prems(1), of n] s(1), of ns] fst_stmt_reads[of \<rho> "evaluated n"]
      evaluated_ids[OF abrupt.hyps(1)] d by (auto simp: visit_all_Cons)
next
  case (branch n test body orelse branch \<rho> us \<rho>' ns us' \<rho>'' ok)
  note d = branch.prems(4)[unfolded ids_simps] and M = branch.prems(3) and wf = wf_visit[OF branch.prems(1), of n]
  have dn: "distinct (ids [n])" "distinct (ids branch)"
    using d branch.hyps(1,3) by (auto simp: ids_subtree[of n] children_def)
  have s: "covers_reads (visit n 0 b) (name_reads \<rho> test @ us) \<and> (True \<longrightarrow> covers (visit n 0 b) \<rho>')"
    by (rule visit_if_sound[OF branch.hyps(1) dn(1) branch.hyps(2,3) branch.prems(1,2)])
      (use branch.IH(1) M dn exec_reads_ids[OF branch.hyps(4)] exec_falls_through[OF branch.hyps(4)]
        branch.hyps(4) in \<open>auto elim: exec_NilE\<close>)
  have "covers_reads (visit_all visit ns 0 (visit n 0 b)) (name_reads \<rho> test @ us)"
    by (rule visit_rest[OF wf])
      (use s if_reads_ids[OF branch.hyps(1,3) exec_reads_ids[OF branch.hyps(4)], of \<rho>] d in auto)
  moreover have "covers_reads (visit_all visit ns 0 (visit n 0 b)) us' \<and>
      (ok \<longrightarrow> covers (visit_all visit ns 0 (visit n 0 b)) \<rho>'')"
    by (rule branch.IH(2)[OF wf]) (use s M visit_module_parts[OF branch.prems(1), of n] d in auto)
  ultimately show ?case by (simp add: visit_all_Cons)
next
  case (branch_abrupt n test body orelse branch \<rho> us \<rho>' ns)
  note d = branch_abrupt.prems(4)[unfolded ids_simps] and wf = wf_visit[OF branch_abrupt.prems(1), of n]
  have dn: "distinct (ids [n])" "distinct (ids branch)"
    using d branch_abrupt.hyps(1,3) by (auto simp: ids_subtree[of n] children_def)
  have s: "covers_reads (visit n 0 b) (name_reads \<rho> test @ us) \<and> (False \<longrightarrow> covers (visit n 0 b) \<rho>')"
    by (rule visit_if_sound[OF branch_abrupt.hyps(1) dn(1) branch_abrupt.hyps(2,3) branch_abrupt.prems(1,2)])
      (use branch_abrupt.IH branch_abrupt.prems(3) dn exec_reads_ids[OF branch_abrupt.hyps(4)]
        branch_abrupt.hyps(4) in \<open>auto elim: exec_NilE\<close>)
  have "covers_reads (visit_all visit ns 0 (visit n 0 b)) (name_reads \<rho> test @ us)"
    by (rule visit_rest[OF wf])
      (use s if_reads_ids[OF branch_abrupt.hyps(1,3) exec_reads_ids[OF branch_abrupt.hyps(4)], of \<rho>] d in auto)
  then show ?case by (simp add: visit_all_Cons)
next
  case (definition_stmt n a x args body decs returns tps ns \<rho> us \<rho>' ok)
  note d = definition_stmt.prems(4)[unfolded ids_simps] and wf = wf_visit[OF definition_stmt.prems(1), of n]
  have dn: "distinct (ids [n])" using d by simp
  note s = visit_definition_sound[OF definition_stmt.hyps(1) dn definition_stmt.hyps(2,4,3) definition_stmt.prems(1,2)]
  have "covers_reads (visit_all visit ns 0 (visit n 0 b)) (stmt_reads \<rho> (header_expressions decs args returns))"
    by (rule visit_rest[OF wf s(1)])
      (use fst_stmt_reads[of \<rho> "header_expressions decs args returns"] header_ids[OF definition_stmt.hyps(1)] d in auto)
  moreover have "covers_reads (visit_all visit ns 0 (visit n 0 b)) us \<and>
      (ok \<longrightarrow> covers (visit_all visit ns 0 (visit n 0 b)) \<rho>')"
    by (rule definition_stmt.IH[OF wf s(2)])
      (use definition_stmt.prems(3) visit_module_parts[OF definition_stmt.prems(1), of n] d in auto)
  ultimately show ?case by (simp add: visit_all_Cons)
next
  case (class_stmt n x bases kws body decs tps ns \<rho> us \<rho>' ok)
  note d = class_stmt.prems(4)[unfolded ids_simps] and wf = wf_visit[OF class_stmt.prems(1), of n]
  have dn: "distinct (ids [n])" using d by simp
  note s = visit_class_sound[OF class_stmt.hyps(1) dn class_stmt.hyps(2-4) class_stmt.prems(1,2)]
  note read = order_trans[OF fst_stmt_reads class_header_ids[OF class_stmt.hyps(1)], of \<rho>]
  have "covers_reads (visit_all visit ns 0 (visit n 0 b)) (stmt_reads \<rho> (decs @ bases @ kws))"
  proof (rule visit_rest[OF wf s(1)])
    have "set (ids [n]) \<inter> set (ids ns) = {}" using d by simp
    then show "fst ` set (stmt_reads \<rho> (decs @ bases @ kws)) \<inter> set (ids ns) = {}" using read by blast
  qed
  moreover have "covers_reads (visit_all visit ns 0 (visit n 0 b)) us \<and>
      (ok \<longrightarrow> covers (visit_all visit ns 0 (visit n 0 b)) \<rho>')"
    by (rule class_stmt.IH[OF wf s(2)])
      (use class_stmt.prems(3) visit_module_parts[OF class_stmt.prems(1), of n] d in auto)
  ultimately show ?case by (simp add: visit_all_Cons)
qed

section \<open>Resolution\<close>

lemma module_reads_covered:
  assumes "shape tree = Plain (NModule body)" "distinct (map node_id (subtree tree))"
    and "exec (modname, package) body (\<lambda>_. None) us \<rho> ok" "(node_id m, site) \<in> set us"
  shows "site \<in> sites (recorded_bindings (scopes tree modname package) m)"
proof -
  let ?b = "enter tree 0 (initial_builder modname package)"
  have b: "wf_builder ?b" "covers ?b (\<lambda>_. None)"
    using wf_enter[OF wf_initial] by (auto simp: covers_def)
  have "distinct (ids body)" using assms(1,2) by (simp add: ids_subtree children_def)
  moreover have "(modname, package) = (module_parts ?b, in_package ?b)" by (simp add: initial_builder_def)
  ultimately have "covers_reads (visit_all visit body 0 ?b) us" using exec_sound[OF assms(3) b] by blast
  moreover have "scopes tree modname package = visit_all visit body 0 ?b"
    by (simp add: scopes_def visit.simps[of tree] visit_step_def assms(1))
  ultimately show ?thesis using assms(4) by (fastforce simp: covers_reads_def recorded_bindings_def)
qed

text \<open>
  The dotted names an expression evaluates to in an execution, through chains of aliases; no
  binding statement occurs twice in a chain.
\<close>

inductive denotes :: "(nat \<times> site) list \<Rightarrow> nat set \<Rightarrow> node \<Rightarrow> string list \<Rightarrow> bool" for us where
  imported: "dotted_name n = Some name \<Longrightarrow> root_name n = Some m \<Longrightarrow> (node_id m, (v, nd, Some im)) \<in> set us \<Longrightarrow>
    node_id nd \<notin> R \<Longrightarrow> denotes us R n (im @ tl name)"
| aliased: "dotted_name n = Some name \<Longrightarrow> root_name n = Some m \<Longrightarrow> (node_id m, (Some w, nd, None)) \<in> set us \<Longrightarrow>
    node_id nd \<notin> R \<Longrightarrow> denotes us (insert (node_id nd) R) w ys \<Longrightarrow> denotes us R n (ys @ tl name)"

lemma bindings_for_recorded:
  assumes "root_name n = Some m" "b \<in> set (recorded_bindings scs m)" "bd_phase b = None"
  shows "b \<in> set (bindings_for_name x n scs)"
proof -
  let ?i = "case map_of (node_scopes scs) (node_id n) of None \<Rightarrow> 0 | Some j \<Rightarrow> j"
  let ?v = "visible_bindings (map_of (node_phases scs) (node_id n)) (recorded_bindings scs m)"
  have "b \<in> set ?v" using assms(2,3) by (cases "map_of (node_phases scs) (node_id n)") (auto simp: visible_bindings_def)
  moreover from this have "?v \<noteq> []" by auto
  ultimately show ?thesis
    unfolding bindings_for_name_def Let_def by (subst bindings_from.simps) (simp add: Let_def found_bindings_def assms(1))
qed

lemma dotted_not_special:
  assumes "dotted_name n = Some name"
  shows "strip_named n = n" "as_if_exp n = None"
proof -
  have "(\<exists>x c. shape n = Expr (NName x c)) \<or> (\<exists>v a. shape n = Expr (NAttribute v a))"
    using assms by (subst (asm) dotted_name.simps) (auto simp: node_views split: option.splits)
  then show "strip_named n = n" "as_if_exp n = None"
    by (auto simp: strip_named_def as_named_expr_def as_if_exp_def)
qed

theorem denotes_resolved:
  assumes "\<And>m site. (node_id m, site) \<in> set us \<Longrightarrow> site \<in> sites (recorded_bindings scs m)" "denotes us R n ys"
  shows "ys \<in> resolved_names scs R n"
  using assms(2)
proof (induction rule: denotes.induct)
  case (imported n name m v nd im R)
  then obtain b where b: "b \<in> set (recorded_bindings scs m)" "bd_phase b = None" "bd_node b = nd" "bd_imported b = Some im"
    using assms(1)[OF imported.hyps(3)] by (auto simp: sites_def site_of_def)
  note bs = bindings_for_recorded[OF imported.hyps(2) b(1,2), of "hd name"]
  then have "bindings_for_name (hd name) n scs \<noteq> []" by auto
  then show ?case
    using imported.hyps(1,4) b bs dotted_not_special[OF imported.hyps(1)]
    by (subst resolved_names.simps) (auto simp: Let_def intro!: bexI[of _ b])
next
  case (aliased n name m w nd R ys)
  then obtain b where b: "b \<in> set (recorded_bindings scs m)" "bd_phase b = None" "bd_node b = nd" "bd_imported b = None"
    "bd_value b = Some w"
    using assms(1)[OF aliased.hyps(3)] by (auto simp: sites_def site_of_def)
  note bs = bindings_for_recorded[OF aliased.hyps(2) b(1,2), of "hd name"]
  then have "bindings_for_name (hd name) n scs \<noteq> []" by auto
  then show ?case
    using aliased.hyps(1,4) aliased.IH b bs dotted_not_special[OF aliased.hyps(1)]
    by (subst resolved_names.simps) (auto simp: Let_def intro!: bexI[of _ b])
qed

end
