(* ===== verification/SourceProps.thy ===== *)
theory SourceProps
  imports SourceChecks ScopeSound
begin

text \<open>
  Properties of the scope analysis and of the checks that rest on it: the invariant of the
  analysis, that what an execution calls or decorates with is reported, and that added lines only
  narrow a report.
\<close>

section \<open>An example\<close>

definition at_line :: "nat \<Rightarrow> nat \<Rightarrow> node shape \<Rightarrow> node" where
  "at_line i l s = Node i (Some \<lparr>sp_line = l, sp_end = Some l, sp_column = 0\<rparr>) s"

definition name_at :: "nat \<Rightarrow> nat \<Rightarrow> ctx \<Rightarrow> string \<Rightarrow> node" where
  "name_at i l c x = at_line i l (Expr (NName x c))"

definition attribute_at :: "nat \<Rightarrow> nat \<Rightarrow> node \<Rightarrow> string \<Rightarrow> node" where
  "attribute_at i l v x = at_line i l (Expr (NAttribute v x))"

lemmas example_nodes = at_line_def name_at_def attribute_at_def

text \<open>
  A module that skips under another name and skips a test:
  \<^verbatim>\<open>import pytest\<close>, \<^verbatim>\<open>if ready: stop = pytest.skip\<close>, \<^verbatim>\<open>stop()\<close> and
  \<^verbatim>\<open>@pytest.mark.skip\<close> over \<^verbatim>\<open>def test(): pass\<close>.
\<close>

definition skip_import :: node where
  "skip_import = at_line 1 1 (Stmt (NImport [(''pytest'', None)]))"

definition skip_value :: node where
  "skip_value = attribute_at 2 3 (name_at 3 3 Load ''pytest'') ''skip''"

definition skip_alias :: node where
  "skip_alias = at_line 4 3 (Stmt (NAssign [name_at 5 3 Store ''stop''] skip_value))"

definition skip_branch :: node where
  "skip_branch = at_line 6 2 (Stmt (NIf (name_at 7 2 Load ''ready'') [skip_alias] []))"

definition skip_function :: node where
  "skip_function = name_at 8 4 Load ''stop''"

definition skip_call :: node where
  "skip_call = at_line 9 4 (Expr (NCall skip_function [] []))"

definition skip_marker :: node where
  "skip_marker = attribute_at 10 5 (attribute_at 11 5 (name_at 12 5 Load ''pytest'') ''mark'') ''skip''"

definition skip_test :: node where
  "skip_test =
     at_line 13 6 (Stmt (NFunctionDef False ''test'' (Node 14 None (Plain (NArguments [] [] None [] [] None [])))
       [at_line 15 6 (Stmt NPass)] [skip_marker] None []))"

definition skip_module :: node where
  "skip_module =
     Node 0 None (Plain (NModule [skip_import, skip_branch, at_line 16 4 (Stmt (NExpr skip_call)), skip_test]))"

lemmas skip_nodes = skip_import_def skip_value_def skip_alias_def skip_branch_def skip_function_def skip_call_def
  skip_marker_def skip_test_def skip_module_def example_nodes

section \<open>The invariant of the analysis\<close>

lemma scopes_grow:
  "grows (node_id ` set (subtree tree)) 0 (initial_builder modname package) (scopes tree modname package)"
  unfolding scopes_def by (rule grows_visit[OF wf_initial]) (simp add: initial_builder_def)

lemma scopes_wf: "wf_builder (scopes tree modname package)"
  using grows_wf[OF scopes_grow] .

text \<open>
  C16. The scope analysis of any module ends in a consistent state: no loop is left open, every
  scope but the module's has a parent that was created before it, a binding in force in a scope is
  recorded among the bindings of that scope, every node is assigned to an existing scope and names
  are recorded at nodes of the module only.
\<close>


theorem scopes_consistent:
  "let b = scopes tree modname package
   in loop_exit_stack b = [] \<and>
      (\<forall>i < length (scope_list b).
         (case sc_parent (scope_list b ! i) of None \<Rightarrow> i = 0 | Some p \<Rightarrow> p < i) \<and>
         (\<forall>x. set (get_bindings x (active_bindings (scope_list b ! i))) \<subseteq>
               set (get_bindings x (sc_bindings (scope_list b ! i))))) \<and>
      ran (map_of (node_scopes b)) \<subseteq> {..<length (scope_list b)} \<and>
      dom (map_of (node_bindings b)) \<subseteq> node_id ` set (subtree tree)"
proof -
  let ?b = "scopes tree modname package"
  have "loop_exit_stack ?b = []"
    using scopes_grow[of tree modname package] by (simp add: grows_def same_exits_def initial_builder_def)
  moreover have "dom (map_of (node_bindings ?b)) \<subseteq> node_id ` set (subtree tree)"
    using scopes_grow[of tree modname package]
    by (force simp: grows_def initial_builder_def simp del: set_map)
  ultimately show ?thesis
    using scopes_wf[of tree modname package] by (auto simp: Let_def wf_builder_def wf_scope_def within_def)
qed

theorem scopes_consistent_witness:
  "loop_exit_stack (scopes skip_module [''tests''] False) = [] \<and>
   set (get_bindings ''stop'' (active_bindings (scope_list (scopes skip_module [''tests''] False) ! 0))) \<subseteq>
     set (get_bindings ''stop'' (sc_bindings (scope_list (scopes skip_module [''tests''] False) ! 0)))"
proof -
  have "0 < length (scope_list (scopes skip_module [''tests''] False))"
    using scopes_wf[of skip_module "[''tests'']" False] by (auto simp: wf_builder_def)
  then show ?thesis using scopes_consistent[of skip_module "[''tests'']" False] by (auto simp: Let_def)
qed

section \<open>Added lines\<close>

fun lines_within :: "nat set option \<Rightarrow> nat set option \<Rightarrow> bool" where
  "lines_within _ None = True"
| "lines_within (Some ls) (Some ls') = (ls \<subseteq> ls')"
| "lines_within None (Some _) = False"

lemma node_intersects_mono: "lines_within a a' \<Longrightarrow> node_intersects a n \<Longrightarrow> node_intersects a' n"
  by (cases a; cases a') (auto simp: node_intersects_def split: option.splits)

lemma value_intersects_mono: "ls \<subseteq> ls' \<Longrightarrow> value_intersects scs ls r n \<Longrightarrow> value_intersects scs ls' r n"
proof (induction scs ls r n rule: value_intersects.induct)
  case (1 scs ls r n)
  have node: "node_intersects (Some ls) m \<Longrightarrow> node_intersects (Some ls') m" for m
    using node_intersects_mono[of "Some ls" "Some ls'"] 1(3) by simp
  from 1(4) consider
      (binding) x c b where "as_name n = Some (x, c)" "b \<in> set (bindings_for_name x n scs)" "node_id (bd_node b) \<notin> r"
        "node_intersects (Some ls) (bd_node b) \<or>
         (\<exists>w. bd_value b = Some w \<and> value_intersects scs ls (insert (node_id (bd_node b)) r) w)"
    | (child) c where "c \<in> set (children n)" "value_intersects scs ls r c"
    by (subst (asm) value_intersects.simps) (auto split: option.splits if_splits)
  then show ?case
  proof cases
    case binding
    then have "node_intersects (Some ls') (bd_node b) \<or>
         (\<exists>w. bd_value b = Some w \<and> value_intersects scs ls' (insert (node_id (bd_node b)) r) w)"
      using node 1(1)[OF binding(1) refl binding(2,3) _ 1(3)] by blast
    with binding(1-3) show ?thesis by (subst value_intersects.simps) (auto intro!: bexI[of _ b])
  next
    case child
    then show ?thesis using 1(2,3) by (subst value_intersects.simps) auto
  qed
qed

lemma dependency_mono:
  "lines_within a a' \<Longrightarrow> node_or_dependency_intersects scs a n d \<Longrightarrow> node_or_dependency_intersects scs a' n d"
  using node_intersects_mono[of a a' n] value_intersects_mono
  by (cases a; cases a') (auto simp: node_or_dependency_intersects_def value_intersects_added_lines_def)

lemma check_call_mono:
  "lines_within a a' \<Longrightarrow> check_call p scs a n f kws = Some v \<Longrightarrow> check_call p scs a' n f kws = Some v"
  using dependency_mono[of a a' scs n]
  by (cases "call_message scs f") (auto simp: check_call_def split: if_splits)

lemma check_decorators_mono:
  "lines_within a a' \<Longrightarrow> set (check_decorators p scs a ds) \<subseteq> set (check_decorators p scs a' ds)"
  using dependency_mono[of a a' scs] by (auto simp: check_decorators_def)

lemma check_ast_node_mono:
  "lines_within a a' \<Longrightarrow> set (check_ast_node p scs a n) \<subseteq> set (check_ast_node p scs a' n)"
  using check_call_mono[of a a' p scs n] check_decorators_mono[of a a' p scs]
  by (auto simp: check_ast_node_def in_opt_list split: shape.splits expr.splits stmt.splits)

lemma check_pytestmark_mono:
  "lines_within a a' \<Longrightarrow> check_module_pytestmark p scs a n = Some v \<Longrightarrow> check_module_pytestmark p scs a' n = Some v"
  using dependency_mono[of a a' scs]
  by (auto simp: check_module_pytestmark_def pytestmark_is_added_def split: option.splits if_splits)

text \<open>
  C17. Added lines only narrow a report: what the checks report for a set of added lines they
  report for every larger set and for the whole file.
\<close>

theorem added_lines_narrow:
  assumes "lines_within added added'"
  shows "set (check_ast_nodes p scs added tree) \<subseteq> set (check_ast_nodes p scs added' tree) \<and>
    set (check_module_assignments p scs added tree) \<subseteq> set (check_module_assignments p scs added' tree)"
proof
  show "set (check_ast_nodes p scs added tree) \<subseteq> set (check_ast_nodes p scs added' tree)"
    using check_ast_node_mono[OF assms] by (force simp: check_ast_nodes_def)
  show "set (check_module_assignments p scs added tree) \<subseteq> set (check_module_assignments p scs added' tree)"
    using check_pytestmark_mono[OF assms] by (fastforce simp: check_module_assignments_def in_set_map_filter)
qed

theorem added_lines_narrow_witness:
  "lines_within (Some {4}) None \<and>
   set (check_ast_nodes [''tests'', ''a.py''] (scopes skip_module [''tests''] False) (Some {4}) skip_module) \<subseteq>
     set (check_ast_nodes [''tests'', ''a.py''] (scopes skip_module [''tests''] False) None skip_module)"
  using added_lines_narrow[of "Some {4}" None] by simp

section \<open>Soundness of the checks\<close>

lemmas skip_eval = skip_nodes plain_expr_def plain_node_def subtree.simps children_def stmt_reads_def name_reads_def
  node_read_def as_name_def as_attribute_def as_call_def evaluated_def simple_stmt_def stmt_binds_def leaves_block_def is_target_def target_binds.simps
  bind_all_def local_import_def header_expressions_def arguments_local_def mentions_name_def function_arguments_def argument_defaults_def

definition skip_env :: env where
  "skip_env = [''pytest'' \<mapsto> (None, skip_import, Some [''pytest''])]"

definition skip_env' :: env where
  "skip_env' = skip_env(''stop'' \<mapsto> (Some skip_value, skip_alias, None))"

definition skip_reads :: "(nat \<times> site) list" where
  "skip_reads =
     [(3, (None, skip_import, Some [''pytest''])), (8, (Some skip_value, skip_alias, None)),
      (12, (None, skip_import, Some [''pytest'']))]"

abbreviation skip_body :: "node list" where
  "skip_body \<equiv> [skip_import, skip_branch, at_line 16 4 (Stmt (NExpr skip_call)), skip_test]"

lemma exec_stepI:
  assumes "exec M ns \<rho>1 us \<rho>' ok" "simple_stmt n" "list_all plain_expr (evaluated n)" "\<not> leaves_block n"
    and "bind_all (stmt_binds M n) \<rho> = \<rho>1" "stmt_reads \<rho> (evaluated n) @ us = vs"
  shows "exec M (n # ns) \<rho> vs \<rho>' ok"
  using exec.step[of n M ns \<rho> us \<rho>' ok] assms by simp

lemma split_pytest: "py_split ''.'' ''pytest'' = [''pytest'']"
  by code_simp

lemma skip_module_runs:
  "exec M skip_body (\<lambda>_. None) skip_reads (skip_env'(''test'' := Some (None, skip_test, None))) True"
proof -
  let ?M = M and ?call = "at_line 16 4 (Stmt (NExpr skip_call))"
  let ?args = "Node 14 None (Plain (NArguments [] [] None [] [] None []))"
  have "exec ?M [skip_test] skip_env' (stmt_reads skip_env' (header_expressions [skip_marker] ?args None) @ [])
      (skip_env'(''test'' := Some (None, skip_test, None))) True"
    by (rule exec.definition_stmt[OF _ _ _ _ exec.finish]) (auto simp: skip_eval)
  then have "exec ?M [?call, skip_test] skip_env' (tl skip_reads) (skip_env'(''test'' := Some (None, skip_test, None))) True"
    by (rule exec_stepI) (simp_all add: skip_reads_def skip_env'_def skip_env_def skip_eval)
  note rest = this
  have "exec ?M [skip_alias] skip_env [hd skip_reads] skip_env' True"
    by (rule exec_stepI[OF exec.finish]) (simp_all add: skip_reads_def skip_env'_def skip_env_def skip_eval)
  then have "exec ?M [skip_branch, ?call, skip_test] skip_env (name_reads skip_env (name_at 7 2 Load ''ready'') @
      [hd skip_reads] @ tl skip_reads) (skip_env'(''test'' := Some (None, skip_test, None))) True"
    by (intro exec.branch[OF _ _ _ _ rest]) (auto simp: skip_eval)
  then show ?thesis
    by (rule exec_stepI) (auto simp: skip_env_def skip_eval skip_reads_def split_pytest)
qed

lemma module_denotes:
  assumes "shape tree = Plain (NModule body)" "distinct (map node_id (subtree tree))"
    and "exec (modname, package) body (\<lambda>_. None) us \<rho> ok" "denotes us {} e name"
  shows "name \<in> resolved_names (scopes tree modname package) {} e"
  using denotes_resolved[OF module_reads_covered[OF assms(1-3)] assms(4)] by blast

definition forbidden_calls :: "string list set" where
  "forbidden_calls = {[''pytest'', ''skip''], [''DynamicClient'']} \<union> DYNAMIC_CLIENT_NAMES"

lemma forbidden_call_message:
  assumes "name \<in> resolved_names scs {} f" "name \<in> forbidden_calls"
  shows "\<exists>msg. call_message scs f = Some msg"
  using assms by (auto simp: call_message_def is_dynamic_client_call_def is_pytest_skip_call_def forbidden_calls_def)

lemma forbidden_call_checked:
  assumes "shape tree = Plain (NModule body)" "distinct (map node_id (subtree tree))"
    and "exec (modname, package) body (\<lambda>_. None) us \<rho> ok" "denotes us {} f name" "name \<in> forbidden_calls"
    and "n \<in> set (subtree tree)" "as_call n = Some (f, args, kws)" "node_intersects added n"
  shows "\<exists>msg \<in> {DYNAMIC_CLIENT_MESSAGE, skip_call_message}.
    violation_at p n msg \<in> set (check_ast_nodes p (scopes tree modname package) added tree)"
proof -
  let ?scs = "scopes tree modname package"
  obtain msg where msg: "call_message ?scs f = Some msg"
    using forbidden_call_message[OF module_denotes[OF assms(1-4)] assms(5)] by blast
  then have "msg \<in> {DYNAMIC_CLIENT_MESSAGE, skip_call_message}" by (auto simp: call_message_def split: if_splits)
  moreover have "violation_at p n msg \<in> set (check_ast_node p ?scs added n)"
    using assms(7,8) msg
    by (simp add: check_ast_node_def check_call_def node_or_dependency_intersects_def node_views)
  ultimately show ?thesis using assms(6) by (auto simp: check_ast_nodes_def set_walk_tree)
qed

text \<open>
  C14. A module-level call whose function denotes \<open>pytest.skip\<close> or \<open>DynamicClient\<close>, through imports
  and any chain of aliases, in an execution (\<^const>\<open>exec\<close>) of the module's straight-line code up to the
  call, is reported when it touches an added line or the whole file is checked. Straight-line code is assignments
  to names, expression statements, imports without \<open>*\<close>, \<open>if\<close> with either branch taken, and the headers
  of functions and classes; calls in the bodies of loops, \<open>try\<close>, \<open>with\<close>, functions and classes are not
  covered, nor calls after such a loop, \<open>try\<close> or \<open>with\<close>.
\<close>

theorem forbidden_call_reported:
  assumes "shape tree = Plain (NModule body)" "distinct (map node_id (subtree tree))"
    and "exec (modname, package) body (\<lambda>_. None) us \<rho> ok" "denotes us {} f name" "name \<in> forbidden_calls"
    and "n \<in> set (subtree tree)" "as_call n = Some (f, args, kws)" "node_intersects added n"
  shows "\<exists>msg \<in> {DYNAMIC_CLIENT_MESSAGE, skip_call_message}.
    violation_at p n msg \<in> set (check_ast_nodes p (scopes tree modname package) added tree)"
  by (rule forbidden_call_checked[OF assms])

lemma skip_names:
  "denotes skip_reads {} skip_function [''pytest'', ''skip'']"
  "denotes skip_reads {} skip_marker [''pytest'', ''mark'', ''skip'']"
proof -
  have "denotes skip_reads {4} skip_value ([''pytest''] @ tl [''pytest'', ''skip''])"
    by (rule denotes.imported[where m = "name_at 3 3 Load ''pytest''" and nd = skip_import and v = None])
      (simp_all add: skip_reads_def skip_eval dotted_name.simps root_name.simps)
  then have "denotes skip_reads {} skip_function ([''pytest'', ''skip''] @ tl [''stop''])"
    by (intro denotes.aliased[of _ _ skip_function skip_value skip_alias])
      (simp_all add: skip_reads_def skip_eval dotted_name.simps root_name.simps)
  then show "denotes skip_reads {} skip_function [''pytest'', ''skip'']" by simp
  have "denotes skip_reads {} skip_marker ([''pytest''] @ tl [''pytest'', ''mark'', ''skip''])"
    by (rule denotes.imported[where m = "name_at 12 5 Load ''pytest''" and nd = skip_import and v = None])
      (simp_all add: skip_reads_def skip_eval dotted_name.simps root_name.simps)
  then show "denotes skip_reads {} skip_marker [''pytest'', ''mark'', ''skip'']" by simp
qed

lemma skip_module_shape:
  "shape skip_module = Plain (NModule skip_body)" "distinct (map node_id (subtree skip_module))"
  by (simp_all add: skip_eval)

lemma skip_module_nodes: "skip_call \<in> set (subtree skip_module)" "skip_test \<in> set (subtree skip_module)"
  by (simp_all add: skip_eval)

theorem forbidden_call_reported_witness:
  "\<exists>msg \<in> {DYNAMIC_CLIENT_MESSAGE, skip_call_message}. violation_at [''tests'', ''a.py''] skip_call msg \<in>
     set (check_ast_nodes [''tests'', ''a.py''] (scopes skip_module [''tests''] False) (Some {4}) skip_module)"
  by (rule forbidden_call_reported[OF skip_module_shape skip_module_runs skip_names(1) _ skip_module_nodes(1), of "[]" "[]"])
    (simp_all add: forbidden_calls_def node_intersects_def skip_eval)

text \<open>
  C15. A decorator, called or not, of a top-level function or class (or of one in a branch of a
  top-level \<open>if\<close>) that denotes \<open>pytest.mark.skip\<close> or \<open>pytest.mark.skipif\<close> in an execution (\<^const>\<open>exec\<close>) of the
  module's straight-line code is reported when it touches an added line or the whole file is checked.
  The header of the definition must not mention its own name. Decorators of methods are not covered.
\<close>

theorem skip_decorator_reported:
  assumes "shape tree = Plain (NModule body)" "distinct (map node_id (subtree tree))"
    and "exec (modname, package) body (\<lambda>_. None) us \<rho> ok" "denotes us {} (marker_of d) name"
    and "name \<in> FORBIDDEN_SKIP_MARKERS" "n \<in> set (subtree tree)"
    and "(\<exists>a x ar bo r t. shape n = Stmt (NFunctionDef a x ar bo decs r t)) \<or>
      (\<exists>x ba k bo t. shape n = Stmt (NClassDef x ba k bo decs t))"
    and "d \<in> set decs" "node_intersects added d"
  shows "violation_at p d skip_marker_message \<in> set (check_ast_nodes p (scopes tree modname package) added tree)"
proof -
  let ?scs = "scopes tree modname package"
  have "is_forbidden_skip_decorator ?scs {} d"
    using module_denotes[OF assms(1-4)] assms(5) by (auto simp: is_forbidden_skip_decorator.simps)
  then have "violation_at p d skip_marker_message \<in> set (check_ast_node p ?scs added n)"
    using assms(7-9) by (auto simp: check_ast_node_def check_decorators_def node_or_dependency_intersects_def)
  then show ?thesis using assms(6) by (auto simp: check_ast_nodes_def set_walk_tree)
qed

theorem skip_decorator_reported_witness:
  "violation_at [''tests'', ''a.py''] skip_marker skip_marker_message \<in>
     set (check_ast_nodes [''tests'', ''a.py''] (scopes skip_module [''tests''] False) None skip_module)"
proof -
  have "denotes skip_reads {} (marker_of skip_marker) [''pytest'', ''mark'', ''skip'']"
    using skip_names(2) by (simp add: marker_of_def skip_eval)
  then show ?thesis
    by (rule skip_decorator_reported[OF skip_module_shape skip_module_runs _ _ skip_module_nodes(2), of _ _ "[skip_marker]"])
      (auto simp: FORBIDDEN_SKIP_MARKERS_def node_intersects_def skip_test_def at_line_def)
qed

end
