(* ===== verification/BasicsProps.thy ===== *)
theory BasicsProps
  imports BannedChecks SourceProps
begin

text \<open>
  Properties of the mechanical rules: folded constants are the values of their expressions, a
  marker of special hardware is covered by what encloses it, and a file that passes the checks of
  whole files has none of the banned constructs.
\<close>

section \<open>Constants\<close>

text \<open>The value of a constant expression, without the limits of the check.\<close>

inductive evaluates :: "node \<Rightarrow> pconstant \<Rightarrow> bool" where
  literal: "shape n = Expr (NConstant k) \<Longrightarrow> evaluates n k"
| text_sum: "shape n = Expr (NBinOp True l r) \<Longrightarrow> evaluates l (KStr a) \<Longrightarrow> evaluates r (KStr b) \<Longrightarrow>
    evaluates n (KStr (a @ b))"
| int_sum: "shape n = Expr (NBinOp True l r) \<Longrightarrow> evaluates l (KInt i) \<Longrightarrow> evaluates r (KInt j) \<Longrightarrow>
    evaluates n (KInt (i + j))"
| formatted: "shape n = Expr (NFormattedValue v (-1) None) \<Longrightarrow> evaluates v (KStr s) \<Longrightarrow> evaluates n (KStr s)"
| joined: "shape n = Expr (NJoinedStr vs) \<Longrightarrow> list_all2 (\<lambda>v s. evaluates v (KStr s)) vs ss \<Longrightarrow>
    evaluates n (KStr (concat ss))"

definition within_limits :: "pconstant \<Rightarrow> bool" where
  "within_limits k =
     (case k of
        KStr s \<Rightarrow> length s \<le> MAX_CONSTANT_STRING_LENGTH
      | KBytes s \<Rightarrow> length s \<le> MAX_CONSTANT_STRING_LENGTH
      | KInt i \<Rightarrow> fits_bits MAX_CONSTANT_INTEGER_BITS i
      | _ \<Rightarrow> True)"

lemma constant_value_Some: "constant_value k = Some k' \<longleftrightarrow> k' = k \<and> within_limits k"
  by (cases k) (auto simp: constant_value_def within_limits_def)

lemma add_constants_Some:
  "add_constants l r = Some k \<longleftrightarrow> within_limits k \<and>
     ((\<exists>a b. l = Some (KStr a) \<and> r = Some (KStr b) \<and> k = KStr (a @ b)) \<or>
      (\<exists>i j. l = Some (KInt i) \<and> r = Some (KInt j) \<and> k = KInt (i + j)))"
  by (auto simp: add_constants_def within_limits_def split: option.splits pconstant.splits)

lemma join_constants_Some:
  "join_constants len vs = Some s \<longleftrightarrow>
     (\<exists>ss. vs = map (\<lambda>x. Some (KStr x)) ss \<and> s = concat ss \<and>
       (vs \<noteq> [] \<longrightarrow> len + length s \<le> MAX_CONSTANT_STRING_LENGTH))"
proof (induction len vs arbitrary: s rule: join_constants.induct)
  case (2 len x vs)
  show ?case
  proof
    assume "join_constants len (Some (KStr x) # vs) = Some s"
    then obtain s' where s': "join_constants (len + length x) vs = Some s'" "s = x @ s'"
      "len + length x \<le> MAX_CONSTANT_STRING_LENGTH"
      by (auto split: if_splits)
    then obtain ss where "vs = map (\<lambda>x. Some (KStr x)) ss" "s' = concat ss"
      "vs \<noteq> [] \<longrightarrow> len + length x + length s' \<le> MAX_CONSTANT_STRING_LENGTH"
      using 2 by auto
    with s' show "\<exists>ss. Some (KStr x) # vs = map (\<lambda>x. Some (KStr x)) ss \<and> s = concat ss \<and>
       (Some (KStr x) # vs \<noteq> [] \<longrightarrow> len + length s \<le> MAX_CONSTANT_STRING_LENGTH)"
      by (intro exI[of _ "x # ss"]) (cases vs; auto)
  next
    assume "\<exists>ss. Some (KStr x) # vs = map (\<lambda>x. Some (KStr x)) ss \<and> s = concat ss \<and>
       (Some (KStr x) # vs \<noteq> [] \<longrightarrow> len + length s \<le> MAX_CONSTANT_STRING_LENGTH)"
    then obtain ss where "vs = map (\<lambda>x. Some (KStr x)) ss" "s = x @ concat ss"
      "len + length s \<le> MAX_CONSTANT_STRING_LENGTH"
      by (auto simp: Cons_eq_map_conv)
    then show "join_constants len (Some (KStr x) # vs) = Some s"
      using 2[of "concat ss"] by auto
  qed
qed auto

lemma resolve_evaluates: "resolve_constant_expression d n = Some k \<Longrightarrow> evaluates n k \<and> within_limits k"
proof (induction d n arbitrary: k rule: resolve_constant_expression.induct)
  case (1 d n)
  from "1.prems" have d: "\<not> d > MAX_CONSTANT_DEPTH"
    by (subst (asm) resolve_constant_expression.simps) (simp split: if_splits)
  from "1.prems" consider
      (const) "shape n = Expr (NConstant k)" "within_limits k"
    | (sum) l r where "shape n = Expr (NBinOp True l r)"
        "add_constants (resolve_constant_expression (d + 1) l) (resolve_constant_expression (d + 1) r) = Some k"
    | (formatted_value) v s where "shape n = Expr (NFormattedValue v (-1) None)" "resolve_constant_expression (d + 1) v = Some (KStr s)"
        "k = KStr s"
    | (join) vs s where "shape n = Expr (NJoinedStr vs)" "k = KStr s"
        "join_constants 0 (map (resolve_constant_expression (d + 1)) vs) = Some s"
    using d by (subst (asm) resolve_constant_expression.simps)
      (auto simp: constant_value_Some split: shape.splits expr.splits bool.splits if_splits option.splits pconstant.splits)
  then show ?case
  proof cases
    case const
    then show ?thesis by (auto intro: evaluates.intros)
  next
    case sum
    then show ?thesis
      using "1.IH"(1,2)[OF d sum(1) refl refl] by (auto simp: add_constants_Some intro: evaluates.intros)
  next
    case formatted_value
    then show ?thesis using "1.IH"(3)[OF d formatted_value(1) refl] by (auto intro: evaluates.intros)
  next
    case join
    then obtain ss where ss: "map (resolve_constant_expression (d + 1)) vs = map (\<lambda>x. Some (KStr x)) ss" "s = concat ss"
      "vs \<noteq> [] \<longrightarrow> length s \<le> MAX_CONSTANT_STRING_LENGTH"
      by (auto simp: join_constants_Some)
    have "list_all2 (\<lambda>v s. evaluates v (KStr s)) vs ss"
    proof (rule list_all2_all_nthI)
      show "length vs = length ss" using ss(1) map_eq_imp_length_eq by blast
      fix i assume i: "i < length vs"
      then have "resolve_constant_expression (d + 1) (vs ! i) = Some (KStr (ss ! i))"
        using ss(1) \<open>length vs = length ss\<close> by (metis nth_map)
      then show "evaluates (vs ! i) (KStr (ss ! i))"
        using "1.IH"(4)[OF d join(1) refl] i by auto
    qed
    then have "evaluates n (KStr s)" unfolding ss(2) by (rule evaluates.joined[OF join(1)])
    then show ?thesis using join ss by (cases vs) (auto simp: within_limits_def)
  qed
qed

lemma evaluates_shapes:
  "shape n = Expr (NConstant k) \<Longrightarrow> evaluates n k' \<longleftrightarrow> k' = k"
  "shape n = Expr (NBinOp True l r) \<Longrightarrow> evaluates n k' \<longleftrightarrow>
    (\<exists>a b. evaluates l (KStr a) \<and> evaluates r (KStr b) \<and> k' = KStr (a @ b)) \<or>
    (\<exists>i j. evaluates l (KInt i) \<and> evaluates r (KInt j) \<and> k' = KInt (i + j))"
  "shape n = Expr (NFormattedValue v (-1) None) \<Longrightarrow> evaluates n k' \<longleftrightarrow> (\<exists>s. evaluates v (KStr s) \<and> k' = KStr s)"
  "shape n = Expr (NJoinedStr vs) \<Longrightarrow> evaluates n k' \<longleftrightarrow>
    (\<exists>ss. list_all2 (\<lambda>v s. evaluates v (KStr s)) vs ss \<and> k' = KStr (concat ss))"
  by (auto simp: evaluates.simps[of n])

lemma evaluates_fun: "evaluates n k \<Longrightarrow> evaluates n k' \<Longrightarrow> k = k'"
proof (induction arbitrary: k' rule: evaluates.induct)
  case (literal n k)
  then show ?case by (simp add: evaluates_shapes(1))
next
  case (text_sum n l r a b)
  from text_sum.prems show ?case by (auto simp: evaluates_shapes(2)[OF text_sum.hyps(1)] dest!: text_sum.IH)
next
  case (int_sum n l r i j)
  from int_sum.prems show ?case by (auto simp: evaluates_shapes(2)[OF int_sum.hyps(1)] dest!: int_sum.IH)
next
  case (formatted n v s)
  from formatted.prems show ?case by (auto simp: evaluates_shapes(3)[OF formatted.hyps(1)] dest!: formatted.IH)
next
  case (joined n vs ss)
  from joined.prems obtain ss' where k': "k' = KStr (concat ss')" "list_all2 (\<lambda>v s. evaluates v (KStr s)) vs ss'"
    by (auto simp: evaluates_shapes(4)[OF joined.hyps(1)])
  have "ss = ss'"
    by (rule nth_equalityI) (use joined.IH k'(2) in \<open>force simp: list_all2_conv_all_nth\<close>)+
  then show ?case using k'(1) by simp
qed

text \<open>
  C27. A constant that the check folds is the value of its expression, which is unique, and it
  stays within the limits: texts of at most 4096 characters and integers of at most 256 bits.
\<close>

theorem folded_constant_exact:
  assumes "resolve_constant_expression depth n = Some k"
  shows "(\<forall>k'. evaluates n k' \<longleftrightarrow> k' = k) \<and>
    (case k of KStr s \<Rightarrow> length s \<le> 4096 | KBytes s \<Rightarrow> length s \<le> 4096 | KInt i \<Rightarrow> \<bar>i\<bar> < 2 ^ 256 | _ \<Rightarrow> True)"
  using resolve_evaluates[OF assms] evaluates_fun
  by (auto simp: within_limits_def MAX_CONSTANT_STRING_LENGTH_def MAX_CONSTANT_INTEGER_BITS_def fits_bits_def
      split: pconstant.splits)

theorem folded_constant_exact_witness:
  "(\<forall>k'. evaluates (at_line 1 1 (Expr (NBinOp True (at_line 2 1 (Expr (NConstant (KStr ''.''))))
     (at_line 3 1 (Expr (NConstant (KStr ''net''))))))) k' \<longleftrightarrow> k' = KStr ''.net'') \<and> length ''.net'' \<le> 4096"
proof -
  have "resolve_constant_expression 0 (at_line 1 1 (Expr (NBinOp True (at_line 2 1 (Expr (NConstant (KStr ''.''))))
     (at_line 3 1 (Expr (NConstant (KStr ''net''))))))) = Some (KStr ''.net'')"
    by code_simp
  from folded_constant_exact[OF this] show ?thesis by simp
qed

section \<open>Coverage of a marker\<close>

text \<open>
  A marker covers a node exactly when a value that the module assigns to \<open>pytestmark\<close>, as it
  stands at the end of the module, applies the marker, or a decorator of a function or class that contains the node.
\<close>

theorem marker_coverage_exact:
  assumes "distinct (map node_id (subtree tree))" "n \<in> set (subtree tree)"
  shows "marker \<in> scope_marker_chains tree resolve n \<longleftrightarrow>
    (\<exists>e \<in> set (module_mark_values tree). marker \<in> expression_marker_chains resolve e) \<or>
    (\<exists>q \<in> set (subtree tree). n \<in> below q \<and> (\<exists>d \<in> set (decorators_of q). marker \<in> expression_marker_chains resolve d))"
  using set_ancestors[OF assms] by (auto simp: scope_marker_chains_def)

theorem marker_coverage_exact_witness:
  "[''pytest'', ''mark'', ''skip''] \<in> scope_marker_chains skip_module (simple_name_resolver skip_module)
     (at_line 15 6 (Stmt NPass))"
proof -
  have "\<exists>d \<in> set (decorators_of skip_test). [''pytest'', ''mark'', ''skip''] \<in> expression_marker_chains (simple_name_resolver skip_module) d"
    by code_simp
  moreover have "at_line 15 6 (Stmt NPass) \<in> below skip_test" by (auto simp: below_unfold skip_nodes children_def)
  moreover have "at_line 15 6 (Stmt NPass) \<in> set (subtree skip_module)" by (simp add: skip_eval)
  ultimately show ?thesis
    using marker_coverage_exact[OF skip_module_shape(2), of "at_line 15 6 (Stmt NPass)"] skip_module_nodes(2) by blast
qed

section \<open>Banned constructs\<close>

definition async_construct :: "node \<Rightarrow> bool" where
  "async_construct n =
     (case shape n of
        Stmt (NFunctionDef is_async _ _ _ _ _ _) \<Rightarrow> is_async
      | Stmt (NFor is_async _ _ _ _) \<Rightarrow> is_async
      | Stmt (NWith is_async _ _) \<Rightarrow> is_async
      | Expr (NAwait _) \<Rightarrow> True
      | Expr (NComp _ _ generators) \<Rightarrow> has_async_generator generators
      | _ \<Rightarrow> False)"

text \<open>
  Trees as the parser builds them: the arguments of a function are an \<open>arguments\<close> node of \<open>arg\<close>
  nodes.
\<close>

definition is_arguments :: "node \<Rightarrow> bool" where
  "is_arguments n \<longleftrightarrow>
     (\<exists>po ar va ko kd kw d. shape n = Plain (NArguments po ar va ko kd kw d)) \<and>
     list_all (\<lambda>a. as_arg a \<noteq> None) (function_arguments n)"

definition parsed_functions :: "node \<Rightarrow> bool" where
  "parsed_functions tree \<longleftrightarrow>
     (\<forall>n \<in> set (subtree tree). \<forall>a x args body decs r tps.
        shape n = Stmt (NFunctionDef a x args body decs r tps) \<longrightarrow> is_arguments args)"

text \<open>
  The nodes of a tree outside the type parameters of its functions (\<open>def f[T: bound]\<close>), which the visitor
  passes by. It does visit the type parameters of classes and of \<open>type\<close> statements.
\<close>

inductive outside_type_parameters :: "node \<Rightarrow> node \<Rightarrow> bool" where
  here: "outside_type_parameters n n"
| child: "outside_type_parameters n m" if "as_function n = None" "c \<in> set (children n)" "outside_type_parameters c m"
| in_function: "outside_type_parameters n m"
    if "shape n = Stmt (NFunctionDef a x args body decs r tps)" "c \<in> {args} \<union> set body \<union> set decs \<union> set_option r"
      "outside_type_parameters c m"

inductive_cases outside_from: "outside_type_parameters n m"

lemma parsed_functions_sub: "parsed_functions tree \<Longrightarrow> n \<in> set (subtree tree) \<Longrightarrow> parsed_functions n"
  using subtree_trans[of n tree] by (auto simp: parsed_functions_def)

lemma async_message:
  assumes "async_construct n" "as_function n = None"
  shows "\<exists>msg \<in> BANNED_CONSTRUCT_MESSAGES. basics_message None n = Some msg"
  using assms
  by (auto simp: async_construct_def as_function_def basics_message_def BANNED_CONSTRUCT_MESSAGES_def node_intersects_def
      line_added_def split: shape.splits stmt.splits expr.splits bool.splits)

lemma not_function:
  "is_arguments n \<Longrightarrow> as_function n = None" "as_arg n = Some v \<Longrightarrow> as_function n = None"
  by (auto simp: is_arguments_def as_function_def as_arg_def split: shape.splits)

lemma outside_non_function:
  assumes "outside_type_parameters n m" "as_function n = None" "m \<noteq> n"
  shows "\<exists>c \<in> set (children n). outside_type_parameters c m"
  using assms(1) by (rule outside_from) (use assms(2,3) in \<open>auto simp: as_function_def\<close>)

lemma arguments_outside:
  assumes "is_arguments args" "outside_type_parameters args m"
  shows "m = args \<or> as_arg m \<noteq> None \<or> (\<exists>e \<in> set (function_header decs args r). outside_type_parameters e m)"
proof (cases "m = args")
  case False
  then obtain c where c: "c \<in> set (children args)" "outside_type_parameters c m"
    using outside_non_function[OF assms(2) not_function(1)[OF assms(1)]] by blast
  have "c \<in> set (function_arguments args) \<or> c \<in> set (argument_defaults args)"
    using assms(1) c(1) by (auto simp: is_arguments_def function_arguments_def argument_defaults_def children_def)
  then show ?thesis
  proof
    assume a: "c \<in> set (function_arguments args)"
    then obtain y ann where y: "as_arg c = Some (y, ann)" using assms(1) by (auto simp: is_arguments_def list_all_iff)
    show ?thesis
    proof (cases "m = c")
      case False
      then obtain e where e: "ann = Some e" "outside_type_parameters e m"
        using outside_non_function[OF c(2) not_function(2)[OF y]] by (auto simp: view_children(9)[OF y])
      then have "e \<in> set (function_header decs args r)"
        using a y by (force simp: function_header_def header_expressions_def)
      then show ?thesis using e(2) by blast
    qed (simp add: y)
  qed (use c(2) in \<open>auto simp: function_header_def header_expressions_def\<close>)
qed simp

lemma visit_parts:
  "m \<in> set (function_header decs args r) \<Longrightarrow> as_function n = Some (a, x, args, body, decs, r) \<Longrightarrow>
     set (basics_visit p added m) \<subseteq> set (basics_visit p added n)"
  "m \<in> set body \<Longrightarrow> as_function n = Some (a, x, args, body, decs, r) \<Longrightarrow> \<not> (a \<and> line_added added n) \<Longrightarrow>
     set (basics_visit p added m) \<subseteq> set (basics_visit p added n)"
  "m \<in> set (children n) \<Longrightarrow> as_function n = None \<Longrightarrow> set (basics_visit p added m) \<subseteq> set (basics_visit p added n)"
  by (auto simp: basics_visit.simps[of p added n])

lemma async_reported:
  assumes "parsed_functions n" "outside_type_parameters n m" "async_construct m"
  shows "\<exists>v \<in> set (basics_visit p None n). message v \<in> BANNED_CONSTRUCT_MESSAGES"
  using assms(1,2)
proof (induction n rule: measure_induct_rule[of size])
  case (less n)
  have part: "\<exists>v \<in> set (basics_visit p None n). message v \<in> BANNED_CONSTRUCT_MESSAGES"
    if "set (basics_visit p None c) \<subseteq> set (basics_visit p None n)" "outside_type_parameters c m" "c \<in> set (subtree n)" "size c < size n" for c
    using less.IH[OF that(4) parsed_functions_sub[OF less.prems(1) that(3)] that(2)] that(1) by blast
  show ?case
  proof (cases "as_function n")
    case None
    show ?thesis
    proof (cases "m = n")
      case True
      then obtain msg where "msg \<in> BANNED_CONSTRUCT_MESSAGES" "basics_message None n = Some msg"
        using async_message[of n] assms(3) None by blast
      then show ?thesis by (subst basics_visit.simps) (auto simp: None violation_at_def)
    next
      case False
      then obtain c where c: "c \<in> set (children n)" "outside_type_parameters c m"
        using outside_non_function[OF less.prems(2) None] by blast
      then show ?thesis using part[of c] visit_parts(3)[OF c(1) None] child_size[OF c(1)] child_in_subtree[OF c(1) subtree_self] by blast
    qed
  next
    case (Some f)
    then obtain a x args body decs r where f: "as_function n = Some (a, x, args, body, decs, r)" by (cases f) auto
    show ?thesis
    proof (cases a)
      case True
      then have "violation_at p n ASYNC_FUNCTION_MESSAGE \<in> set (basics_visit p None n)"
        by (subst basics_visit.simps) (simp add: f line_added_def)
      then show ?thesis by (force simp: violation_at_def BANNED_CONSTRUCT_MESSAGES_def)
    next
      case False
      obtain tps where sh: "shape n = Stmt (NFunctionDef a x args body decs r tps)" using f by (auto simp: as_function_shape)
      then have ar: "is_arguments args" using less.prems(1) subtree_self[of n] unfolding parsed_functions_def by blast
      have m: "m \<noteq> n" "as_arg m = None" "m \<noteq> args"
        using assms(3) False ar sh
        by (auto simp: async_construct_def as_arg_def is_arguments_def split: shape.splits plain.splits)
      from less.prems(2) have "outside_type_parameters args m \<or>
          (\<exists>c \<in> set body \<union> set decs \<union> set_option r. outside_type_parameters c m)"
        by (rule outside_from) (use m f sh in auto)
      moreover have "set decs \<union> set_option r \<subseteq> set (function_header decs args r)"
        by (auto simp: function_header_def header_expressions_def)
      ultimately obtain c where c: "c \<in> set (function_header decs args r) \<or> c \<in> set body" "outside_type_parameters c m"
        using arguments_outside[OF ar] m(2,3) by blast
      have "set (basics_visit p None c) \<subseteq> set (basics_visit p None n)"
        using c(1) visit_parts(1,2)[OF _ f] False by blast
      moreover have "c \<in> set (subtree n)"
      proof -
        have "args \<in> set (children n)" "set decs \<union> set_option r \<union> set body \<subseteq> set (children n)"
          by (auto simp: children_def sh)
        then have "c \<in> set (children n) \<or> c \<in> set (children args) \<or> (\<exists>m \<in> set (children args). c \<in> set (children m))"
          using c(1) header_expressions_below[of decs args r] by (auto simp: function_header_def)
        then show ?thesis using \<open>args \<in> set (children n)\<close> by (metis child_in_subtree subtree_self)
      qed
      ultimately show ?thesis using part[OF _ c(2)] function_parts_size[OF f] c(1) by blast
    qed
  qed
qed

text \<open>The banned imports and calls; a name that is called is resolved through the scopes of the module.\<close>

definition banned_import_or_call :: "builder \<Rightarrow> node \<Rightarrow> bool" where
  "banned_import_or_call scs n \<longleftrightarrow>
     (\<exists>m names level. shape n = Stmt (NImportFrom m names level) \<and> level > 0) \<or>
     (\<exists>f args kws. as_call n = Some (f, args, kws) \<and>
        (is_dynamic_client_call scs f \<or> is_relative_dynamic_import (resolved_names scs {}) f args kws))"

lemma banned_reported:
  assumes "p \<noteq> []" "hd p \<in> CHECKED_ROOTS" "parsed_functions tree"
    and "outside_type_parameters tree n \<and> async_construct n \<or>
      n \<in> set (subtree tree) \<and> banned_import_or_call (scopes tree modname (is_package p)) n"
  shows "banned_in_tree p modname tree \<noteq> []"
proof -
  let ?scs = "scopes tree modname (is_package p)"
  let ?found = "check_test_basics p tree None (Some (resolved_names ?scs {})) None"
  consider (basics) v where "v \<in> set ?found" "message v \<in> BANNED_CONSTRUCT_MESSAGES"
    | (client) f args kws where "n \<in> set (subtree tree)" "as_call n = Some (f, args, kws)" "is_dynamic_client_call ?scs f"
    using assms(4) unfolding banned_import_or_call_def
  proof (elim disjE exE conjE)
    assume "outside_type_parameters tree n" "async_construct n"
    then obtain v where "v \<in> set (basics_visit p None tree)" "message v \<in> BANNED_CONSTRUCT_MESSAGES"
      using async_reported[OF assms(3)] by blast
    then show ?thesis using that(1)[of v] assms(1,2) by (simp add: check_test_basics_def Let_def)
  next
    fix m names level
    assume "n \<in> set (subtree tree)" "shape n = Stmt (NImportFrom m names level)" "level > 0"
    then have "violation_at p n RELATIVE_IMPORT_MESSAGE \<in> set ?found"
      by (auto simp: check_test_basics_def Let_def set_walk_tree node_intersects_def is_relative_import_def)
    then show ?thesis using that(1) by (simp add: violation_at_def BANNED_CONSTRUCT_MESSAGES_def)
  next
    fix f args kws
    assume "n \<in> set (subtree tree)" "as_call n = Some (f, args, kws)"
      "is_relative_dynamic_import (resolved_names ?scs {}) f args kws"
    then have "violation_at p n RELATIVE_IMPORT_MESSAGE \<in> set ?found"
      by (force simp: check_test_basics_def Let_def set_walk_tree node_intersects_def check_calls_def)
    then show ?thesis using that(1) by (simp add: violation_at_def BANNED_CONSTRUCT_MESSAGES_def)
  qed (rule that(2))
  then show ?thesis
  proof cases
    case basics
    then show ?thesis by (auto simp: banned_in_tree_def Let_def filter_empty_conv dest!: arg_cong[of _ _ length])
  next
    case client
    then have "violation_at p n DYNAMIC_CLIENT_MESSAGE \<in> set (banned_in_tree p modname tree)"
      by (force simp: banned_in_tree_def Let_def check_calls_def set_walk_tree)
    then show ?thesis by auto
  qed
qed

lemma banned_files_clean:
  assumes "banned_files wt selected names = Inr []" "name \<in> set names" "''banned-constructs'' \<in> selected"
    and "path_suffix (py_path name) = ''.py''"
  shows "banned_construct_violations_for_path wt (py_path name) = Inr []"
  using assms by (induction names) (auto simp: Let_def bind_res_Inr_iff)

lemma report_clean: "report_violations vs = (out, 0) \<Longrightarrow> vs = []"
  by (cases vs) (auto simp: report_violations_def Let_def split: if_splits dest!: arg_cong[of _ _ length])

text \<open>
  C26. When a run of the checks of whole files with the family \<open>banned-constructs\<close> selected succeeds,
  every Python file of the code roots it was given could be read and parsed, and has no relative
  import, no call that the scopes of the module resolve to a relative dynamic import or to
  \<open>DynamicClient\<close>, and, outside the type parameters of functions, no asynchronous function, loop,
  \<open>with\<close>, comprehension or \<open>await\<close>.
\<close>

theorem clean_run_bans_constructs:
  assumes "banned_main wt arguments = Inr (out, 0)"
    and "parse_check_arguments ''check_banned'' BANNED_FAMILIES arguments = Inr (names, selected)"
    and "''banned-constructs'' \<in> selected" "name \<in> set names" "path_suffix (py_path name) = ''.py''"
    and "hd (py_path name) \<in> CHECKED_ROOTS"
    and parser: "\<And>source tree. wt_parse wt source = Inr tree \<Longrightarrow> parsed_functions tree"
  shows "\<exists>source tree modname. wt_read_text wt (py_path name) = Inr source \<and> wt_parse wt source = Inr tree \<and>
    module_name_of (py_path name) = Inr modname \<and>
    (\<forall>n \<in> set (subtree tree). \<not> banned_import_or_call (scopes tree modname (is_package (py_path name))) n) \<and>
    (\<forall>n. outside_type_parameters tree n \<longrightarrow> \<not> async_construct n)"
proof -
  let ?p = "py_path name"
  have "?p \<noteq> []" using assms(5) by (auto simp: path_suffix_def path_name_def splitext_def)
  have "banned_files wt selected names = Inr []"
    using assms(1,2) report_clean by (auto simp: banned_main_def bind_res_Inr_iff)
  then have "banned_construct_violations_for_path wt ?p = Inr []" using banned_files_clean assms(3-5) by blast
  then obtain source tree modname where src: "wt_read_text wt ?p = Inr source" "wt_parse wt source = Inr tree"
    "module_name_of ?p = Inr modname" "banned_in_tree ?p modname tree = []"
    by (auto simp: banned_construct_violations_for_path_def banned_construct_violations_def
        split: sum.splits check_failure.splits)
  then have "\<forall>n \<in> set (subtree tree). \<not> banned_import_or_call (scopes tree modname (is_package ?p)) n"
    "\<forall>n. outside_type_parameters tree n \<longrightarrow> \<not> async_construct n"
    using banned_reported[OF \<open>?p \<noteq> []\<close> assms(6) parser[OF src(2)], of _ modname] by blast+
  with src show ?thesis by blast
qed

definition plain_module :: node where
  "plain_module = Node 0 None (Plain (NModule [skip_import]))"

definition plain_worktree :: worktree where
  "plain_worktree = \<lparr>wt_is_symlink = (\<lambda>_. False), wt_read_text = (\<lambda>_. Inr ''import pytest''), wt_parse = (\<lambda>_. Inr plain_module)\<rparr>"

lemma plain_module_parsed: "parsed_functions plain_module"
  by (simp add: parsed_functions_def plain_module_def skip_nodes subtree.simps children_def)

lemma plain_run:
  "banned_main plain_worktree [''tests/net/test_a.py''] = Inr ([], 0)"
  "parse_check_arguments ''check_banned'' BANNED_FAMILIES [''tests/net/test_a.py''] =
     Inr ([''tests/net/test_a.py''], set BANNED_FAMILIES)"
  "path_suffix (py_path ''tests/net/test_a.py'') = ''.py''" "hd (py_path ''tests/net/test_a.py'') \<in> CHECKED_ROOTS"
  by code_simp+

theorem clean_run_bans_constructs_witness:
  "\<exists>source tree modname. wt_read_text plain_worktree (py_path ''tests/net/test_a.py'') = Inr source \<and>
    wt_parse plain_worktree source = Inr tree \<and> module_name_of (py_path ''tests/net/test_a.py'') = Inr modname \<and>
    (\<forall>n \<in> set (subtree tree).
       \<not> banned_import_or_call (scopes tree modname (is_package (py_path ''tests/net/test_a.py''))) n) \<and>
    (\<forall>n. outside_type_parameters tree n \<longrightarrow> \<not> async_construct n)"
  by (rule clean_run_bans_constructs[OF plain_run(1,2) _ _ plain_run(3,4)])
    (auto simp: BANNED_FAMILIES_def plain_worktree_def plain_module_parsed)

end
