(* ===== verification/ResourceClients.thy ===== *)
theory ResourceClients
  imports BannedChecks
begin

text \<open>
  Explicit clients for resource operations and comments at calls of \<open>cache_admin_client\<close>
  (\<open>scripts/pre_commit_hooks/check_resource_clients.py\<close>). The subclasses of \<open>Resource\<close> are found by
  reading the sources of the installed package \<open>ocp_resources\<close> and of local modules. The files of
  the package and of the local roots, the parser, the tokenizer and \<open>ast.dump\<close> are functions of an
  environment; the reader of staged modules is an argument, as in the code.
\<close>

section \<open>Data\<close>

datatype token_kind = COMMENT | OP | OtherToken

record token_info =
  tk_kind :: token_kind
  tk_string :: string
  tk_start :: "nat \<times> nat"
  tk_end :: "nat \<times> nat"
  tk_line :: string

record resource_env =
  re_parse :: parser
  re_tokens :: "string \<Rightarrow> token_info list"
  re_dump :: "node \<Rightarrow> string"
  package_files :: "(path \<times> string) list option"
  local_files :: "string \<Rightarrow> (path \<times> string) list"

record class_record =
  qualified_name :: "string list"
  record_bases :: "string list list"

record source_comment =
  cm_line :: nat
  cm_column :: nat
  cm_text :: string
  comment_only :: bool

definition RESOURCE_BASES :: "string list list" where
  "RESOURCE_BASES =
     [[''ocp_resources'', ''resource'', ''Resource''], [''ocp_resources'', ''resource'', ''NamespacedResource'']]"

definition LOCAL_ROOTS :: "string list" where
  "LOCAL_ROOTS = [''libs'', ''tests'', ''utilities'']"

definition CACHE_ADMIN_CLIENT :: "string list" where
  "CACHE_ADMIN_CLIENT = [''utilities'', ''cluster'', ''cache_admin_client'']"

definition CACHE_COMMENT_MESSAGE :: string where
  "CACHE_COMMENT_MESSAGE =
     ''resource-clients/cache-admin-client: add an immediate or inline comment explaining why '' @
     ''cache_admin_client() is required at this call site''"

section \<open>Statements of a scope\<close>

text \<open>The statements below a node, except below definitions.\<close>

function nested_statements :: "node \<Rightarrow> node list" where
  "nested_statements n =
     concat (map (\<lambda>c. (if is_stmt c then [c] else []) @
                      (if is_stmt c \<and> opens_scope c then [] else nested_statements c)) (children n))"
  by pat_completeness auto
termination by (relation "measure size") (auto simp: child_size)

declare nested_statements.simps [simp del]

definition all_scope_statements :: "node list \<Rightarrow> node list" where
  "all_scope_statements ss = concat (map (\<lambda>s. s # (if opens_scope s then [] else nested_statements s)) ss)"

section \<open>Classes of a module\<close>

type_synonym candidates = "(string \<times> string list list) list"

definition candidate_applies :: "name_bindings \<Rightarrow> string list \<Rightarrow> string \<times> string list list \<Rightarrow> bool" where
  "candidate_applies bs resolved c =
     (case map_of bs (fst c) of
        None \<Rightarrow> False
      | Some b \<Rightarrow> b \<noteq> [] \<and> take (length b) resolved = b)"

definition resolved_candidates :: "name_bindings \<Rightarrow> candidates \<Rightarrow> node \<Rightarrow> string list list" where
  "resolved_candidates bs cands n =
     (case resolve_syntax bs n of
        None \<Rightarrow> []
      | Some resolved \<Rightarrow>
          (case List.find (candidate_applies bs resolved) cands of
             None \<Rightarrow> [resolved]
           | Some (x, cs) \<Rightarrow> map (\<lambda>c. c @ drop (length (the (map_of bs x))) resolved) cs))"

record class_state =
  cs_bindings :: name_bindings
  cs_candidates :: candidates
  cs_records :: "class_record list"

definition bind_candidates :: "string \<Rightarrow> string list list \<Rightarrow> class_state \<Rightarrow> class_state" where
  "bind_candidates x cs st =
     st\<lparr>cs_bindings := AList.update x (hd cs) (cs_bindings st), cs_candidates := AList.update x cs (cs_candidates st)\<rparr>"

definition add_record :: "string list \<Rightarrow> string \<Rightarrow> string list list \<Rightarrow> class_state \<Rightarrow> class_state" where
  "add_record modname x bs st =
     st\<lparr>cs_records := cs_records st @ [\<lparr>qualified_name = modname @ [x], record_bases = bs\<rparr>]\<rparr>"

definition import_prefixes :: "string list \<Rightarrow> string option \<Rightarrow> nat \<Rightarrow> string list list" where
  "import_prefixes modname module level =
     (case module of
        Some m \<Rightarrow> if level = 0 \<and> m \<noteq> [] then [py_split ''.'' m] else relative_import_prefixes modname module level
      | None \<Rightarrow> relative_import_prefixes modname module level)"

definition local_base :: "string list \<Rightarrow> string set \<Rightarrow> string list \<Rightarrow> string list" where
  "local_base modname local_classes c = (if length c = 1 \<and> hd c \<in> local_classes then modname @ c else c)"

definition class_statement :: "string list \<Rightarrow> string set \<Rightarrow> node \<Rightarrow> class_state \<Rightarrow> class_state" where
  "class_statement modname local_classes n st =
     (case shape n of
        Stmt (NImport names) \<Rightarrow>
          fold (\<lambda>al. bind_candidates (fst (local_import al)) [snd (local_import al)]) names st
      | Stmt (NImportFrom module names level) \<Rightarrow>
          (let prefixes = import_prefixes modname module level
           in fold (\<lambda>al st. if fst al = ''*'' then st
                else (let imported = map (\<lambda>p. p @ [fst al]) prefixes;
                          st' = add_record modname (from_name al) imported st
                      in if imported = [] then st' else bind_candidates (from_name al) imported st'))
                names st)
      | Stmt (NClassDef x bases _ _ _ _) \<Rightarrow>
          (let resolved = concat (map (resolved_candidates (cs_bindings st) (cs_candidates st)) bases)
           in bind_candidates x [modname @ [x]] (add_record modname x (map (local_base modname local_classes) resolved) st))
      | Stmt (NAugAssign _ _) \<Rightarrow> st
      | _ \<Rightarrow>
          (case assignment_parts n of
             None \<Rightarrow> st
           | Some (targets, v) \<Rightarrow>
               (let resolved = (case v of None \<Rightarrow> [] | Some w \<Rightarrow> resolved_candidates (cs_bindings st) (cs_candidates st) w)
                in fold (\<lambda>t st. case as_name t of
                           Some (x, _) \<Rightarrow> if resolved = [] then st else add_record modname x resolved (bind_candidates x resolved st)
                         | None \<Rightarrow> st) targets st)))"

definition class_names :: "node list \<Rightarrow> string set" where
  "class_names ss = set (List.map_filter (\<lambda>n. map_option fst (as_class n)) ss)"

definition class_records :: "string list \<Rightarrow> node \<Rightarrow> class_record list" where
  "class_records modname tree =
     (let statements = all_scope_statements (module_body tree);
          imported = import_bindings tree
      in cs_records (fold (class_statement modname (class_names statements)) statements
           \<lparr>cs_bindings = imported, cs_candidates = map (\<lambda>(x, b). (x, [b])) imported, cs_records = []\<rparr>))"

section \<open>Sources of classes\<close>

definition file_module :: "string list \<Rightarrow> path \<Rightarrow> string list res" where
  "file_module prefx p = bind_res (module_name_of p) (\<lambda>parts. Inr (prefx @ parts))"

fun records_under :: "parser \<Rightarrow> string list \<Rightarrow> (path \<times> string) list \<Rightarrow> class_record list res" where
  "records_under parse prefx [] = Inr []"
| "records_under parse prefx ((p, source) # files) =
     (if \<not> py_in ''class '' source then records_under parse prefx files
      else bind_res (file_module prefx p) (\<lambda>modname.
           bind_res (parse_tree parse source) (\<lambda>tree.
           bind_res (records_under parse prefx files) (\<lambda>rest. Inr (class_records modname tree @ rest)))))"

definition statement_modules :: "string list \<Rightarrow> node \<Rightarrow> string list set" where
  "statement_modules modname n =
     (case shape n of
        Stmt (NImport names) \<Rightarrow> (\<lambda>al. py_split ''.'' (fst al)) ` set names
      | Stmt (NImportFrom module names level) \<Rightarrow>
          (\<Union>p \<in> set (import_prefixes modname module level).
             insert p ((\<lambda>al. p @ [fst al]) ` {al \<in> set names. fst al \<noteq> ''*''}))
      | _ \<Rightarrow> {})"

definition imported_module_names :: "string list \<Rightarrow> node \<Rightarrow> string list set" where
  "imported_module_names modname tree = (\<Union>n \<in> set (all_scope_statements (module_body tree)). statement_modules modname n)"

type_synonym source_reader = "string list \<Rightarrow> string option res"

definition is_local :: "string list \<Rightarrow> bool" where
  "is_local name \<longleftrightarrow> name \<noteq> [] \<and> hd name \<in> set LOCAL_ROOTS"

text \<open>
  The modules that a visited module leads to. The code appends the imported modules in the order of
  a set, which Python leaves open; here they are sorted.
\<close>

definition found_modules :: "string list set \<Rightarrow> string list \<Rightarrow> node \<Rightarrow> class_record list \<Rightarrow> string list list" where
  "found_modules visited modname tree records =
     filter (\<lambda>name. is_local name \<and> name \<notin> visited) (sorted_list_of_set (imported_module_names modname tree)) @
     [butlast b. r \<leftarrow> records, b \<leftarrow> record_bases r, length b > 1 \<and> is_local b \<and> butlast b \<notin> visited]"

partial_function (option) targeted_loop ::
    "parser \<Rightarrow> source_reader \<Rightarrow> string list list \<Rightarrow> string list set \<Rightarrow> class_record list \<Rightarrow> class_record list res option" where
  "targeted_loop parse reader pending visited records =
     (if pending = [] then Some (Inr records)
      else (let modname = last pending; rest = butlast pending
            in if modname \<in> visited then targeted_loop parse reader rest visited records
               else (case reader modname of
                       Inl e \<Rightarrow> Some (Inl e)
                     | Inr None \<Rightarrow> targeted_loop parse reader rest (insert modname visited) records
                     | Inr (Some source) \<Rightarrow>
                         (case parse_tree parse source of
                            Inl e \<Rightarrow> Some (Inl e)
                          | Inr tree \<Rightarrow>
                              targeted_loop parse reader
                                (rest @ found_modules (insert modname visited) modname tree (class_records modname tree))
                                (insert modname visited) (records @ class_records modname tree)))))"

definition targeted_local_records :: "parser \<Rightarrow> source_reader \<Rightarrow> string list list \<Rightarrow> class_record list res option" where
  "targeted_local_records parse reader module_names = targeted_loop parse reader (filter is_local module_names) {} []"

section \<open>Subclasses of Resource\<close>

definition has_base_in :: "class_record \<Rightarrow> string list set \<Rightarrow> bool" where
  "has_base_in r resources = list_ex (\<lambda>b. b \<in> resources) (record_bases r)"

definition resource_closure :: "class_record list \<Rightarrow> string list set" where
  "resource_closure records = saturate qualified_name has_base_in records (set RESOURCE_BASES)"

text \<open>\<open>local_files\<close> of a root that is not a directory are none. The roots are a set in the code.\<close>

fun all_local_records :: "resource_env \<Rightarrow> string list \<Rightarrow> class_record list res" where
  "all_local_records env [] = Inr []"
| "all_local_records env (r # rs) =
     bind_res (records_under (re_parse env) [r] (local_files env r)) (\<lambda>records.
     bind_res (all_local_records env rs) (\<lambda>rest. Inr (records @ rest)))"

definition discover_resource_classes ::
    "resource_env \<Rightarrow> (source_reader \<times> string list list) option \<Rightarrow> string list set res option" where
  "discover_resource_classes env targeted =
     (case package_files env of
        None \<Rightarrow> Some (Inl (RuntimeError ''resource-clients: installed ocp_resources source could not be located''))
      | Some files \<Rightarrow>
          (case records_under (re_parse env) [''ocp_resources''] files of
             Inl e \<Rightarrow> Some (Inl e)
           | Inr records \<Rightarrow>
               map_option (\<lambda>local_records. bind_res local_records (\<lambda>rs. Inr (resource_closure (records @ rs))))
                 (case targeted of
                    Some (reader, module_names) \<Rightarrow> targeted_local_records (re_parse env) reader module_names
                  | None \<Rightarrow> Some (all_local_records env LOCAL_ROOTS))))"

definition local_class :: "string \<Rightarrow> string list" where
  "local_class x = [''<local>'', x]"

definition local_resource_classes :: "resolver \<Rightarrow> string list set \<Rightarrow> node \<Rightarrow> string list set" where
  "local_resource_classes resolve known tree =
     saturate (\<lambda>(x, bases). local_class x)
       (\<lambda>(x, bases) loc. list_ex (\<lambda>b. resolve b \<inter> (known \<union> loc) \<noteq> {}) bases)
       (List.map_filter (\<lambda>n. map_option (\<lambda>(x, bases, _). (x, bases)) (as_class n)) (all_scope_statements (module_body tree)))
       {}"

section \<open>Calls and comments\<close>

definition has_explicit_client :: "node list \<Rightarrow> bool" where
  "has_explicit_client kws =
     list_ex (\<lambda>k. case as_keyword k of
                    Some (Some arg, v) \<Rightarrow> arg = ''client'' \<and> \<not> is_none_constant v
                  | _ \<Rightarrow> False) kws"

definition lstrip_chars :: "string \<Rightarrow> string \<Rightarrow> string" where
  "lstrip_chars cs s = dropWhile (\<lambda>c. c \<in> set cs) s"

definition comment_of :: "token_info \<Rightarrow> source_comment" where
  "comment_of t =
     \<lparr>cm_line = fst (tk_start t), cm_column = snd (tk_start t), cm_text = py_strip (lstrip_chars ''#'' (tk_string t)),
      comment_only = (py_strip (take (snd (tk_start t)) (tk_line t)) = [])\<rparr>"

definition source_layout :: "resource_env \<Rightarrow> string \<Rightarrow> source_comment list \<times> token_info list" where
  "source_layout env source =
     (let tokens = re_tokens env source in (map comment_of (filter (\<lambda>t. tk_kind t = COMMENT) tokens), tokens))"

definition containing_statement :: "node \<Rightarrow> node \<Rightarrow> node" where
  "containing_statement tree call =
     (case List.find is_stmt (ancestors tree call) of None \<Rightarrow> call | Some s \<Rightarrow> s)"

text \<open>The attribute \<open>body\<close> of a statement, where it is a list.\<close>

definition statement_body :: "node \<Rightarrow> node list option" where
  "statement_body n =
     (case shape n of
        Stmt (NFunctionDef _ _ _ body _ _ _) \<Rightarrow> Some body
      | Stmt (NClassDef _ _ _ body _ _) \<Rightarrow> Some body
      | Stmt (NFor _ _ _ body _) \<Rightarrow> Some body
      | Stmt (NWhile _ body _) \<Rightarrow> Some body
      | Stmt (NIf _ body _) \<Rightarrow> Some body
      | Stmt (NWith _ _ body) \<Rightarrow> Some body
      | Stmt (NTry _ body _ _ _) \<Rightarrow> Some body
      | _ \<Rightarrow> None)"

definition line_or :: "nat \<Rightarrow> node \<Rightarrow> nat" where
  "line_or d n = (case node_line n of None \<Rightarrow> d | Some l \<Rightarrow> l)"

definition end_or :: "nat \<Rightarrow> node \<Rightarrow> nat" where
  "end_or d n = (case Option.bind (position n) sp_end of None \<Rightarrow> d | Some e \<Rightarrow> if e = 0 then d else e)"

definition column_of :: "node \<Rightarrow> nat" where
  "column_of n = (case position n of None \<Rightarrow> 0 | Some q \<Rightarrow> sp_column q)"

text \<open>The colon that ends the header of a compound statement.\<close>

fun header_colon :: "nat \<times> nat \<Rightarrow> int \<Rightarrow> token_info list \<Rightarrow> token_info option" where
  "header_colon pos depth [] = None"
| "header_colon pos depth (t # ts) =
     (if tk_start t < pos then header_colon pos depth ts
      else if tk_kind t \<noteq> OP then header_colon pos depth ts
      else if py_in (tk_string t) ''([{'' then header_colon pos (depth + 1) ts
      else if py_in (tk_string t) '')]}'' then header_colon pos (depth - 1) ts
      else if tk_string t = '':'' \<and> depth = 0 then Some t
      else header_colon pos depth ts)"

definition header_start :: "node \<Rightarrow> nat" where
  "header_start n =
     (case decorators_of n of
        [] \<Rightarrow> line_or 0 n
      | d # ds \<Rightarrow> foldr min (map (line_or 0) ds) (line_or 0 d))"

definition statement_header :: "node \<Rightarrow> token_info list \<Rightarrow> nat \<times> nat \<times> nat option" where
  "statement_header n tokens =
     (let start = header_start n
      in case statement_body n of
           None \<Rightarrow> (start, end_or start n, None)
         | Some body \<Rightarrow>
             (case header_colon (line_or start n, column_of n) 0 tokens of
                None \<Rightarrow> (start, line_or start n, None)
              | Some t \<Rightarrow>
                  (start, fst (tk_start t),
                   if list_ex (\<lambda>c. node_line c = Some (fst (tk_start t))) body then Some (snd (tk_end t)) else None)))"

definition explains :: "nat \<times> nat \<times> nat option \<Rightarrow> source_comment \<Rightarrow> bool" where
  "explains header c =
     (let (start, last_line, end_column) = header
      in cm_text c \<noteq> [] \<and>
         ((comment_only c \<and> cm_line c + 1 = start) \<or>
          (start \<le> cm_line c \<and> cm_line c \<le> last_line \<and>
           (cm_line c < last_line \<or> (case end_column of None \<Rightarrow> True | Some k \<Rightarrow> cm_column c \<le> k)))))"

definition has_explanatory_comment :: "node \<Rightarrow> source_comment list \<times> token_info list \<Rightarrow> node \<Rightarrow> bool" where
  "has_explanatory_comment tree layout call =
     list_ex (explains (statement_header (containing_statement tree call) (snd layout))) (fst layout)"

definition resource_call_message :: "string list set \<Rightarrow> string list set \<Rightarrow> node list \<Rightarrow> string option" where
  "resource_call_message names resources kws =
     (if names \<inter> resources \<noteq> {} \<and> \<not> has_explicit_client kws
      then Some ''resource-clients: pass an existing non-None client= to this Resource constructor''
      else if (\<exists>x \<in> names. x \<noteq> [] \<and> last x = ''get'' \<and> butlast x \<in> resources) \<and> \<not> has_explicit_client kws
      then Some ''resource-clients: pass an existing non-None client= to this Resource class .get()''
      else None)"

section \<open>Calls of the cached client\<close>

type_synonym cache_base = "string list \<times> string"

type_synonym cache_identity = "cache_base \<times> nat"

definition owner_name :: "node \<Rightarrow> string option" where
  "owner_name n =
     (case as_class n of
        Some (x, _) \<Rightarrow> Some x
      | None \<Rightarrow> (case as_function n of Some (_, x, _) \<Rightarrow> Some x | None \<Rightarrow> None))"

definition cache_identity_base :: "resource_env \<Rightarrow> node \<Rightarrow> node \<Rightarrow> cache_base" where
  "cache_identity_base env tree call =
     (rev (List.map_filter owner_name (ancestors tree call)), re_dump env call)"

definition is_cache_call :: "resolver \<Rightarrow> node \<Rightarrow> bool" where
  "is_cache_call resolve n =
     (case as_call n of None \<Rightarrow> False | Some (f, _, _) \<Rightarrow> CACHE_ADMIN_CLIENT \<in> resolve f)"

fun number_calls :: "(node \<Rightarrow> cache_base) \<Rightarrow> (cache_base \<times> nat) list \<Rightarrow> node list \<Rightarrow> (node \<times> cache_identity) list" where
  "number_calls base occurrences [] = []"
| "number_calls base occurrences (n # ns) =
     (let occurrences' = add_one (base n) occurrences
      in (n, (base n, count_in occurrences' (base n))) # number_calls base occurrences' ns)"

definition cache_identities :: "resource_env \<Rightarrow> resolver \<Rightarrow> node \<Rightarrow> (node \<times> cache_identity) list" where
  "cache_identities env resolve tree =
     number_calls (cache_identity_base env tree) [] (filter (is_cache_call resolve) (walk_tree tree))"

definition undocumented_cache_calls ::
    "resource_env \<Rightarrow> string \<Rightarrow> node \<Rightarrow> resolver \<Rightarrow> (cache_identity \<times> nat) list" where
  "undocumented_cache_calls env source tree resolve =
     counter_of (map snd (filter (\<lambda>(n, _). \<not> has_explanatory_comment tree (source_layout env source) n)
       (cache_identities env resolve tree)))"

section \<open>The check\<close>

definition identity_of :: "(node \<times> cache_identity) list \<Rightarrow> node \<Rightarrow> cache_identity" where
  "identity_of ids n =
     (case List.find (\<lambda>(m, _). node_id m = node_id n) ids of Some (_, i) \<Rightarrow> i | None \<Rightarrow> (([], []), 0))"

definition resource_violation ::
    "path \<Rightarrow> resolver \<Rightarrow> string list set \<Rightarrow> (node \<Rightarrow> node \<Rightarrow> bool) \<Rightarrow> node \<Rightarrow> node \<Rightarrow> node list \<Rightarrow> policy_violation list" where
  "resource_violation p resolve resources intersects n func kws =
     (if intersects n func
      then opt_list (map_option (violation_at p n) (resource_call_message (resolve func) resources kws)) else [])"

fun check_resource_calls ::
    "path \<Rightarrow> (node \<Rightarrow> policy_violation list) \<Rightarrow> (node \<Rightarrow> bool) \<Rightarrow> (node \<Rightarrow> bool) \<Rightarrow> (node \<Rightarrow> cache_identity) \<Rightarrow>
     (cache_identity \<times> nat) list \<Rightarrow> node list \<Rightarrow> policy_violation list" where
  "check_resource_calls p resource undocumented added identify legacy [] = []"
| "check_resource_calls p resource undocumented added identify legacy (n # ns) =
     resource n @
     (if \<not> undocumented n then check_resource_calls p resource undocumented added identify legacy ns
      else if \<not> added n \<and> count_in legacy (identify n) > 0
      then check_resource_calls p resource undocumented added identify (take_one (identify n) legacy) ns
      else violation_at p n CACHE_COMMENT_MESSAGE #
           check_resource_calls p resource undocumented added identify legacy ns)"

definition check_resource_clients ::
    "resource_env \<Rightarrow> path \<Rightarrow> string \<Rightarrow> node \<Rightarrow> nat set option \<Rightarrow> resolver \<Rightarrow> (string \<times> node \<times> resolver) option \<Rightarrow>
     string list set \<Rightarrow> (node \<Rightarrow> node \<Rightarrow> bool) \<Rightarrow> policy_violation list" where
  "check_resource_clients env p source tree added resolve head known intersects =
     (let resources = known \<union> local_resource_classes resolve known tree;
          layout = source_layout env source;
          identities = cache_identities env resolve tree;
          legacy = (case head of
                      None \<Rightarrow> []
                    | Some (head_source, head_tree, head_resolve) \<Rightarrow>
                        undocumented_cache_calls env head_source head_tree head_resolve);
          resource = (\<lambda>n. case as_call n of
                            None \<Rightarrow> []
                          | Some (f, _, kws) \<Rightarrow> resource_violation p resolve resources intersects n f kws);
          undocumented = (\<lambda>n. is_cache_call resolve n \<and> \<not> has_explanatory_comment tree layout n)
      in sort_key (\<lambda>v. (line_key v, message v))
           (check_resource_calls p resource undocumented (node_intersects added) (identity_of identities) legacy
              (walk_tree tree)))"

end
