(* ===== verification/TestStd.thy ===== *)
theory TestStd
  imports ResourceClients
begin

text \<open>
  Descriptions and placeholders of product tests (\<open>scripts/pre_commit_hooks/check_test_std.py\<close>): the
  tests of a module with their docstrings and whether each is a placeholder, disabled or marked
  manual, and the comparison of the staged tests with those of HEAD. \<open>ast.dump\<close> is an argument. A
  dictionary whose order no one looks at is a map. The code goes over the names that both versions
  have in the order of a set, which Python leaves open; the sorted result does not depend on it.
\<close>

section \<open>Texts\<close>

text \<open>\<open>re.fullmatch\<close>, and \<open>re.sub\<close> with an empty replacement; no pattern below tries an empty match before a longer one.\<close>

definition re_fullmatch :: "regex \<Rightarrow> string \<Rightarrow> bool" where
  "re_fullmatch r s = list_ex (\<lambda>(_, suf, _). suf = []) (rmatch r ([], s, []))"

function remove_from :: "regex \<Rightarrow> string \<Rightarrow> string \<Rightarrow> string" where
  "remove_from r pre suf =
     (case rmatch r (pre, suf, []) of
        (pre', suf', g') # _ \<Rightarrow>
          if length suf' < length suf then remove_from r pre' suf'
          else (case suf of [] \<Rightarrow> [] | c # cs \<Rightarrow> c # remove_from r (c # pre) cs)
      | [] \<Rightarrow> (case suf of [] \<Rightarrow> [] | c # cs \<Rightarrow> c # remove_from r (c # pre) cs))"
  by pat_completeness auto
termination by (relation "measure (\<lambda>(r, pre, suf). length suf)") auto

declare remove_from.simps [simp del]

definition re_remove :: "regex \<Rightarrow> string \<Rightarrow> string" where
  "re_remove r s = remove_from r [] s"

definition strip_chars :: "string \<Rightarrow> string \<Rightarrow> string" where
  "strip_chars cs s = rstrip_chars cs (lstrip_chars cs s)"

definition SECTION_HEADER :: regex where
  "SECTION_HEADER = RSeqs [RBegin, RStar RSpace,
     RGroup 1 (RAlt (nocase ''preconditions'') (RAlt (nocase ''steps'') (RAlt (nocase ''expected'')
       (RAlt (nocase ''markers'') (nocase ''parametrize''))))),
     RLit '':'', RStar RSpace, RGroup 2 (RStar RDot), REnd]"

definition SECTION_ITEM_PREFIX :: regex where
  "SECTION_ITEM_PREFIX = RSeqs [RBegin, RStar RSpace,
     ROpt (RAlt (RChar (\<lambda>c. c \<in> set ''-*+'')) (RSeq (RPlus RDigit) (RChar (\<lambda>c. c \<in> set ''.)'')))),
     RStar RSpace]"

definition TRACKING_URL :: regex where
  "TRACKING_URL = RSeqs [RLit ''http'', ROpt (RLit ''s''), RLit ''://'',
     RPlus (RChar (\<lambda>c. \<not> is_space c \<and> c \<notin> set '')>]''))]"

definition JIRA_URL :: regex where
  "JIRA_URL = RSeqs [nocase ''http'', ROpt (nocase ''s''), nocase ''://'',
     RAlt (nocase ''issues.redhat.com'') (nocase ''redhat.atlassian.net''), nocase ''/browse/'',
     RChar is_ascii_alpha, RPlus (RChar (\<lambda>c. is_ascii_alpha c \<or> is_digit c)), RLit ''-'', RPlus RDigit]"

definition STD_STP_URL :: regex where
  "STD_STP_URL = RSeqs [nocase ''http'', ROpt (nocase ''s''), nocase ''://github.com/'',
     nocase ''redhatqe/openshift-virtualization-tests-design-docs/'', RAlt (nocase ''blob'') (nocase ''tree''),
     RLit ''/'', RStar (RChar (\<lambda>c. \<not> is_space c)), nocase ''/stps/'']"

definition PLACEHOLDERS :: "string set" where
  "PLACEHOLDERS = {'''', ''-'', ''.'', ''n/a'', ''none'', ''tba'', ''tbd'', ''todo''}"

definition JIRA_SKIP_MARKER :: string where
  "JIRA_SKIP_MARKER = ''# <skip-jira-utils-check>''"

record doc_state =
  ds_description :: "string list"
  ds_sections :: "string \<rightharpoonup> string list"
  ds_current :: "string option"

definition section_lines :: "string \<Rightarrow> (string \<rightharpoonup> string list) \<Rightarrow> string list" where
  "section_lines x sections = (case sections x of None \<Rightarrow> [] | Some ls \<Rightarrow> ls)"

definition section_step :: "string \<Rightarrow> doc_state \<Rightarrow> doc_state" where
  "section_step line ds =
     (case re_match SECTION_HEADER line of
        Some st \<Rightarrow>
          (let x = py_lower (the (group_of 1 st))
           in ds\<lparr>ds_current := Some x,
                 ds_sections := (ds_sections ds)(x \<mapsto> section_lines x (ds_sections ds) @ [the (group_of 2 st)])\<rparr>)
      | None \<Rightarrow>
          (case ds_current ds of
             None \<Rightarrow> ds\<lparr>ds_description := ds_description ds @ [line]\<rparr>
           | Some x \<Rightarrow> ds\<lparr>ds_sections := (ds_sections ds)(x \<mapsto> section_lines x (ds_sections ds) @ [line])\<rparr>))"

definition sections_of :: "string \<Rightarrow> string \<times> (string \<rightharpoonup> string list)" where
  "sections_of docstring =
     (let ds = fold section_step (splitlines docstring)
                 \<lparr>ds_description = [], ds_sections = (\<lambda>_. None), ds_current = None\<rparr>
      in (py_join newline (ds_description ds), ds_sections ds))"

definition line_content :: "string \<Rightarrow> string" where
  "line_content line =
     (let without_urls = re_remove TRACKING_URL line;
          without_marker = concat (py_split JIRA_SKIP_MARKER without_urls);
          content = py_lower (strip_chars ('' '' @ [CHR 0x09, CHR 0x0D, CHR 0x0A] @ ''-*.)0123456789:'')
                      (re_remove SECTION_ITEM_PREFIX without_marker))
      in if content \<in> {''jira'', ''rfe'', ''stp''} then [] else content)"

definition meaningful :: "string list \<Rightarrow> bool" where
  "meaningful ls = list_ex (\<lambda>l. line_content l \<notin> PLACEHOLDERS) ls"

definition has_tracking_url :: "string list \<Rightarrow> bool" where
  "has_tracking_url docstrings =
     list_ex (\<lambda>doc. list_ex (\<lambda>l. list_ex (\<lambda>url. re_fullmatch JIRA_URL url \<or> re_match STD_STP_URL url \<noteq> None)
       (re_findall TRACKING_URL l)) (splitlines doc)) docstrings"

definition jira_lines_missing_skip_marker :: "string \<Rightarrow> bool" where
  "jira_lines_missing_skip_marker doc =
     list_ex (\<lambda>l. re_search JIRA_URL l \<noteq> None \<and> \<not> py_in JIRA_SKIP_MARKER l) (splitlines doc)"

section \<open>Bindings of marker roots\<close>

definition UNRELATED_BINDING :: string where "UNRELATED_BINDING = ''other''"

definition MANUAL_MARKER :: string where "MANUAL_MARKER = ''pytest.mark.manual''"

type_synonym marker_bindings = "string \<rightharpoonup> string"

definition marker_resolve :: "marker_bindings \<Rightarrow> string list \<Rightarrow> string option" where
  "marker_resolve bs chain =
     (case chain of
        [] \<Rightarrow> None
      | r # rest \<Rightarrow>
          (case bs r of
             Some b \<Rightarrow> if b = UNRELATED_BINDING then None else Some (py_join ''.'' (b # rest))
           | None \<Rightarrow>
               if r = ''pytest'' then Some (py_join ''.'' chain)
               else if r = ''mark'' then Some (py_join ''.'' (''pytest'' # chain)) else None))"

definition merge_branch_bindings :: "marker_bindings list \<Rightarrow> marker_bindings \<Rightarrow> marker_bindings" where
  "merge_branch_bindings paths target x =
     (if list_all (\<lambda>b. b x = hd paths x) paths
      then (case hd paths x of None \<Rightarrow> target x | Some v \<Rightarrow> Some v)
      else Some UNRELATED_BINDING)"

definition unrelated :: "string set \<Rightarrow> marker_bindings \<Rightarrow> marker_bindings" where
  "unrelated names bs x = (if x \<in> names then Some UNRELATED_BINDING else bs x)"

text \<open>The names in a node.\<close>

definition names_in :: "node \<Rightarrow> string set" where
  "names_in n = set (List.map_filter (\<lambda>m. map_option fst (as_name m)) (subtree n))"

definition names_in_all :: "node list \<Rightarrow> string set" where
  "names_in_all ns = (\<Union>n \<in> set ns. names_in n)"

definition bind_pytest_import :: "string \<times> string option \<Rightarrow> marker_bindings \<Rightarrow> marker_bindings" where
  "bind_pytest_import al bs =
     (let bound = (case snd al of Some a \<Rightarrow> a | None \<Rightarrow> hd (py_split ''.'' (fst al)));
          from_pytest = (fst al = ''pytest'' \<or> startswith (fst al) ''pytest.'')
      in bs(bound \<mapsto> if snd al \<noteq> None \<and> from_pytest then fst al
                     else if from_pytest then bound else UNRELATED_BINDING))"

definition bind_pytest_from :: "string option \<Rightarrow> string \<times> string option \<Rightarrow> marker_bindings \<Rightarrow> marker_bindings" where
  "bind_pytest_from module al bs =
     bs(from_name al \<mapsto> if module = Some ''pytest'' then ''pytest.'' @ fst al else UNRELATED_BINDING)"

definition optional_vars :: "node \<Rightarrow> node list" where
  "optional_vars item = (case shape item of Plain (NWithitem _ (Some v)) \<Rightarrow> [v] | _ \<Rightarrow> [])"

definition handler_name :: "node \<Rightarrow> string option" where
  "handler_name h = (case handler_parts h of (_, x, _) \<Rightarrow> x)"

lemma stmt_child_size:
  "shape n = Stmt s \<Longrightarrow> c \<in> set_stmt s \<Longrightarrow> size c < size n"
  using child_size[of c n] by (simp add: children_def set_stmt_children)

lemma block_stmt_size:
  "shape n = Stmt (NTry star body handlers orelse finalbody) \<Longrightarrow> h \<in> set handlers \<Longrightarrow> s \<in> set (handler_body h) \<Longrightarrow>
     size s < size n"
  "shape n = Stmt (NMatch subject match_cases) \<Longrightarrow> c \<in> set match_cases \<Longrightarrow> s \<in> set (case_body c) \<Longrightarrow> size s < size n"
  using stmt_child_size[of n _ h] stmt_child_size[of n _ c]
  by (force dest!: handler_body_child case_body_child child_size)+

function bind_statement :: "node \<Rightarrow> marker_bindings \<Rightarrow> marker_bindings" where
  "bind_statement n start =
     (let bs = unrelated (walrus_bound_names n) start
      in case shape n of
           Stmt (NImport names) \<Rightarrow> fold bind_pytest_import names bs
         | Stmt (NImportFrom module names _) \<Rightarrow> fold (bind_pytest_from module) names bs
         | Stmt (NAssign targets _) \<Rightarrow> unrelated (names_in_all targets) bs
         | Stmt (NAnnAssign target _ _) \<Rightarrow> unrelated (fst ` set_option (as_name target)) bs
         | Stmt (NAugAssign target _) \<Rightarrow> unrelated (fst ` set_option (as_name target)) bs
         | Stmt (NFunctionDef _ x _ _ _ _ _) \<Rightarrow> unrelated {x} bs
         | Stmt (NClassDef x _ _ _ _ _) \<Rightarrow> unrelated {x} bs
         | Stmt (NFor _ target _ body orelse) \<Rightarrow>
             merge_branch_bindings [fold bind_statement (body @ orelse) (unrelated (names_in target) bs),
               fold bind_statement orelse bs] bs
         | Stmt (NWhile _ body orelse) \<Rightarrow>
             merge_branch_bindings [fold bind_statement (body @ orelse) bs, fold bind_statement orelse bs] bs
         | Stmt (NIf _ body orelse) \<Rightarrow>
             merge_branch_bindings [fold bind_statement body bs, fold bind_statement orelse bs] bs
         | Stmt (NTry _ body handlers orelse finalbody) \<Rightarrow>
             merge_branch_bindings
               [fold bind_statement (body @ orelse @ finalbody) bs,
                fold bind_statement finalbody
                  (fold (\<lambda>h b. fold bind_statement (handler_body h) (unrelated (set_option (handler_name h)) b)) handlers bs)] bs
         | Stmt (NMatch _ match_cases) \<Rightarrow>
             merge_branch_bindings (bs # map (\<lambda>c. fold bind_statement (case_body c) bs) match_cases) bs
         | Stmt (NDelete _) \<Rightarrow> unrelated (names_in n) bs
         | Stmt (NWith False items body) \<Rightarrow>
             fold bind_statement body (unrelated (names_in_all (concat (map optional_vars items))) bs)
         | _ \<Rightarrow> bs)"
  by pat_completeness auto
termination
  by (relation "measure (\<lambda>(n, _). size n)") (auto dest: stmt_child_size block_stmt_size)

declare bind_statement.simps [simp del]

definition marker_roots :: "node \<Rightarrow> marker_bindings" where
  "marker_roots tree = fold bind_statement (module_body tree) (\<lambda>_. None)"

text \<open>The names that the statements of a class body bind; imports do not count.\<close>

definition own_bound_names :: "node \<Rightarrow> string set" where
  "own_bound_names n =
     (case shape n of
        Stmt (NFunctionDef _ x _ _ _ _ _) \<Rightarrow> {x}
      | Stmt (NClassDef x _ _ _ _ _) \<Rightarrow> {x}
      | Stmt (NAssign targets _) \<Rightarrow> names_in_all targets
      | Stmt (NAnnAssign target _ _) \<Rightarrow> names_in target
      | Stmt (NAugAssign target _) \<Rightarrow> names_in target
      | Stmt (NFor _ target _ _ _) \<Rightarrow> names_in target
      | Stmt (NTry _ _ handlers _ _) \<Rightarrow> (\<Union>h \<in> set handlers. set_option (handler_name h))
      | Stmt (NWith False items _) \<Rightarrow> names_in_all (concat (map optional_vars items))
      | _ \<Rightarrow> {})"

function bound_by_statement :: "node \<Rightarrow> string set" where
  "bound_by_statement n = own_bound_names n \<union> (\<Union>s \<in> set (nested_blocks n). bound_by_statement s)"
  by pat_completeness auto
termination by (relation "measure size") (auto simp: nested_block_size)

declare bound_by_statement.simps [simp del]

definition class_body_bound_names :: "node list \<Rightarrow> string set" where
  "class_body_bound_names ss = (\<Union>s \<in> set ss. bound_by_statement s)"

text \<open>
  The attributes of a decorator down to its first name. Where the innermost value is not a name,
  the chain starts with the first attribute.
\<close>

function attribute_chain :: "node \<Rightarrow> string list" where
  "attribute_chain n =
     (case as_attribute n of
        Some (v, x) \<Rightarrow> attribute_chain v @ [x]
      | None \<Rightarrow> (case as_name n of Some (x, _) \<Rightarrow> [x] | None \<Rightarrow> []))"
  by pat_completeness auto
termination by (relation "measure size") (auto intro!: child_size simp: view_children)

declare attribute_chain.simps [simp del]

definition has_manual_marker :: "marker_bindings \<Rightarrow> string set \<Rightarrow> node \<Rightarrow> bool" where
  "has_manual_marker roots shadowed n =
     list_ex (\<lambda>d. let chain = attribute_chain (case as_call d of Some (f, _) \<Rightarrow> f | None \<Rightarrow> d)
                  in chain \<noteq> [] \<and> hd chain \<notin> shadowed \<and> marker_resolve roots chain = Some MANUAL_MARKER)
       (decorators_of n)"

section \<open>Tests of a module\<close>

record test_definition =
  td_name :: string
  td_node :: node
  td_docs :: "string list"
  td_placeholder :: bool
  td_disabled :: bool
  td_manual :: bool

text \<open>\<open>path.stem\<close>.\<close>

definition path_stem :: "path \<Rightarrow> string" where
  "path_stem p = fst (splitext (path_name p))"

definition is_product_test_path :: "path \<Rightarrow> bool" where
  "is_product_test_path p \<longleftrightarrow>
     length p \<ge> 3 \<and> hd p = ''tests'' \<and> (startswith (path_name p) ''test_'' \<or> endswith (path_stem p) ''_test'') \<and>
     path_suffix p = ''.py''"

definition constant_of :: "node \<Rightarrow> pconstant option" where
  "constant_of n = (case shape n of Expr (NConstant k) \<Rightarrow> Some k | _ \<Rightarrow> None)"

definition expression_constant :: "node \<Rightarrow> pconstant option" where
  "expression_constant n = (case shape n of Stmt (NExpr v) \<Rightarrow> constant_of v | _ \<Rightarrow> None)"

definition assigned_bool :: "node \<Rightarrow> (node list \<times> bool) option" where
  "assigned_bool n =
     (case shape n of
        Stmt (NAssign ts v) \<Rightarrow> (case constant_of v of Some (KBool b) \<Rightarrow> Some (ts, b) | _ \<Rightarrow> None)
      | Stmt (NAnnAssign t _ (Some v)) \<Rightarrow> (case constant_of v of Some (KBool b) \<Rightarrow> Some ([t], b) | _ \<Rightarrow> None)
      | _ \<Rightarrow> None)"

text \<open>\<open>__test__\<close> itself, or the attribute \<open>__test__\<close> of the given name.\<close>

definition is_test_flag :: "string option \<Rightarrow> node \<Rightarrow> bool" where
  "is_test_flag target_name t =
     (case target_name of
        None \<Rightarrow> (case as_name t of Some (x, _) \<Rightarrow> x = ''__test__'' | None \<Rightarrow> False)
      | Some y \<Rightarrow>
          (case as_attribute t of
             Some (v, a) \<Rightarrow> a = ''__test__'' \<and> (case as_name v of Some (x, _) \<Rightarrow> x = y | None \<Rightarrow> False)
           | None \<Rightarrow> False))"

definition boolean_assignment :: "node list \<Rightarrow> string option \<Rightarrow> bool option" where
  "boolean_assignment statements target_name =
     fold (\<lambda>s v. case assigned_bool s of
                   Some (targets, b) \<Rightarrow> if list_ex (is_test_flag target_name) targets then Some b else v
                 | None \<Rightarrow> v) statements None"

definition docstring_of :: "node list \<Rightarrow> string option" where
  "docstring_of body =
     (case body of
        s # _ \<Rightarrow> (case expression_constant s of Some (KStr d) \<Rightarrow> Some d | _ \<Rightarrow> None)
      | [] \<Rightarrow> None)"

definition doc_text :: "node list \<Rightarrow> string" where
  "doc_text body = (case docstring_of body of None \<Rightarrow> [] | Some d \<Rightarrow> d)"

definition docstring_only :: "node list \<Rightarrow> bool" where
  "docstring_only body \<longleftrightarrow>
     docstring_of body \<noteq> None \<and>
     list_all (\<lambda>s. shape s = Stmt NPass \<or> expression_constant s = Some KEllipsis) (tl body)"

definition test_of :: "marker_bindings \<Rightarrow> node list \<Rightarrow> string list \<Rightarrow> string list \<Rightarrow> bool \<Rightarrow> string set \<Rightarrow> node \<Rightarrow> test_definition list" where
  "test_of roots statements parents docs disabled shadowed n =
     (case as_function n of
        Some (_, x, _, body, _) \<Rightarrow>
          if startswith x ''test_''
          then [\<lparr>td_name = py_join ''.'' (parents @ [x]), td_node = n, td_docs = doc_text body # docs,
                 td_placeholder = docstring_only body,
                 td_disabled = (disabled \<or> boolean_assignment statements (Some x) = Some False),
                 td_manual = has_manual_marker roots shadowed n\<rparr>]
          else []
      | None \<Rightarrow> [])"

lemma nested_statements_size: "s \<in> set (nested_statements n) \<Longrightarrow> size s < size n"
proof (induction n rule: nested_statements.induct)
  case (1 n)
  then obtain c where c: "c \<in> set (children n)" "s = c \<or> s \<in> set (nested_statements c) \<and> \<not> (is_stmt c \<and> opens_scope c)"
    unfolding nested_statements.simps[of n] by (auto split: if_splits)
  then show ?case using "1.IH"[OF c(1)] child_size[OF c(1)] by (auto intro: less_trans)
qed

lemma scope_statements_size:
  assumes "s \<in> set (all_scope_statements ss)" shows "\<exists>t \<in> set ss. size s \<le> size t"
proof -
  from assms obtain t where "t \<in> set ss" "s = t \<or> s \<in> set (nested_statements t)"
    by (auto simp: all_scope_statements_def split: if_splits)
  then show ?thesis using nested_statements_size[of s t] by (auto intro: less_imp_le)
qed

lemma class_statement_size:
  "as_class n = Some (x, bases, kws, body, decs) \<Longrightarrow> s \<in> set (all_scope_statements body) \<Longrightarrow> size s < size n"
  using scope_statements_size[of s body] stmt_child_size[of n "NClassDef x bases kws body decs _"]
  by (force simp: as_class_def split: shape.splits stmt.splits)

function collect_class :: "marker_bindings \<Rightarrow> string list \<Rightarrow> string list \<Rightarrow> bool \<Rightarrow> string set \<Rightarrow> node \<Rightarrow> test_definition list" where
  "collect_class roots parents docs disabled shadowed n =
     (case as_class n of
        None \<Rightarrow> []
      | Some (x, bases, kws, body, decs) \<Rightarrow>
          (let statements = all_scope_statements body;
               disabled' = (disabled \<or> boolean_assignment statements None = Some False);
               parents' = parents @ [x]; docs' = doc_text body # docs;
               shadowed' = shadowed \<union> class_body_bound_names statements
           in concat (map (\<lambda>c. if as_class c \<noteq> None then collect_class roots parents' docs' disabled' shadowed' c
                               else test_of roots statements parents' docs' disabled' shadowed' c) statements)))"
  by pat_completeness auto
termination
  by (relation "measure (\<lambda>(_, _, _, _, _, n). size n)") (auto simp: class_statement_size)

declare collect_class.simps [simp del]

definition definitions_of :: "node \<Rightarrow> test_definition list" where
  "definitions_of tree =
     (let body = module_body tree; roots = marker_roots tree; statements = all_scope_statements body;
          docs = [doc_text body]; disabled = (boolean_assignment statements None = Some False)
      in concat (map (\<lambda>n. if as_class n \<noteq> None then collect_class roots [] docs disabled {} n
                          else test_of roots statements [] docs disabled {} n) statements))"

section \<open>Violations of a test\<close>

definition std_violation :: "path \<Rightarrow> test_definition \<Rightarrow> string \<Rightarrow> policy_violation" where
  "std_violation p d msg = violation_at p (td_node d) (''test-std/'' @ td_name d @ '': '' @ msg)"

definition TRACKING_MESSAGE :: string where
  "TRACKING_MESSAGE = ''add an STP link or Jira/RFE tracking URL to the test, class, or module docstring''"

definition documentation_messages :: "test_definition \<Rightarrow> string list" where
  "documentation_messages d =
     (let (description, sections) = sections_of (hd (td_docs d))
      in (if \<not> meaningful [description] then [''add a nonempty test description before the STD sections''] else []) @
         (if \<not> meaningful (section_lines ''steps'' sections)
          then [''add a nonempty Steps: section to the test docstring''] else []) @
         (if \<not> meaningful (section_lines ''expected'' sections)
          then [''add a nonempty Expected: section to the test docstring''] else []) @
         (if \<not> list_ex (\<lambda>doc. meaningful (section_lines ''preconditions'' (snd (sections_of doc)))) (td_docs d)
          then [''add nonempty Preconditions: at test, enclosing class, or module level''] else []) @
         (if \<not> has_tracking_url (td_docs d) then [TRACKING_MESSAGE] else []))"

definition documentation_violations :: "path \<Rightarrow> test_definition \<Rightarrow> policy_violation list" where
  "documentation_violations p d = map (std_violation p d) (documentation_messages d)"

definition new_test_documentation_violations :: "path \<Rightarrow> test_definition \<Rightarrow> policy_violation list" where
  "new_test_documentation_violations p d =
     filter (\<lambda>v. message v \<noteq> ''test-std/'' @ td_name d @ '': '' @ TRACKING_MESSAGE) (documentation_violations p d) @
     (if \<not> has_tracking_url [hd (td_docs d)]
      then [std_violation p d ''add an STP link or Jira/RFE tracking URL to the test docstring'']
      else if jira_lines_missing_skip_marker (hd (td_docs d))
      then [std_violation p d (''add '' @ JIRA_SKIP_MARKER @ '' to this Jira line'')]
      else [])"

definition new_test_violations :: "path \<Rightarrow> test_definition \<Rightarrow> policy_violation list" where
  "new_test_violations p d =
     new_test_documentation_violations p d @
     (if td_placeholder d \<and> \<not> td_disabled d
      then [std_violation p d ''mark this docstring-only STD placeholder with effective __test__ = False''] else []) @
     (if \<not> td_placeholder d \<and> td_disabled d
      then [std_violation p d ''remove effective __test__ = False from this implemented test''] else []) @
     (if td_placeholder d \<and> td_disabled d \<and> \<not> td_manual d
      then [std_violation p d ''declare @pytest.mark.manual on this test''] else []) @
     (if td_manual d \<and> \<not> td_disabled d \<and> \<not> td_placeholder d
      then [std_violation p d ''remove @pytest.mark.manual from this implemented test''] else [])"

definition transition_messages :: "test_definition \<Rightarrow> test_definition \<Rightarrow> string list" where
  "transition_messages current previous =
     (if \<not> td_placeholder previous \<and> td_placeholder current
      then [''do not replace an implemented test with a docstring-only placeholder; '' @
            ''restore its implementation rather than changing __test__'']
      else if td_placeholder previous \<and> td_placeholder current \<and> td_disabled previous \<and> \<not> td_disabled current
      then [''keep effective __test__ = False until this placeholder is implemented'']
      else if td_placeholder previous \<and> \<not> td_placeholder current \<and> td_disabled current
      then [''remove effective __test__ = False when implementing this placeholder'']
      else if \<not> td_placeholder previous \<and> \<not> td_disabled previous \<and> td_disabled current
      then [''remove newly effective __test__ = False from implemented test'']
      else []) @
     (if td_manual previous \<and> \<not> td_manual current \<and> td_disabled current
      then [''declare @pytest.mark.manual on this test''] else []) @
     (if td_manual current \<and> \<not> td_disabled current \<and> \<not> td_placeholder current
      then [''remove @pytest.mark.manual from this implemented test''] else [])"

definition transition_violations :: "path \<Rightarrow> test_definition \<Rightarrow> test_definition \<Rightarrow> policy_violation list" where
  "transition_violations p current previous = map (std_violation p current) (transition_messages current previous)"

section \<open>The check\<close>

text \<open>Tests whose trees are equal are paired first; each test of HEAD takes part in one pair.\<close>

fun match_equal ::
    "(node \<Rightarrow> string) \<Rightarrow> test_definition list \<Rightarrow> test_definition list \<Rightarrow>
     (test_definition \<times> test_definition) list \<times> test_definition list \<times> test_definition list" where
  "match_equal dump [] previous = ([], [], previous)"
| "match_equal dump (c # cs) previous =
     (case List.extract (\<lambda>q. dump (td_node c) = dump (td_node q)) previous of
        Some (before, q, after) \<Rightarrow>
          (let (pairs, cur, prev) = match_equal dump cs (before @ after) in ((c, q) # pairs, cur, prev))
      | None \<Rightarrow> (let (pairs, cur, prev) = match_equal dump cs previous in (pairs, c # cur, prev)))"

definition new_documentation :: "path \<Rightarrow> test_definition list \<Rightarrow> test_definition \<Rightarrow> policy_violation list" where
  "new_documentation p previous d =
     filter (\<lambda>v. message v \<notin> message ` (\<Union>q \<in> set previous. set (documentation_violations p q))) (documentation_violations p d)"

definition compare_tests ::
    "path \<Rightarrow> (node \<Rightarrow> string) \<Rightarrow> test_definition list \<Rightarrow> test_definition list \<Rightarrow> policy_violation list" where
  "compare_tests p dump current previous =
     (let (equal_pairs, cur, prev) = match_equal dump current previous;
          k = min (length cur) (length prev);
          pairs = equal_pairs @ zip (take k cur) (take k prev);
          states = (\<lambda>q. (td_placeholder q, td_disabled q)) ` set previous
      in concat (map (\<lambda>(c, q). new_documentation p [q] c @ transition_violations p c q) pairs) @
         concat (map (\<lambda>c. new_documentation p previous c @
                          (if card states = 1 then transition_violations p c (hd previous) else [])) (drop k cur)))"

definition tests_named :: "string \<Rightarrow> test_definition list \<Rightarrow> test_definition list" where
  "tests_named x ds = filter (\<lambda>d. td_name d = x) ds"

definition compare_definitions ::
    "path \<Rightarrow> (node \<Rightarrow> string) \<Rightarrow> test_definition list \<Rightarrow> test_definition list \<Rightarrow> policy_violation list" where
  "compare_definitions p dump indexed head =
     concat (map (new_test_violations p) (filter (\<lambda>d. td_name d \<notin> td_name ` set head) indexed)) @
     concat (map (\<lambda>x. compare_tests p dump (tests_named x indexed) (tests_named x head))
       (filter (\<lambda>x. x \<in> td_name ` set head) (remdups (map td_name indexed))))"

definition check_test_std ::
    "parser \<Rightarrow> (node \<Rightarrow> string) \<Rightarrow> path \<Rightarrow> string \<Rightarrow> string option \<Rightarrow> policy_violation list res" where
  "check_test_std parse dump p indexed_source head_source =
     (if \<not> is_product_test_path p then Inr []
      else bind_res (parse_tree parse indexed_source) (\<lambda>tree.
           bind_res (case head_source of
                       None \<Rightarrow> Inr []
                     | Some source \<Rightarrow> bind_res (parse_tree parse source) (\<lambda>head_tree. Inr (definitions_of head_tree))) (\<lambda>head.
             Inr (sort_key (\<lambda>v. (line_key v, message v)) (compare_definitions p dump (definitions_of tree) head)))))"

end
