(* ===== verification/StdProps.thy ===== *)
theory StdProps
  imports TestStd SourceProps
begin

text \<open>
  Properties of the check of test descriptions: what a new test needs, that an unchanged module
  passes, how versions with distinct test names are compared, and the life of a test over a history
  of commits that pass.
\<close>

section \<open>An example module\<close>

definition std_link :: string where
  "std_link = ''https://issues.redhat.com/browse/CNV-1 # <skip-jira-utils-check>''"

definition std_lines :: "string list" where
  "std_lines = [''Check it'', ''Preconditions: VM'', ''Steps: start'', ''Expected: up'', std_link]"

definition std_doc :: string where
  "std_doc = py_join newline std_lines"

lemma std_headers:
  "re_match SECTION_HEADER ''Check it'' = None"
  "re_match SECTION_HEADER ''Preconditions: VM'' = Some (rev ''Preconditions: VM'', [], [(2, ''VM''), (1, ''Preconditions'')])"
  "re_match SECTION_HEADER ''Steps: start'' = Some (rev ''Steps: start'', [], [(2, ''start''), (1, ''Steps'')])"
  "re_match SECTION_HEADER ''Expected: up'' = Some (rev ''Expected: up'', [], [(2, ''up''), (1, ''Expected'')])"
  "re_match SECTION_HEADER std_link = None"
  by code_simp+

lemma std_lower: "py_lower ''Preconditions'' = ''preconditions''" "py_lower ''Steps'' = ''steps''" "py_lower ''Expected'' = ''expected''"
  by code_simp+

lemma std_splitlines: "splitlines std_doc = std_lines" by code_simp

lemma std_sections:
  "fst (sections_of std_doc) = ''Check it''"
  "section_lines ''preconditions'' (snd (sections_of std_doc)) = [''VM'']"
  "section_lines ''steps'' (snd (sections_of std_doc)) = [''start'']"
  "section_lines ''expected'' (snd (sections_of std_doc)) = [''up'', std_link]"
  by (simp_all add: sections_of_def std_splitlines std_lines_def section_step_def std_headers group_of_def section_lines_def
      std_lower Let_def)

lemma std_content: "line_content ''Check it'' = ''check it''" "line_content ''VM'' = ''vm''"
  "line_content ''start'' = ''start''" "line_content ''up'' = ''up''"
  by code_simp+

lemma std_urls: "re_findall TRACKING_URL std_link = [''https://issues.redhat.com/browse/CNV-1'']"
  by code_simp

lemma std_full: "re_fullmatch JIRA_URL ''https://issues.redhat.com/browse/CNV-1''"
  by code_simp

lemma std_none: "re_search JIRA_URL ''Check it'' = None" "re_search JIRA_URL ''Preconditions: VM'' = None"
  "re_search JIRA_URL ''Steps: start'' = None" "re_search JIRA_URL ''Expected: up'' = None"
  by code_simp+

lemma std_mark: "py_in JIRA_SKIP_MARKER std_link" by code_simp

definition std_test :: node where
  "std_test =
     at_line 1 1 (Stmt (NFunctionDef False ''test_a'' (Node 2 None (Plain (NArguments [] [] None [] [] None [])))
       [at_line 3 2 (Stmt (NExpr (at_line 4 2 (Expr (NConstant (KStr std_doc))))))]
       [attribute_at 5 1 (attribute_at 6 1 (name_at 7 1 Load ''pytest'') ''mark'') ''manual''] None []))"

definition std_module :: node where
  "std_module =
     Node 0 None (Plain (NModule [std_test,
       at_line 8 9 (Stmt (NAssign [attribute_at 9 9 (name_at 10 9 Load ''test_a'') ''__test__'']
         (at_line 11 9 (Expr (NConstant (KBool False))))))]))"

lemma std_definitions:
  "definitions_of std_module =
     [\<lparr>td_name = ''test_a'', td_node = std_test, td_docs = [std_doc, []], td_placeholder = True, td_disabled = True,
       td_manual = True\<rparr>]"
  by code_simp

abbreviation std_path :: path where
  "std_path \<equiv> [''tests'', ''net'', ''test_a.py'']"

lemma std_path_ok: "is_product_test_path std_path"
  by code_simp

section \<open>New tests\<close>

definition well_described :: "test_definition \<Rightarrow> bool" where
  "well_described d \<longleftrightarrow>
     meaningful [fst (sections_of (hd (td_docs d)))] \<and>
     meaningful (section_lines ''steps'' (snd (sections_of (hd (td_docs d))))) \<and>
     meaningful (section_lines ''expected'' (snd (sections_of (hd (td_docs d))))) \<and>
     list_ex (\<lambda>doc. meaningful (section_lines ''preconditions'' (snd (sections_of doc)))) (td_docs d) \<and>
     has_tracking_url [hd (td_docs d)] \<and> \<not> jira_lines_missing_skip_marker (hd (td_docs d))"

definition consistent_state :: "test_definition \<Rightarrow> bool" where
  "consistent_state d \<longleftrightarrow> td_placeholder d = td_disabled d \<and> td_disabled d = td_manual d"

lemma message_std [simp]: "message (std_violation p d msg) = ''test-std/'' @ td_name d @ '': '' @ msg"
  by (simp add: std_violation_def violation_at_def)

lemma filter_messages:
  "filter (\<lambda>v. message v \<noteq> ''test-std/'' @ td_name d @ '': '' @ m) (map (std_violation p d) ms) =
     map (std_violation p d) (filter (\<lambda>x. x \<noteq> m) ms)"
  by (induction ms) auto

lemma new_documentation_messages:
  "filter (\<lambda>x. x \<noteq> TRACKING_MESSAGE) (documentation_messages d) = [] \<longleftrightarrow>
     meaningful [fst (sections_of (hd (td_docs d)))] \<and>
     meaningful (section_lines ''steps'' (snd (sections_of (hd (td_docs d))))) \<and>
     meaningful (section_lines ''expected'' (snd (sections_of (hd (td_docs d))))) \<and>
     list_ex (\<lambda>doc. meaningful (section_lines ''preconditions'' (snd (sections_of doc)))) (td_docs d)"
  by (simp add: documentation_messages_def TRACKING_MESSAGE_def split: prod.split)

lemma new_test_clean: "new_test_violations p d = [] \<longleftrightarrow> well_described d \<and> consistent_state d"
proof -
  have "new_test_documentation_violations p d = [] \<longleftrightarrow> well_described d"
    unfolding new_test_documentation_violations_def documentation_violations_def filter_messages append_is_Nil_conv map_is_Nil_conv
      new_documentation_messages well_described_def
    by simp
  then show ?thesis by (auto simp: new_test_violations_def consistent_state_def)
qed

lemma sort_key_Nil [simp]: "sort_key f xs = [] \<longleftrightarrow> xs = []"
  by (metis length_0_conv length_sort)

lemma check_std_parsed:
  assumes "is_product_test_path p" "parse source = Inr tree"
  shows "check_test_std parse dump p source None =
      Inr (sort_key (\<lambda>v. (line_key v, message v)) (compare_definitions p dump (definitions_of tree) []))"
    and "parse head_source = Inr head_tree \<Longrightarrow> check_test_std parse dump p source (Some head_source) =
      Inr (sort_key (\<lambda>v. (line_key v, message v)) (compare_definitions p dump (definitions_of tree) (definitions_of head_tree)))"
  using assms by (simp_all add: check_test_std_def parse_tree_def)

lemma new_tests_clean_state:
  assumes "is_product_test_path p" "parse source = Inr tree" "check_test_std parse dump p source None = Inr []"
    and "d \<in> set (definitions_of tree)"
  shows "well_described d \<and> consistent_state d"
  using assms(3,4)
  by (auto simp: check_std_parsed(1)[where parse = parse, OF assms(1,2)] compare_definitions_def new_test_clean concat_eq_Nil_conv)

text \<open>
  C20. A new module of product tests passes exactly when every test in it has a description, steps,
  an expected result, preconditions at some level and a tracking link of its own with the skip
  marker, and is either implemented, enabled and not manual or a disabled manual placeholder.
\<close>

theorem new_tests_exact:
  assumes "is_product_test_path p" "parse source = Inr tree"
  shows "check_test_std parse dump p source None = Inr [] \<longleftrightarrow>
    (\<forall>d \<in> set (definitions_of tree). well_described d \<and> consistent_state d)"
  by (auto simp: check_std_parsed(1)[where parse = parse, OF assms] compare_definitions_def new_test_clean concat_eq_Nil_conv)

lemma std_described: "well_described (hd (definitions_of std_module))"
  by (simp add: std_definitions well_described_def std_sections meaningful_def std_content PLACEHOLDERS_def has_tracking_url_def
      jira_lines_missing_skip_marker_def std_splitlines std_lines_def std_urls std_full std_none std_mark)

theorem new_tests_exact_witness:
  "check_test_std (\<lambda>_. Inr std_module) (\<lambda>_. []) std_path [] None = Inr []"
  using new_tests_exact[OF std_path_ok, of "\<lambda>_. Inr std_module" "[]" std_module "\<lambda>_. []"] std_described
  by (simp add: std_definitions consistent_state_def)

section \<open>Unchanged modules\<close>

lemma match_equal_self: "match_equal dump ds ds = (map (\<lambda>d. (d, d)) ds, [], [])"
  by (induction ds) (auto simp: extract_Cons_code)

lemma new_documentation_self: "d \<in> set ds \<Longrightarrow> new_documentation p ds d = []"
  by (auto simp: new_documentation_def filter_empty_conv)

definition wrongly_manual :: "test_definition \<Rightarrow> bool" where
  "wrongly_manual d \<longleftrightarrow> td_manual d \<and> \<not> td_disabled d \<and> \<not> td_placeholder d"

lemma transition_self:
  "transition_violations p d d =
     (if wrongly_manual d then [std_violation p d ''remove @pytest.mark.manual from this implemented test''] else [])"
  by (auto simp: transition_violations_def transition_messages_def wrongly_manual_def)

lemma compare_tests_self: "compare_tests p dump ds ds = concat (map (\<lambda>d. transition_violations p d d) ds)"
  by (simp add: compare_tests_def match_equal_self new_documentation_self o_def)

text \<open>
  A staged module with the same text as in HEAD has no violation but the report of implemented,
  enabled tests that are marked manual: whatever descriptions and placeholders it has are kept.
\<close>

theorem unchanged_module_passes:
  assumes "is_product_test_path p" "parse source = Inr tree"
  shows "\<exists>vs. check_test_std parse dump p source (Some source) = Inr vs \<and>
    set vs = {std_violation p d ''remove @pytest.mark.manual from this implemented test'' | d.
      d \<in> set (definitions_of tree) \<and> wrongly_manual d}"
proof -
  let ?ds = "definitions_of tree"
  have "set (compare_definitions p dump ?ds ?ds) = (\<Union>d \<in> set ?ds. set (transition_violations p d d))"
    by (auto simp: compare_definitions_def compare_tests_self tests_named_def)
  then show ?thesis
    using check_std_parsed(2)[where parse = parse, OF assms assms(2), of dump] by (auto simp: transition_self split: if_splits)
qed

theorem unchanged_module_passes_witness:
  "check_test_std (\<lambda>_. Inr std_module) (\<lambda>_. []) std_path [] (Some []) = Inr []"
proof -
  obtain vs where "check_test_std (\<lambda>_. Inr std_module) (\<lambda>_. []) std_path [] (Some []) = Inr vs"
      "set vs = {std_violation std_path d ''remove @pytest.mark.manual from this implemented test'' | d.
        d \<in> set (definitions_of std_module) \<and> wrongly_manual d}"
    using unchanged_module_passes[OF std_path_ok, of "\<lambda>_. Inr std_module" "[]" std_module "\<lambda>_. []"] by blast
  then show ?thesis by (simp add: std_definitions wrongly_manual_def)
qed

section \<open>Versions with distinct names\<close>

lemma tests_named_unique:
  "distinct (map td_name ds) \<Longrightarrow> d \<in> set ds \<Longrightarrow> tests_named (td_name d) ds = [d]"
  by (induction ds) (auto simp: tests_named_def filter_empty_conv image_iff)

lemma compare_tests_single:
  "compare_tests p dump [c] [q] = new_documentation p [q] c @ transition_violations p c q"
  by (auto simp: compare_tests_def extract_Cons_code extract_Nil_code)

lemma compare_distinct:
  assumes "distinct (map td_name indexed)" "distinct (map td_name head)"
  shows "v \<in> set (compare_definitions p dump indexed head) \<longleftrightarrow>
    (\<exists>c \<in> set indexed. td_name c \<notin> td_name ` set head \<and> v \<in> set (new_test_violations p c)) \<or>
    (\<exists>c \<in> set indexed. \<exists>q \<in> set head. td_name q = td_name c \<and>
       (v \<in> set (new_documentation p [q] c) \<or> v \<in> set (transition_violations p c q)))"
proof -
  have "compare_tests p dump (tests_named (td_name c) indexed) (tests_named (td_name c) head) =
      new_documentation p [q] c @ transition_violations p c q"
    if "c \<in> set indexed" "q \<in> set head" "td_name q = td_name c" for c q
    using tests_named_unique[OF assms(1) that(1)] tests_named_unique[OF assms(2) that(2)] that(3)
    by (simp add: compare_tests_single)
  then have same: "v \<in> set (compare_tests p dump (tests_named (td_name c) indexed) (tests_named (td_name c) head)) \<longleftrightarrow>
      v \<in> set (new_documentation p [q] c) \<or> v \<in> set (transition_violations p c q)"
    if "c \<in> set indexed" "q \<in> set head" "td_name q = td_name c" for c q
    using that by simp
  have "(\<exists>x \<in> set (filter (\<lambda>x. x \<in> td_name ` set head) (remdups (map td_name indexed))).
        v \<in> set (compare_tests p dump (tests_named x indexed) (tests_named x head))) \<longleftrightarrow>
      (\<exists>c \<in> set indexed. \<exists>q \<in> set head. td_name q = td_name c \<and>
        v \<in> set (compare_tests p dump (tests_named (td_name c) indexed) (tests_named (td_name c) head)))"
    by (auto simp: image_iff intro: bexI[rotated]) metis
  also have "\<dots> \<longleftrightarrow> (\<exists>c \<in> set indexed. \<exists>q \<in> set head. td_name q = td_name c \<and>
       (v \<in> set (new_documentation p [q] c) \<or> v \<in> set (transition_violations p c q)))"
    by (intro bex_cong refl conj_cong same)
  finally show ?thesis by (auto simp: compare_definitions_def)
qed

lemma transition_keeps_state:
  assumes "transition_violations p c q = []" "consistent_state q"
  shows "consistent_state c" and "\<not> td_placeholder q \<Longrightarrow> \<not> td_placeholder c"
  using assms by (auto simp: transition_violations_def transition_messages_def consistent_state_def split: if_splits)

section \<open>The life of a test\<close>

text \<open>
  A history of a test module, latest version first: it was added and then changed by commits that
  passed the check, and no version has two tests of the same name.
\<close>

inductive clean_history :: "parser \<Rightarrow> (node \<Rightarrow> string) \<Rightarrow> path \<Rightarrow> string list \<Rightarrow> bool" for parse dump p where
  added: "parse source = Inr tree \<Longrightarrow> distinct (map td_name (definitions_of tree)) \<Longrightarrow>
    check_test_std parse dump p source None = Inr [] \<Longrightarrow> clean_history parse dump p [source]"
| changed: "clean_history parse dump p (previous # older) \<Longrightarrow>
    parse source = Inr tree \<Longrightarrow> distinct (map td_name (definitions_of tree)) \<Longrightarrow>
    check_test_std parse dump p source (Some previous) = Inr [] \<Longrightarrow> clean_history parse dump p (source # previous # older)"

inductive_cases clean_history_cons: "clean_history parse dump p (source # older)"

lemma clean_commit:
  assumes "is_product_test_path p" "parse source = Inr tree" "parse previous = Inr head_tree"
    and "distinct (map td_name (definitions_of tree))" "distinct (map td_name (definitions_of head_tree))"
    and "check_test_std parse dump p source (Some previous) = Inr []"
  shows "c \<in> set (definitions_of tree) \<Longrightarrow> td_name c \<notin> td_name ` set (definitions_of head_tree) \<Longrightarrow> new_test_violations p c = []"
    and "c \<in> set (definitions_of tree) \<Longrightarrow> q \<in> set (definitions_of head_tree) \<Longrightarrow> td_name q = td_name c \<Longrightarrow>
      transition_violations p c q = []"
proof -
  have "compare_definitions p dump (definitions_of tree) (definitions_of head_tree) = []"
    using assms(6) check_std_parsed(2)[where parse = parse, OF assms(1-3)] by simp
  then have none: "v \<notin> set (compare_definitions p dump (definitions_of tree) (definitions_of head_tree))" for v by simp
  show "c \<in> set (definitions_of tree) \<Longrightarrow> td_name c \<notin> td_name ` set (definitions_of head_tree) \<Longrightarrow> new_test_violations p c = []"
    using none[unfolded compare_distinct[OF assms(4,5)]] by (metis list.set_intros(1) neq_Nil_conv)
  show "c \<in> set (definitions_of tree) \<Longrightarrow> q \<in> set (definitions_of head_tree) \<Longrightarrow> td_name q = td_name c \<Longrightarrow>
      transition_violations p c q = []"
    using none[unfolded compare_distinct[OF assms(4,5)]] by (metis list.set_intros(1) neq_Nil_conv)
qed

lemma history_parsed: "clean_history parse dump p (source # older) \<Longrightarrow>
    \<exists>tree. parse source = Inr tree \<and> distinct (map td_name (definitions_of tree))"
  by (auto elim: clean_history_cons)

lemma history_states:
  assumes "clean_history parse dump p versions" "is_product_test_path p"
  shows "parse (hd versions) = Inr tree \<Longrightarrow> c \<in> set (definitions_of tree) \<Longrightarrow> consistent_state c"
  using assms
proof (induction arbitrary: tree c)
  case (added source tree')
  then show ?case using new_tests_clean_state[of p parse source tree dump c] by simp
next
  case (changed previous older source tree')
  obtain head_tree where head: "parse previous = Inr head_tree" "distinct (map td_name (definitions_of head_tree))"
    using history_parsed[OF changed.hyps(1)] by blast
  have t: "tree' = tree" using changed.prems(1) changed.hyps(2) by simp
  note commit = clean_commit[where parse = parse, OF changed.prems(3) changed.hyps(2) head(1) changed.hyps(3) head(2) changed.hyps(4), unfolded t,
      OF changed.prems(2)]
  show ?case
  proof (cases "td_name c \<in> td_name ` set (definitions_of head_tree)")
    case True
    then obtain q where q: "q \<in> set (definitions_of head_tree)" "td_name q = td_name c" by force
    then have "consistent_state q" using changed.IH head(1) changed.prems(3) by simp
    then show ?thesis using transition_keeps_state(1)[OF commit(2)[OF q]] by blast
  next
    case False
    then show ?thesis using commit(1) new_test_clean by blast
  qed
qed

text \<open>
  C19. In a history of commits that pass the check, every test of the latest version is either
  implemented, enabled and not marked manual, or a disabled placeholder marked manual, and a test
  that was implemented in the version before is still implemented.
\<close>

theorem test_lifecycle:
  assumes "clean_history parse dump p (source # older)" "is_product_test_path p" "parse source = Inr tree"
  shows "(\<forall>c \<in> set (definitions_of tree). consistent_state c) \<and>
    (\<forall>previous rest head_tree. older = previous # rest \<longrightarrow> parse previous = Inr head_tree \<longrightarrow>
       (\<forall>q \<in> set (definitions_of head_tree). \<forall>c \<in> set (definitions_of tree).
          td_name q = td_name c \<and> \<not> td_placeholder q \<longrightarrow> \<not> td_placeholder c))"
proof (intro conjI ballI allI impI)
  show "consistent_state c" if "c \<in> set (definitions_of tree)" for c
    using history_states[OF assms(1,2)] assms(3) that by simp
  fix previous rest head_tree q c
  assume older: "older = previous # rest" and head: "parse previous = Inr head_tree"
    and q: "q \<in> set (definitions_of head_tree)" and c: "c \<in> set (definitions_of tree)"
    and qc: "td_name q = td_name c \<and> \<not> td_placeholder q"
  have h: "clean_history parse dump p (previous # rest)" "check_test_std parse dump p source (Some previous) = Inr []"
    and d: "distinct (map td_name (definitions_of tree))"
    using assms(1,3) older by (auto elim: clean_history_cons)
  have d': "distinct (map td_name (definitions_of head_tree))" using history_parsed[OF h(1)] head by simp
  have "consistent_state q" using history_states[OF h(1) assms(2)] head q by simp
  then show "\<not> td_placeholder c"
    using transition_keeps_state(2)[OF clean_commit(2)[where parse = parse, OF assms(2,3) head d d' h(2) c q]] qc by blast
qed

theorem test_lifecycle_witness:
  "list_all consistent_state (definitions_of std_module)"
proof -
  have "clean_history (\<lambda>_. Inr std_module) (\<lambda>_. []) std_path [[]]"
    by (rule clean_history.added[OF refl])
      (use std_described in \<open>auto simp: check_std_parsed(1)[OF std_path_ok refl] compare_definitions_def new_test_clean
        std_definitions consistent_state_def\<close>)
  from test_lifecycle[OF this std_path_ok refl] show ?thesis by (simp add: list_all_iff)
qed

end
