(* ===== verification/PolicyMain.thy ===== *)
theory PolicyMain
  imports TestStd
begin

text \<open>
  The entry point of the policy hook (\<open>scripts/pre_commit_hooks/check_policy.py\<close>): the checks of one
  source, of one file, of the files that are staged, and \<open>main\<close>. What the hook asks of Git, GitHub,
  the parser and the files of the worktree is an environment. An exception is a value; the result of
  a run is an option, since the search for resource classes is a loop over the modules it finds.
\<close>

record policy_env =
  pe_run :: command_runner
  pe_iter :: "path set \<Rightarrow> path list"
  pe_lint :: lint_env
  pe_resource :: resource_env
  pe_listing :: "string \<Rightarrow> string + bool \<times> string list"
  pe_is_file :: "path \<Rightarrow> bool"
  pe_read_text :: "path \<Rightarrow> string res"

section \<open>One source\<close>

text \<open>Without given classes they are discovered by reading all local files, which always returns.\<close>

definition known_classes :: "resource_env \<Rightarrow> string list set option \<Rightarrow> string list set res" where
  "known_classes env resource_classes =
     (case resource_classes of Some rs \<Rightarrow> Inr rs | None \<Rightarrow> the (discover_resource_classes env None))"

lemma full_discovery_returns: "\<exists>r. discover_resource_classes env None = Some r"
  by (simp add: discover_resource_classes_def split: option.splits sum.splits)

definition source_violations ::
    "resource_env \<Rightarrow> path \<Rightarrow> string \<Rightarrow> node \<Rightarrow> nat set option \<Rightarrow> string list \<Rightarrow> (string \<times> node) option \<Rightarrow> string list set \<Rightarrow>
     policy_violation list" where
  "source_violations env p source tree added modname head known =
     (let scs = scopes tree modname (is_package p);
          resolve = resolved_names scs {};
          intersects = node_or_dependency_intersects scs added;
          head' = map_option (\<lambda>(s, t). (s, t, resolved_names (scopes t modname (is_package p)) {})) head
      in check_module_assignments p scs added tree @
         check_ast_nodes p scs added tree @
         check_resource_clients env p source tree added resolve head' known intersects @
         check_test_basics p tree added (Some resolve) (Some intersects))"

definition check_source_tree ::
    "resource_env \<Rightarrow> path \<Rightarrow> string \<Rightarrow> node \<Rightarrow> nat set option \<Rightarrow> string option \<Rightarrow> string list set option \<Rightarrow>
     policy_violation list res" where
  "check_source_tree env p source tree added head_source resource_classes =
     bind_res (module_name_of p) (\<lambda>modname.
     bind_res (case head_source of
                 None \<Rightarrow> Inr None
               | Some h \<Rightarrow> bind_res (parse_tree (re_parse env) h) (\<lambda>t. Inr (Some (h, t)))) (\<lambda>head.
     bind_res (known_classes env resource_classes) (\<lambda>known.
       Inr (sort_key (\<lambda>v. (line_number v = None, line_key v))
              (source_violations env p source tree added modname head known)))))"

definition check_python_source ::
    "resource_env \<Rightarrow> path \<Rightarrow> string \<Rightarrow> nat set option \<Rightarrow> string option \<Rightarrow> string list set option \<Rightarrow> policy_violation list res" where
  "check_python_source env p source added head_source resource_classes =
     bind_res (parse_tree (re_parse env) source) (\<lambda>tree.
       check_source_tree env p source tree added head_source resource_classes)"

section \<open>One file\<close>

definition check_python_file ::
    "policy_env \<Rightarrow> path \<Rightarrow> nat set option \<Rightarrow> string option \<Rightarrow> string option \<Rightarrow> string list set option \<Rightarrow>
     policy_violation list res" where
  "check_python_file env p added source head_source resource_classes =
     (if path_suffix p \<noteq> ''.py'' \<or> (source = None \<and> \<not> pe_is_file env p) then Inr []
      else if added = Some {} \<and> head_source = None then Inr []
      else bind_res (case source of Some s \<Rightarrow> Inr s | None \<Rightarrow> pe_read_text env p) (\<lambda>text.
           check_python_source (pe_resource env) p text added head_source resource_classes))"

definition check_file ::
    "policy_env \<Rightarrow> path \<Rightarrow> bool \<Rightarrow> nat set option \<Rightarrow> string option \<Rightarrow> string option \<Rightarrow> string list set option \<Rightarrow>
     policy_violation list res" where
  "check_file env p staged added source head_source resource_classes =
     (let path_violations = (if staged then opt_list (check_top_level_test_path p) @ opt_list (check_site_path p) else []);
          effective = (if staged \<and> source \<noteq> None \<and> added = Some {} \<and> head_source = None then None else added)
      in bind_res (check_python_file env p effective source head_source resource_classes) (\<lambda>vs.
           Inr (path_violations @ vs)))"

section \<open>The staged files\<close>

definition CHECK_FAMILIES :: "string list" where
  "CHECK_FAMILIES = [''path-policy'', ''linter-directives'', ''python-source'', ''test-std'', ''stp-links'']"

text \<open>\<open>staged_changes.sources[path]\<close>.\<close>

definition staged_source :: "staged_changes \<Rightarrow> path \<Rightarrow> string res" where
  "staged_source sc p = (case map_of (sources sc) p of None \<Rightarrow> Inl KeyError | Some s \<Rightarrow> Inr s)"

fun imported_modules :: "parser \<Rightarrow> staged_changes \<Rightarrow> path list \<Rightarrow> string list set res" where
  "imported_modules parse sc [] = Inr {}"
| "imported_modules parse sc (p # ps) =
     bind_res (staged_source sc p) (\<lambda>source.
     bind_res (parse_tree parse source) (\<lambda>tree.
     bind_res (module_name_of p) (\<lambda>modname.
     bind_res (imported_modules parse sc ps) (\<lambda>rest. Inr (imported_module_names modname tree \<union> rest)))))"

definition is_relevant :: "string list \<Rightarrow> bool" where
  "is_relevant m \<longleftrightarrow> m \<noteq> [] \<and> hd m \<in> {''libs'', ''tests'', ''utilities'', ''ocp_resources''}"

text \<open>
  The reader of tracked modules caches what it has read; it answers as reading directly does.
  The code passes the modules in the order of a set, which Python leaves open.
\<close>

definition staged_resource_classes :: "policy_env \<Rightarrow> string list set \<Rightarrow> string list set res option" where
  "staged_resource_classes env modules =
     (let relevant = {m \<in> modules. is_relevant m}
      in if relevant = {} then Some (Inr {})
         else (case index_source_reader_of (pe_run env) of
                 Inl e \<Rightarrow> Some (Inl e)
               | Inr reader \<Rightarrow>
                   discover_resource_classes (pe_resource env)
                     (Some (direct_read (pe_run env) (module_paths reader), sorted_list_of_set relevant))))"

fun check_given_files :: "policy_env \<Rightarrow> staged_changes \<Rightarrow> string list set \<Rightarrow> path list \<Rightarrow> policy_violation list res" where
  "check_given_files env sc resource_classes [] = Inr []"
| "check_given_files env sc resource_classes (p # ps) =
     (if p \<in> deleted_paths sc \<or> p \<in> symlinked_paths sc then check_given_files env sc resource_classes ps
      else bind_res (check_file env p False (resolved_added_lines sc p) (map_of (sources sc) p)
                       (map_of (head_sources sc) p) (Some resource_classes)) (\<lambda>vs.
           bind_res (check_given_files env sc resource_classes ps) (\<lambda>rest. Inr (vs @ rest))))"

definition python_source_violations ::
    "policy_env \<Rightarrow> staged_changes \<Rightarrow> path list \<Rightarrow> path list \<Rightarrow> policy_violation list res option" where
  "python_source_violations env sc file_paths python_paths =
     (case imported_modules (re_parse (pe_resource env)) sc python_paths of
        Inl e \<Rightarrow> Some (Inl e)
      | Inr modules \<Rightarrow>
          map_option (\<lambda>classes. bind_res classes (\<lambda>rs. check_given_files env sc rs file_paths))
            (staged_resource_classes env modules))"

fun test_std_violations :: "policy_env \<Rightarrow> staged_changes \<Rightarrow> path list \<Rightarrow> policy_violation list res" where
  "test_std_violations env sc [] = Inr []"
| "test_std_violations env sc (p # ps) =
     bind_res (staged_source sc p) (\<lambda>source.
     bind_res (check_test_std (re_parse (pe_resource env)) (re_dump (pe_resource env)) p source
                 (if p \<in> renamed_paths sc then None else map_of (head_sources sc) p)) (\<lambda>vs.
     bind_res (test_std_violations env sc ps) (\<lambda>rest. Inr (vs @ rest))))"

section \<open>The run\<close>

definition raised :: "'a res \<Rightarrow> lint_error + 'a" where
  "raised r = map_sum Raised id r"

definition if_selected :: "string \<Rightarrow> string set \<Rightarrow> (lint_error + policy_violation list) \<Rightarrow> lint_error + policy_violation list" where
  "if_selected family selected vs = (if family \<in> selected then vs else Inr [])"

definition python_sources_of :: "staged_changes \<Rightarrow> (path \<times> string \<times> string option) list" where
  "python_sources_of sc =
     [(p, source, map_of (head_sources sc) p). (p, source) \<leftarrow> sources sc, path_suffix p = ''.py'']"

definition python_paths_of :: "staged_changes \<Rightarrow> path list \<Rightarrow> path list" where
  "python_paths_of sc file_paths = filter (\<lambda>p. p \<in> fst ` set (python_sources_of sc)) file_paths"

definition families_violations ::
    "policy_env \<Rightarrow> staged_changes \<Rightarrow> string set \<Rightarrow> path list \<Rightarrow> (lint_error + policy_violation list) option" where
  "families_violations env sc selected file_paths =
     (let python_sources = python_sources_of sc; python_paths = python_paths_of sc file_paths
      in case if_selected ''linter-directives'' selected
                (linter_directives_violations (pe_lint env) (pe_run env) sc python_sources python_paths) of
           Inl e \<Rightarrow> Some (Inl e)
         | Inr linter_vs \<Rightarrow>
             map_option (\<lambda>python.
               bind_res (raised python) (\<lambda>python_vs.
               bind_res (if_selected ''test-std'' selected (raised (test_std_violations env sc python_paths))) (\<lambda>std_vs.
               bind_res (if_selected ''stp-links'' selected
                           (raised (stp_links_violations (pe_run env) (pe_listing env) sc python_paths))) (\<lambda>stp_vs.
                 Inr ((if ''path-policy'' \<in> selected then path_policy_violations sc else []) @ linter_vs @ python_vs @
                      std_vs @ stp_vs)))))
               (if ''python-source'' \<in> selected then python_source_violations env sc file_paths python_paths else Some (Inr [])))"

definition policy_main :: "policy_env \<Rightarrow> string list \<Rightarrow> (lint_error + string list \<times> nat) option" where
  "policy_main env arguments =
     (case parse_check_arguments ''check_policy'' CHECK_FAMILIES arguments of
        Inl e \<Rightarrow> Some (Inl (Raised e))
      | Inr (names, selected) \<Rightarrow>
          (case read_staged_changes (pe_run env) (pe_iter env) of
             Inl e \<Rightarrow> Some (Inl (Raised e))
           | Inr sc \<Rightarrow>
               map_option (\<lambda>found. bind_res found (\<lambda>vs. Inr (report_violations vs)))
                 (families_violations env sc selected (map py_path names))))"

end
