(* ===== verification/ResourceProps.thy ===== *)
theory ResourceProps
  imports ResourceClients SourceProps
begin

text \<open>
  Properties of the check of resource clients: which classes are discovered, that the search over
  local modules ends and misses none, which calls are reported, and how calls of the cached client
  are compared with the version in HEAD.
\<close>

section \<open>Subclasses of Resource\<close>

definition inherits :: "class_record list \<Rightarrow> string list \<Rightarrow> string list \<Rightarrow> bool" where
  "inherits recs b q \<longleftrightarrow> (\<exists>r \<in> set recs. qualified_name r = q \<and> b \<in> set (record_bases r))"

lemma has_base_mono: "S \<subseteq> T \<Longrightarrow> has_base_in r S \<Longrightarrow> has_base_in r T"
  by (auto simp: has_base_in_def list_ex_iff)

interpretation subclasses: closure "inherits recs" "\<lambda>seeds. saturate qualified_name has_base_in recs (set seeds)"
  for recs
proof unfold_locales
  fix seeds x y
  show "set seeds \<subseteq> saturate qualified_name has_base_in recs (set seeds)" by (rule saturate_extends)
  assume "x \<in> saturate qualified_name has_base_in recs (set seeds)" "inherits recs x y"
  then show "y \<in> saturate qualified_name has_base_in recs (set seeds)"
    using saturate_closed[of _ recs has_base_in qualified_name] by (force simp: inherits_def has_base_in_def list_ex_iff)
next
  fix seeds T
  assume "set seeds \<subseteq> T" and closed: "\<And>x y. x \<in> T \<Longrightarrow> inherits recs x y \<Longrightarrow> y \<in> T"
  then show "saturate qualified_name has_base_in recs (set seeds) \<subseteq> T"
    by (intro saturate_least[OF has_base_mono]) (auto simp: inherits_def has_base_in_def list_ex_iff)
qed

text \<open>
  C25. The discovered classes are exactly those that inherit, through any chain of recorded bases,
  from one of the two base classes of resources; the order of the records does not matter.
\<close>

theorem resource_closure_exact:
  "c \<in> resource_closure recs \<longleftrightarrow> (\<exists>b \<in> set RESOURCE_BASES. (inherits recs)\<^sup>*\<^sup>* b c)"
  unfolding resource_closure_def by (rule subclasses.result_iff_reach)

section \<open>The search over local modules\<close>

definition module_edges :: "string list \<Rightarrow> node \<Rightarrow> string list set" where
  "module_edges modname tree =
     {m \<in> imported_module_names modname tree. is_local m} \<union>
     {butlast b | r b. r \<in> set (class_records modname tree) \<and> b \<in> set (record_bases r) \<and> length b > 1 \<and> is_local b}"

lemma finite_modules [simp]: "finite (imported_module_names modname tree)"
proof -
  have "finite (statement_modules modname n)" for n
    by (auto simp: statement_modules_def split: shape.splits stmt.splits)
  then show ?thesis by (simp add: imported_module_names_def)
qed

lemma set_found_modules:
  "set (found_modules visited modname tree (class_records modname tree)) = module_edges modname tree - visited"
  by (auto simp: found_modules_def module_edges_def)

lemma targeted_loop_returns:
  assumes "finite {m. \<exists>source. reader m = Inr (Some source)}"
  shows "\<exists>r. targeted_loop parse reader pending visited recs = Some r"
proof -
  let ?M = "{m. \<exists>source. reader m = Inr (Some source)}"
  have "\<forall>pending visited recs. st = (pending, visited, recs) \<longrightarrow>
      (\<exists>r. targeted_loop parse reader pending visited recs = Some r)" for st
  proof (induction st rule: wf_induct[of "measures [\<lambda>(pending, visited, recs). card (?M - visited),
        \<lambda>(pending, visited, recs). length pending]"])
    case (2 st)
    note IH = 2
    show ?case
    proof (intro allI impI)
      fix pending visited recs assume st: "st = (pending, visited, recs)"
      let ?m = "last pending" and ?rest = "butlast pending"
      show "\<exists>r. targeted_loop parse reader pending visited recs = Some r"
      proof (cases "pending = []")
        case False
        then have len: "length ?rest < length pending" by simp
        show ?thesis
        proof (cases "?m \<in> visited \<or> (\<exists>e. reader ?m = Inl e)")
          case True
          then show ?thesis
            using IH[rule_format, of "(?rest, visited, recs)" ?rest visited recs] st len False
            by (subst targeted_loop.simps) (auto simp: Let_def)
        next
          case new: False
          then obtain src where src: "reader ?m = Inr src" by (cases "reader ?m") auto
          show ?thesis
          proof (cases src)
            case None
            then have "?M - insert ?m visited = ?M - visited" using src by auto
            then show ?thesis
              using IH[rule_format, of "(?rest, insert ?m visited, recs)" ?rest "insert ?m visited" recs] st len False new src None
              by (subst targeted_loop.simps) (auto simp: Let_def)
          next
            case (Some source)
            then have "?m \<in> ?M - visited" using src new by auto
            then have "card (?M - insert ?m visited) < card (?M - visited)"
              using assms by (intro psubset_card_mono) auto
            then have "\<exists>r. targeted_loop parse reader pend (insert ?m visited) recs = Some r" for pend recs
              using IH[rule_format, of "(pend, insert ?m visited, recs)" pend "insert ?m visited" recs] st by auto
            then show ?thesis
              using False new src Some by (subst targeted_loop.simps) (auto simp: Let_def split: sum.split)
          qed
        qed
      qed (subst targeted_loop.simps, simp)
    qed
  qed simp
  then show ?thesis by blast
qed

text \<open>What holds of the visited modules in every iteration.\<close>

definition search_inv ::
    "parser \<Rightarrow> source_reader \<Rightarrow> string list list \<Rightarrow> string list set \<Rightarrow> class_record list \<Rightarrow> bool" where
  "search_inv parse reader pending visited recs \<longleftrightarrow>
     (\<forall>m \<in> visited. \<forall>source tree. reader m = Inr (Some source) \<longrightarrow> parse_tree parse source = Inr tree \<longrightarrow>
        set (class_records m tree) \<subseteq> set recs \<and> module_edges m tree \<subseteq> visited \<union> set pending)"

lemma set_last_butlast: "xs \<noteq> [] \<Longrightarrow> set xs = insert (last xs) (set (butlast xs))"
  by (metis append_butlast_last_id list.set(2) set_append Un_insert_right list.set(1) sup_bot.right_neutral)

definition search_result :: "parser \<Rightarrow> source_reader \<Rightarrow> string list list \<Rightarrow> string list set \<Rightarrow> class_record list \<Rightarrow>
    class_record list res \<Rightarrow> bool" where
  "search_result parse reader pending visited recs r \<longleftrightarrow>
     (\<forall>found. r = Inr found \<longrightarrow> search_inv parse reader pending visited recs \<longrightarrow>
        (\<exists>visited'. visited \<union> set pending \<subseteq> visited' \<and> search_inv parse reader [] visited' found))"

lemma search_inv_read:
  assumes inv: "search_inv parse reader pending visited recs" and "pending \<noteq> []"
    and src: "reader (last pending) = Inr (Some source)" "parse_tree parse source = Inr tree"
  shows "search_inv parse reader
    (butlast pending @ found_modules (insert (last pending) visited) (last pending) tree (class_records (last pending) tree))
    (insert (last pending) visited) (recs @ class_records (last pending) tree)"
  unfolding search_inv_def
proof (intro ballI allI impI)
  let ?m = "last pending"
  fix m s t assume m: "m \<in> insert ?m visited" "reader m = Inr (Some s)" "parse_tree parse s = Inr t"
  show "set (class_records m t) \<subseteq> set (recs @ class_records ?m tree) \<and> module_edges m t \<subseteq> insert ?m visited \<union>
      set (butlast pending @ found_modules (insert ?m visited) ?m tree (class_records ?m tree))"
  proof (cases "m = ?m")
    case True
    then show ?thesis using m src by (auto simp: set_found_modules)
  next
    case False
    then have "set (class_records m t) \<subseteq> set recs" "module_edges m t \<subseteq> visited \<union> set pending"
      using inv m unfolding search_inv_def by blast+
    then show ?thesis unfolding set_last_butlast[OF assms(2)] by auto
  qed
qed

lemma targeted_loop_inv:
  assumes "targeted_loop parse reader pending visited recs = Some r"
  shows "search_result parse reader pending visited recs r"
proof (rule targeted_loop.raw_induct[OF _ assms], goal_cases)
  case (1 loop parse reader pending visited recs r)
  note IH = "1"(1)
  show ?case
    unfolding search_result_def
  proof (intro allI impI)
    fix found assume r: "r = Inr found" and inv: "search_inv parse reader pending visited recs"
    let ?m = "last pending" and ?rest = "butlast pending"
    show "\<exists>visited'. visited \<union> set pending \<subseteq> visited' \<and> search_inv parse reader [] visited' found"
    proof (cases "pending = []")
      case True
      then show ?thesis using "1"(2) r inv by auto
    next
      case False
      note pend = set_last_butlast[OF False]
      have finish: "\<exists>visited'. visited \<union> set pending \<subseteq> visited' \<and> search_inv parse reader [] visited' found"
        if l: "loop parse reader ps vs rs = Some r" and i: "search_inv parse reader ps vs rs"
          and sub: "visited \<union> set pending \<subseteq> vs \<union> set ps" for ps vs rs
      proof -
        obtain visited' where "vs \<union> set ps \<subseteq> visited'" "search_inv parse reader [] visited' found"
          using IH[OF l] r i unfolding search_result_def by blast
        then show ?thesis using sub by blast
      qed
      consider (seen) "?m \<in> visited" "loop parse reader ?rest visited recs = Some r"
        | (absent) "reader ?m = Inr None" "loop parse reader ?rest (insert ?m visited) recs = Some r"
        | (read) source tree where "reader ?m = Inr (Some source)" "parse_tree parse source = Inr tree"
            "loop parse reader (?rest @ found_modules (insert ?m visited) ?m tree (class_records ?m tree)) (insert ?m visited)
               (recs @ class_records ?m tree) = Some r"
        using "1"(2) False r by (auto simp: Let_def split: if_splits sum.splits option.splits)
      then show ?thesis
      proof cases
        case seen
        then have "visited \<union> set ?rest = visited \<union> set pending" using pend by auto
        then have "search_inv parse reader ?rest visited recs" using inv unfolding search_inv_def by simp
        then show ?thesis by (rule finish[OF seen(2)]) (use seen(1) pend in auto)
      next
        case absent
        then have "search_inv parse reader ?rest (insert ?m visited) recs" using inv pend by (auto simp: search_inv_def)
        then show ?thesis by (rule finish[OF absent(2)]) (use pend in auto)
      next
        case read
        note search_inv_read[OF inv False read(1,2)]
        then show ?thesis by (rule finish[OF read(3)]) (use pend in auto)
      qed
    qed
  qed
qed

definition leads_to :: "parser \<Rightarrow> source_reader \<Rightarrow> string list \<Rightarrow> string list \<Rightarrow> bool" where
  "leads_to parse reader m m' \<longleftrightarrow>
     (\<exists>source tree. reader m = Inr (Some source) \<and> parse_tree parse source = Inr tree \<and> m' \<in> module_edges m tree)"

text \<open>
  C24. When finitely many modules have a source, the search over local modules returns; and when it
  returns records, they include the classes of every module that the given local modules lead to,
  through imports and base classes in any number of steps.
\<close>

theorem module_search_complete:
  assumes "finite {m. \<exists>source. reader m = Inr (Some source)}"
  shows "(\<exists>r. targeted_local_records parse reader names = Some r) \<and>
    (\<forall>recs m0 m source tree. targeted_local_records parse reader names = Some (Inr recs) \<longrightarrow>
       m0 \<in> set names \<longrightarrow> is_local m0 \<longrightarrow> (leads_to parse reader)\<^sup>*\<^sup>* m0 m \<longrightarrow>
       reader m = Inr (Some source) \<longrightarrow> parse_tree parse source = Inr tree \<longrightarrow>
       set (class_records m tree) \<subseteq> set recs)"
proof (intro conjI allI impI)
  show "\<exists>r. targeted_local_records parse reader names = Some r"
    unfolding targeted_local_records_def by (rule targeted_loop_returns[OF assms])
  fix recs m0 m source tree
  assume ret: "targeted_local_records parse reader names = Some (Inr recs)" and m0: "m0 \<in> set names" "is_local m0"
    and m: "(leads_to parse reader)\<^sup>*\<^sup>* m0 m" and src: "reader m = Inr (Some source)" "parse_tree parse source = Inr tree"
  have "search_inv parse reader (filter is_local names) {} []" by (simp add: search_inv_def)
  then obtain visited where v: "set (filter is_local names) \<subseteq> visited" "search_inv parse reader [] visited recs"
    using targeted_loop_inv[OF ret[unfolded targeted_local_records_def]] by (auto simp: search_result_def)
  from m have "m \<in> visited"
  proof (induction rule: rtranclp_induct)
    case base
    then show ?case using v(1) m0 by auto
  next
    case (step y z)
    then show ?case using v(2) by (fastforce simp: leads_to_def search_inv_def)
  qed
  then show "set (class_records m tree) \<subseteq> set recs" using v(2) src by (auto simp: search_inv_def)
qed

definition one_module_reader :: source_reader where
  "one_module_reader m = Inr (if m = [''libs'', ''net''] then Some ''class Net(Resource): pass'' else None)"

theorem module_search_complete_witness:
  "\<exists>r. targeted_local_records (\<lambda>_. Inr skip_module) one_module_reader [[''libs'', ''net'']] = Some r"
proof -
  have "finite {m. \<exists>source. one_module_reader m = Inr (Some source)}" by (simp add: one_module_reader_def)
  from module_search_complete[OF this] show ?thesis by blast
qed

section \<open>Resource calls\<close>

text \<open>What the check appends for a call, in the order of the calls.\<close>

lemma resource_calls_split:
  "mset (check_resource_calls p resource undocumented added identify legacy ns) =
     mset (concat (map resource ns)) +
     image_mset (\<lambda>n. violation_at p n CACHE_COMMENT_MESSAGE)
       (mset (filter (\<lambda>n. undocumented n \<and> added n) ns)) +
     mset (check_resource_calls p (\<lambda>_. []) (\<lambda>n. undocumented n \<and> \<not> added n) (\<lambda>_. False) identify legacy ns)"
  by (induction p resource undocumented added identify legacy ns rule: check_resource_calls.induct) auto

text \<open>
  The nodes of the module that no function or class definition encloses, and the resource classes: the
  known ones and the classes defined there that have a base which can be a resource class.
\<close>

definition same_scope :: "node \<Rightarrow> node \<Rightarrow> bool" where
  "same_scope m c \<longleftrightarrow> as_class m = None \<and> as_function m = None \<and> c \<in> set (children m)"

definition module_level :: "node \<Rightarrow> node \<Rightarrow> bool" where
  "module_level tree s \<longleftrightarrow> (\<exists>t \<in> set (module_body tree). same_scope\<^sup>*\<^sup>* t s)"

inductive resource_class :: "resolver \<Rightarrow> string list set \<Rightarrow> node \<Rightarrow> string list \<Rightarrow> bool" for resolve known tree where
  known: "c \<in> known \<Longrightarrow> resource_class resolve known tree c"
| derived: "module_level tree n \<Longrightarrow> as_class n = Some (x, bases, kws, body, decs) \<Longrightarrow> b \<in> set bases \<Longrightarrow> y \<in> resolve b \<Longrightarrow>
    resource_class resolve known tree y \<Longrightarrow> resource_class resolve known tree [''<local>'', x]"

lemma opens_scope_stmt: "opens_scope c \<Longrightarrow> is_stmt c"
  by (auto simp: opens_scope_def is_stmt_def as_class_def as_function_def split: shape.splits)

lemma same_scope_first:
  "same_scope\<^sup>*\<^sup>* c s \<longleftrightarrow> c = s \<or> \<not> opens_scope c \<and> (\<exists>d \<in> set (children c). same_scope\<^sup>*\<^sup>* d s)"
proof -
  have "same_scope\<^sup>*\<^sup>* c s \<longleftrightarrow> c = s \<or> (\<exists>d. same_scope c d \<and> same_scope\<^sup>*\<^sup>* d s)"
    by (metis converse_rtranclpE converse_rtranclp_into_rtranclp rtranclp.rtrancl_refl)
  then show ?thesis by (auto simp: same_scope_def opens_scope_def)
qed

lemma nested_statements_iff:
  "s \<in> set (nested_statements n) \<longleftrightarrow> is_stmt s \<and> (\<exists>c \<in> set (children n). same_scope\<^sup>*\<^sup>* c s)"
proof (induction n rule: nested_statements.induct)
  case (1 n)
  have "s \<in> set (nested_statements n) \<longleftrightarrow>
      (\<exists>c \<in> set (children n). is_stmt c \<and> s = c \<or> \<not> opens_scope c \<and> s \<in> set (nested_statements c))"
    using opens_scope_stmt by (subst nested_statements.simps) auto
  also have "\<dots> \<longleftrightarrow> (\<exists>c \<in> set (children n). is_stmt s \<and> same_scope\<^sup>*\<^sup>* c s)"
  proof (intro bex_cong refl)
    fix c assume c: "c \<in> set (children n)"
    have "s \<in> set (nested_statements c) \<longleftrightarrow> is_stmt s \<and> (\<exists>d \<in> set (children c). same_scope\<^sup>*\<^sup>* d s)" if "\<not> opens_scope c"
      by (rule 1[OF c]) (simp add: that)
    then show "(is_stmt c \<and> s = c \<or> \<not> opens_scope c \<and> s \<in> set (nested_statements c)) \<longleftrightarrow> is_stmt s \<and> same_scope\<^sup>*\<^sup>* c s"
      unfolding same_scope_first[of c s] by auto
  qed
  finally show ?case by simp
qed

lemma module_classes:
  assumes "as_class s = Some cl"
  shows "s \<in> set (all_scope_statements (module_body tree)) \<longleftrightarrow> module_level tree s"
proof -
  have "is_stmt s" using assms opens_scope_stmt[of s] by (simp add: opens_scope_def)
  then have "s \<in> set (all_scope_statements ss) \<longleftrightarrow>
      (\<exists>t \<in> set ss. s = t \<or> \<not> opens_scope t \<and> (\<exists>d \<in> set (children t). same_scope\<^sup>*\<^sup>* d s))" for ss
    by (auto simp: all_scope_statements_def nested_statements_iff split: if_splits)
  moreover have "module_level tree s \<longleftrightarrow>
      (\<exists>t \<in> set (module_body tree). t = s \<or> \<not> opens_scope t \<and> (\<exists>d \<in> set (children t). same_scope\<^sup>*\<^sup>* d s))"
    unfolding module_level_def by (intro bex_cong refl same_scope_first)
  ultimately show ?thesis by (simp add: eq_commute[of s])
qed

lemma local_resources_iff:
  "c \<in> known \<union> local_resource_classes resolve known tree \<longleftrightarrow> resource_class resolve known tree c"
proof
  let ?key = "\<lambda>(x, bases :: node list). local_class x"
  let ?enabled = "\<lambda>(x :: string, bases) loc. list_ex (\<lambda>b. resolve b \<inter> (known \<union> loc) \<noteq> {}) bases"
  let ?classes = "List.map_filter (\<lambda>n. map_option (\<lambda>(x, bases, _). (x, bases)) (as_class n)) (all_scope_statements (module_body tree))"
  have cls: "(x, bases) \<in> set ?classes \<longleftrightarrow> (\<exists>n k bo d. module_level tree n \<and> as_class n = Some (x, bases, k, bo, d))" for x bases
    using module_classes by (fastforce simp: in_set_map_filter)
  have loc: "local_resource_classes resolve known tree = saturate ?key ?enabled ?classes {}"
    by (simp add: local_resource_classes_def)
  have "local_resource_classes resolve known tree \<subseteq> {c. resource_class resolve known tree c}"
    unfolding loc
  proof (rule saturate_least)
    fix e assume "e \<in> set ?classes" "?enabled e {c. resource_class resolve known tree c}"
    moreover obtain x bases where e: "e = (x, bases)" by (cases e)
    ultimately obtain b y where "b \<in> set bases" "y \<in> resolve b" "y \<in> known \<or> resource_class resolve known tree y"
      and "\<exists>n k bo d. module_level tree n \<and> as_class n = Some (x, bases, k, bo, d)"
      using cls by (auto simp: list_ex_iff)
    then obtain n k bo d where "module_level tree n" "as_class n = Some (x, bases, k, bo, d)" "b \<in> set bases" "y \<in> resolve b"
        "resource_class resolve known tree y"
      using resource_class.known by blast
    then show "?key e \<in> {c. resource_class resolve known tree c}"
      using resource_class.derived unfolding e by (simp add: local_class_def)
  qed (fastforce simp: list_ex_iff)+
  then show "resource_class resolve known tree c" if "c \<in> known \<union> local_resource_classes resolve known tree"
    using that resource_class.known by blast
  show "c \<in> known \<union> local_resource_classes resolve known tree" if "resource_class resolve known tree c"
    using that
  proof (induction rule: resource_class.induct)
    case (derived n x bases kws body decs b y)
    have "?key (x, bases) \<in> saturate ?key ?enabled ?classes {}"
      by (rule saturate_closed) (use derived cls loc in \<open>auto simp: list_ex_iff\<close>)
    then show ?case unfolding loc by (simp add: local_class_def)
  qed simp
qed

text \<open>The calls that pass a client.\<close>

definition passes_client :: "node list \<Rightarrow> bool" where
  "passes_client kws \<longleftrightarrow> (\<exists>k v. k \<in> set kws \<and> as_keyword k = Some (Some ''client'', v) \<and> shape v \<noteq> Expr (NConstant KNone))"

lemma explicit_client_iff: "has_explicit_client kws \<longleftrightarrow> passes_client kws"
proof -
  have "is_none_constant v \<longleftrightarrow> shape v = Expr (NConstant KNone)" for v
    by (auto simp: is_none_constant_def split: shape.splits expr.splits pconstant.splits)
  then have "(case as_keyword k of Some (Some arg, v) \<Rightarrow> arg = ''client'' \<and> \<not> is_none_constant v | _ \<Rightarrow> False) \<longleftrightarrow>
      (\<exists>v. as_keyword k = Some (Some ''client'', v) \<and> shape v \<noteq> Expr (NConstant KNone))" for k
    by (simp split: option.split prod.split)
  then show ?thesis unfolding has_explicit_client_def passes_client_def list_ex_iff by blast
qed

definition CONSTRUCTOR_MESSAGE :: string where
  "CONSTRUCTOR_MESSAGE = ''resource-clients: pass an existing non-None client= to this Resource constructor''"

definition GET_MESSAGE :: string where
  "GET_MESSAGE = ''resource-clients: pass an existing non-None client= to this Resource class .get()''"

lemma resource_message_cases:
  "resource_call_message names resources kws = Some msg \<longleftrightarrow> \<not> passes_client kws \<and>
     (names \<inter> resources \<noteq> {} \<and> msg = CONSTRUCTOR_MESSAGE \<or>
      names \<inter> resources = {} \<and> (\<exists>c \<in> resources. c @ [''get''] \<in> names) \<and> msg = GET_MESSAGE)"
proof -
  have "(\<exists>x \<in> names. x \<noteq> [] \<and> last x = ''get'' \<and> butlast x \<in> resources) \<longleftrightarrow> (\<exists>c \<in> resources. c @ [''get''] \<in> names)"
    by (metis append_butlast_last_id butlast_snoc last_snoc snoc_eq_iff_butlast)
  then show ?thesis
    by (auto simp: resource_call_message_def explicit_client_iff CONSTRUCTOR_MESSAGE_def GET_MESSAGE_def)
qed

lemma resource_message_not_cache: "resource_call_message names resources kws \<noteq> Some CACHE_COMMENT_MESSAGE"
  by (auto simp: resource_call_message_def CACHE_COMMENT_MESSAGE_def)

fun left_calls :: "(node \<Rightarrow> cache_identity) \<Rightarrow> node list \<Rightarrow> (cache_identity \<times> nat) list \<Rightarrow> node list" where
  "left_calls identify [] legacy = []"
| "left_calls identify (n # ns) legacy =
     (if count_in legacy (identify n) > 0 then left_calls identify ns (take_one (identify n) legacy)
      else n # left_calls identify ns legacy)"

interpretation legacy_calls: withdrawal identify "left_calls identify" for identify
  by unfold_locales auto

lemma check_left_calls:
  "check_resource_calls p (\<lambda>_. []) undocumented (\<lambda>_. False) identify legacy ns =
     map (\<lambda>n. violation_at p n CACHE_COMMENT_MESSAGE) (left_calls identify (filter undocumented ns) legacy)"
  by (induction ns arbitrary: legacy) auto

definition resource_part ::
    "path \<Rightarrow> resolver \<Rightarrow> string list set \<Rightarrow> (node \<Rightarrow> node \<Rightarrow> bool) \<Rightarrow> node \<Rightarrow> policy_violation list" where
  "resource_part p resolve resources intersects n =
     (case as_call n of None \<Rightarrow> [] | Some (f, _, kws) \<Rightarrow> resource_violation p resolve resources intersects n f kws)"

definition undocumented_calls :: "resource_env \<Rightarrow> string \<Rightarrow> node \<Rightarrow> resolver \<Rightarrow> node list" where
  "undocumented_calls env source tree resolve =
     filter (\<lambda>n. is_cache_call resolve n \<and> \<not> has_explanatory_comment tree (source_layout env source) n) (walk_tree tree)"

definition legacy_counter :: "resource_env \<Rightarrow> (string \<times> node \<times> resolver) option \<Rightarrow> (cache_identity \<times> nat) list" where
  "legacy_counter env head =
     (case head of None \<Rightarrow> [] | Some (source, tree, resolve) \<Rightarrow> undocumented_cache_calls env source tree resolve)"

lemma check_resource_mset:
  "mset (check_resource_clients env p source tree added resolve head known intersects) =
     mset (concat (map (resource_part p resolve (known \<union> local_resource_classes resolve known tree) intersects) (walk_tree tree))) +
     image_mset (\<lambda>n. violation_at p n CACHE_COMMENT_MESSAGE)
       (mset (filter (node_intersects added) (undocumented_calls env source tree resolve)) +
        mset (left_calls (identity_of (cache_identities env resolve tree))
          (filter (\<lambda>n. \<not> node_intersects added n) (undocumented_calls env source tree resolve)) (legacy_counter env head)))"
proof -
  have added: "filter (node_intersects added) (undocumented_calls env source tree resolve) =
      filter (\<lambda>n. (is_cache_call resolve n \<and> \<not> has_explanatory_comment tree (source_layout env source) n) \<and>
        node_intersects added n) (walk_tree tree)"
    and old: "filter (\<lambda>n. \<not> node_intersects added n) (undocumented_calls env source tree resolve) =
      filter (\<lambda>n. (is_cache_call resolve n \<and> \<not> has_explanatory_comment tree (source_layout env source) n) \<and>
        \<not> node_intersects added n) (walk_tree tree)"
    by (simp_all add: undocumented_calls_def)
  show ?thesis
    unfolding check_resource_clients_def Let_def mset_sort added old
    by (subst resource_calls_split)
      (simp only: resource_part_def[abs_def] check_left_calls legacy_counter_def mset_map image_mset_union add.assoc)
qed

lemma resource_part_iff:
  "w \<in> set (resource_part p resolve R intersects n) \<longleftrightarrow> (\<exists>f args kws msg. as_call n = Some (f, args, kws) \<and> intersects n f \<and>
      resource_call_message (resolve f) R kws = Some msg \<and> w = violation_at p n msg)"
  by (cases "as_call n") (auto simp: resource_part_def resource_violation_def in_opt_list)

lemma resource_part_message:
  "w \<in> set (resource_part p resolve R intersects n) \<Longrightarrow> message w \<noteq> CACHE_COMMENT_MESSAGE"
  unfolding resource_part_iff using resource_message_not_cache by (auto simp: violation_at_def)

text \<open>
  C22. Apart from comments for the cached client, the check reports exactly these calls, each with its
  message: among the calls that the caller's line test selects and that pass no \<open>client\<close> argument other
  than a literal \<open>None\<close>, those whose function can be a resource class, and those whose function can be
  the \<open>get\<close> of one. The resource classes are the known ones and, through any chain of bases, the classes
  defined in the module outside functions and other classes.
\<close>

theorem resource_calls_exact:
  "(v \<in> set (check_resource_clients env p source tree added resolve head known intersects) \<and>
      message v \<noteq> CACHE_COMMENT_MESSAGE) \<longleftrightarrow>
    (\<exists>n f args kws. n \<in> set (subtree tree) \<and> as_call n = Some (f, args, kws) \<and> intersects n f \<and> \<not> passes_client kws \<and>
       ((\<exists>c \<in> resolve f. resource_class resolve known tree c) \<and> v = violation_at p n CONSTRUCTOR_MESSAGE \<or>
        \<not> (\<exists>c \<in> resolve f. resource_class resolve known tree c) \<and>
          (\<exists>c. resource_class resolve known tree c \<and> c @ [''get''] \<in> resolve f) \<and> v = violation_at p n GET_MESSAGE))"
proof -
  let ?R = "known \<union> local_resource_classes resolve known tree"
  let ?calls = "filter (node_intersects added) (undocumented_calls env source tree resolve) @
      left_calls (identity_of (cache_identities env resolve tree))
        (filter (\<lambda>n. \<not> node_intersects added n) (undocumented_calls env source tree resolve)) (legacy_counter env head)"
  have all: "v \<in> set (check_resource_clients env p source tree added resolve head known intersects) \<longleftrightarrow>
      v \<in> set (concat (map (resource_part p resolve ?R intersects) (walk_tree tree))) \<or>
      v \<in> set (map (\<lambda>n. violation_at p n CACHE_COMMENT_MESSAGE) ?calls)"
    unfolding set_mset_mset[symmetric] check_resource_mset by auto
  have cache: "v \<in> set (map (\<lambda>n. violation_at p n CACHE_COMMENT_MESSAGE) xs) \<Longrightarrow> message v = CACHE_COMMENT_MESSAGE" for xs
    by (auto simp: violation_at_def)
  have classes: "(\<exists>c \<in> resolve f. resource_class resolve known tree c) \<longleftrightarrow> resolve f \<inter> ?R \<noteq> {}"
    "(\<exists>c. resource_class resolve known tree c \<and> c @ [''get''] \<in> resolve f) \<longleftrightarrow> (\<exists>c \<in> ?R. c @ [''get''] \<in> resolve f)" for f
    unfolding local_resources_iff[symmetric] by blast+
  have "v \<in> set (check_resource_clients env p source tree added resolve head known intersects) \<and> message v \<noteq> CACHE_COMMENT_MESSAGE \<longleftrightarrow>
      (\<exists>n \<in> set (subtree tree). v \<in> set (resource_part p resolve ?R intersects n))"
    unfolding all using cache[of ?calls] resource_part_message[of v p resolve ?R intersects] by (auto simp: set_walk_tree)
  also have "\<dots> \<longleftrightarrow> (\<exists>n f args kws. n \<in> set (subtree tree) \<and> as_call n = Some (f, args, kws) \<and> intersects n f \<and>
       (\<exists>msg. resource_call_message (resolve f) ?R kws = Some msg \<and> v = violation_at p n msg))"
    unfolding resource_part_iff by blast
  finally show ?thesis unfolding resource_message_cases classes by blast
qed

section \<open>Calls of the cached client\<close>

text \<open>
  C23. Of the calls of the cached client without a comment, the check reports those that touch an
  added line and, of the others, as many of each identity as the version in HEAD did not already
  have without a comment.
\<close>

theorem cache_comments_exact:
  "\<exists>left. mset (filter (\<lambda>v. message v = CACHE_COMMENT_MESSAGE)
        (check_resource_clients env p source tree added resolve (Some (head_source, head_tree, head_resolve)) known intersects)) =
      image_mset (\<lambda>n. violation_at p n CACHE_COMMENT_MESSAGE)
        (mset (filter (node_intersects added) (undocumented_calls env source tree resolve)) + mset left) \<and>
    subseq left (filter (\<lambda>n. \<not> node_intersects added n) (undocumented_calls env source tree resolve)) \<and>
    mset (map (identity_of (cache_identities env resolve tree)) left) =
      mset (map (identity_of (cache_identities env resolve tree))
        (filter (\<lambda>n. \<not> node_intersects added n) (undocumented_calls env source tree resolve))) -
      mset (map snd (filter (\<lambda>(n, _). \<not> has_explanatory_comment head_tree (source_layout env head_source) n)
        (cache_identities env head_resolve head_tree)))"
proof -
  let ?heads = "map snd (filter (\<lambda>(n, _). \<not> has_explanatory_comment head_tree (source_layout env head_source) n)
        (cache_identities env head_resolve head_tree))"
  let ?R = "known \<union> local_resource_classes resolve known tree"
  have "legacy_counter env (Some (head_source, head_tree, head_resolve)) = counter_of ?heads"
    by (simp add: legacy_counter_def undocumented_cache_calls_def)
  note counts = counts_counter_of[of ?heads, folded this]
  have "filter (\<lambda>v. message v = CACHE_COMMENT_MESSAGE)
      (concat (map (resource_part p resolve ?R intersects) (walk_tree tree))) = []"
    using resource_part_message[of _ p resolve ?R intersects] by (auto simp: filter_empty_conv)
  note none = arg_cong[OF this, of mset, unfolded mset_filter]
  let ?old = "filter (\<lambda>n. \<not> node_intersects added n) (undocumented_calls env source tree resolve)"
  let ?identify = "identity_of (cache_identities env resolve tree)"
  let ?left = "left_calls ?identify ?old (legacy_counter env (Some (head_source, head_tree, head_resolve)))"
  have "filter_mset (\<lambda>v. message v = CACHE_COMMENT_MESSAGE) (image_mset (\<lambda>n. violation_at p n CACHE_COMMENT_MESSAGE) M) =
      image_mset (\<lambda>n. violation_at p n CACHE_COMMENT_MESSAGE) M" for M
    by (simp add: filter_mset_image_mset violation_at_def)
  then have "mset (filter (\<lambda>v. message v = CACHE_COMMENT_MESSAGE)
        (check_resource_clients env p source tree added resolve (Some (head_source, head_tree, head_resolve)) known intersects)) =
      image_mset (\<lambda>n. violation_at p n CACHE_COMMENT_MESSAGE)
        (mset (filter (node_intersects added) (undocumented_calls env source tree resolve)) + mset ?left)"
    unfolding mset_filter check_resource_mset filter_union_mset none by simp
  moreover have "subseq ?left ?old" by (rule legacy_calls.left_subseq)
  moreover have "mset (map ?identify ?left) = mset (map ?identify ?old) - mset ?heads"
    by (rule legacy_calls.mset_left[OF counts])
  ultimately show ?thesis by blast
qed

end
