(* ===== verification/PolicyProps.thy ===== *)
theory PolicyProps
  imports PolicyChecks
begin

text \<open>
  The properties of the policy hook, from the text that Git prints to the decisions of its
  check families.
\<close>

section \<open>Reading Git\<close>

text \<open>
  C11. Reading the printed diff of staged files whose headers name each path bare without a space or
  quoted with escapes gives, for every file of it, exactly the new-file numbers of its added lines,
  whatever these lines contain: hunks are told from headers by their place. (Git prints a path with a
  space and no other special character bare; such a header is not resolved.)
\<close>

theorem staged_diff_added_lines:
  assumes "list_all file_diff_ok fs"
  shows "\<exists>d. added_lines_by_path (staged_text fs) None = Inr d \<and>
     (\<forall>p. map_of d p = (if p \<in> fd_path ` set fs then Some (\<Union>f \<in> {f \<in> set fs. fd_path f = p}. file_added f) else None))"
  by (rule added_lines_staged_text[OF assms])

definition sample_file_diff :: file_diff where
  "sample_file_diff =
     \<lparr>fd_header = ''diff --git a/tests/x.py b/tests/x.py'', fd_path = [''tests'', ''x.py''],
      fd_meta = [''index 1..2 100644'', ''--- a/tests/x.py'', ''+++ b/tests/x.py''],
      fd_hunks = [\<lparr>old_start = 3, old_count = 1, new_start = 3, new_count = 2, section_text = [],
                   hunk_lines = [Del ''a = 1'', Add ''++ b'', Add ''c = 2'']\<rparr>]\<rparr>"

lemma sample_file_diff_ok: "file_diff_ok sample_file_diff"
proof -
  have "git_token ''a/tests/x.py'' ''a/tests/x.py''" "git_token (''b/'' @ ''tests/x.py'') (''b/'' @ ''tests/x.py'')"
    by (rule token_bare; code_simp)+
  moreover have "fd_header sample_file_diff = diff_git @ ''a/tests/x.py'' @ '' '' @ ''b/'' @ ''tests/x.py''"
    "fd_path sample_file_diff = py_path ''tests/x.py''"
    "\<forall>l \<in> set (file_text sample_file_diff). CHR 0x0A \<notin> set l" "list_all meta_line (fd_meta sample_file_diff)"
    by code_simp+
  ultimately show ?thesis unfolding file_diff_ok_def by blast
qed

theorem staged_diff_added_lines_witness:
  "\<exists>d. added_lines_by_path (staged_text [sample_file_diff]) None = Inr d \<and>
     (\<forall>p. map_of d p = (if p \<in> fd_path ` set [sample_file_diff]
        then Some (\<Union>f \<in> {f \<in> set [sample_file_diff]. fd_path f = p}. file_added f) else None))"
  by (rule staged_diff_added_lines) (simp add: sample_file_diff_ok)

text \<open>
  The header of a file diff is read back to the path it names, in every combination of bare
  paths and paths that are quoted with letter or octal escapes.
\<close>

theorem diff_header_round_trip:
  assumes "git_token a ta" and "git_token (''b/'' @ p) tb"
  shows "diff_header_path (diff_git @ ta @ '' '' @ tb) = Inr (Some (py_path p))"
  by (rule header_path_tokens[OF assms])

lemma sample_quoted: "c_quotes (''b/'' @ [CHR 0xE9]) (''b/'' @ backslash # octal_digits 233)"
proof -
  have "c_quotes [CHR 0xE9] (backslash # octal_digits (of_char CHR 0xE9) @ [])"
    by (intro c_quotes.intros)
  then have "c_quotes [CHR 0xE9] (backslash # octal_digits 233)" by simp
  then show ?thesis by (auto intro!: cq_plain simp: backslash_def quote_char_def)
qed

theorem diff_header_round_trip_witness:
  "diff_header_path (diff_git @ ''a/x'' @ '' '' @ quote_char # (''b/'' @ backslash # octal_digits 233) @ [quote_char]) =
     Inr (Some (py_path [CHR 0xE9]))"
  by (rule diff_header_round_trip[of "''a/x''"])
     (rule token_bare, simp, simp add: quote_char_def, rule token_quoted, rule sample_quoted)

text \<open>
  A header with an unquoted path that contains a space is not resolved, for any such path:
  the file is then not mapped and is checked on every line.
\<close>

theorem unquoted_space_unresolved:
  assumes "CHR '' '' \<in> set p" and "quote_char \<notin> set p"
  shows "diff_header_path (diff_git @ ''a/'' @ p @ '' b/'' @ p) = Inr None"
  by (rule spaced_header_unresolved[OF assms])

theorem unquoted_space_unresolved_witness:
  "diff_header_path (diff_git @ ''a/'' @ ''my file.py'' @ '' b/'' @ ''my file.py'') = Inr None"
  by (rule unquoted_space_unresolved) (simp_all add: quote_char_def)

text \<open>
  The records of \<open>--name-status -z\<close> are read back: one entry per change, with the old path of
  a rename as its head path and no head path for added and copied files.
\<close>

theorem name_status_round_trip:
  assumes "list_all status_ok es"
  shows "parse_staged_entries (concat (map (\<lambda>f. f @ nul) (concat (map status_fields es)))) = Inr (map status_entry es)"
  by (rule staged_entries_roundtrip[OF assms])

theorem name_status_round_trip_witness:
  "parse_staged_entries (concat (map (\<lambda>f. f @ nul) (concat (map status_fields
       [Two (CHR ''R'') ''100'' ''old.py'' ''new.py'', One (CHR ''A'') ''x.py''])))) =
     Inr (map status_entry [Two (CHR ''R'') ''100'' ''old.py'' ''new.py'', One (CHR ''A'') ''x.py''])"
  by (rule name_status_round_trip) (simp add: nul_free_def)

text \<open>
  Reading a diff never misses the entry of the current file: whatever the text, the only
  exception is the one of an octal escape above 255 in a header.
\<close>

theorem added_lines_raise_only_value_error:
  "(\<exists>d. added_lines_by_path diff path = Inr d) \<or> added_lines_by_path diff path = Inl ValueError"
  using added_lines_error by (cases "added_lines_by_path diff path") auto

section \<open>The staged state\<close>

text \<open>
  C28. A staged source file that Git did not know before is checked on every line or on a set of
  lines that is not empty, for every answer Git gives.
\<close>

theorem staged_sources_fail_closed:
  assumes "read_staged_changes run iter = Inr sc" and "iterates iter"
    and "map_of (sources sc) p \<noteq> None" and "map_of (head_sources sc) p = None"
  shows "resolved_added_lines sc p \<noteq> Some {}"
  using assms resolved_not_empty by (auto simp: read_staged_changes_def bind_res_Inr_iff)

definition sample_status :: string where "sample_status = ''A'' @ nul @ ''x.py'' @ nul"

definition sample_run :: command_runner where
  "sample_run cmd =
     (if ''--name-status'' \<in> set cmd then (True, sample_status, [])
      else if ''show'' \<in> set cmd then (True, ''a = 1'', [])
      else (True, [], []))"

definition sample_staged :: staged_changes where
  "sample_staged =
     \<lparr>changed_paths = {[''x.py'']}, deleted_paths = {}, renamed_paths = {}, renamed_away_paths = {},
      symlinked_paths = {}, sc_added_lines = [], sources = [([''x.py''], ''a = 1'')], head_sources = [],
      copied_paths = {}\<rparr>"

definition sample_entry :: staged_entry where
  "sample_entry = \<lparr>se_status = CHR ''A'', se_path = [''x.py''], head_path = None, source_path = None\<rparr>"

lemma sample_entries: "parse_staged_entries sample_status = Inr [sample_entry]"
  by code_simp

lemma sample_state: "staged_of_entries sample_run sorted_list_of_set [sample_entry] {} = Inr sample_staged"
proof -
  have diff: "added_lines_by_path [] None = Inr []" by code_simp
  have suffix: "path_suffix [''x.py''] = ''.py''" by code_simp
  have records: "parse_index_stage_records [] = []" by code_simp
  have paths: "status_paths (CHR ''C'') [sample_entry] = {}" "status_paths (CHR ''R'') [sample_entry] = {}"
    "renamed_away [sample_entry] = {}"
    by (auto simp: sample_entry_def status_paths_def renamed_away_def)
  have active: "filter (\<lambda>e. se_status e \<noteq> CHR ''D'') [sample_entry] = [sample_entry]"
    by (simp add: sample_entry_def)
  have source: "se_path ` {e \<in> set [sample_entry]. source_entry {} e} = {[''x.py'']}"
    by (auto simp: sample_entry_def source_entry_def suffix)
  have entry: "se_path sample_entry = [''x.py'']" "head_path sample_entry = None" by (simp_all add: sample_entry_def)
  show ?thesis
    unfolding staged_of_entries_def Let_def active paths
    using source
    by (simp add: symlinked_staged_paths_def git_output_def sample_run_def records diff suffix entry
        STAGED_DIFF_OPTIONS_def map_filter_simps sample_staged_def)
qed

lemma sample_staged_read: "read_staged_changes sample_run sorted_list_of_set = Inr sample_staged"
proof -
  have "parse_staged_status sample_status = Inr {}"
    by (auto simp: parse_staged_status_def sample_entries renamed_away_def) (auto simp: sample_entry_def)
  then show ?thesis
    using sample_state by (simp add: read_staged_changes_def git_output_def sample_run_def sample_entries)
qed

theorem staged_sources_fail_closed_witness: "resolved_added_lines sample_staged [''x.py''] \<noteq> Some {}"
  by (rule staged_sources_fail_closed[OF sample_staged_read iterates_sorted]) (simp_all add: sample_staged_def)

text \<open>
  The reader of tracked modules, which remembers what it has read, answers every sequence of
  requests as reading each module from Git would.
\<close>

theorem module_reader_refines_git:
  assumes "index_source_reader_of run = Inr r"
  shows "read_modules run names r = direct_reads run (module_paths r) names"
  by (rule read_modules_direct[OF new_reader_ok[OF assms]])

theorem module_reader_refines_git_witness:
  "read_modules (\<lambda>_. (True, [], [])) [[''tests'']] \<lparr>module_paths = [], read_sources = []\<rparr> =
     direct_reads (\<lambda>_. (True, [], [])) (module_paths \<lparr>module_paths = [], read_sources = []\<rparr>) [[''tests'']]"
  by (rule module_reader_refines_git)
     (simp add: index_source_reader_of_def git_output_def parse_index_stage_records_def py_split.simps nul_def
        stage_record_def map_filter_simps)

text \<open>
  The path policy reports nothing exactly when no staged or deleted path lies in the generated
  site or is a test module directly below \<open>tests\<close>, no staged Python file and not the manifest is a
  link, and the manifest is not deleted.
\<close>

theorem path_policy_exact:
  assumes "read_staged_changes run iter = Inr sc"
  shows "path_policy_violations sc = [] \<longleftrightarrow>
    (\<forall>p \<in> changed_paths sc \<union> deleted_paths sc. take 2 p \<noteq> [''docs'', ''site''] \<and> \<not> is_top_level_test p) \<and>
    (\<forall>p \<in> symlinked_paths sc. path_suffix p \<noteq> ''.py'' \<and> p \<noteq> EXCEPTIONS_PATH) \<and>
    EXCEPTIONS_PATH \<notin> deleted_paths sc"
  by (rule path_policy_kept[OF staged_finite[OF assms]])

theorem path_policy_exact_witness:
  "path_policy_violations sample_staged = [] \<longleftrightarrow>
    (\<forall>p \<in> changed_paths sample_staged \<union> deleted_paths sample_staged. take 2 p \<noteq> [''docs'', ''site''] \<and> \<not> is_top_level_test p) \<and>
    (\<forall>p \<in> symlinked_paths sample_staged. path_suffix p \<noteq> ''.py'' \<and> p \<noteq> EXCEPTIONS_PATH) \<and>
    EXCEPTIONS_PATH \<notin> deleted_paths sample_staged"
  by (rule path_policy_exact[OF sample_staged_read])

section \<open>Suppressions and their manifest\<close>

definition sample_lint :: lint_env where
  "sample_lint =
     \<lparr>parse_statements = (\<lambda>_. Inr []),
      comment_tokens = (\<lambda>s. if s = ''new'' then [(3, ''#  noqa''), (4, ''# plain'')] else []),
      sha256_hex = (\<lambda>_. replicate 64 (CHR ''0'')),
      toml_loads = (\<lambda>s. if s = ''bad'' then Inl ''line 1'' else Inr [(''exceptions'', TArray [TTable
        [(''rule'', TString ''noqa''), (''path'', TString ''tests/x.py''), (''directive'', TString ''# noqa''),
         (''source_fingerprint'', TString (''sha256:'' @ replicate 64 (CHR ''0''))), (''reason'', TString ''legacy''),
         (''approval_url'', TString ''https://host/1'')]])]),
      url_parts = (\<lambda>u. (''https'', ''host''))\<rparr>"

definition sample_exception :: directive_exception where
  "sample_exception =
     \<lparr>de_rule = ''noqa'', de_path = ''tests/x.py'', de_directive = ''# noqa'',
      source_fingerprint = ''sha256:'' @ replicate 64 (CHR ''0''), reason = ''legacy'', approval_url = ''https://host/1''\<rparr>"

text \<open>
  C13. The suppressions reported for a file are, counted with repetition, those of the staged
  source that its version in \<open>HEAD\<close> does not have, less the reviewed exceptions; they are
  reported in the order of the source.
\<close>

theorem unapproved_suppressions:
  assumes "directives env indexed_source = Inr indexed"
    and "directives env (case head_source of None \<Rightarrow> [] | Some s \<Rightarrow> s) = Inr heads"
  shows "\<exists>bad. check_linter_directives env p indexed_source head_source exceptions = Inr (map (directive_violation p) bad) \<and>
     subseq bad indexed \<and>
     mset (map (path_identity p) bad) =
       mset (map (path_identity p) indexed) - mset (map (path_identity p) heads) - mset (map record_identity exceptions)"
  by (rule check_linter_directives_exact[OF assms])

definition sample_directive :: directive where
  "sample_directive = \<lparr>d_rule = ''noqa'', d_text = ''# noqa'', d_line_number = 3,
     d_fingerprint = ''sha256:'' @ replicate 64 (CHR ''0'')\<rparr>"

lemma sample_directives: "directives sample_lint ''new'' = Inr [sample_directive]" "directives sample_lint [] = Inr []"
  by code_simp+

theorem unapproved_suppressions_witness:
  "\<exists>bad. check_linter_directives sample_lint [''tests'', ''x.py''] ''new'' None [] =
       Inr (map (directive_violation [''tests'', ''x.py'']) bad) \<and>
     subseq bad [sample_directive] \<and>
     mset (map (path_identity [''tests'', ''x.py'']) bad) =
       mset (map (path_identity [''tests'', ''x.py'']) [sample_directive]) -
       mset (map (path_identity [''tests'', ''x.py'']) []) - mset (map record_identity [])"
  by (rule unapproved_suppressions[OF sample_directives(1)]) (simp add: sample_directives)

text \<open>
  C12. A change of the manifest is accepted exactly when no reviewed record changed its reason or
  approval, the newly staged suppressions are the new records, one for one, and no record
  names a path that was renamed away.
\<close>

theorem manifest_update_exact:
  assumes "load_both env indexed_source head_source = Inr (indexed, head)"
    and "staged_directives env srcs [] = Inr staged"
  shows "check_manifest_update env indexed_source head_source p srcs renamed = Inr [] \<longleftrightarrow>
     (\<forall>old \<in> set head. \<forall>new \<in> set indexed. record_identity new = record_identity old \<longrightarrow>
        (reason new, approval_url new) = (reason old, approval_url old)) \<and>
     staged_new env srcs = mset_set (record_identity ` set indexed - record_identity ` set head) \<and>
     (\<forall>r \<in> set indexed. py_path (de_path r) \<notin> renamed)"
  by (rule manifest_update_accepted[OF assms])

lemma sample_manifest: "load_both sample_lint ''good'' None = Inr ([sample_exception], [])"
  by code_simp

theorem manifest_update_exact_witness:
  "check_manifest_update sample_lint ''good'' None EXCEPTIONS_PATH [] {} = Inr [] \<longleftrightarrow>
     (\<forall>old \<in> set []. \<forall>new \<in> set [sample_exception]. record_identity new = record_identity old \<longrightarrow>
        (reason new, approval_url new) = (reason old, approval_url old)) \<and>
     staged_new sample_lint [] = mset_set (record_identity ` set [sample_exception] - record_identity ` set []) \<and>
     (\<forall>r \<in> set [sample_exception]. py_path (de_path r) \<notin> {})"
  by (rule manifest_update_exact[OF sample_manifest]) simp

text \<open>
  C29. Every record of a manifest that loads has a known rule, a normalized relative path without
  wildcards, a fingerprint of the right shape, a reason that is not a placeholder and a web
  address; no two records are the same.
\<close>

theorem loaded_exceptions_valid:
  assumes "load_exceptions env source = Inr rs"
  shows "list_all (exception_ok env) rs \<and> distinct (map record_identity rs)"
  using load_exceptions_ok[OF assms] loaded_distinct[OF assms] by (rule conjI)

lemma sample_loaded: "load_exceptions sample_lint ''good'' = Inr [sample_exception]"
  by code_simp

theorem loaded_exceptions_valid_witness:
  "list_all (exception_ok sample_lint) [sample_exception] \<and> distinct (map record_identity [sample_exception])"
  by (rule loaded_exceptions_valid[OF sample_loaded])

text \<open>
  C40. When a staged manifest is malformed and a Python file is staged with it, the check ends
  with an unbound variable instead of reporting the manifest.
\<close>

theorem malformed_manifest_crashes:
  assumes "map_of (sources sc) EXCEPTIONS_PATH = Some manifest"
    and "load_exceptions env manifest = Inl (ManifestError err)"
    and "map_of (sources sc) p \<noteq> None"
  shows "linter_directives_violations env run sc python_sources (p # ps) = Inl (Raised UnboundLocalError)"
  by (rule malformed_manifest_unbound[OF assms])

theorem malformed_manifest_crashes_witness:
  "linter_directives_violations sample_lint sample_run
     (sample_staged\<lparr>sources := [(EXCEPTIONS_PATH, ''bad''), ([''x.py''], ''new'')]\<rparr>)
     [([''x.py''], ''new'', None)] [[''x.py'']] = Inl (Raised UnboundLocalError)"
  by (rule malformed_manifest_crashes[where manifest = "''bad''" and err = "''invalid TOML: line 1''"])
     (simp_all add: sample_staged_def EXCEPTIONS_PATH_def load_exceptions_def sample_lint_def)

section \<open>Arguments and references\<close>

text \<open>
  The command line is read back: the file names in order and the selected families, all of
  them without a selection; an unknown family ends the program.
\<close>

lemma arguments_round_trip:
  assumes "list_all argument_ok as"
  shows "parse_check_arguments program families (concat (map show_argument as)) =
     (if checks_of as \<subseteq> set families
      then Inr (names_of as, if checks_of as = {} then set families else checks_of as)
      else Inl (SystemExit (program @ '': unknown check family: '' @
             repr_list (sorted_list_of_set (checks_of as - set families)))))"
  by (rule parse_show_arguments[OF assms])

text \<open>
  The references of staged tests are verified or reported: nothing is reported exactly when
  every reference on a checked line names a document of the listing, and when the listing
  cannot be had every file with a reference is reported.
\<close>

theorem stp_links_fail_closed:
  assumes "\<And>p. p \<in> set ps \<Longrightarrow> map_of (sources sc) p \<noteq> None"
  shows "\<exists>vs. stp_links_violations run tree_listing sc ps = Inr vs \<and>
    (vs = [] \<longleftrightarrow> (\<forall>p \<in> set ps. take 1 p = [''tests''] \<longrightarrow>
       (\<forall>(u, n) \<in> set (stp_references (the (map_of (sources sc) p)) (resolved_added_lines sc p)).
          \<exists>merged. merged_stp_paths run tree_listing = Inr merged \<and> reference_path u \<in> merged)))"
  by (rule stp_links_verified[OF assms])

theorem stp_links_fail_closed_witness:
  "\<exists>vs. stp_links_violations sample_run (\<lambda>_. Inl ''down'') sample_staged [[''x.py'']] = Inr vs \<and>
    (vs = [] \<longleftrightarrow> (\<forall>p \<in> set [[''x.py'']]. take 1 p = [''tests''] \<longrightarrow>
       (\<forall>(u, n) \<in> set (stp_references (the (map_of (sources sample_staged) p)) (resolved_added_lines sample_staged p)).
          \<exists>merged. merged_stp_paths sample_run (\<lambda>_. Inl ''down'') = Inr merged \<and> reference_path u \<in> merged)))"
  by (rule stp_links_fail_closed) (simp add: sample_staged_def)

text \<open>The line recorded for a reference is the first checked line that mentions it.\<close>

lemma stp_reference_lines:
  "map_of (stp_references source added) u =
     (if \<exists>k. mentions added (py_split newline source) 1 u k
      then Some (LEAST k. mentions added (py_split newline source) 1 u k) else None)"
  by (simp add: stp_references_def stp_lines_first)

end
