(* ===== verification/MainProps.thy ===== *)
theory MainProps
  imports PolicyMain ResourceProps PolicyProps
begin

text \<open>
  Properties of a run of the policy hook: it ends, and a forbidden call on an added line of a
  staged file stops the commit.
\<close>

section \<open>Every run ends\<close>

lemma direct_read_finite: "finite {m. \<exists>source. direct_read run paths m = Inr (Some source)}"
proof (rule finite_subset)
  show "{m. \<exists>source. direct_read run paths m = Inr (Some source)} \<subseteq> fst ` set paths"
    by (auto simp: direct_read_def bind_res_Inr_iff split: option.splits dest!: map_of_SomeD intro: rev_image_eqI)
qed simp

lemma discovery_returns:
  assumes "finite {m. \<exists>source. reader m = Inr (Some source)}"
  shows "\<exists>r. discover_resource_classes env (Some (reader, names)) = Some r"
  using targeted_loop_returns[OF assms, of "re_parse env" "filter is_local names" "{}" "[]"]
  by (auto simp: discover_resource_classes_def targeted_local_records_def split: option.splits sum.splits)

lemma classes_return: "\<exists>r. staged_resource_classes env modules = Some r"
  using discovery_returns[OF direct_read_finite] by (auto simp: staged_resource_classes_def Let_def split: sum.splits)

lemma python_source_returns: "\<exists>r. python_source_violations env sc file_paths python_paths = Some r"
  using classes_return[of env] by (auto simp: python_source_violations_def split: sum.splits)

lemma families_return: "\<exists>r. families_violations env sc selected file_paths = Some r"
  using python_source_returns[of env sc file_paths "python_paths_of sc file_paths"]
  by (auto simp: families_violations_def Let_def split: sum.splits)

lemma main_returns: "\<exists>r. policy_main env arguments = Some r"
proof (cases "parse_check_arguments ''check_policy'' CHECK_FAMILIES arguments")
  case (Inr r)
  then show ?thesis
    using families_return[of env] by (cases r; cases "read_staged_changes (pe_run env) (pe_iter env)") (auto simp: policy_main_def)
qed (simp add: policy_main_def)

text \<open>
  C21. Every run of the hook ends, with a report or an exception, whatever Git and the parser
  answer: the search for resource classes visits each tracked module at most once.
\<close>

theorem policy_main_returns: "\<exists>r. policy_main env arguments = Some r"
  by (rule main_returns)

section \<open>Forbidden calls stop the commit\<close>

lemma raised_Inr [simp]: "raised r = Inr x \<longleftrightarrow> r = Inr x"
  by (cases r) (auto simp: raised_def)

lemma families_python:
  assumes "families_violations env sc selected file_paths = Some (Inr vs)" "''python-source'' \<in> selected"
  shows "\<exists>ws. python_source_violations env sc file_paths (python_paths_of sc file_paths) = Some (Inr ws) \<and> set ws \<subseteq> set vs"
  using assms by (fastforce simp: families_violations_def Let_def bind_res_Inr_iff split: sum.splits)

lemma given_file_checked:
  assumes "p \<notin> deleted_paths sc" "p \<notin> symlinked_paths sc"
  shows "check_given_files env sc rs ps = Inr vs \<Longrightarrow> p \<in> set ps \<Longrightarrow>
    \<exists>ws. check_file env p False (resolved_added_lines sc p) (map_of (sources sc) p) (map_of (head_sources sc) p) (Some rs) = Inr ws \<and>
      set ws \<subseteq> set vs"
proof (induction ps arbitrary: vs)
  case (Cons q ps)
  show ?case
  proof (cases "q = p")
    case True
    then show ?thesis using Cons.prems(1) assms by (auto simp: bind_res_Inr_iff)
  next
    case False
    then obtain us where us: "check_given_files env sc rs ps = Inr us" "set us \<subseteq> set vs"
      using Cons.prems(1) by (auto simp: bind_res_Inr_iff split: if_splits)
    then show ?thesis using Cons.IH[OF us(1)] Cons.prems(2) False by auto
  qed
qed simp

lemma check_file_source:
  assumes "check_file env p False added (Some source) head (Some rs) = Inr ws" "path_suffix p = ''.py''"
    and "added \<noteq> Some {}" "re_parse (pe_resource env) source = Inr tree"
  shows "\<exists>modname head'. module_name_of p = Inr modname \<and>
    set ws = set (source_violations (pe_resource env) p source tree added modname head' rs)"
proof -
  from assms(1-3) have "check_python_source (pe_resource env) p source added head (Some rs) = Inr ws"
    by (simp add: check_file_def Let_def check_python_file_def bind_res_Inr_iff)
  with assms(4) have "check_source_tree (pe_resource env) p source tree added head (Some rs) = Inr ws"
    by (simp add: check_python_source_def parse_tree_def)
  then show ?thesis
    unfolding check_source_tree_def known_classes_def bind_res_Inr_iff option.case by fastforce
qed

lemma main_reports:
  assumes "policy_main env arguments = Some (Inr (out, code))"
    and "parse_check_arguments ''check_policy'' CHECK_FAMILIES arguments = Inr (names, selected)"
    and "read_staged_changes (pe_run env) (pe_iter env) = Inr sc"
  shows "\<exists>vs. families_violations env sc selected (map py_path names) = Some (Inr vs) \<and> report_violations vs = (out, code)"
  using assms by (auto simp: policy_main_def bind_res_Inr_iff)

lemma reported:
  assumes "report_violations vs = (out, code)" "v \<in> set vs"
  shows "code = 1 \<and> show_violation v \<in> set out"
proof -
  have "out = map show_violation (sort_key report_key vs)" "code = (if sort_key report_key vs = [] then 0 else 1)"
    using assms(1) by (simp_all add: report_violations_def Let_def)
  moreover have v: "v \<in> set (sort_key report_key vs)" using assms(2) by simp
  moreover have "sort_key report_key vs \<noteq> []" using v by (metis list.set(1) empty_iff)
  ultimately show ?thesis by simp
qed

lemma python_source_reported:
  assumes "python_source_violations env sc file_paths python_paths = Some (Inr ws)" "p \<in> set file_paths"
    and "p \<notin> deleted_paths sc" "p \<notin> symlinked_paths sc" "path_suffix p = ''.py''" "map_of (sources sc) p = Some source"
    and "resolved_added_lines sc p \<noteq> Some {}" "re_parse (pe_resource env) source = Inr tree"
  shows "\<exists>modname head rs. module_name_of p = Inr modname \<and>
    set (source_violations (pe_resource env) p source tree (resolved_added_lines sc p) modname head rs) \<subseteq> set ws"
proof -
  obtain rs where rs: "check_given_files env sc rs file_paths = Inr ws"
    using assms(1) by (auto simp: python_source_violations_def bind_res_Inr_iff split: sum.splits)
  obtain us where us: "check_file env p False (resolved_added_lines sc p) (Some source) (map_of (head_sources sc) p) (Some rs) = Inr us"
    "set us \<subseteq> set ws"
    using given_file_checked[OF assms(3,4) rs assms(2)] assms(6) by auto
  show ?thesis using check_file_source[OF us(1) assms(5,7,8)] us(2) by blast
qed

text \<open>
  C18. When the hook checks sources and a given staged Python file has, on a line to be checked, a
  module-level call whose function denotes \<open>pytest.skip\<close> or \<open>DynamicClient\<close> in an execution of the
  module's straight-line code up to the call (\<^const>\<open>exec\<close>: no loops, \<open>try\<close>, \<open>with\<close> or bodies of functions and
  classes), the run does not succeed: it raises an exception or exits with 1 and prints the violation.
\<close>

theorem forbidden_call_blocks_commit:
  assumes "parse_check_arguments ''check_policy'' CHECK_FAMILIES arguments = Inr (names, selected)" "''python-source'' \<in> selected"
    and "read_staged_changes (pe_run env) (pe_iter env) = Inr sc" "name \<in> set names"
    and "py_path name \<notin> deleted_paths sc \<union> symlinked_paths sc" "path_suffix (py_path name) = ''.py''"
    and "map_of (sources sc) (py_path name) = Some source" "re_parse (pe_resource env) source = Inr tree"
    and "shape tree = Plain (NModule body)" "distinct (map node_id (subtree tree))"
    and "module_name_of (py_path name) = Inr modname"
    and "exec (modname, is_package (py_path name)) body (\<lambda>_. None) us \<rho> ok" "denotes us {} f x" "x \<in> forbidden_calls"
    and "n \<in> set (subtree tree)" "as_call n = Some (f, args, kws)"
    and "node_intersects (resolved_added_lines sc (py_path name)) n"
  shows "(\<exists>e. policy_main env arguments = Some (Inl e)) \<or>
    (\<exists>out. policy_main env arguments = Some (Inr (out, 1)) \<and>
       (\<exists>msg \<in> {DYNAMIC_CLIENT_MESSAGE, skip_call_message}. show_violation (violation_at (py_path name) n msg) \<in> set out))"
proof -
  obtain r where r: "policy_main env arguments = Some r" using main_returns by blast
  show ?thesis
  proof (cases r)
    case (Inr oc)
    obtain out code where oc: "oc = (out, code)" by force
    let ?p = "py_path name" and ?added = "resolved_added_lines sc (py_path name)"
    obtain vs where vs: "families_violations env sc selected (map py_path names) = Some (Inr vs)" "report_violations vs = (out, code)"
      using main_reports[OF _ assms(1,3)] r Inr oc by blast
    obtain ws where ws: "python_source_violations env sc (map py_path names) (python_paths_of sc (map py_path names)) = Some (Inr ws)"
        "set ws \<subseteq> set vs"
      using families_python[OF vs(1) assms(2)] by blast
    have "?added \<noteq> Some {}" using assms(17) by (auto simp: node_intersects_def split: option.splits)
    then obtain head rs where "set (source_violations (pe_resource env) ?p source tree ?added modname head rs) \<subseteq> set ws"
      using python_source_reported[OF ws(1) _ _ _ assms(6,7) _ assms(8)] assms(4,5,11) by auto
    moreover obtain msg where msg: "msg \<in> {DYNAMIC_CLIENT_MESSAGE, skip_call_message}"
        "violation_at ?p n msg \<in> set (check_ast_nodes ?p (scopes tree modname (is_package ?p)) ?added tree)"
      using forbidden_call_checked[OF assms(9,10,12,13,14,15,16,17)] by blast
    ultimately have "violation_at ?p n msg \<in> set vs" using ws(2) by (auto simp: source_violations_def Let_def)
    from reported[OF vs(2) this] show ?thesis using r Inr oc msg(1) by auto
  qed (use r in blast)
qed

definition skip_policy_env :: policy_env where
  "skip_policy_env =
     \<lparr>pe_run = sample_run, pe_iter = sorted_list_of_set,
      pe_lint = \<lparr>parse_statements = (\<lambda>_. Inr []), comment_tokens = (\<lambda>_. []), sha256_hex = id, toml_loads = (\<lambda>_. Inr []),
                 url_parts = (\<lambda>_. ([], []))\<rparr>,
      pe_resource = \<lparr>re_parse = (\<lambda>_. Inr skip_module), re_tokens = (\<lambda>_. []), re_dump = (\<lambda>_. []), package_files = Some [],
                     local_files = (\<lambda>_. [])\<rparr>,
      pe_listing = (\<lambda>_. Inr (False, [])), pe_is_file = (\<lambda>_. True), pe_read_text = (\<lambda>_. Inr [])\<rparr>"

lemma skip_run:
  "parse_check_arguments ''check_policy'' CHECK_FAMILIES [''x.py''] = Inr ([''x.py''], set CHECK_FAMILIES)"
  "py_path ''x.py'' = [''x.py'']" "path_suffix [''x.py''] = ''.py''" "module_name_of [''x.py''] = Inr [''x'']"
  "\<not> is_package [''x.py'']"
  by code_simp+

lemma skip_state:
  "read_staged_changes (pe_run skip_policy_env) (pe_iter skip_policy_env) = Inr sample_staged"
  "map_of (sources sample_staged) (py_path ''x.py'') = Some ''a = 1''"
  "re_parse (pe_resource skip_policy_env) ''a = 1'' = Inr skip_module"
  by (simp_all add: skip_policy_env_def sample_staged_read skip_run(2) sample_staged_def)

theorem forbidden_call_blocks_commit_witness:
  "(\<exists>e. policy_main skip_policy_env [''x.py''] = Some (Inl e)) \<or>
    (\<exists>out. policy_main skip_policy_env [''x.py''] = Some (Inr (out, 1)) \<and>
       (\<exists>msg \<in> {DYNAMIC_CLIENT_MESSAGE, skip_call_message}. show_violation (violation_at (py_path ''x.py'') skip_call msg) \<in> set out))"
proof (rule forbidden_call_blocks_commit[OF skip_run(1) _ skip_state(1) _ _ _ skip_state(2,3) skip_module_shape _
      skip_module_runs skip_names(1) _ skip_module_nodes(1)])
  show "node_intersects (resolved_added_lines sample_staged (py_path ''x.py'')) skip_call"
    by (simp add: skip_run(2) sample_staged_def resolved_added_lines_def node_intersects_def)
qed (simp_all add: skip_run CHECK_FAMILIES_def forbidden_calls_def skip_call_def at_line_def as_call_def sample_staged_def)

end
