(* ===== verification/PlaceholderStats.thy ===== *)
theory PlaceholderStats
  imports TestStd
begin

text \<open>
  The statistics of placeholder and disabled tests
  (\<open>scripts/std_placeholder_stats/std_placeholder_stats.py\<close>). The files below the tests directory, in
  the order in which they are found, their texts and the parser are arguments; a file that cannot
  be read or parsed is skipped. The lines of a text report are given to the logger, the JSON report
  is a value that \<open>json.dumps\<close> prints.
\<close>

section \<open>Data\<close>

record placeholder_class =
  pc_name :: string
  test_methods :: "string list"
  disabled_methods :: "string list"

record placeholder_file =
  pf_path :: string
  pf_classes :: "placeholder_class list"
  standalone_tests :: "string list"
  disabled_standalone_tests :: "string list"

definition total_tests :: "placeholder_file \<Rightarrow> nat" where
  "total_tests pf = sum_list (map (\<lambda>c. length (test_methods c)) (pf_classes pf)) + length (standalone_tests pf)"

definition total_disabled :: "placeholder_file \<Rightarrow> nat" where
  "total_disabled pf =
     sum_list (map (\<lambda>c. length (disabled_methods c)) (pf_classes pf)) + length (disabled_standalone_tests pf)"

definition TERMINAL_WIDTH :: int where "TERMINAL_WIDTH = 120"

definition TEST_ATTR :: string where "TEST_ATTR = ''__test__''"

text \<open>A text times a number is empty when the number is negative.\<close>

definition separator :: "string \<Rightarrow> string option \<Rightarrow> string" where
  "separator symbol title =
     (let times = (\<lambda>k::int. concat (replicate (nat k) symbol))
      in case title of
           None \<Rightarrow> times TERMINAL_WIDTH
         | Some t \<Rightarrow>
             (let padding_total = TERMINAL_WIDTH - int (length t) - 2;
                  padding_left = padding_total div 2; padding_right = padding_total - padding_left
              in times padding_left @ '' '' @ t @ '' '' @ times padding_right))"

section \<open>Tests of a module\<close>

definition assigns_false :: "string option \<Rightarrow> node \<Rightarrow> bool" where
  "assigns_false target_name n =
     (case shape n of
        Stmt (NAssign targets v) \<Rightarrow> constant_of v = Some (KBool False) \<and> list_ex (is_test_flag target_name) targets
      | _ \<Rightarrow> False)"

definition statements_have_test_false :: "node list \<Rightarrow> string option \<Rightarrow> bool" where
  "statements_have_test_false statements target_name = list_ex (assigns_false target_name) statements"

definition is_docstring :: "node \<Rightarrow> bool" where
  "is_docstring s = (case expression_constant s of Some (KStr _) \<Rightarrow> True | _ \<Rightarrow> False)"

definition is_placeholder_body :: "node list \<Rightarrow> bool" where
  "is_placeholder_body body =
     (case body of
        [s] \<Rightarrow> is_docstring s
      | [s, t] \<Rightarrow> is_docstring s \<and> shape t = Stmt NPass
      | _ \<Rightarrow> False)"

text \<open>The name and body of a test function.\<close>

definition test_function :: "node \<Rightarrow> (string \<times> node list) option" where
  "test_function n =
     (case as_function n of
        Some (_, x, _, body, _) \<Rightarrow> if startswith x ''test_'' then Some (x, body) else None
      | None \<Rightarrow> None)"

definition tests_where :: "(string \<Rightarrow> node list \<Rightarrow> bool) \<Rightarrow> node list \<Rightarrow> string list" where
  "tests_where P statements =
     List.map_filter (\<lambda>n. case test_function n of Some (x, body) \<Rightarrow> if P x body then Some x else None | None \<Rightarrow> None) statements"

definition get_test_methods_from_class :: "node list \<Rightarrow> string list" where
  "get_test_methods_from_class body = tests_where (\<lambda>x b. is_placeholder_body b) body"

definition get_disabled_methods_from_class :: "node list \<Rightarrow> string list" where
  "get_disabled_methods_from_class body = tests_where (\<lambda>x b. \<not> is_placeholder_body b) body"

definition add_placeholder_class :: "string \<Rightarrow> string list \<Rightarrow> string list \<Rightarrow> placeholder_file \<Rightarrow> placeholder_file" where
  "add_placeholder_class x placeholders disabled pf =
     (if placeholders \<noteq> [] \<or> disabled \<noteq> []
      then pf\<lparr>pf_classes := pf_classes pf @ [\<lparr>pc_name = x, test_methods = placeholders, disabled_methods = disabled\<rparr>]\<rparr>
      else pf)"

definition collect_node :: "node list \<Rightarrow> bool \<Rightarrow> node \<Rightarrow> placeholder_file \<Rightarrow> placeholder_file" where
  "collect_node module_statements module_is_placeholder n pf =
     (case as_class n of
        Some (x, _, _, body, _) \<Rightarrow>
          if module_is_placeholder \<or> statements_have_test_false body None
          then add_placeholder_class x (get_test_methods_from_class body) (get_disabled_methods_from_class body) pf
          else (let flagged = (\<lambda>y. statements_have_test_false body (Some y))
                in add_placeholder_class x (tests_where (\<lambda>y b. flagged y \<and> is_placeholder_body b) body)
                     (tests_where (\<lambda>y b. flagged y \<and> \<not> is_placeholder_body b) body) pf)
      | None \<Rightarrow>
          (case test_function n of
             Some (x, body) \<Rightarrow>
               if module_is_placeholder \<or> statements_have_test_false module_statements (Some x)
               then (if is_placeholder_body body then pf\<lparr>standalone_tests := standalone_tests pf @ [x]\<rparr>
                     else pf\<lparr>disabled_standalone_tests := disabled_standalone_tests pf @ [x]\<rparr>)
               else pf
           | None \<Rightarrow> pf))"

definition collect_placeholders :: "node \<Rightarrow> string \<Rightarrow> bool \<Rightarrow> placeholder_file option" where
  "collect_placeholders tree relative_path module_is_placeholder =
     (let body = module_body tree;
          pf = fold (collect_node body module_is_placeholder) body
                 \<lparr>pf_path = relative_path, pf_classes = [], standalone_tests = [], disabled_standalone_tests = []\<rparr>
      in if pf_classes pf \<noteq> [] \<or> standalone_tests pf \<noteq> [] \<or> disabled_standalone_tests pf \<noteq> [] then Some pf else None)"

section \<open>The scan\<close>

record stats_env =
  test_files :: "path \<Rightarrow> path list"
  se_read_text :: "path \<Rightarrow> string + string"
  se_parse :: parser

definition scan_file :: "stats_env \<Rightarrow> path \<Rightarrow> path \<Rightarrow> placeholder_file option res" where
  "scan_file env tests_dir p =
     (case se_read_text env p of
        Inl _ \<Rightarrow> Inr None
      | Inr content \<Rightarrow>
          if \<not> py_in TEST_ATTR content then Inr None
          else (case se_parse env content of
                  Inl _ \<Rightarrow> Inr None
                | Inr tree \<Rightarrow>
                    bind_res (relative_to p (path_parent tests_dir)) (\<lambda>q.
                      Inr (collect_placeholders tree (rel_str q) (statements_have_test_false (module_body tree) None)))))"

fun scan_files :: "stats_env \<Rightarrow> path \<Rightarrow> path list \<Rightarrow> placeholder_file list res" where
  "scan_files env tests_dir [] = Inr []"
| "scan_files env tests_dir (p # ps) =
     bind_res (scan_file env tests_dir p) (\<lambda>found.
     bind_res (scan_files env tests_dir ps) (\<lambda>rest. Inr (opt_list found @ rest)))"

definition scan_placeholder_tests :: "stats_env \<Rightarrow> path \<Rightarrow> placeholder_file list res" where
  "scan_placeholder_tests env tests_dir = scan_files env tests_dir (test_files env tests_dir)"

definition count_placeholder_tests :: "placeholder_file list \<Rightarrow> nat \<times> nat" where
  "count_placeholder_tests pfs = (sum_list (map total_tests pfs), length (filter (\<lambda>pf. total_tests pf > 0) pfs))"

definition count_disabled_tests :: "placeholder_file list \<Rightarrow> nat \<times> nat" where
  "count_disabled_tests pfs = (sum_list (map total_disabled pfs), length (filter (\<lambda>pf. total_disabled pf > 0) pfs))"

section \<open>Reports\<close>

definition listed_lines :: "string \<Rightarrow> string \<Rightarrow> string list \<Rightarrow> string list" where
  "listed_lines p owner names =
     (if names = [] then [] else (p @ ''::'' @ owner) # map (\<lambda>x. ''  - '' @ x) names)"

definition format_placeholder_lines :: "placeholder_file \<Rightarrow> string list" where
  "format_placeholder_lines pf =
     concat (map (\<lambda>c. listed_lines (pf_path pf) (pc_name c) (test_methods c)) (pf_classes pf)) @
     listed_lines (pf_path pf) ''<standalone>'' (standalone_tests pf)"

definition format_disabled_lines :: "placeholder_file \<Rightarrow> string list" where
  "format_disabled_lines pf =
     concat (map (\<lambda>c. listed_lines (pf_path pf) (pc_name c) (disabled_methods c)) (pf_classes pf)) @
     listed_lines (pf_path pf) ''<standalone>'' (disabled_standalone_tests pf)"

definition total_line :: "string \<Rightarrow> nat \<times> nat \<Rightarrow> string" where
  "total_line kind cnt =
     ''Total: '' @ show_nat (fst cnt) @ '' '' @ kind @ (if fst cnt = 1 then '' test in '' else '' tests in '') @
     show_nat (snd cnt) @ (if snd cnt = 1 then '' file'' else '' files'')"

definition report_block :: "string \<Rightarrow> string list \<Rightarrow> string \<Rightarrow> string list" where
  "report_block title ls last_line =
     [separator ''='' None, title, separator ''='' None, []] @ ls @ [[], separator ''-'' None, last_line, separator ''='' None]"

definition output_text :: "placeholder_file list \<Rightarrow> string list" where
  "output_text pfs =
     (let tests = count_placeholder_tests pfs; disabled = count_disabled_tests pfs
      in if fst tests = 0 \<and> fst disabled = 0 then [''No STD placeholder or disabled tests found.'']
         else (if fst tests > 0
               then report_block ''STD PLACEHOLDER TESTS (not yet implemented)'' (concat (map format_placeholder_lines pfs))
                      (total_line ''placeholder'' tests)
               else []) @
              (if fst disabled > 0
               then [] # report_block ''DISABLED TESTS (implemented but marked __test__ = False)''
                      (concat (map format_disabled_lines pfs)) (total_line ''disabled'' disabled)
               else []))"

definition placeholder_names :: "placeholder_file \<Rightarrow> string list" where
  "placeholder_names pf =
     concat (map (\<lambda>c. map (\<lambda>x. pc_name c @ ''::'' @ x) (test_methods c)) (pf_classes pf)) @ standalone_tests pf"

definition disabled_names :: "placeholder_file \<Rightarrow> string list" where
  "disabled_names pf =
     concat (map (\<lambda>c. map (\<lambda>x. pc_name c @ ''::'' @ x) (disabled_methods c)) (pf_classes pf)) @ disabled_standalone_tests pf"

definition by_file :: "(placeholder_file \<Rightarrow> string list) \<Rightarrow> placeholder_file list \<Rightarrow> (string \<times> string list) list" where
  "by_file names pfs = fold (\<lambda>pf d. if names pf \<noteq> [] then AList.update (pf_path pf) (names pf) d else d) pfs []"

record stats_part =
  sp_total_tests :: nat
  sp_total_files :: nat
  sp_files :: "(string \<times> string list) list"

definition output_json :: "placeholder_file list \<Rightarrow> stats_part \<times> stats_part" where
  "output_json pfs =
     (let part = (\<lambda>cnt listing. \<lparr>sp_total_tests = fst cnt, sp_total_files = snd cnt, sp_files = listing\<rparr>)
      in (part (count_placeholder_tests pfs) (by_file placeholder_names pfs),
          part (count_disabled_tests pfs) (by_file disabled_names pfs)))"

datatype stats_output = TextLines "string list" | JsonReport "stats_part \<times> stats_part"

definition stats_main :: "stats_env \<Rightarrow> path \<Rightarrow> string \<Rightarrow> stats_output res" where
  "stats_main env tests_dir output_format =
     bind_res (scan_placeholder_tests env tests_dir) (\<lambda>pfs.
       Inr (if output_format = ''json'' then JsonReport (output_json pfs) else TextLines (output_text pfs)))"

section \<open>What is collected\<close>

text \<open>
  What the statistics should hold, on the syntax tree alone: the assignments of False to \<open>__test__\<close> and to
  \<open>name.__test__\<close>, bodies of a docstring, with or without a \<open>pass\<close>, and the top-level test functions and
  the test methods of top-level classes that such an assignment concerns.
\<close>

definition own_flag :: "node \<Rightarrow> bool" where
  "own_flag t \<longleftrightarrow> (\<exists>ctx. shape t = Expr (NName ''__test__'' ctx))"

definition flag_of :: "string \<Rightarrow> node \<Rightarrow> bool" where
  "flag_of x t \<longleftrightarrow> (\<exists>v ctx. shape t = Expr (NAttribute v ''__test__'') \<and> shape v = Expr (NName x ctx))"

definition turned_off :: "(node \<Rightarrow> bool) \<Rightarrow> node list \<Rightarrow> bool" where
  "turned_off flag statements \<longleftrightarrow>
     (\<exists>n \<in> set statements. \<exists>targets v. shape n = Stmt (NAssign targets v) \<and> shape v = Expr (NConstant (KBool False)) \<and>
        (\<exists>t \<in> set targets. flag t))"

definition only_docstring :: "node list \<Rightarrow> bool" where
  "only_docstring body \<longleftrightarrow>
     (\<exists>d v t q. shape d = Stmt (NExpr v) \<and> shape v = Expr (NConstant (KStr t)) \<and> shape q = Stmt NPass \<and>
        (body = [d] \<or> body = [d, q]))"

definition test_definition :: "node \<Rightarrow> string \<Rightarrow> node list \<Rightarrow> bool" where
  "test_definition n x body \<longleftrightarrow>
     (\<exists>is_async args decs r tps. shape n = Stmt (NFunctionDef is_async x args body decs r tps)) \<and> (\<exists>y. x = ''test_'' @ y)"

inductive disabled_test :: "node list \<Rightarrow> string option \<Rightarrow> string \<Rightarrow> bool \<Rightarrow> bool" for statements where
  test_function: "disabled_test statements None x (only_docstring body)"
    if "n \<in> set statements" "test_definition n x body" "turned_off own_flag statements \<or> turned_off (flag_of x) statements"
| test_method: "disabled_test statements (Some c) x (only_docstring body)"
    if "k \<in> set statements" "shape k = Stmt (NClassDef c bases kws class_body decs tps)" "n \<in> set class_body"
      "test_definition n x body"
      "turned_off own_flag statements \<or> turned_off own_flag class_body \<or> turned_off (flag_of x) class_body"

text \<open>
  The tests that the loops collect, in their own terms: the class if any, the name, and whether the
  body is a placeholder.
\<close>

definition disabled_in :: "bool \<Rightarrow> node list \<Rightarrow> (string \<times> bool) set" where
  "disabled_in all statements =
     {(x, is_placeholder_body body) | n x body. n \<in> set statements \<and> test_function n = Some (x, body) \<and>
        (all \<or> statements_have_test_false statements (Some x))}"

definition tests_of_class :: "bool \<Rightarrow> node \<Rightarrow> (string option \<times> string \<times> bool) set" where
  "tests_of_class all n =
     (case as_class n of
        Some (c, _, _, body, _) \<Rightarrow> {Some c} \<times> disabled_in (all \<or> statements_have_test_false body None) body
      | None \<Rightarrow> {})"

definition disabled_tests :: "bool \<Rightarrow> node list \<Rightarrow> (string option \<times> string \<times> bool) set" where
  "disabled_tests all statements = {None} \<times> disabled_in all statements \<union> (\<Union>n \<in> set statements. tests_of_class all n)"

definition collected :: "placeholder_file \<Rightarrow> (string option \<times> string \<times> bool) set" where
  "collected pf =
     {None} \<times> (set (standalone_tests pf) \<times> {True} \<union> set (disabled_standalone_tests pf) \<times> {False}) \<union>
     (\<Union>c \<in> set (pf_classes pf).
        {Some (pc_name c)} \<times> (set (test_methods c) \<times> {True} \<union> set (disabled_methods c) \<times> {False}))"

lemma set_tests_where:
  "set (tests_where P statements) = {x. \<exists>n \<in> set statements. \<exists>body. test_function n = Some (x, body) \<and> P x body}"
  by (induction statements) (auto simp: tests_where_def map_filter_simps split: option.splits if_splits prod.splits)

definition function_tests :: "node list \<Rightarrow> bool \<Rightarrow> node \<Rightarrow> (string \<times> bool) set" where
  "function_tests statements all n =
     (case test_function n of
        Some (x, body) \<Rightarrow>
          if all \<or> statements_have_test_false statements (Some x) then {(x, is_placeholder_body body)} else {}
      | None \<Rightarrow> {})"

lemma class_no_test: "as_class n = Some t \<Longrightarrow> test_function n = None"
  by (auto simp: test_function_def as_function_def as_class_def split: shape.splits stmt.splits)

lemma disabled_in_functions: "disabled_in all statements = (\<Union>n \<in> set statements. function_tests statements all n)"
proof -
  have "function_tests statements all n = {(x, is_placeholder_body body) | x body. test_function n = Some (x, body) \<and>
      (all \<or> statements_have_test_false statements (Some x))}" for n
    by (auto simp: function_tests_def split: option.splits if_splits)
  then show ?thesis unfolding disabled_in_def by blast
qed

lemma disabled_tests_nodes:
  "disabled_tests all statements = (\<Union>n \<in> set statements. {None} \<times> function_tests statements all n \<union> tests_of_class all n)"
  unfolding disabled_tests_def disabled_in_functions[of all statements] by blast

lemma collected_add_class:
  "collected (add_placeholder_class x ps ds pf) = collected pf \<union> {Some x} \<times> (set ps \<times> {True} \<union> set ds \<times> {False})"
  by (auto simp: add_placeholder_class_def collected_def)

lemma disabled_in_split:
  "disabled_in all statements =
     set (tests_where (\<lambda>y b. (all \<or> statements_have_test_false statements (Some y)) \<and> is_placeholder_body b) statements) \<times> {True} \<union>
     set (tests_where (\<lambda>y b. (all \<or> statements_have_test_false statements (Some y)) \<and> \<not> is_placeholder_body b) statements) \<times> {False}"
  unfolding set_tests_where by (auto simp: disabled_in_def)

lemma collected_standalone:
  "collected (pf\<lparr>standalone_tests := standalone_tests pf @ [x]\<rparr>) = collected pf \<union> {(None, x, True)}"
  "collected (pf\<lparr>disabled_standalone_tests := disabled_standalone_tests pf @ [x]\<rparr>) = collected pf \<union> {(None, x, False)}"
  by (auto simp: collected_def)

lemma collected_node:
  "collected (collect_node statements all n pf) = collected pf \<union> ({None} \<times> function_tests statements all n \<union> tests_of_class all n)"
proof (cases "as_class n")
  case None
  then show ?thesis
    by (cases "test_function n")
      (auto simp: collect_node_def function_tests_def tests_of_class_def collected_standalone split: if_splits prod.splits)
next
  case (Some parts)
  obtain x bases kws body decs where parts: "parts = (x, bases, kws, body, decs)" by (cases parts)
  let ?all = "all \<or> statements_have_test_false body None"
  have "{None} \<times> function_tests statements all n \<union> tests_of_class all n = {Some x} \<times> disabled_in ?all body"
    using Some parts class_no_test[OF Some] by (simp add: tests_of_class_def function_tests_def)
  moreover have "collect_node statements all n pf =
      add_placeholder_class x (tests_where (\<lambda>y b. (?all \<or> statements_have_test_false body (Some y)) \<and> is_placeholder_body b) body)
        (tests_where (\<lambda>y b. (?all \<or> statements_have_test_false body (Some y)) \<and> \<not> is_placeholder_body b) body) pf"
    using Some parts
    by (simp add: collect_node_def Let_def get_test_methods_from_class_def get_disabled_methods_from_class_def)
  ultimately show ?thesis by (simp only: collected_add_class disabled_in_split)
qed

lemma collected_fold:
  "collected (fold (collect_node statements all) ns pf) =
     collected pf \<union> (\<Union>n \<in> set ns. {None} \<times> function_tests statements all n \<union> tests_of_class all n)"
  by (induction ns arbitrary: pf) (simp_all add: collected_node Un_assoc)

lemma collected_empty:
  "pf_classes pf = [] \<Longrightarrow> standalone_tests pf = [] \<Longrightarrow> disabled_standalone_tests pf = [] \<Longrightarrow> collected pf = {}"
  by (simp add: collected_def)

lemma collect_placeholders_tests:
  "(case collect_placeholders tree relative_path all of None \<Rightarrow> {} | Some pf \<Rightarrow> collected pf) =
     disabled_tests all (module_body tree)"
proof -
  let ?pf = "fold (collect_node (module_body tree) all) (module_body tree)
      \<lparr>pf_path = relative_path, pf_classes = [], standalone_tests = [], disabled_standalone_tests = []\<rparr>"
  have "collected ?pf = disabled_tests all (module_body tree)"
    unfolding collected_fold disabled_tests_nodes by (simp add: collected_def)
  then show ?thesis using collected_empty[of ?pf] by (auto simp: collect_placeholders_def Let_def)
qed

lemma flag_iff: "is_test_flag None t \<longleftrightarrow> own_flag t" "is_test_flag (Some x) t \<longleftrightarrow> flag_of x t"
proof -
  have name: "as_name t = Some (x, ctx) \<longleftrightarrow> shape t = Expr (NName x ctx)" for t x ctx
    by (auto simp: as_name_def split: shape.splits expr.splits)
  have attribute: "as_attribute t = Some (v, a) \<longleftrightarrow> shape t = Expr (NAttribute v a)" for t v a
    by (auto simp: as_attribute_def split: shape.splits expr.splits)
  show "is_test_flag None t \<longleftrightarrow> own_flag t" "is_test_flag (Some x) t \<longleftrightarrow> flag_of x t"
    by (auto simp: is_test_flag_def own_flag_def flag_of_def name[symmetric] attribute[symmetric] split: option.splits)
qed

lemma turned_off_flag: "statements_have_test_false statements name \<longleftrightarrow> turned_off (is_test_flag name) statements"
proof -
  have "assigns_false name n \<longleftrightarrow>
      (\<exists>targets v. shape n = Stmt (NAssign targets v) \<and> shape v = Expr (NConstant (KBool False)) \<and>
        (\<exists>t \<in> set targets. is_test_flag name t))" for n
    by (auto simp: assigns_false_def constant_of_def list_ex_iff split: shape.splits stmt.splits expr.splits)
  then show ?thesis by (simp add: statements_have_test_false_def list_ex_iff turned_off_def)
qed

lemma turned_off_iff:
  "statements_have_test_false statements None \<longleftrightarrow> turned_off own_flag statements"
  "statements_have_test_false statements (Some x) \<longleftrightarrow> turned_off (flag_of x) statements"
  unfolding turned_off_flag flag_iff by (rule refl)+

lemma only_docstring_iff: "is_placeholder_body body \<longleftrightarrow> only_docstring body"
proof -
  have d: "is_docstring d \<longleftrightarrow> (\<exists>v t. shape d = Stmt (NExpr v) \<and> shape v = Expr (NConstant (KStr t)))" for d
    by (auto simp: is_docstring_def expression_constant_def constant_of_def
        split: shape.splits stmt.splits expr.splits option.splits pconstant.splits)
  have "\<exists>q. shape q = Stmt NPass" by (rule exI[of _ "Node 0 None (Stmt NPass)"]) simp
  then show ?thesis unfolding is_placeholder_body_def only_docstring_def d by (auto split: list.splits)
qed

lemma test_definition_iff: "test_function n = Some (x, body) \<longleftrightarrow> test_definition n x body"
  by (auto simp: test_function_def test_definition_def as_function_def startswith_prefix prefix_def
      split: shape.splits stmt.splits)

lemma disabled_in_iff:
  "(x, b) \<in> disabled_in all statements \<longleftrightarrow>
     (\<exists>n \<in> set statements. \<exists>body. test_definition n x body \<and> b = only_docstring body \<and>
        (all \<or> turned_off (flag_of x) statements))"
  by (auto simp: disabled_in_def test_definition_iff only_docstring_iff turned_off_iff)

lemma disabled_tests_iff:
  "(c, x, b) \<in> disabled_tests (turned_off own_flag statements) statements \<longleftrightarrow> disabled_test statements c x b"
proof (cases c)
  case None
  then show ?thesis
    by (auto simp: disabled_tests_def tests_of_class_def disabled_in_iff disabled_test.simps split: option.splits)
next
  case (Some y)
  have "(Some y, x, b) \<in> tests_of_class all k \<longleftrightarrow>
      (\<exists>bases kws body decs tps. shape k = Stmt (NClassDef y bases kws body decs tps) \<and>
         (x, b) \<in> disabled_in (all \<or> turned_off own_flag body) body)" for all k
    by (auto simp: tests_of_class_def as_class_def turned_off_iff split: shape.splits stmt.splits)
  then show ?thesis unfolding Some disabled_tests_def by (auto simp: disabled_in_iff disabled_test.simps; blast)
qed

text \<open>
  C37. The statistics of a module hold exactly, as a set, the top-level test functions and the test methods of
  top-level classes that some assignment of False to \<open>__test__\<close> disables: one in the module, one in the
  class, or one to the test's attribute beside it, also where a later assignment enables it again. A
  test counts as a placeholder when its body is a docstring, alone or with one \<open>pass\<close>, and as
  implemented otherwise, also when an ellipsis follows the docstring.
\<close>

theorem collected_tests_exact:
  "(case collect_placeholders tree relative_path (statements_have_test_false (module_body tree) None) of
      None \<Rightarrow> {}
    | Some pf \<Rightarrow> collected pf) =
   {(c, x, b). disabled_test (module_body tree) c x b}"
  unfolding collect_placeholders_tests turned_off_iff by (auto simp: disabled_tests_iff)

section \<open>Totals\<close>

lemma length_names: "length (placeholder_names pf) = total_tests pf" "length (disabled_names pf) = total_disabled pf"
  by (simp_all add: placeholder_names_def disabled_names_def total_tests_def total_disabled_def length_concat o_def)

lemma update_new_key: "k \<notin> fst ` set d \<Longrightarrow> AList.update k v d = d @ [(k, v)]"
  by (induction d) auto

lemma by_file_fold:
  "distinct (map fst d @ map pf_path pfs) \<Longrightarrow>
     fold (\<lambda>pf d. if names pf \<noteq> [] then AList.update (pf_path pf) (names pf) d else d) pfs d =
       d @ map (\<lambda>pf. (pf_path pf, names pf)) (filter (\<lambda>pf. names pf \<noteq> []) pfs)"
proof (induction pfs arbitrary: d)
  case (Cons pf pfs)
  have "pf_path pf \<notin> fst ` set d" using Cons.prems by auto
  then have "AList.update (pf_path pf) (names pf) d = d @ [(pf_path pf, names pf)]"
    by (rule update_new_key)
  then show ?case using Cons.IH[of d] Cons.IH[of "d @ [(pf_path pf, names pf)]"] Cons.prems by auto
qed simp

lemma by_file_distinct:
  "distinct (map pf_path pfs) \<Longrightarrow> by_file names pfs = map (\<lambda>pf. (pf_path pf, names pf)) (filter (\<lambda>pf. names pf \<noteq> []) pfs)"
  using by_file_fold[of "[]" pfs names] by (simp add: by_file_def)

lemma sum_nonempty: "sum_list (map (\<lambda>pf. length (names pf)) (filter (\<lambda>pf. names pf \<noteq> []) pfs)) = sum_list (map (\<lambda>pf. length (names pf)) pfs)"
  by (induction pfs) auto

definition totals_match :: "stats_part \<Rightarrow> bool" where
  "totals_match part \<longleftrightarrow>
     sp_total_tests part = sum_list (map (length \<circ> snd) (sp_files part)) \<and> sp_total_files part = length (sp_files part) \<and>
     list_all (\<lambda>(_, names). names \<noteq> []) (sp_files part)"

text \<open>
  For files with distinct paths, the totals of the JSON report are the numbers of the tests and
  of the files it lists, and it lists no file without tests.
\<close>

theorem report_totals_match:
  assumes "distinct (map pf_path pfs)"
  shows "totals_match (fst (output_json pfs)) \<and> totals_match (snd (output_json pfs))"
proof -
  have nonempty: "total_tests pf > 0 \<longleftrightarrow> placeholder_names pf \<noteq> []" "total_disabled pf > 0 \<longleftrightarrow> disabled_names pf \<noteq> []" for pf
    unfolding length_names[symmetric] by simp_all
  show ?thesis
    unfolding totals_match_def output_json_def Let_def by_file_distinct[OF assms]
    using sum_nonempty[of placeholder_names pfs] sum_nonempty[of disabled_names pfs]
    by (simp add: count_placeholder_tests_def count_disabled_tests_def nonempty length_names o_def list_all_iff)
qed

theorem report_totals_match_witness:
  "sp_total_tests (fst (output_json [\<lparr>pf_path = ''tests/test_a.py'', pf_classes = [\<lparr>pc_name = ''TestA'', test_methods = [''test_x''],
     disabled_methods = []\<rparr>], standalone_tests = [''test_y''], disabled_standalone_tests = []\<rparr>])) = 2"
proof -
  let ?pf = "\<lparr>pf_path = ''tests/test_a.py'', pf_classes = [\<lparr>pc_name = ''TestA'', test_methods = [''test_x''],
     disabled_methods = []\<rparr>], standalone_tests = [''test_y''], disabled_standalone_tests = []\<rparr>"
  have "totals_match (fst (output_json [?pf]))" using report_totals_match[of "[?pf]"] by simp
  then show ?thesis by (simp add: totals_match_def output_json_def Let_def by_file_def placeholder_names_def)
qed

text \<open>A body that the statistics take for a placeholder is one for the commit hook; the converse fails for an ellipsis.\<close>

lemma placeholder_body_docstring_only: "is_placeholder_body body \<Longrightarrow> docstring_only body"
  by (auto simp: is_placeholder_body_def docstring_only_def docstring_of_def is_docstring_def
      split: list.splits option.splits pconstant.splits)

end
