(* ===== verification/Quarantine.thy ===== *)
theory Quarantine
  imports ResourceClients
begin

text \<open>
  The scan for quarantined tests (\<open>scripts/quarantine_stats/generate_dashboard.py\<close>): the branches of a
  repository, the tests of a file with their quarantine, the totals per team, and the scan of all
  repositories and branches. What Git and the file system answer is an environment; the state is the
  branch that is checked out, since the files to be read depend on it. The lines of the text are
  those the parser counts.
\<close>

section \<open>Branches\<close>

definition CNV_BRANCH_PATTERN :: regex where
  "CNV_BRANCH_PATTERN = RSeqs [RBegin, RLit ''cnv-'', RPlus RDigit, RLit ''.'', RPlus RDigit, REnd]"

definition REPOS :: "string list" where
  "REPOS = [''RedHatQE/openshift-virtualization-tests'', ''RedHatQE/cnv-tests'']"

definition REPO_MIN_VERSIONS :: "string \<rightharpoonup> int \<times> int" where
  "REPO_MIN_VERSIONS = [''RedHatQE/cnv-tests'' \<mapsto> (4, 14)]"

definition REPO_EXCLUDED_FOLDERS :: "string \<rightharpoonup> string set" where
  "REPO_EXCLUDED_FOLDERS =
     [''RedHatQE/cnv-tests'' \<mapsto> {''ansible-module'', ''ci'', ''ci_tests'', ''csv'', ''security'', ''vmimport''}]"

definition REPO_FOLDER_MAPPINGS :: "string \<rightharpoonup> (string \<rightharpoonup> string)" where
  "REPO_FOLDER_MAPPINGS =
     [''RedHatQE/cnv-tests'' \<mapsto>
        [''must-gather'' \<mapsto> ''install_upgrade_operators'', ''must_gather'' \<mapsto> ''install_upgrade_operators'',
         ''product_uninstall'' \<mapsto> ''install_upgrade_operators'', ''product_upgrade'' \<mapsto> ''install_upgrade_operators'']]"

definition is_valid_branch :: "string \<Rightarrow> bool" where
  "is_valid_branch branch \<longleftrightarrow> branch = ''main'' \<or> re_match CNV_BRANCH_PATTERN branch \<noteq> None"

text \<open>
  \<open>int(text)\<close>: white space around the number, a sign, and single underscores between digits are
  allowed; \<open>None\<close> is the \<open>ValueError\<close>.
\<close>

fun int_digits :: "bool \<Rightarrow> string \<Rightarrow> bool" where
  "int_digits after_digit [] = after_digit"
| "int_digits after_digit (c # cs) =
     (if is_digit c then int_digits True cs else c = CHR ''_'' \<and> after_digit \<and> int_digits False cs)"

definition int_of_text :: "string \<Rightarrow> int option" where
  "int_of_text s =
     (let t = py_strip s;
          (sign, ds) = (case t of
                          [] \<Rightarrow> (1, [])
                        | c # cs \<Rightarrow> if c = CHR ''-'' then (- 1, cs) else if c = CHR ''+'' then (1, cs) else (1, t))
      in if ds \<noteq> [] \<and> int_digits False ds then Some (sign * int (py_int (filter is_digit ds))) else None)"

definition version_of :: "string \<Rightarrow> (int \<times> int) option" where
  "version_of version_str =
     (case py_split ''.'' version_str of
        [a, b] \<Rightarrow> Option.bind (int_of_text a) (\<lambda>major. map_option (\<lambda>minor. (major, minor)) (int_of_text b))
      | _ \<Rightarrow> None)"

definition keep_branch :: "int \<times> int \<Rightarrow> string \<Rightarrow> bool" where
  "keep_branch min_version branch \<longleftrightarrow>
     branch = ''main'' \<or>
     startswith branch ''cnv-'' \<and> (case version_of (drop 4 branch) of Some v \<Rightarrow> min_version \<le> v | None \<Rightarrow> False)"

definition filter_branches_for_repo :: "string \<Rightarrow> string list \<Rightarrow> string list" where
  "filter_branches_for_repo repo branches =
     (case REPO_MIN_VERSIONS repo of None \<Rightarrow> branches | Some v \<Rightarrow> filter (keep_branch v) branches)"

text \<open>\<open>text.replace(old, "")\<close>.\<close>

definition remove_text :: "string \<Rightarrow> string \<Rightarrow> string" where
  "remove_text old s = concat (py_split old s)"

definition branch_key :: "string \<Rightarrow> int \<times> int \<times> int" where
  "branch_key branch =
     (if branch = ''main'' then (0, 0, 0)
      else if re_match CNV_BRANCH_PATTERN branch = None then (2, 0, 0)
      else (case version_of (remove_text ''cnv-'' branch) of Some (major, minor) \<Rightarrow> (1, - major, - minor) | None \<Rightarrow> (2, 0, 0)))"

definition sort_branches :: "string list \<Rightarrow> string list" where
  "sort_branches branches = sort_key branch_key branches"

definition branches_of_output :: "string \<Rightarrow> string list" where
  "branches_of_output stdout =
     filter is_valid_branch (map (\<lambda>l. py_strip (remove_text ''origin/'' l))
       (filter (\<lambda>l. l \<noteq> []) (map py_strip (py_split newline (py_strip stdout)))))"

definition get_display_path :: "path \<Rightarrow> path \<Rightarrow> string" where
  "get_display_path cwd p =
     (case relative_to p cwd of
        Inr q \<Rightarrow> rel_str q
      | Inl _ \<Rightarrow> if ''tests'' \<in> set p then rel_str (dropWhile (\<lambda>x. x \<noteq> ''tests'') p) else path_name p)"

section \<open>The decorators above a line\<close>

record test_info =
  ti_name :: string
  ti_file :: path
  ti_line :: nat
  ti_category :: string
  ti_quarantined :: bool
  ti_reason :: string
  ti_jira :: string

definition DEFAULT_EXCLUDED_FOLDERS :: "string set" where
  "DEFAULT_EXCLUDED_FOLDERS = {''after_cluster_deploy_sanity'', ''deprecated_api''}"

definition DEFAULT_FOLDER_MAPPINGS :: "string \<rightharpoonup> string" where
  "DEFAULT_FOLDER_MAPPINGS =
     [''compute'' \<mapsto> ''virt'', ''data_protection'' \<mapsto> ''storage'', ''cross_cluster_live_migration'' \<mapsto> ''storage'']"

definition MAX_DECORATOR_SEARCH_LINES :: nat where "MAX_DECORATOR_SEARCH_LINES = 50"

definition excluded_folders :: "string option \<Rightarrow> string set" where
  "excluded_folders repo =
     DEFAULT_EXCLUDED_FOLDERS \<union> (case Option.bind repo REPO_EXCLUDED_FOLDERS of None \<Rightarrow> {} | Some fs \<Rightarrow> fs)"

definition folder_mappings :: "string option \<Rightarrow> string \<rightharpoonup> string" where
  "folder_mappings repo =
     DEFAULT_FOLDER_MAPPINGS ++ (case Option.bind repo REPO_FOLDER_MAPPINGS of None \<Rightarrow> (\<lambda>_. None) | Some m \<Rightarrow> m)"

definition double_quote :: char where "double_quote = CHR 0x22"

definition single_quote :: char where "single_quote = CHR 0x27"

definition is_quote :: "char \<Rightarrow> bool" where
  "is_quote c \<longleftrightarrow> c = double_quote \<or> c = single_quote"

abbreviation any_text :: regex where
  "any_text \<equiv> RLazy (RChar (\<lambda>_. True))"

definition run_false :: regex where
  "run_false = RSeqs [RLit '','', RStar RSpace, RLit ''run'', RStar RSpace, RLit ''='', RStar RSpace, RLit ''False'']"

definition quoted_reason :: regex where
  "quoted_reason = RSeqs [RLit ''f'', RChar is_quote, any_text, RLit ''QUARANTINED'', any_text, RLit '':'',
     RGroup 1 (RPlus (RChar (\<lambda>c. \<not> is_quote c))), RChar is_quote, any_text]"

definition xfail_reason :: regex where
  "xfail_reason = RSeqs [RLit ''@pytest.mark.xfail'', RStar RSpace, RLit ''('', RStar RSpace, RLit ''reason'', RStar RSpace,
     RLit ''='', RStar RSpace]"

definition quarantine_patterns :: "regex list" where
  "quarantine_patterns =
     [RSeqs [xfail_reason, RLit ''('', RStar RSpace, quoted_reason, RLit '')'', RStar RSpace, run_false],
      RSeqs [xfail_reason, quoted_reason, run_false],
      RSeqs [RLit ''@pytest.mark.xfail'', RStar RSpace, RLit ''('', RStar (RChar (\<lambda>c. c \<noteq> CHR '')'')), RLit ''QUARANTINED'',
        RStar (RChar (\<lambda>c. c \<noteq> CHR '')'')), RLit ''run'', RStar RSpace, RLit ''='', RStar RSpace, RLit ''False'']]"

definition jira_pattern :: regex where
  "jira_pattern = RGroup 0 (RSeq (RLit ''CNV-'') (RPlus RDigit))"

definition fallback_reason :: regex where
  "fallback_reason = RSeqs [RLit ''QUARANTINED'', ROpt (RChar (\<lambda>c. c = CHR ''}'' \<or> is_quote c)), RLit '':'', RStar RSpace,
     RGroup 1 (RPlus (RChar (\<lambda>c. \<not> is_quote c)))]"

text \<open>Whether a stripped line belongs to the decorators.\<close>

definition is_decorator_line :: "string \<Rightarrow> bool" where
  "is_decorator_line l \<longleftrightarrow>
     startswith_any l [''@'', ''def '', ''class ''] \<or>
     startswith_any l ['')'', ''(''] \<or> endswith l '','' \<or> endswith l ''('' \<or>
     py_in ''pytest.param'' l \<or> py_in ''marks='' l \<or> py_in ''indirect='' l \<or>
     startswith_any l [[double_quote], [single_quote], [CHR ''f'', double_quote], [CHR ''f'', single_quote]] \<or>
     py_in ''{'' l \<or> py_in ''}'' l \<or> py_in ''['' l \<or> py_in '']'' l"

text \<open>The lines above the definition, from the nearest upwards, and those collected so far.\<close>

fun decorator_block :: "string list \<Rightarrow> string list \<Rightarrow> string list" where
  "decorator_block [] acc = acc"
| "decorator_block (l # ls) acc =
     (if py_strip l = [] then acc
      else if is_decorator_line (py_strip l) then decorator_block ls (l # acc)
      else if startswith (py_strip l) ''#'' then decorator_block ls acc
      else acc)"

definition lines_above :: "string list \<Rightarrow> nat \<Rightarrow> string list" where
  "lines_above ls line_no = rev (drop (line_no - MAX_DECORATOR_SEARCH_LINES) (take (line_no - 1) ls))"

definition has_run_false :: "string \<Rightarrow> bool" where
  "has_run_false s \<longleftrightarrow> py_in ''run=False'' s \<or> py_in ''run = False'' s"

fun first_found :: "regex list \<Rightarrow> string \<Rightarrow> rstate option" where
  "first_found [] s = None"
| "first_found (r # rs) s = (case re_search r s of Some st \<Rightarrow> Some st | None \<Rightarrow> first_found rs s)"

definition captured_reason :: "string \<Rightarrow> string" where
  "captured_reason s =
     (case first_found quarantine_patterns s of
        None \<Rightarrow> []
      | Some st \<Rightarrow> (case group_of 1 st of None \<Rightarrow> [] | Some t \<Rightarrow> py_strip t))"

definition quarantine_reason :: "string \<Rightarrow> string" where
  "quarantine_reason s =
     (if captured_reason s \<noteq> [] then captured_reason s
      else (case re_search_group fallback_reason 1 s of
              None \<Rightarrow> []
            | Some t \<Rightarrow> rstrip_chars [double_quote, CHR '','', CHR '')''] (py_strip t)))"

definition jira_ticket :: "string \<Rightarrow> string" where
  "jira_ticket s =
     (case partition_at ''@pytest.mark.xfail'' s of
        None \<Rightarrow> []
      | Some (_, rest) \<Rightarrow>
          (let section = ''@pytest.mark.xfail'' @ rest
           in if has_run_false section
              then (case re_search_group jira_pattern 0 section of None \<Rightarrow> [] | Some t \<Rightarrow> t)
              else []))"

definition check_quarantine :: "string \<Rightarrow> nat \<Rightarrow> bool \<times> string \<times> string" where
  "check_quarantine content line_no =
     (let section = py_join newline (decorator_block (lines_above (py_split newline content) line_no) [])
      in if \<not> py_in ''QUARANTINED'' section \<or> \<not> py_in ''@pytest.mark.xfail'' section \<or> \<not> has_run_false section
         then (False, [], [])
         else (True, quarantine_reason section, jira_ticket section))"

section \<open>Tests of a file\<close>

definition get_category :: "string option \<Rightarrow> path \<Rightarrow> path \<Rightarrow> string option res" where
  "get_category repo tests_dir p =
     bind_res (relative_to p tests_dir) (\<lambda>parts.
       Inr (case parts of
              [] \<Rightarrow> Some ''uncategorized''
            | category # _ \<Rightarrow>
                if category \<in> excluded_folders repo then None
                else Some (case folder_mappings repo category of None \<Rightarrow> category | Some team \<Rightarrow> team)))"

text \<open>The first class, in the order of \<open>walk\<close>, that contains the function.\<close>

definition get_parent_class :: "node \<Rightarrow> node \<Rightarrow> string option" where
  "get_parent_class tree f =
     (case List.find (\<lambda>n. as_class n \<noteq> None \<and> list_ex (\<lambda>c. node_id c = node_id f) (walk_tree n)) (walk_tree tree) of
        None \<Rightarrow> None
      | Some n \<Rightarrow> map_option fst (as_class n))"

definition quarantined_classes :: "string \<Rightarrow> node \<Rightarrow> (string \<times> string \<times> string) list" where
  "quarantined_classes content tree =
     fold (\<lambda>n d. case as_class n of
                   None \<Rightarrow> d
                 | Some (x, _) \<Rightarrow>
                     (case check_quarantine content (line_or 0 n) of
                        (True, r) \<Rightarrow> AList.update x r d
                      | _ \<Rightarrow> d)) (walk_tree tree) []"

definition quarantine_of :: "string \<Rightarrow> node \<Rightarrow> node \<Rightarrow> bool \<times> string \<times> string" where
  "quarantine_of content tree n =
     (case check_quarantine content (line_or 0 n) of
        (True, r) \<Rightarrow> (True, r)
      | (False, r) \<Rightarrow>
          (case Option.bind (get_parent_class tree n) (\<lambda>c. if c = [] then None else map_of (quarantined_classes content tree) c) of
             Some r' \<Rightarrow> (True, r')
           | None \<Rightarrow> (False, r)))"

definition test_info_of :: "string \<Rightarrow> path \<Rightarrow> string \<Rightarrow> node \<Rightarrow> node \<Rightarrow> test_info list" where
  "test_info_of category p content tree n =
     (case as_function n of
        Some (False, x, _) \<Rightarrow>
          if startswith x ''test_''
          then (let (quarantined, reason, jira) = quarantine_of content tree n
                in [\<lparr>ti_name = x, ti_file = p, ti_line = line_or 0 n, ti_category = category, ti_quarantined = quarantined,
                     ti_reason = reason, ti_jira = jira\<rparr>])
          else []
      | _ \<Rightarrow> [])"

definition scan_test_file ::
    "parser \<Rightarrow> string option \<Rightarrow> path \<Rightarrow> path \<Rightarrow> string res \<Rightarrow> test_info list res" where
  "scan_test_file parse repo tests_dir p read =
     (case read of
        Inl UnicodeDecodeError \<Rightarrow> Inr []
      | Inl e \<Rightarrow> Inl e
      | Inr content \<Rightarrow>
          bind_res (get_category repo tests_dir p) (\<lambda>category.
            case category of
              None \<Rightarrow> Inr []
            | Some c \<Rightarrow>
                (case parse content of
                   Inl _ \<Rightarrow> Inr []
                 | Inr tree \<Rightarrow> Inr (concat (map (test_info_of c p content tree) (walk_tree tree))))))"

section \<open>Totals\<close>

record team_counts =
  tc_total :: nat
  tc_active :: nat
  tc_quarantined :: nat

record dashboard_stats =
  db_total :: nat
  db_active :: nat
  db_quarantined :: nat
  category_breakdown :: "(string \<times> team_counts) list"
  quarantined_list :: "test_info list"

definition count_test :: "test_info \<Rightarrow> (string \<times> team_counts) list \<Rightarrow> (string \<times> team_counts) list" where
  "count_test t d =
     (let c = (case map_of d (ti_category t) of None \<Rightarrow> \<lparr>tc_total = 0, tc_active = 0, tc_quarantined = 0\<rparr> | Some c \<Rightarrow> c);
          c' = c\<lparr>tc_total := tc_total c + 1\<rparr>
      in AList.update (ti_category t)
           (if ti_quarantined t then c'\<lparr>tc_quarantined := tc_quarantined c' + 1\<rparr> else c'\<lparr>tc_active := tc_active c' + 1\<rparr>) d)"

definition calculate_stats :: "test_info list \<Rightarrow> dashboard_stats" where
  "calculate_stats all_tests =
     (let quarantined = filter ti_quarantined all_tests
      in \<lparr>db_total = length all_tests, db_active = length all_tests - length quarantined, db_quarantined = length quarantined,
          category_breakdown = fold count_test all_tests [], quarantined_list = sort_key ti_category quarantined\<rparr>)"

fun scan_test_files :: "parser \<Rightarrow> string option \<Rightarrow> path \<Rightarrow> (path \<Rightarrow> string res) \<Rightarrow> path list \<Rightarrow> test_info list res" where
  "scan_test_files parse repo tests_dir read [] = Inr []"
| "scan_test_files parse repo tests_dir read (p # ps) =
     (case scan_test_file parse repo tests_dir p (read p) of
        Inr tests \<Rightarrow> bind_res (scan_test_files parse repo tests_dir read ps) (\<lambda>rest. Inr (tests @ rest))
      | Inl e \<Rightarrow>
          if e \<in> {SyntaxError, OSError, UnicodeDecodeError} then scan_test_files parse repo tests_dir read ps else Inl e)"

section \<open>Repositories\<close>

text \<open>
  \<open>tests_tree\<close> lists the test files of a repository while a branch, or the state of the clone, is
  checked out, or is \<open>None\<close> when there is no directory \<open>tests\<close>.
\<close>

record dashboard_env =
  clone_repo :: "string \<Rightarrow> string + path"
  remote_branches :: "path \<Rightarrow> bool \<times> string \<times> string"
  checkout :: "path \<Rightarrow> string \<Rightarrow> bool"
  tests_tree :: "path \<Rightarrow> string option \<Rightarrow> path list option"
  read_test :: "path \<Rightarrow> string option \<Rightarrow> path \<Rightarrow> string res"
  db_parse :: parser

definition get_valid_branches :: "dashboard_env \<Rightarrow> path \<Rightarrow> string list res" where
  "get_valid_branches env dir =
     (case remote_branches env dir of
        (True, stdout, _) \<Rightarrow> Inr (sort_branches (branches_of_output stdout))
      | (False, _, stderr) \<Rightarrow> Inl (RuntimeError (''Failed to get remote branches: '' @ stderr)))"

definition scan_all_tests :: "dashboard_env \<Rightarrow> path \<Rightarrow> string option \<Rightarrow> string option \<Rightarrow> dashboard_stats res" where
  "scan_all_tests env dir repo current =
     bind_res (scan_test_files (db_parse env) repo (path_div dir ''tests'') (read_test env dir current)
                 (case tests_tree env dir current of None \<Rightarrow> [] | Some ps \<Rightarrow> ps))
       (\<lambda>tests. Inr (calculate_stats tests))"

text \<open>The statistics, or none when the checkout fails, and the branch that is checked out afterwards.\<close>

definition scan_branch ::
    "dashboard_env \<Rightarrow> path \<Rightarrow> string \<Rightarrow> string option \<Rightarrow> string option \<Rightarrow> string option \<Rightarrow>
     dashboard_stats option res \<times> string option" where
  "scan_branch env dir branch original repo current =
     (let (result, current') =
            (if checkout env dir branch
             then (bind_res (scan_all_tests env dir repo (Some branch)) (\<lambda>s. Inr (Some s)), Some branch)
             else (Inr None, current))
      in (result, case original of
                    Some b \<Rightarrow> if b \<noteq> [] \<and> checkout env dir b then Some b else current'
                  | None \<Rightarrow> current'))"

definition scan_repo_branch ::
    "dashboard_env \<Rightarrow> path \<Rightarrow> string \<Rightarrow> string \<Rightarrow> string option \<Rightarrow> dashboard_stats option res \<times> string option" where
  "scan_repo_branch env dir branch repo current =
     (if tests_tree env dir current = None then (Inr None, current)
      else scan_branch env dir branch None (Some repo) current)"

fun scan_branches ::
    "dashboard_env \<Rightarrow> path \<Rightarrow> string \<Rightarrow> string list \<Rightarrow> string option \<Rightarrow> (string \<times> dashboard_stats) list res" where
  "scan_branches env dir repo [] current = Inr []"
| "scan_branches env dir repo (b # bs) current =
     (let (result, current') = scan_repo_branch env dir b repo current
      in bind_res result (\<lambda>stats.
         bind_res (scan_branches env dir repo bs current') (\<lambda>rest.
           Inr (opt_list (map_option (\<lambda>s. (b, s)) stats) @ rest))))"

definition branches_to_scan :: "dashboard_env \<Rightarrow> path \<Rightarrow> string option \<Rightarrow> string list res" where
  "branches_to_scan env dir branch_filter =
     (case branch_filter of
        Some b \<Rightarrow> if b \<noteq> [] then Inr [b] else get_valid_branches env dir
      | None \<Rightarrow> get_valid_branches env dir)"

fun scan_all_repos ::
    "dashboard_env \<Rightarrow> string option \<Rightarrow> string list \<Rightarrow> (string \<times> (string \<times> dashboard_stats) list) list \<Rightarrow>
     (string \<times> (string \<times> dashboard_stats) list) list res" where
  "scan_all_repos env branch_filter [] results = Inr results"
| "scan_all_repos env branch_filter (repo # repos) results =
     (case clone_repo env repo of
        Inl _ \<Rightarrow> scan_all_repos env branch_filter repos results
      | Inr dir \<Rightarrow>
          (case branches_to_scan env dir branch_filter of
             Inl _ \<Rightarrow> scan_all_repos env branch_filter repos results
           | Inr branches \<Rightarrow>
               bind_res (scan_branches env dir repo (filter_branches_for_repo repo branches) None) (\<lambda>stats.
                 scan_all_repos env branch_filter repos
                   (if stats \<noteq> [] then AList.update repo stats results else results))))"

end
