(* ===== verification/QuarantineProps.thy ===== *)
theory QuarantineProps
  imports Quarantine
begin

text \<open>
  Properties of the scan for quarantined tests: the totals add up per team, a decorator directly
  above a test is found, and the branches are listed by version.
\<close>

section \<open>Totals\<close>

definition counts_of :: "test_info list \<Rightarrow> string \<Rightarrow> team_counts option" where
  "counts_of ts c =
     (if c \<in> ti_category ` set ts
      then Some \<lparr>tc_total = length (filter (\<lambda>t. ti_category t = c) ts),
                 tc_active = length (filter (\<lambda>t. ti_category t = c \<and> \<not> ti_quarantined t) ts),
                 tc_quarantined = length (filter (\<lambda>t. ti_category t = c \<and> ti_quarantined t) ts)\<rparr>
      else None)"

lemma count_test_counts:
  "map_of d = counts_of ts \<Longrightarrow> map_of (count_test t d) = counts_of (ts @ [t])"
  by (rule ext) (auto simp: count_test_def Let_def update_conv counts_of_def filter_empty_conv image_iff)

lemma count_tests: "map_of d = counts_of us \<Longrightarrow> map_of (fold count_test ts d) = counts_of (us @ ts)"
proof (induction ts arbitrary: d us)
  case (Cons t ts)
  show ?case using Cons.IH[OF count_test_counts[OF Cons.prems, of t]] by simp
qed simp

lemma breakdown: "map_of (fold count_test ts []) = counts_of ts"
  using count_tests[of "[]" "[]" ts] by (simp add: counts_of_def fun_eq_iff)

lemma length_split: "length (filter P xs) = length (filter (\<lambda>x. P x \<and> \<not> Q x) xs) + length (filter (\<lambda>x. P x \<and> Q x) xs)"
  by (induction xs) auto

text \<open>
  The statistics of a branch add up: the tests are the active and the quarantined ones, in all
  and for every team; the teams are those of the tests, with their numbers of tests; and the list
  of quarantined tests is the quarantined tests ordered by team.
\<close>

theorem stats_add_up:
  "db_total (calculate_stats ts) = db_active (calculate_stats ts) + db_quarantined (calculate_stats ts) \<and>
   map_of (category_breakdown (calculate_stats ts)) = counts_of ts \<and>
   list_all (\<lambda>t. case counts_of ts (ti_category t) of None \<Rightarrow> False | Some k \<Rightarrow> tc_total k = tc_active k + tc_quarantined k) ts \<and>
   mset (quarantined_list (calculate_stats ts)) = mset (filter ti_quarantined ts) \<and>
   sorted (map ti_category (quarantined_list (calculate_stats ts)))"
  using length_split[of "\<lambda>t. ti_category t = _" ts ti_quarantined]
  by (simp add: calculate_stats_def Let_def breakdown list_all_iff counts_of_def del: mset_filter)

section \<open>Decorators above a test\<close>

lemma decorator_block_acc: "\<exists>more. decorator_block ls acc = more @ acc"
  by (induction ls arbitrary: acc) (auto split: if_splits, metis append.assoc append_Cons append_Nil)

text \<open>
  Decorators as the formatter lays them out: on one line, or opened on a line that ends with a bracket,
  with every argument on lines of its own and a closing bracket. An argument is a text and a comma, a
  string literal of an implicit concatenation, a comment, or again a bracket with its items.
\<close>

datatype bracket = Round | Square | Curly

primrec open_bracket :: "bracket \<Rightarrow> char" where
  "open_bracket Round = CHR ''(''"
| "open_bracket Square = CHR ''[''"
| "open_bracket Curly = CHR ''{''"

primrec close_bracket :: "bracket \<Rightarrow> char" where
  "close_bracket Round = CHR '')''"
| "close_bracket Square = CHR '']''"
| "close_bracket Curly = CHR ''}''"

datatype item =
    Argument string
  | Literal bool string
  | Comment string
  | Bracketed string bracket "item list"

datatype decorator = OneLine string | Wrapped string "item list" | Remark string

definition indented :: "nat \<Rightarrow> string \<Rightarrow> string" where
  "indented depth t = replicate (4 * depth) CHR '' '' @ t"

fun item_lines :: "nat \<Rightarrow> item \<Rightarrow> string list" where
  "item_lines depth (Argument t) = [indented depth (t @ '','')]"
| "item_lines depth (Literal formatted t) =
     [indented depth ((if formatted then ''f'' else []) @ [double_quote] @ t @ [double_quote])]"
| "item_lines depth (Comment t) = [indented depth (CHR ''#'' # t)]"
| "item_lines depth (Bracketed t b items) =
     [indented depth (t @ [open_bracket b])] @ concat (map (item_lines (depth + 1)) items) @
     [indented depth (close_bracket b # '','')]"

primrec decorator_lines :: "nat \<Rightarrow> decorator \<Rightarrow> string list" where
  "decorator_lines depth (OneLine t) = [indented depth (CHR ''@'' # t)]"
| "decorator_lines depth (Wrapped t items) =
     [indented depth (CHR ''@'' # t @ ''('')] @ concat (map (item_lines (depth + 1)) items) @ [indented depth '')'']"
| "decorator_lines depth (Remark t) = [indented depth (CHR ''#'' # t)]"

fun mentions :: "string \<Rightarrow> item \<Rightarrow> bool" where
  "mentions s (Argument t) \<longleftrightarrow> py_in s t"
| "mentions s (Literal formatted t) \<longleftrightarrow> py_in s t"
| "mentions s (Comment t) \<longleftrightarrow> False"
| "mentions s (Bracketed t b items) \<longleftrightarrow> list_ex (mentions s) items"

text \<open>The quarantine of the guidelines: the marker with \<open>QUARANTINED\<close> in an argument, and \<open>run=False\<close>.\<close>

primrec is_quarantine :: "decorator \<Rightarrow> bool" where
  "is_quarantine (OneLine t) \<longleftrightarrow>
     startswith t ''pytest.mark.xfail('' \<and> py_in ''QUARANTINED'' t \<and> py_in ''run=False'' t"
| "is_quarantine (Wrapped t items) \<longleftrightarrow>
     t = ''pytest.mark.xfail'' \<and> Argument ''run=False'' \<in> set items \<and> list_ex (mentions ''QUARANTINED'') items"
| "is_quarantine (Remark t) \<longleftrightarrow> False"

text \<open>Lines that do not stop the search, and those it collects.\<close>

definition searched :: "string \<Rightarrow> bool" where
  "searched l \<longleftrightarrow> py_strip l \<noteq> [] \<and> (is_decorator_line (py_strip l) \<or> startswith (py_strip l) ''#'')"

definition is_collected :: "string \<Rightarrow> bool" where
  "is_collected l \<longleftrightarrow> py_strip l \<noteq> [] \<and> is_decorator_line (py_strip l)"

lemma decorator_block_lines:
  assumes "list_all searched block" "l \<in> set block" "is_collected l"
  shows "l \<in> set (decorator_block (rev block @ upper) [])"
proof -
  have "set acc \<union> {l \<in> set block. is_collected l} \<subseteq> set (decorator_block (rev block @ upper) acc)" for acc
    using assms(1)
  proof (induction block arbitrary: acc rule: rev_induct)
    case Nil
    obtain more where "decorator_block upper acc = more @ acc" using decorator_block_acc by blast
    then show ?case by simp
  next
    case (snoc b block)
    then have b: "searched b" and rest: "list_all searched block" by auto
    show ?case
    proof (cases "is_decorator_line (py_strip b)")
      case True
      then show ?thesis using snoc.IH[OF rest, of "b # acc"] b by (auto simp: searched_def)
    next
      case False
      then show ?thesis using snoc.IH[OF rest, of acc] b by (auto simp: searched_def is_collected_def)
    qed
  qed
  then show ?thesis using assms(2,3) by blast
qed

lemma in_join: "l \<in> set ls \<Longrightarrow> py_in s l \<Longrightarrow> py_in s (py_join sep ls)"
proof (induction ls)
  case (Cons k ls)
  then show ?case
    by (cases "ls = []") (auto simp: py_join_Cons py_in_iff sublist_def, metis append.assoc, metis append.assoc)
qed simp

lemma lstrip_snoc: "\<not> is_space c \<Longrightarrow> dropWhile is_space (t @ [c]) = dropWhile is_space t @ [c]"
  by (induction t) auto

lemma py_in_char: "py_in [c] s \<longleftrightarrow> c \<in> set s"
  by (auto simp: py_in_iff sublist_def in_set_conv_decomp)

lemma strip_indented: "py_strip (indented depth t) = py_strip t"
proof -
  have "dropWhile is_space (replicate n CHR '' '' @ t) = dropWhile is_space t" for n by (induction n) auto
  then show ?thesis by (simp add: indented_def py_strip_def py_lstrip_def)
qed

lemma strip_starts: "\<not> is_space c \<Longrightarrow> py_strip (indented depth (c # t)) = c # py_rstrip t"
  by (simp add: strip_indented) (simp add: py_strip_def py_lstrip_def py_rstrip_def lstrip_snoc)

lemma strip_ends: "\<not> is_space c \<Longrightarrow> py_strip (indented depth (t @ [c])) = py_lstrip t @ [c]"
  by (simp add: strip_indented) (simp add: py_strip_def py_lstrip_def py_rstrip_def lstrip_snoc)

lemma collected_starts:
  "c \<in> {CHR ''@'', CHR '')'', CHR '']'', CHR ''}'', double_quote} \<Longrightarrow> is_collected (indented depth (c # t))"
  "is_collected (indented depth (CHR ''f'' # double_quote # t))"
  "searched (indented depth (CHR ''#'' # t))"
proof -
  assume c: "c \<in> {CHR ''@'', CHR '')'', CHR '']'', CHR ''}'', double_quote}"
  then have "\<not> is_space c" by (auto simp: is_space_def double_quote_def)
  then show "is_collected (indented depth (c # t))"
    using c by (auto simp: is_collected_def strip_starts is_decorator_line_def startswith_any_def py_in_char)
next
  have "\<not> is_space CHR ''f''" "\<not> is_space double_quote" by (simp_all add: is_space_def double_quote_def)
  then show "is_collected (indented depth (CHR ''f'' # double_quote # t))"
    by (auto simp: is_collected_def strip_starts is_decorator_line_def startswith_any_def py_rstrip_def lstrip_snoc)
qed (simp add: searched_def strip_starts)

lemma collected_ends:
  "c \<in> {CHR '','', CHR ''('', CHR ''['', CHR ''{''} \<Longrightarrow> is_collected (indented depth (t @ [c]))"
proof -
  assume c: "c \<in> {CHR '','', CHR ''('', CHR ''['', CHR ''{''}"
  then have "\<not> is_space c" by (auto simp: is_space_def)
  then show ?thesis
    using c by (auto simp: is_collected_def strip_ends is_decorator_line_def endswith_def py_in_char)
qed

lemma collected_searched: "is_collected l \<Longrightarrow> searched l"
  by (simp add: is_collected_def searched_def)

lemma item_line_collected:
  "is_collected (indented depth (t @ '',''))"
  "is_collected (indented depth ((if formatted then ''f'' else []) @ [double_quote] @ t))"
  "is_collected (indented depth (t @ [open_bracket b]))" "is_collected (indented depth (close_bracket b # t))"
  using collected_ends[of "CHR '',''" depth t] collected_ends[of "open_bracket b" depth t]
    collected_starts(1)[of double_quote depth t] collected_starts(2)[of depth t] collected_starts(1)[of "close_bracket b" depth t]
  by (cases b; auto)+

lemma item_lines_searched: "list_all searched (item_lines depth i)"
  by (induction depth i rule: item_lines.induct)
    (auto simp: collected_searched item_line_collected collected_starts list_all_iff)

lemma decorator_lines_searched: "list_all searched (decorator_lines depth d)"
  using item_lines_searched collected_ends[of "CHR ''(''"]
  by (cases d) (auto simp: collected_searched collected_starts list_all_iff)

lemma line_contains: "py_in s t \<Longrightarrow> py_in s (indented depth (a @ t @ b))" "py_in s t \<Longrightarrow> py_in s (indented depth (t @ b))"
  "py_in s t \<Longrightarrow> py_in s (indented depth (c # t @ b))" "py_in s t \<Longrightarrow> py_in s (indented depth (c # d # t @ b))"
  "py_in s t \<Longrightarrow> py_in s (indented depth (c # t))"
proof -
  have *: "py_in s (indented depth (a @ t @ b))" if "py_in s t" for a b
    using that sublist_order.order.trans[OF _ sublist_appendI[of t "replicate (4 * depth) CHR '' '' @ a" b]]
    by (simp add: py_in_iff indented_def)
  { assume "py_in s t" then show "py_in s (indented depth (a @ t @ b))" by (rule *) }
  { assume "py_in s t" then show "py_in s (indented depth (t @ b))" using *[of "[]" b] by simp }
  { assume "py_in s t" then show "py_in s (indented depth (c # t @ b))" using *[of "[c]" b] by simp }
  { assume "py_in s t" then show "py_in s (indented depth (c # d # t @ b))" using *[of "[c, d]" b] by simp }
  { assume "py_in s t" then show "py_in s (indented depth (c # t))" using *[of "[c]" "[]"] by simp }
qed

lemma mentions_line: "mentions s i \<Longrightarrow> \<exists>l \<in> set (item_lines depth i). is_collected l \<and> py_in s l"
proof (induction depth i rule: item_lines.induct)
  case (4 depth t b items)
  then obtain i where "i \<in> set items" "mentions s i" by (auto simp: list_ex_iff)
  then show ?case using "4.IH"[of i] by auto
qed (auto simp: item_line_collected collected_starts line_contains)

lemma quarantine_lines:
  assumes "is_quarantine d"
  shows "\<exists>l \<in> set (decorator_lines depth d). is_collected l \<and> py_in ''QUARANTINED'' l"
    "\<exists>l \<in> set (decorator_lines depth d). is_collected l \<and> py_in ''@pytest.mark.xfail'' l"
    "\<exists>l \<in> set (decorator_lines depth d). is_collected l \<and> py_in ''run=False'' l"
proof -
  have marker: "py_in ''@pytest.mark.xfail'' (indented depth (''@pytest.mark.xfail('' @ t))" for t
    using line_contains(2)[of "''@pytest.mark.xfail''" "''@pytest.mark.xfail''" depth "''('' @ t"] by (simp add: py_in_iff)
  show "\<exists>l \<in> set (decorator_lines depth d). is_collected l \<and> py_in ''@pytest.mark.xfail'' l"
    using assms marker by (cases d) (auto simp: collected_starts startswith_prefix prefix_def)
  show "\<exists>l \<in> set (decorator_lines depth d). is_collected l \<and> py_in ''QUARANTINED'' l"
  proof (cases d)
    case (Wrapped t items)
    then obtain i where "i \<in> set items" "mentions ''QUARANTINED'' i" using assms by (auto simp: list_ex_iff)
    then show ?thesis using mentions_line[of _ i "depth + 1"] Wrapped by fastforce
  qed (use assms in \<open>auto simp: collected_starts line_contains\<close>)
  show "\<exists>l \<in> set (decorator_lines depth d). is_collected l \<and> py_in ''run=False'' l"
  proof (cases d)
    case (Wrapped t items)
    moreover have "mentions ''run=False'' (Argument ''run=False'')" by (simp add: py_in_iff)
    ultimately show ?thesis
      using mentions_line[of _ "Argument ''run=False''" "depth + 1"] assms by (fastforce simp del: item_lines.simps mentions.simps)
  qed (use assms in \<open>auto simp: collected_starts line_contains\<close>)
qed

lemma lines_above_block:
  assumes "py_split newline content = pre @ block @ rest" "length block < MAX_DECORATOR_SEARCH_LINES"
  shows "\<exists>upper. lines_above (py_split newline content) (length pre + length block + 1) = rev block @ upper"
proof -
  let ?k = "length pre + length block + 1 - MAX_DECORATOR_SEARCH_LINES"
  have "?k \<le> length pre" using assms(2) by (simp add: MAX_DECORATOR_SEARCH_LINES_def)
  then show ?thesis using assms(1) by (simp add: lines_above_def)
qed

text \<open>
  C34. A quarantine as the guidelines write it, on one line or laid out over several lines by the
  formatter, is found in any stack of decorators so laid out, with comments between them, that stands in
  at most 49 lines directly above a definition, whatever stands above it.
\<close>

theorem quarantine_found:
  assumes "py_split newline content = pre @ concat (map (decorator_lines depth) ds) @ rest"
    and "length (concat (map (decorator_lines depth) ds)) \<le> 49"
    and "d \<in> set ds" "is_quarantine d"
  shows "fst (check_quarantine content (length pre + length (concat (map (decorator_lines depth) ds)) + 1))"
proof -
  let ?block = "concat (map (decorator_lines depth) ds)"
  obtain upper where upper: "lines_above (py_split newline content) (length pre + length ?block + 1) = rev ?block @ upper"
    using lines_above_block[OF assms(1)] assms(2) by (auto simp: MAX_DECORATOR_SEARCH_LINES_def)
  have all: "list_all searched ?block" using decorator_lines_searched[of depth] by (auto simp: list_all_iff)
  have found: "py_in s (py_join newline (decorator_block (rev ?block @ upper) []))"
    if "\<exists>l \<in> set (decorator_lines depth d). is_collected l \<and> py_in s l" for s
    using that decorator_block_lines[OF all] in_join assms(3) by fastforce
  show ?thesis
    unfolding check_quarantine_def upper Let_def
    using quarantine_lines[OF assms(4)] by (auto simp: has_run_false_def found)
qed

text \<open>The form of the guidelines, in a class, with another decorator and a comment.\<close>

definition quarantined_decorators :: "decorator list" where
  "quarantined_decorators =
     [OneLine ''pytest.mark.gpfs'', Remark '' flaky since the last release'',
      Wrapped ''pytest.mark.xfail''
        [Bracketed ''reason='' Round [Literal True ''{QUARANTINED}: stuck '', Literal False ''in CNV-123''],
         Argument ''run=False'']]"

definition quarantined_content :: string where
  "quarantined_content =
     py_join newline ([''class TestA:''] @ concat (map (decorator_lines 1) quarantined_decorators) @ [''    def test_a(self):''])"

lemma quarantined_lines:
  "py_split newline quarantined_content =
     [''class TestA:''] @ concat (map (decorator_lines 1) quarantined_decorators) @ [''    def test_a(self):'']"
  by code_simp

lemma quarantined_length: "length (concat (map (decorator_lines 1) quarantined_decorators)) = 9"
  by code_simp

lemma quarantined_marker: "is_quarantine (quarantined_decorators ! 2)"
  by code_simp

theorem quarantine_found_witness: "fst (check_quarantine quarantined_content 11)"
proof -
  have "quarantined_decorators ! 2 \<in> set quarantined_decorators" by (simp add: quarantined_decorators_def)
  then show ?thesis
    using quarantine_found[OF quarantined_lines _ _ quarantined_marker] by (simp add: quarantined_length[unfolded One_nat_def])
qed

section \<open>Branches\<close>

text \<open>The branches that the dashboard knows: main and the versions.\<close>

fun show_branch :: "(nat \<times> nat) option \<Rightarrow> string" where
  "show_branch None = ''main''"
| "show_branch (Some (major, minor)) = ''cnv-'' @ show_nat major @ ''.'' @ show_nat minor"

fun version_key :: "(nat \<times> nat) option \<Rightarrow> int \<times> int \<times> int" where
  "version_key None = (0, 0, 0)"
| "version_key (Some (major, minor)) = (1, - int major, - int minor)"

lemma int_digits_show: "int_digits True (show_nat n)" "int_digits False (show_nat n)"
proof -
  have "(\<And>c. c \<in> set s \<Longrightarrow> is_digit c) \<Longrightarrow> int_digits True s \<and> (s \<noteq> [] \<longrightarrow> int_digits False s)" for s
    by (induction s) auto
  then show "int_digits True (show_nat n)" "int_digits False (show_nat n)"
    using show_nat_digits[of _ n] show_nat_nonempty[of n] by blast+
qed

lemma strip_digits: "(\<And>c. c \<in> set s \<Longrightarrow> is_digit c) \<Longrightarrow> py_strip s = s"
proof -
  assume d: "\<And>c. c \<in> set s \<Longrightarrow> is_digit c"
  have "\<not> is_space c" if "is_digit c" for c using that by (auto simp: is_digit_def is_space_def Let_def)
  then have no_space: "dropWhile is_space t = t" if "set t \<subseteq> set s" for t using d that by (cases t) auto
  have "dropWhile is_space s = s" "dropWhile is_space (rev s) = rev s" by (rule no_space; simp)+
  then show ?thesis by (simp add: py_strip_def py_lstrip_def py_rstrip_def)
qed

lemma int_of_show: "int_of_text (show_nat n) = Some (int n)"
proof -
  obtain c cs where s: "show_nat n = c # cs" using show_nat_nonempty by (meson neq_Nil_conv)
  have digits: "\<And>x. x \<in> set (show_nat n) \<Longrightarrow> is_digit x" by (rule show_nat_digits)
  have "c \<noteq> CHR ''-''" "c \<noteq> CHR ''+''" using digits[of c] s by (auto simp: is_digit_def Let_def)
  moreover have "filter is_digit (show_nat n) = show_nat n" using digits by (simp add: filter_id_conv)
  moreover have "py_strip (show_nat n) = show_nat n" by (rule strip_digits) (rule digits)
  ultimately show ?thesis
    using int_digits_show(2)[of n] py_int_show_nat[of n] s
    by (simp add: int_of_text_def Let_def del: int_digits.simps filter.simps)
qed

lemma dot_no_digit: "CHR ''.'' \<notin> set (show_nat n)"
  using show_nat_digits[of "CHR ''.''" n] by (auto simp: is_digit_def Let_def)

lemma version_of_show: "version_of (show_nat a @ ''.'' @ show_nat b) = Some (int a, int b)"
proof -
  have "\<not> sublist ''.'' (show_nat b)" using dot_no_digit[of b] by (auto simp: sublist_def)
  then have "py_split ''.'' (show_nat a @ ''.'' @ show_nat b) = [show_nat a, show_nat b]"
    using partition_at_char[OF dot_no_digit, of a "show_nat b"] by (subst py_split.simps) (simp add: py_split_no_sep)
  then show ?thesis by (simp add: version_of_def int_of_show)
qed

lemma remove_prefix: "CHR ''-'' \<notin> set v \<Longrightarrow> remove_text ''cnv-'' (''cnv-'' @ v) = v"
proof -
  assume "CHR ''-'' \<notin> set v"
  then have "\<not> sublist ''cnv-'' v" by (auto simp: sublist_def)
  then show ?thesis by (simp add: remove_text_def py_split.simps[of _ "CHR ''c'' # _"] py_split_no_sep)
qed

lemma minus_no_digit: "CHR ''-'' \<notin> set (show_nat n)"
  using show_nat_digits[of "CHR ''-''" n] by (auto simp: is_digit_def Let_def)

lemma first_end: "first_match REnd (pre, [], g) (pre, [], g)"
  by (simp add: first_match_def at_end_def)

lemma first_begin: "first_match RBegin ([], s, g) ([], s, g)"
  by (simp add: first_match_def)

lemma first_version:
  "first_match CNV_BRANCH_PATTERN ([], ''cnv-'' @ show_nat a @ ''.'' @ show_nat b, [])
     (rev (show_nat b) @ rev ''.'' @ rev (show_nat a) @ rev ''cnv-'' @ [], [], [])"
proof -
  have number: "first_match (RPlus RDigit) (pre, show_nat n @ rest, g) (rev (show_nat n) @ pre, rest, g)"
    if "rest = [] \<or> hd rest = CHR ''.''" for pre n rest g
    using that by (intro first_digits) (auto simp: show_nat_nonempty show_nat_digits is_digit_def[of "CHR ''.''"] Let_def)
  have minor: "first_match (RPlus RDigit) (pre, show_nat b, g) (rev (show_nat b) @ pre, [], g)" for pre g
    using number[of "[]" pre b g] by simp
  show ?thesis
    unfolding CNV_BRANCH_PATTERN_def RSeqs.simps
    by (rule first_seq[OF first_begin] first_seq[OF first_lit] first_seq[OF minor] first_seq[OF number]
          first_seq[OF first_end] first_empty | simp)+
qed

lemma branch_key_show: "branch_key (show_branch v) = version_key v"
proof (cases v)
  case None
  then show ?thesis by (simp add: branch_key_def)
next
  case (Some w)
  obtain a b where w: "w = (a, b)" by (cases w)
  have "re_match CNV_BRANCH_PATTERN (''cnv-'' @ show_nat a @ ''.'' @ show_nat b) \<noteq> None"
    using re_match_first[OF first_version[of a b]] by simp
  moreover have "remove_text ''cnv-'' (''cnv-'' @ show_nat a @ ''.'' @ show_nat b) = show_nat a @ ''.'' @ show_nat b"
    by (rule remove_prefix) (simp add: minus_no_digit)
  ultimately show ?thesis using version_of_show[of a b] by (simp add: Some w branch_key_def)
qed

lemma sort_key_map: "sort_key f (map g xs) = map g (sort_key (\<lambda>x. f (g x)) xs)"
proof -
  have "insort_key f (g x) (map g ys) = map g (insort_key (\<lambda>x. f (g x)) x ys)" for x ys by (induction ys) auto
  then show ?thesis by (induction xs) auto
qed

text \<open>
  C38. The branches of versions are ordered as numbers, the newest first and after main, and every one
  of them is a valid branch: sorting the names is sorting the versions.
\<close>

theorem branches_by_version:
  "sort_branches (map show_branch vs) = map show_branch (sort_key version_key vs) \<and>
   filter is_valid_branch (map show_branch vs) = map show_branch vs"
proof -
  have "is_valid_branch (show_branch v)" for v
  proof (cases v)
    case (Some w)
    then show ?thesis using re_match_first[OF first_version[of "fst w" "snd w"]]
      by (cases w) (simp add: is_valid_branch_def)
  qed (simp add: is_valid_branch_def)
  moreover have "sort_key branch_key (map show_branch vs) = map show_branch (sort_key version_key vs)"
    by (simp add: sort_key_map branch_key_show)
  ultimately show ?thesis by (simp add: sort_branches_def filter_id_conv)
qed

end
