(* ===== verification/ReviewRetry.thy ===== *)
theory ReviewRetry
  imports PyRegex Complex_Main "HOL-Library.Multiset"
begin

text \<open>
  The job that asks for a review again once a rate limit has passed
  (\<open>scripts/coderabbit_retry/coderabbit_retry.py\<close>). The command line tool, the JSON decoder, the
  reader of dates, the clock and the GitHub client are functions of an environment; points in
  time are rational numbers of seconds. The pull requests on which a comment was posted are
  the state.
\<close>

section \<open>Answers of the services\<close>

datatype json =
    JNull
  | JBool bool
  | JInt int
  | JFloat rat
  | JNotFinite
  | JString string
  | JArray "json list"
  | JObject "(string \<times> json) list"

datatype tool_run = NotRun | Exited int string string

record comment =
  author :: "string option"
  body :: "string option"
  created_at :: rat

text \<open>The comments of a pull request, and whether fetching a further page failed after them.\<close>

type_synonym comment_pages = "comment list \<times> bool"

record retry_env =
  rate_limit_tool :: "nat \<Rightarrow> tool_run"
  json_loads :: "string \<Rightarrow> json option"
  fromisoformat :: "string \<Rightarrow> rat option"
  now :: "nat \<Rightarrow> rat"
  get_comments :: "nat \<Rightarrow> rat \<Rightarrow> comment_pages"
  create_comment :: "nat \<Rightarrow> bool"

definition MAX_PRS :: nat where "MAX_PRS = 200"

definition REVIEW_REQUEST_PATTERN :: regex where
  "REVIEW_REQUEST_PATTERN =
     RSeqs [nocase ''@coderabbitai'', RPlus RSpace, RGroup 1 (RAlt (nocase ''review'') (nocase ''resume''))]"

definition WIP_PATTERN :: regex where
  "WIP_PATTERN = RAlt (RSeqs [RBound, nocase ''wip'', RBound]) (nocase ''[wip]'')"

definition is_wip_title :: "string \<Rightarrow> bool" where
  "is_wip_title title \<longleftrightarrow> re_search WIP_PATTERN title \<noteq> None"

section \<open>The rate limit\<close>

definition get_field :: "(string \<times> json) list \<Rightarrow> string \<Rightarrow> json" where
  "get_field payload k = (case map_of payload k of None \<Rightarrow> JNull | Some v \<Rightarrow> v)"

text \<open>An integer that no double can hold makes \<open>isfinite\<close> raise.\<close>

definition too_large_for_float :: "int \<Rightarrow> bool" where
  "too_large_for_float n \<longleftrightarrow> \<bar>n\<bar> \<ge> 2 ^ 1024 - 2 ^ 970"

definition wait_ok :: "json \<Rightarrow> bool res" where
  "wait_ok w =
     (case w of
        JNull \<Rightarrow> Inr True
      | JInt n \<Rightarrow> if too_large_for_float n then Inl OverflowError else Inr (n \<ge> 0)
      | JFloat x \<Rightarrow> Inr (x \<ge> 0)
      | _ \<Rightarrow> Inr False)"

definition validate_rate_limit_payload :: "(string \<times> json) list \<Rightarrow> (string \<times> json) list option res" where
  "validate_rate_limit_payload payload =
     (let limited = get_field payload ''rate_limited''; updated = get_field payload ''updated_at''
      in if (case limited of JNull \<Rightarrow> False | JBool _ \<Rightarrow> False | _ \<Rightarrow> True) then Inr None
         else bind_res (wait_ok (get_field payload ''wait_seconds'')) (\<lambda>ok.
           if \<not> ok then Inr None
           else if (case updated of JNull \<Rightarrow> False | JString _ \<Rightarrow> False | _ \<Rightarrow> True) then Inr None
           else Inr (Some payload)))"

definition check_rate_limit :: "retry_env \<Rightarrow> nat \<Rightarrow> (string \<times> json) list option res" where
  "check_rate_limit env pr =
     (case rate_limit_tool env pr of
        NotRun \<Rightarrow> Inr None
      | Exited code out err \<Rightarrow>
          if code \<noteq> 0 then Inr None
          else (case json_loads env out of
                  Some (JObject payload) \<Rightarrow> validate_rate_limit_payload payload
                | _ \<Rightarrow> Inr None))"

section \<open>Earlier requests\<close>

definition bot_login :: string where "bot_login = ''coderabbitai[bot]''"

definition is_request :: "rat \<Rightarrow> comment \<Rightarrow> bool" where
  "is_request after c \<longleftrightarrow> author c \<noteq> Some bot_login \<and>
     re_search REVIEW_REQUEST_PATTERN (case body c of None \<Rightarrow> [] | Some b \<Rightarrow> b) \<noteq> None \<and> created_at c > after"

fun request_among :: "rat \<Rightarrow> comment list \<Rightarrow> bool \<Rightarrow> bool option" where
  "request_among after [] failed = (if failed then None else Some False)"
| "request_among after (c # cs) failed =
     (if author c = Some bot_login then request_among after cs failed
      else if re_search REVIEW_REQUEST_PATTERN (case body c of None \<Rightarrow> [] | Some b \<Rightarrow> b) \<noteq> None \<and> created_at c > after
      then Some True
      else request_among after cs failed)"

definition has_review_request_after :: "retry_env \<Rightarrow> nat \<Rightarrow> rat \<Rightarrow> bool option" where
  "has_review_request_after env pr after =
     (let (cs, failed) = get_comments env pr after in request_among after cs failed)"

definition trigger_review :: "retry_env \<Rightarrow> nat \<Rightarrow> nat list \<Rightarrow> bool \<times> nat list" where
  "trigger_review env pr posted = (if create_comment env pr then (True, posted @ [pr]) else (False, posted))"

section \<open>One pull request\<close>

definition wait_value :: "json \<Rightarrow> rat option" where
  "wait_value w = (case w of JInt n \<Rightarrow> Some (of_int n) | JFloat x \<Rightarrow> Some x | _ \<Rightarrow> None)"

definition text_value :: "json \<Rightarrow> string option" where
  "text_value j = (case j of JString s \<Rightarrow> if s = [] then None else Some s | _ \<Rightarrow> None)"

definition process_pr :: "retry_env \<Rightarrow> nat \<Rightarrow> nat list \<Rightarrow> (bool \<times> nat list) res" where
  "process_pr env pr posted =
     bind_res (check_rate_limit env pr) (\<lambda>result.
       (case result of
          None \<Rightarrow> Inr (False, posted)
        | Some payload \<Rightarrow>
            if get_field payload ''rate_limited'' \<noteq> JBool True then Inr (False, posted)
            else (case (wait_value (get_field payload ''wait_seconds''), text_value (get_field payload ''updated_at'')) of
                    (Some wait_seconds, Some updated_at) \<Rightarrow>
                      (case fromisoformat env updated_at of
                         None \<Rightarrow> Inr (False, posted)
                       | Some epoch \<Rightarrow>
                           if now env pr - epoch < wait_seconds then Inr (False, posted)
                           else (case has_review_request_after env pr epoch of
                                   None \<Rightarrow> Inr (False, posted)
                                 | Some True \<Rightarrow> Inr (False, posted)
                                 | Some False \<Rightarrow> Inr (trigger_review env pr posted)))
                  | _ \<Rightarrow> Inr (False, posted))))"

section \<open>All pull requests\<close>

text \<open>
  The search yields numbers and titles; at most \<open>MAX_PRS\<close> are taken. The workers finish in the
  order of \<open>completed\<close>, a permutation of what is to be processed.
\<close>

definition to_process :: "(nat \<times> string) list \<Rightarrow> nat list" where
  "to_process issues = map fst (filter (\<lambda>(_, title). \<not> is_wip_title title) (take MAX_PRS issues))"

fun process_all :: "retry_env \<Rightarrow> nat list \<Rightarrow> nat \<Rightarrow> nat list \<Rightarrow> (nat \<times> nat list) res" where
  "process_all env [] retried posted = Inr (retried, posted)"
| "process_all env (pr # prs) retried posted =
     bind_res (process_pr env pr posted) (\<lambda>(ok, posted').
       process_all env prs (if ok then Suc retried else retried) posted')"

definition retry_main ::
    "retry_env \<Rightarrow> string option \<Rightarrow> string option \<Rightarrow> bool \<Rightarrow> (nat \<times> string) list option \<Rightarrow>
     (nat list \<Rightarrow> nat list) \<Rightarrow> (int \<times> nat \<times> nat list) res" where
  "retry_main env repo token repo_found issues order =
     (if repo = None \<or> repo = Some [] then Inr (1, 0, [])
      else if token = None \<or> token = Some [] then Inr (1, 0, [])
      else if \<not> repo_found then Inr (1, 0, [])
      else (case issues of
              None \<Rightarrow> Inr (1, 0, [])
            | Some is \<Rightarrow>
                bind_res (process_all env (order (to_process is)) 0 []) (\<lambda>(retried, posted). Inr (0, retried, posted))))"

section \<open>When a review is requested\<close>

lemma request_among_Cons:
  "request_among after (c # cs) failed = (if is_request after c then Some True else request_among after cs failed)"
  by (simp add: is_request_def)

lemma request_among_result:
  "request_among after cs failed =
     (if \<exists>c \<in> set cs. is_request after c then Some True else if failed then None else Some False)"
proof (induction cs)
  case (Cons c cs)
  show ?case unfolding request_among_Cons Cons by simp
qed simp

text \<open>The conditions under which the job posts a comment on a pull request.\<close>

definition retry_due :: "retry_env \<Rightarrow> nat \<Rightarrow> (string \<times> json) list \<Rightarrow> bool" where
  "retry_due env pr payload \<longleftrightarrow>
     get_field payload ''rate_limited'' = JBool True \<and>
     (\<exists>wait updated epoch. wait_value (get_field payload ''wait_seconds'') = Some wait \<and>
        text_value (get_field payload ''updated_at'') = Some updated \<and> fromisoformat env updated = Some epoch \<and>
        now env pr - epoch \<ge> wait \<and> \<not> snd (get_comments env pr epoch) \<and>
        \<not> (\<exists>c \<in> set (fst (get_comments env pr epoch)). is_request epoch c))"

lemma review_check:
  "has_review_request_after env pr epoch = Some False \<longleftrightarrow>
     \<not> snd (get_comments env pr epoch) \<and> \<not> (\<exists>c \<in> set (fst (get_comments env pr epoch)). is_request epoch c)"
  by (simp add: has_review_request_after_def request_among_result split_beta)

lemma process_pr_cases:
  "process_pr env pr posted =
     (case check_rate_limit env pr of
        Inl e \<Rightarrow> Inl e
      | Inr None \<Rightarrow> Inr (False, posted)
      | Inr (Some payload) \<Rightarrow>
          Inr (if retry_due env pr payload \<and> create_comment env pr then (True, posted @ [pr]) else (False, posted)))"
proof (cases "check_rate_limit env pr")
  case (Inr result)
  show ?thesis
  proof (cases result)
    case (Some payload)
    have "(case has_review_request_after env pr epoch of
             None \<Rightarrow> Inr (False, posted) | Some True \<Rightarrow> Inr (False, posted)
           | Some False \<Rightarrow> Inr (trigger_review env pr posted)) =
        (Inr (if has_review_request_after env pr epoch = Some False \<and> create_comment env pr
              then (True, posted @ [pr]) else (False, posted)) :: (bool \<times> nat list) res)" for epoch
      by (auto simp: trigger_review_def split: option.splits bool.splits)
    then show ?thesis
      using Inr Some
      by (auto simp: process_pr_def retry_due_def review_check split: option.splits)
  qed (simp add: process_pr_def Inr)
qed (simp add: process_pr_def)

text \<open>A comment that asks for a review after the limit was set stops any further request.\<close>

definition with_request :: "nat \<Rightarrow> string option \<Rightarrow> rat \<Rightarrow> (nat \<Rightarrow> rat) \<Rightarrow> retry_env \<Rightarrow> retry_env" where
  "with_request pr who t clock env =
     env\<lparr>get_comments := (\<lambda>n after. if n = pr \<and> t > after
           then (fst (get_comments env n after) @ [\<lparr>author = who, body = Some ''@coderabbitai review'', created_at = t\<rparr>],
                 snd (get_comments env n after))
           else get_comments env n after),
         now := clock\<rparr>"

lemma with_request_not_due:
  assumes "who \<noteq> Some bot_login" and "\<And>s epoch. fromisoformat env s = Some epoch \<Longrightarrow> epoch < t"
  shows "\<not> retry_due (with_request pr who t clock env) pr payload"
proof
  have m: "re_search REVIEW_REQUEST_PATTERN ''@coderabbitai review'' \<noteq> None" by code_simp
  assume "retry_due (with_request pr who t clock env) pr payload"
  then obtain updated epoch where e: "fromisoformat env updated = Some epoch"
    "\<not> (\<exists>c \<in> set (fst (get_comments (with_request pr who t clock env) pr epoch)). is_request epoch c)"
    by (auto simp: retry_due_def with_request_def)
  moreover have "is_request epoch \<lparr>author = who, body = Some ''@coderabbitai review'', created_at = t\<rparr>"
    using assms(1) assms(2)[OF e(1)] m by (simp add: is_request_def)
  ultimately show False using assms(2)[OF e(1)] by (simp add: with_request_def)
qed

lemma requested_not_repeated:
  assumes "process_pr env pr posted = Inr (True, posted')"
    and "who \<noteq> Some bot_login" and "\<And>s epoch. fromisoformat env s = Some epoch \<Longrightarrow> epoch < t"
  shows "process_pr (with_request pr who t clock env) pr posted' = Inr (False, posted')"
proof -
  have "check_rate_limit (with_request pr who t clock env) pr = check_rate_limit env pr"
    by (simp add: check_rate_limit_def with_request_def split: tool_run.splits)
  then show ?thesis
    using assms(1) with_request_not_due[OF assms(2,3)]
    by (auto simp: process_pr_cases split: sum.splits option.splits)
qed

section \<open>The whole run\<close>

lemma process_pr_posts:
  assumes "process_pr env pr posted = Inr (ok, posted')"
  shows "posted' = (if ok then posted @ [pr] else posted)"
  using assms by (auto simp: process_pr_cases split: sum.splits option.splits if_splits)

lemma process_all_posts:
  assumes "process_all env prs retried posted = Inr (n, posted')"
  shows "\<exists>new. posted' = posted @ new \<and> subseq new prs \<and> n = retried + length new \<and>
     (\<forall>pr \<in> set new. \<exists>payload. check_rate_limit env pr = Inr (Some payload) \<and> retry_due env pr payload)"
  using assms
proof (induction prs arbitrary: retried posted)
  case (Cons pr prs)
  then obtain ok posted1 where p: "process_pr env pr posted = Inr (ok, posted1)"
    and r: "process_all env prs (if ok then Suc retried else retried) posted1 = Inr (n, posted')"
    by (auto simp: bind_res_Inr_iff)
  obtain new where n: "posted' = posted1 @ new" "subseq new prs" "n = (if ok then Suc retried else retried) + length new"
    "\<forall>pr \<in> set new. \<exists>payload. check_rate_limit env pr = Inr (Some payload) \<and> retry_due env pr payload"
    using Cons.IH[OF r] by blast
  show ?case
  proof (cases ok)
    case True
    then have "\<exists>payload. check_rate_limit env pr = Inr (Some payload) \<and> retry_due env pr payload"
      using p by (auto simp: process_pr_cases split: sum.splits option.splits if_splits)
    then show ?thesis using True n process_pr_posts[OF p] by (intro exI[of _ "pr # new"]) auto
  next
    case False
    then show ?thesis using n process_pr_posts[OF p] by (intro exI[of _ new]) (auto intro: subseq_Cons')
  qed
qed (auto intro: exI[of _ "[]"])

lemma subseq_keeps_distinct: "subseq xs ys \<Longrightarrow> distinct ys \<Longrightarrow> distinct xs"
proof (induction rule: list_emb.induct)
  case (list_emb_Cons2 x y xs ys)
  then show ?case using list_emb_set[of "(=)" xs ys x] by auto
qed auto

section \<open>Properties\<close>

text \<open>
  C33. A comment is posted exactly when the tool reports a rate limit with a waiting time and a
  date, the time has passed, the comments since then could be read and none of them, the
  bot's apart, asks for a review, and GitHub accepts the comment.
\<close>

theorem review_requested_exactly:
  "process_pr env pr posted = Inr (True, posted') \<longleftrightarrow>
     (\<exists>payload. check_rate_limit env pr = Inr (Some payload) \<and> retry_due env pr payload) \<and>
     create_comment env pr \<and> posted' = posted @ [pr]"
  by (auto simp: process_pr_cases split: sum.splits option.splits if_splits)

text \<open>
  Once a request was posted, later runs do not post another one for the same rate limit,
  whatever the clock says, as long as the comment is not the bot's own.
\<close>

theorem request_not_repeated:
  assumes "process_pr env pr posted = Inr (True, posted')"
    and "who \<noteq> Some bot_login" and "\<And>s epoch. fromisoformat env s = Some epoch \<Longrightarrow> epoch < t"
  shows "process_pr (with_request pr who t clock env) pr posted' = Inr (False, posted')"
  by (rule requested_not_repeated[OF assms])

definition sample_retry :: retry_env where
  "sample_retry =
     \<lparr>rate_limit_tool = (\<lambda>_. Exited 0 ''out'' []),
      json_loads = (\<lambda>_. Some (JObject [(''rate_limited'', JBool True), (''wait_seconds'', JInt 60),
        (''updated_at'', JString ''then'')])),
      fromisoformat = (\<lambda>_. Some 1000), now = (\<lambda>_. 2000), get_comments = (\<lambda>_ _. ([], False)),
      create_comment = (\<lambda>_. True)\<rparr>"

lemma sample_retry_due: "process_pr sample_retry 7 [] = Inr (True, [7])"
proof -
  have "\<not> too_large_for_float 60" by code_simp
  then show ?thesis
    by (simp add: process_pr_def check_rate_limit_def sample_retry_def validate_rate_limit_payload_def get_field_def
        wait_ok_def wait_value_def text_value_def has_review_request_after_def trigger_review_def)
qed

theorem request_not_repeated_witness:
  "process_pr (with_request 7 (Some ''user'') 1500 (\<lambda>_. 9000) sample_retry) 7 [7] = Inr (False, [7])"
  by (rule request_not_repeated[OF sample_retry_due]) (simp_all add: bot_login_def sample_retry_def)

text \<open>
  A run posts only on pull requests among the first 200 of the search that are not marked as
  work in progress, on each at most once when their numbers differ, and counts its posts.
\<close>

theorem retry_run_bounded:
  assumes "retry_main env repo token repo_found (Some issues) order = Inr (code, retried, posted)"
    and "mset (order (to_process issues)) = mset (to_process issues)"
  shows "retried = length posted \<and> length posted \<le> MAX_PRS \<and>
     (\<forall>pr \<in> set posted. \<exists>title. (pr, title) \<in> set (take MAX_PRS issues) \<and> \<not> is_wip_title title) \<and>
     (distinct (map fst issues) \<longrightarrow> distinct posted)"
proof -
  let ?prs = "order (to_process issues)"
  have "retried = length posted \<and> subseq posted ?prs"
    using assms(1) process_all_posts[of env ?prs 0 "[]"]
    by (fastforce simp: retry_main_def bind_res_Inr_iff split: if_splits)
  moreover have same: "set ?prs = set (to_process issues)" "length ?prs = length (to_process issues)"
    using assms(2) by (metis set_mset_mset, metis size_mset)
  moreover have "length (to_process issues) \<le> MAX_PRS"
    unfolding to_process_def length_map by (rule order_trans[OF length_filter_le]) simp
  moreover have "distinct ?prs" if "distinct (map fst issues)"
  proof -
    have "distinct (map fst (take MAX_PRS issues))" using that by (simp add: take_map[symmetric])
    then have "distinct (to_process issues)" unfolding to_process_def by (rule distinct_map_filter)
    then show ?thesis using assms(2) by (metis mset_eq_imp_distinct_iff)
  qed
  moreover have "\<exists>title. (pr, title) \<in> set (take MAX_PRS issues) \<and> \<not> is_wip_title title"
    if "pr \<in> set (to_process issues)" for pr
    using that by (auto simp: to_process_def)
  ultimately show ?thesis
    using list_emb_length[of "(=)" posted ?prs] subseq_keeps_distinct[of posted ?prs] list_emb_set[of "(=)" posted ?prs]
    by (metis order_trans)
qed

theorem retry_run_bounded_witness:
  "length [7 :: nat] \<le> MAX_PRS \<and> (\<exists>title. (7, title) \<in> set (take MAX_PRS [(7, ''fix'')]) \<and> \<not> is_wip_title title)"
proof -
  have w: "\<not> is_wip_title ''fix''" unfolding is_wip_title_def by code_simp
  then have p: "to_process [(7, ''fix'')] = [7]" by (simp add: to_process_def MAX_PRS_def)
  have "retry_main sample_retry (Some ''org/repo'') (Some ''token'') True (Some [(7, ''fix'')]) (\<lambda>prs. prs) = Inr (0, 1, [7])"
    by (simp add: retry_main_def p sample_retry_due)
  from retry_run_bounded[OF this] w show ?thesis by simp
qed

end
