(* ===== verification/PrFiles.thy ===== *)
theory PrFiles
  imports MarkerDetect
begin

text \<open>
  The paginated GitHub queries of \<open>pytest_marker_analyzer.py\<close>. The server is an argument: a
  function from the request to an answer. \<open>get_pr_changed_files\<close> stops at the file limit and is a
  total function; the two other loops have no limit and are partial: \<^const>\<open>None\<close> is a loop that
  never ends.
\<close>

section \<open>Answers and errors\<close>

definition GITHUB_API_MAX_PER_PAGE :: nat where "GITHUB_API_MAX_PER_PAGE = 100"
definition MAX_RESPONSE_SIZE :: nat where "MAX_RESPONSE_SIZE = 10 * 1024 * 1024"
definition MAX_FILES_PER_PR :: nat where "MAX_FILES_PER_PR = 10000"

record pr_file =
  filename :: string
  patch :: "string option"
  status :: "string option"

datatype error_body =
    ErrorText string
  | Unreadable \<comment> \<open>\<open>OSError\<close> or \<open>UnicodeDecodeError\<close>\<close>
  | CutShort \<comment> \<open>\<open>HTTPException\<close>\<close>

datatype answer =
    HttpFailure nat string error_body \<comment> \<open>code, reason and body\<close>
  | ConnectionFailure string \<comment> \<open>\<open>URLError\<close>\<close>
  | DecodeFailure string \<comment> \<open>\<open>JSONDecodeError\<close>\<close>
  | TransferFailure \<comment> \<open>another \<open>OSError\<close>: the answer times out or the server hangs up before it\<close>
  | BrokenAnswer \<comment> \<open>an \<open>HTTPException\<close>: an answer that is cut short or not HTTP\<close>
  | UndecodableBody \<comment> \<open>\<open>UnicodeDecodeError\<close>\<close>
  | Page "nat option" "pr_file list" \<comment> \<open>\<open>Content-Length\<close> and the files of the page\<close>

type_synonym page_api = "string \<Rightarrow> int \<Rightarrow> string option \<Rightarrow> nat \<Rightarrow> answer"
  \<comment> \<open>repository, pull request, token and page number\<close>

definition handle_github_api_error :: "nat \<Rightarrow> string \<Rightarrow> error_body \<Rightarrow> string \<Rightarrow> py_error" where
  "handle_github_api_error code err_reason body context =
     (if body = CutShort then HTTPException
      else let error_body = (case body of ErrorText b \<Rightarrow> b | _ \<Rightarrow> [])
      in RuntimeError
        (if code = 401 then
           ''GitHub API authentication failed. Please provide a valid token via '' @
           ''--github-token or GITHUB_TOKEN environment variable''
         else if code = 403 then
           (if py_in ''rate limit'' (py_lower error_body) then
              ''GitHub API rate limit exceeded. Please provide authentication token via '' @
              ''--github-token or GITHUB_TOKEN environment variable to increase rate limits''
            else ''GitHub API forbidden (403): '' @ error_body)
         else if code = 404 then context @ '' not found (404): '' @ error_body
         else ''GitHub API error: '' @ show_nat code @ '' '' @ err_reason @ newline @ error_body))"

definition too_large :: "nat option \<Rightarrow> bool" where
  "too_large content_length =
     (case content_length of None \<Rightarrow> False | Some n \<Rightarrow> n > MAX_RESPONSE_SIZE)"

definition too_large_error :: "nat option \<Rightarrow> string \<Rightarrow> py_error" where
  "too_large_error content_length note_text =
     RuntimeError (''Response too large: '' @ show_nat (case content_length of None \<Rightarrow> 0 | Some n \<Rightarrow> n) @
       '' bytes'' @ note_text)"

definition validate_request :: "string \<Rightarrow> int \<Rightarrow> unit res" where
  "validate_request repo pr =
     bind_res (validate_repo_name repo) (\<lambda>_. if pr \<le> 0 then Inl ValueError else Inr ())"

section \<open>Changed files\<close>

function changed_files_loop :: "(nat \<Rightarrow> answer) \<Rightarrow> string \<Rightarrow> nat \<Rightarrow> string list \<Rightarrow> string list res" where
  "changed_files_loop api context page acc =
     (case api page of
        HttpFailure code err_reason body \<Rightarrow> Inl (handle_github_api_error code err_reason body context)
      | ConnectionFailure m \<Rightarrow> Inl (RuntimeError (''Failed to connect to GitHub API: '' @ m))
      | DecodeFailure m \<Rightarrow> Inl (RuntimeError (''Failed to parse GitHub API response: '' @ m))
      | TransferFailure \<Rightarrow> Inl OSError
      | BrokenAnswer \<Rightarrow> Inl HTTPException
      | UndecodableBody \<Rightarrow> Inl UnicodeDecodeError
      | Page content_length fs \<Rightarrow>
          if too_large content_length
          then Inl (too_large_error content_length ('' (max: '' @ show_nat MAX_RESPONSE_SIZE @ '')''))
          else (let acc' = acc @ map filename fs
                in if length acc' \<ge> MAX_FILES_PER_PR then Inr acc'
                   else if length fs < GITHUB_API_MAX_PER_PAGE then Inr acc'
                   else changed_files_loop api context (page + 1) acc'))"
  by pat_completeness auto
termination
  by (relation "measure (\<lambda>(api, context, page, acc). MAX_FILES_PER_PR - length acc)")
     (auto simp: MAX_FILES_PER_PR_def GITHUB_API_MAX_PER_PAGE_def)

declare changed_files_loop.simps [simp del]

definition show_int :: "int \<Rightarrow> string" where
  "show_int n = (if n < 0 then CHR ''-'' # show_nat (nat (- n)) else show_nat (nat n))"

definition get_pr_changed_files :: "page_api \<Rightarrow> string \<Rightarrow> int \<Rightarrow> string option \<Rightarrow> string list res" where
  "get_pr_changed_files api repo pr tok =
     bind_res (validate_request repo pr) (\<lambda>_.
       changed_files_loop (api repo pr tok) (''PR '' @ repo @ ''#'' @ show_int pr @ '' files'') 1 [])"

section \<open>Diffs of a pull request\<close>

partial_function (option) file_diff_loop ::
    "(nat \<Rightarrow> answer) \<Rightarrow> string \<Rightarrow> nat \<Rightarrow> string res option" where
  "file_diff_loop api file_path page =
     (case api page of
        Page content_length fs \<Rightarrow>
          if too_large content_length then Some (Inl (too_large_error content_length []))
          else (case find (\<lambda>f. filename f = file_path) fs of
                  Some f \<Rightarrow> Some (Inr (case patch f of None \<Rightarrow> [] | Some p \<Rightarrow> p))
                | None \<Rightarrow>
                    if length fs < GITHUB_API_MAX_PER_PAGE then Some (Inr [])
                    else file_diff_loop api file_path (page + 1))
      | BrokenAnswer \<Rightarrow> Some (Inl HTTPException)
      | UndecodableBody \<Rightarrow> Some (Inl UnicodeDecodeError)
      | _ \<Rightarrow> Some (Inr []))"

definition get_pr_file_diff_of :: "page_api \<Rightarrow> string \<Rightarrow> int \<Rightarrow> string \<Rightarrow> string option \<Rightarrow> string res option" where
  "get_pr_file_diff_of api repo pr file_path tok =
     (case validate_request repo pr of
        Inl e \<Rightarrow> Some (Inl e)
      | Inr _ \<Rightarrow> file_diff_loop (api repo pr tok) file_path 1)"

type_synonym diffs_and_statuses = "(string \<times> string) list \<times> (string \<times> string) list"

fun record_file :: "pr_file \<Rightarrow> diffs_and_statuses \<Rightarrow> diffs_and_statuses" where
  "record_file f (diffs, statuses) =
     ((case patch f of
         Some p \<Rightarrow> if p \<noteq> [] then AList.update (filename f) p diffs else diffs
       | None \<Rightarrow> diffs),
      AList.update (filename f) (case status f of None \<Rightarrow> ''modified'' | Some s \<Rightarrow> s) statuses)"

partial_function (option) prefetch_loop ::
    "(nat \<Rightarrow> answer) \<Rightarrow> nat \<Rightarrow> diffs_and_statuses \<Rightarrow> diffs_and_statuses res option" where
  "prefetch_loop api page acc =
     (case api page of
        Page content_length fs \<Rightarrow>
          if too_large content_length then Some (Inl (too_large_error content_length []))
          else (let acc' = fold record_file fs acc
                in if length fs < GITHUB_API_MAX_PER_PAGE then Some (Inr acc')
                   else prefetch_loop api (page + 1) acc')
      | BrokenAnswer \<Rightarrow> Some (Inl HTTPException)
      | UndecodableBody \<Rightarrow> Some (Inl UnicodeDecodeError)
      | _ \<Rightarrow> Some (Inr acc))"

definition prefetch_pr_diffs :: "page_api \<Rightarrow> string \<Rightarrow> int \<Rightarrow> string option \<Rightarrow> diffs_and_statuses res option" where
  "prefetch_pr_diffs api repo pr tok =
     (case validate_request repo pr of
        Inl e \<Rightarrow> Some (Inl e)
      | Inr _ \<Rightarrow> prefetch_loop (api repo pr tok) 1 ([], []))"

section \<open>A server that pages through a list\<close>

definition paged :: "pr_file list \<Rightarrow> nat \<Rightarrow> answer" where
  "paged fs page = Page None (take GITHUB_API_MAX_PER_PAGE (drop (GITHUB_API_MAX_PER_PAGE * (page - 1)) fs))"

lemma take_add_drop: "take n xs @ take m (drop n xs) = take (n + m) xs"
  by (simp add: take_add)

lemma changed_files_paged:
  assumes "k < 100" and "100 * k \<le> length fs"
  shows "changed_files_loop (paged fs) context (Suc k) (map filename (take (100 * k) fs)) =
     Inr (map filename (take MAX_FILES_PER_PR fs))"
  using assms
proof (induction "100 - k" arbitrary: k)
  case 0
  then show ?case by simp
next
  case (Suc d)
  have app: "map filename (take (100 * k) fs) @ map filename (take 100 (drop (100 * k) fs)) =
      map filename (take (100 * Suc k) fs)"
    by (simp only: map_append[symmetric] take_add_drop) (simp add: algebra_simps)
  show ?case
  proof (cases "length fs < 100 * Suc k")
    case True
    have "take (100 * Suc k) fs = fs" "take 10000 fs = fs" using True Suc.prems(1) by simp_all
    then show ?thesis
      using True Suc.prems app
      by (subst changed_files_loop.simps)
         (auto simp: paged_def too_large_def Let_def GITHUB_API_MAX_PER_PAGE_def MAX_FILES_PER_PR_def)
  next
    case False
    then have full: "length (take 100 (drop (100 * k) fs)) = 100" by simp
    show ?thesis
    proof (cases "Suc k < 100")
      case True
      have IH: "changed_files_loop (paged fs) context (Suc (Suc k)) (map filename (take (100 * Suc k) fs)) =
          Inr (map filename (take MAX_FILES_PER_PR fs))"
        using Suc.hyps(1)[of "Suc k"] Suc.hyps(2) True False by simp
      have "length (take (100 * Suc k) fs) < 10000" using True False by simp
      then show ?thesis
        using full app IH
        by (subst changed_files_loop.simps)
           (simp add: paged_def too_large_def Let_def GITHUB_API_MAX_PER_PAGE_def MAX_FILES_PER_PR_def
              del: take_drop)
    next
      case last: False
      then have k: "k = 99" using Suc.prems(1) by simp
      show ?thesis
        using full app False unfolding k
        by (subst changed_files_loop.simps)
           (simp add: paged_def too_large_def Let_def GITHUB_API_MAX_PER_PAGE_def MAX_FILES_PER_PR_def)
    qed
  qed
qed

lemma prefetch_paged:
  "100 * k \<le> length fs \<Longrightarrow>
     prefetch_loop (paged fs) (Suc k) (fold record_file (take (100 * k) fs) acc) =
       Some (Inr (fold record_file fs acc))"
proof (induction "length fs - 100 * k" arbitrary: k rule: less_induct)
  case less
  have app: "fold record_file (take 100 (drop (100 * k) fs)) (fold record_file (take (100 * k) fs) acc) =
      fold record_file (take (100 * Suc k) fs) acc"
  proof -
    have "100 * Suc k = 100 * k + 100" by simp
    then show ?thesis by (simp only: take_add fold_append comp_apply)
  qed
  show ?case
  proof (cases "length fs < 100 * Suc k")
    case True
    then have "take (100 * Suc k) fs = fs" by simp
    then show ?thesis
      using True less.prems app
      by (subst prefetch_loop.simps) (auto simp: paged_def too_large_def Let_def GITHUB_API_MAX_PER_PAGE_def)
  next
    case False
    then have "prefetch_loop (paged fs) (Suc (Suc k)) (fold record_file (take (100 * Suc k) fs) acc) =
        Some (Inr (fold record_file fs acc))"
      using less.hyps[of "Suc k"] by simp
    moreover have "length (take 100 (drop (100 * k) fs)) = 100" using False by simp
    ultimately show ?thesis
      using app
      by (subst prefetch_loop.simps)
         (simp add: paged_def too_large_def Let_def GITHUB_API_MAX_PER_PAGE_def del: take_drop)
  qed
qed

text \<open>Without a limit, a server that only sends full pages is read forever.\<close>

lemma prefetch_diverges:
  assumes "\<And>page. \<exists>fs. api page = Page None fs \<and> length fs \<ge> GITHUB_API_MAX_PER_PAGE"
  shows "prefetch_loop api page acc = None"
proof (rule ccontr)
  assume "prefetch_loop api page acc \<noteq> None"
  then obtain r where "prefetch_loop api page acc = Some r" by blast
  then have "(\<forall>page. \<exists>fs. api page = Page None fs \<and> length fs \<ge> GITHUB_API_MAX_PER_PAGE) \<longrightarrow> False"
  proof (rule prefetch_loop.raw_induct[where P = "\<lambda>api page acc r.
        (\<forall>p. \<exists>fs. api p = Page None fs \<and> length fs \<ge> GITHUB_API_MAX_PER_PAGE) \<longrightarrow> False", rotated])
    fix loop api page acc r
    assume 1: "\<And>api page acc r. loop api page acc = Some r \<Longrightarrow>
        (\<forall>p. \<exists>fs. api p = Page None fs \<and> length fs \<ge> GITHUB_API_MAX_PER_PAGE) \<longrightarrow> False"
      and 2: "(case api page of
        Page content_length fs \<Rightarrow>
          if too_large content_length then Some (Inl (too_large_error content_length []))
          else (let acc' = fold record_file fs acc
                in if length fs < GITHUB_API_MAX_PER_PAGE then Some (Inr acc')
                   else loop api (page + 1) acc')
      | BrokenAnswer \<Rightarrow> Some (Inl HTTPException)
      | UndecodableBody \<Rightarrow> Some (Inl UnicodeDecodeError)
      | _ \<Rightarrow> Some (Inr acc)) = Some r"
    show "(\<forall>p. \<exists>fs. api p = Page None fs \<and> length fs \<ge> GITHUB_API_MAX_PER_PAGE) \<longrightarrow> False"
    proof
      assume full: "\<forall>page. \<exists>fs. api page = Page None fs \<and> length fs \<ge> GITHUB_API_MAX_PER_PAGE"
      then obtain fs where "api page = Page None fs" "length fs \<ge> GITHUB_API_MAX_PER_PAGE" by blast
      with 2 have "loop api (page + 1) (fold record_file fs acc) = Some r"
        by (simp add: too_large_def Let_def split: if_splits)
      from 1[OF this] full show False by blast
    qed
  qed
  then show False using assms by blast
qed

text \<open>
  The diff of one file is searched on the same pages, so it is found or missed whenever the prefetch
  comes to an end.
\<close>

lemma file_diff_returns:
  assumes "prefetch_loop api page acc = Some r"
  shows "file_diff_loop api file_path page \<noteq> None"
  using assms
proof (rule prefetch_loop.raw_induct[where P = "\<lambda>api page acc r. file_diff_loop api file_path page \<noteq> None", rotated])
  fix loop api page acc r
  assume IH: "\<And>api page acc r. loop api page acc = Some r \<Longrightarrow> file_diff_loop api file_path page \<noteq> None"
    and step: "(case api page of
        Page content_length fs \<Rightarrow>
          if too_large content_length then Some (Inl (too_large_error content_length []))
          else (let acc' = fold record_file fs acc
                in if length fs < GITHUB_API_MAX_PER_PAGE then Some (Inr acc')
                   else loop api (page + 1) acc')
      | BrokenAnswer \<Rightarrow> Some (Inl HTTPException)
      | UndecodableBody \<Rightarrow> Some (Inl UnicodeDecodeError)
      | _ \<Rightarrow> Some (Inr acc)) = Some r"
  show "file_diff_loop api file_path page \<noteq> None"
    using step IH[of api "page + 1"]
    by (subst file_diff_loop.simps) (auto simp: Let_def split: answer.splits option.splits if_splits)
qed

lemma pr_file_diff_returns:
  "prefetch_pr_diffs api repo pr tok = Some (Inr d) \<Longrightarrow> get_pr_file_diff_of api repo pr file_path tok \<noteq> None"
  using file_diff_returns
  by (auto simp: prefetch_pr_diffs_def get_pr_file_diff_of_def split: sum.splits)

text \<open>The list of changed files stops against the same server, at the file limit.\<close>

lemma changed_files_stops:
  assumes "\<And>page. \<exists>fs. api page = Page None fs \<and> length fs \<ge> GITHUB_API_MAX_PER_PAGE"
  shows "\<exists>r. changed_files_loop api context page acc = Inr r \<and> length r \<ge> MAX_FILES_PER_PR"
proof (induction "MAX_FILES_PER_PR - length acc" arbitrary: page acc rule: less_induct)
  case less
  obtain fs where fs: "api page = Page None fs" "length fs \<ge> GITHUB_API_MAX_PER_PAGE"
    using assms by blast
  let ?acc = "acc @ map filename fs"
  show ?case
  proof (cases "length ?acc \<ge> MAX_FILES_PER_PR")
    case True
    then show ?thesis
      using fs by (subst changed_files_loop.simps) (simp add: too_large_def Let_def)
  next
    case False
    then have "MAX_FILES_PER_PR - length ?acc < MAX_FILES_PER_PR - length acc"
      using fs(2) by (simp add: MAX_FILES_PER_PR_def GITHUB_API_MAX_PER_PAGE_def)
    from less[OF this, of "page + 1"] show ?thesis
      using fs False by (subst changed_files_loop.simps) (simp add: too_large_def Let_def)
  qed
qed

lemma record_file_statuses: "snd (record_file f acc) = AList.update (filename f)
    (case status f of None \<Rightarrow> ''modified'' | Some s \<Rightarrow> s) (snd acc)"
  by (cases acc) simp

lemma prefetch_statuses_dom:
  "fst ` set (snd (fold record_file fs acc)) = fst ` set (snd acc) \<union> filename ` set fs"
  by (induction fs arbitrary: acc) (auto simp: record_file_statuses dom_update)

end
