(* ===== verification/DecisionCompare.thy ===== *)
theory DecisionCompare
  imports ReviewRetry PrFiles PolicyChecks
begin

text \<open>
  The comparison of the decisions of a review bot with those of the analyzer
  (\<open>scripts/tests_analyzer/compare_coderabbit_decisions.py\<close>). GitHub, git, the process of the analyzer
  with the reader of its JSON output, the clock and the formatting of a percentage are an
  environment. The loops over pages have no limit: \<^const>\<open>None\<close> is a loop that never ends. The text of
  the report is its encoding in UTF-8.
\<close>

section \<open>Data\<close>

record pull =
  pl_number :: int
  pl_title :: string
  pl_url :: string
  pl_user :: "string option option" \<comment> \<open>\<^const>\<open>None\<close> without a user, \<open>Some None\<close> without a login\<close>

record pr_comment =
  cm_login :: "string option"
  cm_body :: "string option"
  cm_url :: "string option"

record listed_test =
  lt_node_id :: "string option"
  lt_test_name :: "string option"
  lt_test_file :: "string option"
  lt_dependencies :: "string list"

text \<open>The entries of the analyzer's JSON output, with the defaults of \<open>get\<close> for missing ones.\<close>

record analyzer_output =
  ao_should_run_tests :: "bool option"
  ao_reason :: "string option"
  ao_marker_expression :: "string option"
  ao_affected_tests :: "listed_test list"
  ao_total_tests :: nat
  ao_changed_files :: "string list"

record coderabbit_decision =
  cd_found :: bool
  cd_should_run :: "bool option"
  cd_comment_url :: "string option"
  cd_comment_body :: "string option"

record analyzer_decision =
  ad_success :: bool
  ad_should_run :: "bool option"
  ad_reason :: "string option"
  ad_marker_expression :: "string option"
  ad_affected_test_count :: nat
  ad_total_tests :: nat
  ad_affected_tests :: "listed_test list"
  ad_changed_files :: "string list"
  ad_error :: "string option"

record comparison_result =
  cr_number :: int
  cr_title :: string
  cr_url :: string
  cr_author :: string
  cr_coderabbit :: coderabbit_decision
  cr_analyzer :: analyzer_decision
  cr_match :: "bool option"

datatype dict_value =
    VInt int
  | VText "string option"
  | VBool "bool option"
  | VTexts "string list"
  | VTests "listed_test list"

definition to_dict :: "comparison_result \<Rightarrow> (string \<times> dict_value) list" where
  "to_dict r =
     [(''pr_number'', VInt (cr_number r)), (''pr_title'', VText (Some (cr_title r))), (''pr_url'', VText (Some (cr_url r))),
      (''pr_author'', VText (Some (cr_author r))), (''coderabbit_decision'', VBool (cd_should_run (cr_coderabbit r))),
      (''coderabbit_comment_url'', VText (cd_comment_url (cr_coderabbit r))),
      (''analyzer_decision'', VBool (ad_should_run (cr_analyzer r))), (''analyzer_reason'', VText (ad_reason (cr_analyzer r))),
      (''analyzer_marker_expression'', VText (ad_marker_expression (cr_analyzer r))),
      (''analyzer_affected_test_count'', VInt (int (ad_affected_test_count (cr_analyzer r)))),
      (''analyzer_total_tests'', VInt (int (ad_total_tests (cr_analyzer r)))),
      (''analyzer_affected_tests'', VTests (ad_affected_tests (cr_analyzer r))),
      (''analyzer_changed_files'', VTexts (ad_changed_files (cr_analyzer r))), (''match'', VBool (cr_match r))]"

datatype 'a api_answer =
    HttpErrorAnswer nat
  | UrlErrorAnswer
  | Raises py_error
  | Items "'a list"
  | NoList

datatype analyzer_run = TimedOut | NotStarted string | Ended int string string

record compare_env =
  git_found :: bool
  git_remote :: tool_run
  pulls_api :: "string \<Rightarrow> string option \<Rightarrow> pull api_answer"
  comments_api :: "string \<Rightarrow> string option \<Rightarrow> pr_comment api_answer"
  analyzer_path :: string
  analyzer_exists :: bool
  analyzer_process :: "string \<Rightarrow> int \<Rightarrow> string option \<Rightarrow> analyzer_run"
  analyzer_json :: "string \<Rightarrow> string + analyzer_output"
  generated_at :: string
  percent_text :: "nat \<Rightarrow> nat \<Rightarrow> string"

section \<open>Requests\<close>

definition FALLBACK_REPO :: string where "FALLBACK_REPO = ''RedHatQE/openshift-virtualization-tests''"

definition remote_pattern :: regex where
  "remote_pattern = RSeqs [RLit ''github.com'', RChar (\<lambda>c. c = CHR '':'' \<or> c = CHR ''/''),
     RGroup 1 (RSeqs [RPlus (RChar (\<lambda>c. c \<noteq> CHR ''/'')), RLit ''/'', RPlus (RChar (\<lambda>c. c \<noteq> CHR ''/'' \<and> c \<noteq> CHR ''.''))])]"

definition get_default_repo :: "compare_env \<Rightarrow> string" where
  "get_default_repo env =
     (if \<not> git_found env then FALLBACK_REPO
      else (case git_remote env of
              NotRun \<Rightarrow> FALLBACK_REPO
            | Exited code out _ \<Rightarrow>
                if code \<noteq> 0 then FALLBACK_REPO
                else (case re_search_group remote_pattern 1 (py_strip out) of
                        Some r \<Rightarrow> rstrip_chars ''.git'' r
                      | None \<Rightarrow> FALLBACK_REPO)))"

definition GITHUB_API_BASE :: string where "GITHUB_API_BASE = ''https://api.github.com''"

definition CODERABBIT_BOT :: string where "CODERABBIT_BOT = ''coderabbitai[bot]''"

definition per_page :: nat where "per_page = 100"

definition validate_github_url :: "string \<Rightarrow> unit res" where
  "validate_github_url url =
     (if \<not> startswith url ''https://'' then Inl ValueError
      else if \<not> startswith url GITHUB_API_BASE then Inl ValueError else Inr ())"

text \<open>A token that is empty is not sent.\<close>

definition github_request :: "(string \<Rightarrow> string option \<Rightarrow> 'a api_answer) \<Rightarrow> string \<Rightarrow> string option \<Rightarrow> 'a api_answer" where
  "github_request api url token =
     (case validate_github_url url of Inl e \<Rightarrow> Raises e | Inr _ \<Rightarrow> api url (if token = Some [] then None else token))"

partial_function (option) page_loop ::
    "(nat \<Rightarrow> 'a api_answer) \<Rightarrow> ('a \<Rightarrow> 'a list) \<Rightarrow> nat \<Rightarrow> 'a list \<Rightarrow> 'a list res option" where
  "page_loop request keep page acc =
     (case request page of
        Items xs \<Rightarrow>
          (let acc' = acc @ concat (map keep xs)
           in if length xs < per_page then Some (Inr acc') else page_loop request keep (page + 1) acc')
      | Raises e \<Rightarrow> Some (Inl e)
      | _ \<Rightarrow> Some (Inr acc))"

definition prs_url :: "string \<Rightarrow> nat \<Rightarrow> string" where
  "prs_url repo page =
     GITHUB_API_BASE @ ''/repos/'' @ repo @ ''/pulls?state=open&base=main&per_page='' @ show_nat per_page @ ''&page='' @ show_nat page"

definition get_open_prs :: "compare_env \<Rightarrow> string \<Rightarrow> string option \<Rightarrow> pull list res option" where
  "get_open_prs env repo token =
     page_loop (\<lambda>page. github_request (pulls_api env) (prs_url repo page) token) (\<lambda>x. [x]) 1 []"

definition items_url :: "string \<Rightarrow> string \<Rightarrow> int \<Rightarrow> string \<Rightarrow> nat \<Rightarrow> string" where
  "items_url repo owner pr_number kind page =
     GITHUB_API_BASE @ ''/repos/'' @ repo @ ''/'' @ owner @ ''/'' @ show_int pr_number @ ''/'' @ kind @ ''?per_page='' @
     show_nat per_page @ ''&page='' @ show_nat page"

definition review_comment :: "pr_comment \<Rightarrow> pr_comment list" where
  "review_comment r = (case cm_body r of Some (_ # _) \<Rightarrow> [r] | _ \<Rightarrow> [])"

definition get_pr_comments :: "compare_env \<Rightarrow> string \<Rightarrow> int \<Rightarrow> string option \<Rightarrow> pr_comment list res option" where
  "get_pr_comments env repo pr_number token =
     (let request = (\<lambda>owner kind page. github_request (comments_api env) (items_url repo owner pr_number kind page) token)
      in bind_run (page_loop (request ''issues'' ''comments'') (\<lambda>x. [x]) 1 []) (\<lambda>comments.
         bind_run (page_loop (request ''pulls'' ''comments'') (\<lambda>x. [x]) 1 comments) (\<lambda>comments.
         page_loop (request ''pulls'' ''reviews'') review_comment 1 comments)))"

section \<open>Decisions\<close>

definition TEST_PLAN_PATTERN :: regex where
  "TEST_PLAN_PATTERN =
     RSeqs [RAlt (RSeq (RLit ''#'') (ROpt (RSeq (RLit ''#'') (ROpt (RLit ''#''))))) (RLit ''**''), RStar RSpace,
       nocase ''test execution plan'', RStar RSpace, ROpt (RLit ''**'')]"

definition SMOKE_TEST_PATTERN :: regex where
  "SMOKE_TEST_PATTERN =
     RSeqs [ROpt (RLit ''**''), nocase ''run smoke tests'', ROpt (RLit '':''), RStar RSpace, ROpt (RLit ''**''), RStar RSpace,
       RStar (RChar (\<lambda>c. c \<in> set ''`*'')), RGroup 1 (RAlt (nocase ''true'') (nocase ''false'')),
       RStar (RChar (\<lambda>c. c \<in> set ''`*''))]"

definition decision_in :: "pr_comment \<Rightarrow> bool option" where
  "decision_in c =
     (let text = (case cm_body c of None \<Rightarrow> [] | Some b \<Rightarrow> b)
      in if cm_login c \<noteq> Some CODERABBIT_BOT then None
         else if re_search TEST_PLAN_PATTERN text = None then None
         else map_option (\<lambda>d. py_lower d = ''true'') (re_search_group SMOKE_TEST_PATTERN 1 text))"

definition shorten :: "string \<Rightarrow> string" where
  "shorten text = (if length text > 500 then take 500 text @ ''...'' else text)"

fun find_coderabbit_decision :: "pr_comment list \<Rightarrow> coderabbit_decision" where
  "find_coderabbit_decision [] = \<lparr>cd_found = False, cd_should_run = None, cd_comment_url = None, cd_comment_body = None\<rparr>"
| "find_coderabbit_decision (c # cs) =
     (case decision_in c of
        Some b \<Rightarrow> \<lparr>cd_found = True, cd_should_run = Some b, cd_comment_url = cm_url c,
                    cd_comment_body = Some (shorten (case cm_body c of None \<Rightarrow> [] | Some t \<Rightarrow> t))\<rparr>
      | None \<Rightarrow> find_coderabbit_decision cs)"

definition failed_run :: "string \<Rightarrow> analyzer_decision" where
  "failed_run msg =
     \<lparr>ad_success = False, ad_should_run = None, ad_reason = None, ad_marker_expression = None, ad_affected_test_count = 0,
      ad_total_tests = 0, ad_affected_tests = [], ad_changed_files = [], ad_error = Some msg\<rparr>"

definition successful_run :: "analyzer_output \<Rightarrow> analyzer_decision" where
  "successful_run out =
     \<lparr>ad_success = True, ad_should_run = ao_should_run_tests out, ad_reason = ao_reason out,
      ad_marker_expression = ao_marker_expression out, ad_affected_test_count = length (ao_affected_tests out),
      ad_total_tests = ao_total_tests out, ad_affected_tests = ao_affected_tests out, ad_changed_files = ao_changed_files out,
      ad_error = None\<rparr>"

definition repo_pattern :: regex where
  "repo_pattern = (let part = RPlus (RChar (\<lambda>c. is_word c \<or> c = CHR ''.'' \<or> c = CHR ''-''))
     in RSeqs [RBegin, part, RLit ''/'', part, REnd])"

definition run_analyzer :: "compare_env \<Rightarrow> string \<Rightarrow> int \<Rightarrow> string option \<Rightarrow> analyzer_decision" where
  "run_analyzer env repo pr_number token =
     (if \<not> analyzer_exists env then failed_run (''Analyzer not found at '' @ analyzer_path env)
      else if re_match repo_pattern repo = None then failed_run (''Invalid repository format: '' @ repo)
      else (case analyzer_process env repo pr_number (if token = Some [] then None else token) of
              TimedOut \<Rightarrow> failed_run ''Analyzer timed out after 120 seconds''
            | NotStarted msg \<Rightarrow> failed_run msg
            | Ended code out err \<Rightarrow>
                if code \<noteq> 0 then failed_run (''Analyzer failed (rc='' @ show_int code @ ''): '' @ take 200 err)
                else (case analyzer_json env out of
                        Inl msg \<Rightarrow> failed_run (''Failed to parse analyzer output: '' @ msg)
                      | Inr output \<Rightarrow> successful_run output)))"

definition pull_author :: "pull \<Rightarrow> string" where
  "pull_author pr = (case pl_user pr of None \<Rightarrow> ''[deleted]'' | Some None \<Rightarrow> ''unknown'' | Some (Some login) \<Rightarrow> login)"

definition decisions_match :: "coderabbit_decision \<Rightarrow> analyzer_decision \<Rightarrow> bool option" where
  "decisions_match c a = (if cd_found c \<and> ad_success a then Some (cd_should_run c = ad_should_run a) else None)"

definition compare_pr :: "compare_env \<Rightarrow> string \<Rightarrow> pull \<Rightarrow> string option \<Rightarrow> comparison_result res option" where
  "compare_pr env repo pr token =
     bind_run (get_pr_comments env repo (pl_number pr) token) (\<lambda>comments.
       let coderabbit = find_coderabbit_decision comments; analyzer = run_analyzer env repo (pl_number pr) token
       in Some (Inr \<lparr>cr_number = pl_number pr, cr_title = pl_title pr, cr_url = pl_url pr, cr_author = pull_author pr,
            cr_coderabbit = coderabbit, cr_analyzer = analyzer, cr_match = decisions_match coderabbit analyzer\<rparr>))"

section \<open>The report\<close>

definition run_word :: "bool option \<Rightarrow> string" where
  "run_word d = (if d = Some True then ''Run'' else ''Skip'')"

text \<open>A missing text is printed as \<open>None\<close>; \<open>text_or\<close> is \<open>text or default\<close>.\<close>

definition opt_text :: "string option \<Rightarrow> string" where
  "opt_text t = (case t of None \<Rightarrow> ''None'' | Some x \<Rightarrow> x)"

definition text_or :: "string option \<Rightarrow> string \<Rightarrow> string" where
  "text_or t d = (case t of Some (c # cs) \<Rightarrow> c # cs | _ \<Rightarrow> d)"

definition code_text :: "string \<Rightarrow> string" where
  "code_text s = ''`'' @ s @ ''`''"

definition more_line :: "string \<Rightarrow> nat \<Rightarrow> string \<Rightarrow> string" where
  "more_line indent n rest = indent @ ''- _(and '' @ show_nat n @ '' more'' @ rest @ '')_''"

definition changed_files_lines :: "analyzer_decision \<Rightarrow> string list" where
  "changed_files_lines a =
     (let files = ad_changed_files a
      in if files = [] then []
         else (''**Changed files ('' @ show_nat (length files) @ ''):**'') # map (\<lambda>f. ''- '' @ code_text f) (take 10 files) @
              (if length files > 10 then [more_line [] (length files - 10) []] else []) @ [[]])"

definition test_lines :: "listed_test \<Rightarrow> string list" where
  "test_lines t =
     (let deps = lt_dependencies t
      in (''- '' @ code_text (case lt_node_id t of None \<Rightarrow> ''unknown'' | Some x \<Rightarrow> x)) #
         (if deps = [] then []
          else (''  - Dependencies: '' @ py_join '', '' (map code_text (take 3 deps))) #
               (if length deps > 3 then [more_line ''  '' (length deps - 3) '' dependencies''] else [])))"

definition affected_tests_lines :: "analyzer_decision \<Rightarrow> string list" where
  "affected_tests_lines a =
     (if ad_affected_tests a = [] then []
      else (''**Affected smoke tests ('' @ show_nat (ad_affected_test_count a) @ ''/'' @ show_nat (ad_total_tests a) @ ''):**'') #
           concat (map test_lines (take 10 (ad_affected_tests a))) @
           (if ad_affected_test_count a > 10 then [more_line [] (ad_affected_test_count a - 10) '' tests''] else []) @ [[]])"

definition pr_link :: "comparison_result \<Rightarrow> string" where
  "pr_link r = ''[#'' @ show_int (cr_number r) @ '']('' @ cr_url r @ '')''"

definition generate_detailed_mismatch_analysis :: "comparison_result \<Rightarrow> string list" where
  "generate_detailed_mismatch_analysis r =
     (let a = cr_analyzer r
      in [''### PR #'' @ show_int (cr_number r) @ '' - ['' @ cr_title r @ '']('' @ cr_url r @ '')'', [],
          ''**Author:** '' @ cr_author r,
          ''**CodeRabbit decision:** '' @ run_word (cd_should_run (cr_coderabbit r)),
          ''**Analyzer decision:** '' @ run_word (ad_should_run a)] @
         (if text_or (ad_marker_expression a) [] = [] then []
          else [''**Marker expression:** '' @ code_text (opt_text (ad_marker_expression a))]) @
         [[]] @ changed_files_lines a @ affected_tests_lines a @
         [''**Analyzer reasoning:** '' @ opt_text (ad_reason a), []])"

definition table_row :: "string list \<Rightarrow> string" where
  "table_row cells = ''| '' @ py_join '' | '' cells @ '' |''"

definition affected_cells :: "analyzer_decision \<Rightarrow> string list" where
  "affected_cells a =
     [if ad_total_tests a = 0 then ''N/A'' else show_nat (ad_affected_test_count a) @ ''/'' @ show_nat (ad_total_tests a),
      show_nat (length (ad_changed_files a)), take 50 (text_or (ad_reason a) ''N/A'')]"

definition mismatch_row :: "comparison_result \<Rightarrow> string" where
  "mismatch_row r =
     table_row ([pr_link r, run_word (cd_should_run (cr_coderabbit r)), run_word (ad_should_run (cr_analyzer r))] @
       affected_cells (cr_analyzer r))"

definition match_row :: "comparison_result \<Rightarrow> string" where
  "match_row r = table_row ([pr_link r, run_word (cd_should_run (cr_coderabbit r))] @ affected_cells (cr_analyzer r))"

definition undecided_row :: "comparison_result \<Rightarrow> string" where
  "undecided_row r =
     (let a = cr_analyzer r
      in table_row [pr_link r, if ad_success a then run_word (ad_should_run a) else ''Error'',
           take 50 (if ad_success a then text_or (ad_reason a) ''N/A'' else text_or (ad_error a) ''Unknown'')])"

definition error_row :: "comparison_result \<Rightarrow> string" where
  "error_row r = table_row [pr_link r, take 100 (text_or (ad_error (cr_analyzer r)) ''Unknown'')]"

definition match_sign :: "bool option \<Rightarrow> string" where
  "match_sign m =
     (case m of
        Some True \<Rightarrow> [CHR 0xE2, CHR 0x9C, CHR 0x93]
      | Some False \<Rightarrow> [CHR 0xE2, CHR 0x9C, CHR 0x97]
      | None \<Rightarrow> ''-'')"

definition result_row :: "comparison_result \<Rightarrow> string" where
  "result_row r =
     (let c = cr_coderabbit r; a = cr_analyzer r
      in table_row [pr_link r, cr_author r,
           if cd_should_run c = Some True then ''Run'' else if cd_found c then ''Skip'' else ''N/A'',
           if ad_should_run a = Some True then ''Run'' else if ad_success a then ''Skip'' else ''Error'',
           match_sign (cr_match r)])"

definition table_section :: "string list \<Rightarrow> ('a \<Rightarrow> string) \<Rightarrow> 'a list \<Rightarrow> string list" where
  "table_section head row rs = (if rs = [] then [] else head @ map row rs @ [[]])"

definition has_decision :: "comparison_result \<Rightarrow> bool" where "has_decision r = cd_found (cr_coderabbit r)"

definition has_analysis :: "comparison_result \<Rightarrow> bool" where "has_analysis r = ad_success (cr_analyzer r)"

definition comparable :: "comparison_result list \<Rightarrow> comparison_result list" where
  "comparable rs = filter (\<lambda>r. cr_match r \<noteq> None) rs"

definition matches_of :: "comparison_result list \<Rightarrow> comparison_result list" where
  "matches_of rs = filter (\<lambda>r. cr_match r = Some True) (comparable rs)"

definition mismatches_of :: "comparison_result list \<Rightarrow> comparison_result list" where
  "mismatches_of rs = filter (\<lambda>r. cr_match r \<noteq> Some True) (comparable rs)"

definition count_row :: "string \<Rightarrow> nat \<Rightarrow> string" where
  "count_row label n = table_row [label, show_nat n]"

definition summary_lines :: "compare_env \<Rightarrow> comparison_result list \<Rightarrow> string list" where
  "summary_lines env rs =
     [''## Summary'', [], ''| Metric | Count |'', ''|--------|-------|'',
      count_row ''Total PRs'' (length rs),
      count_row ''PRs with CodeRabbit decision'' (length (filter has_decision rs)),
      count_row ''PRs with successful analyzer run'' (length (filter has_analysis rs)),
      count_row ''Comparable (both available)'' (length (comparable rs)),
      count_row ''**Matches**'' (length (matches_of rs)),
      count_row ''**Mismatches**'' (length (mismatches_of rs)), []] @
     (if comparable rs = [] then []
      else [''**Agreement Rate:** '' @ percent_text env (length (matches_of rs)) (length (comparable rs)) @ ''%'', []])"

definition mismatch_lines :: "bool \<Rightarrow> comparison_result list \<Rightarrow> string list" where
  "mismatch_lines detailed ms =
     table_section
       [''## Mismatches (Disagreements)'', [],
        ''| PR | CodeRabbit | Analyzer | Affected Tests | Changed Files | Analyzer Reason |'',
        ''|----|------------|----------|----------------|---------------|-----------------|'']
       mismatch_row ms @
     (if ms \<noteq> [] \<and> detailed
      then [''### Detailed Mismatch Analysis'', []] @
           concat (map (\<lambda>r. generate_detailed_mismatch_analysis r @ [''---'', []]) ms)
      else [])"

definition generate_markdown_report :: "compare_env \<Rightarrow> comparison_result list \<Rightarrow> string \<Rightarrow> bool \<Rightarrow> string" where
  "generate_markdown_report env rs repo detailed =
     py_join newline
       ([''# CodeRabbit vs Pytest Marker Analyzer Comparison Report'', [],
         ''**Repository:** ['' @ repo @ ''](https://github.com/'' @ repo @ '')'',
         ''**Generated:** '' @ generated_at env,
         ''**Total PRs analyzed:** '' @ show_nat (length rs), []] @
        summary_lines env rs @ mismatch_lines detailed (mismatches_of rs) @
        table_section
          [''## Matches (Agreements)'', [],
           ''| PR | Decision | Affected Tests | Changed Files | Analyzer Reason |'',
           ''|----|----------|----------------|---------------|-----------------|'']
          match_row (matches_of rs) @
        table_section
          [''## PRs Without CodeRabbit Decision'', [],
           ''| PR | Analyzer Decision | Reason |'', ''|----|-------------------|--------|'']
          undecided_row (filter (\<lambda>r. \<not> has_decision r) rs) @
        table_section [''## Analyzer Errors'', [], ''| PR | Error |'', ''|----|-------|'']
          error_row (filter (\<lambda>r. \<not> has_analysis r) rs) @
        [''## All Results'', [],
         ''| PR | Author | CodeRabbit | Analyzer | Match |'', ''|----|--------|------------|----------|-------|''] @
        map result_row rs)"

section \<open>The whole comparison\<close>

record compare_args =
  ca_repo :: string
  ca_output :: string
  ca_limit :: "int option"
  ca_detailed :: bool

datatype compare_output = JsonOutput "(string \<times> dict_value) list list" | TextOutput string

text \<open>\<open>xs[:n]\<close>, where a negative bound counts from the end; a limit of zero is no limit.\<close>

definition take_to :: "int \<Rightarrow> 'a list \<Rightarrow> 'a list" where
  "take_to n xs = take (nat (if n < 0 then int (length xs) + n else n)) xs"

definition limit_prs :: "int option \<Rightarrow> 'a list \<Rightarrow> 'a list" where
  "limit_prs limit xs = (case limit of None \<Rightarrow> xs | Some n \<Rightarrow> if n = 0 then xs else take_to n xs)"

fun compare_prs :: "compare_env \<Rightarrow> string \<Rightarrow> string option \<Rightarrow> pull list \<Rightarrow> comparison_result list res option" where
  "compare_prs env repo token [] = Some (Inr [])"
| "compare_prs env repo token (pr # prs) =
     bind_run (compare_pr env repo pr token) (\<lambda>r.
     bind_run (compare_prs env repo token prs) (\<lambda>rs. Some (Inr (r # rs))))"

text \<open>What is printed or written to the file, or nothing when there is no open pull request.\<close>

definition compare_main :: "compare_env \<Rightarrow> compare_args \<Rightarrow> string option \<Rightarrow> compare_output option res option" where
  "compare_main env args token =
     bind_run (get_open_prs env (ca_repo args) token) (\<lambda>prs.
       if prs = [] then Some (Inr None)
       else bind_run (compare_prs env (ca_repo args) token (limit_prs (ca_limit args) prs)) (\<lambda>rs.
         Some (Inr (Some (if ca_output args = ''json'' then JsonOutput (map to_dict rs)
                          else TextOutput (generate_markdown_report env rs (ca_repo args) (ca_detailed args)))))))"

end
