(* ===== verification/DecisionProps.thy ===== *)
theory DecisionProps
  imports DecisionCompare
begin

text \<open>
  Properties of the comparison: the decisions that the bot prints are read, and against servers that page
  through their lists the comparison ends with one result for every pull request.
\<close>

section \<open>Printed decisions\<close>

datatype plan_format = Heading2 | Heading3 | BoldPlan

datatype line_format = BoldLine | CodeValue | BoldLabel

fun plan_header :: "plan_format \<Rightarrow> string" where
  "plan_header Heading2 = ''## Test Execution Plan''"
| "plan_header Heading3 = ''### Test Execution Plan''"
| "plan_header BoldPlan = ''**Test Execution Plan**''"

definition show_bool :: "bool \<Rightarrow> string" where
  "show_bool b = (if b then ''True'' else ''False'')"

fun decision_line :: "line_format \<Rightarrow> bool \<Rightarrow> string" where
  "decision_line BoldLine b = ''**Run smoke tests: '' @ show_bool b @ ''**''"
| "decision_line CodeValue b = ''Run smoke tests: `'' @ show_bool b @ ''`''"
| "decision_line BoldLabel b = ''**Run smoke tests:** '' @ show_bool b"

lemma search_first: "first_match r (pre, s, []) st \<Longrightarrow> search_from r pre s = Some st"
  by (cases s) (auto simp: first_match_def)

lemma search_skip: "rmatch r (pre, c # cs, []) = [] \<Longrightarrow> search_from r pre (c # cs) = search_from r (c # pre) cs"
  by simp

lemma first_nocase: "map lower_char t = l \<Longrightarrow> first_match (nocase l) (pre, t @ s, g) (rev t @ pre, s, g)"
proof (induction t arbitrary: l pre)
  case Nil
  then show ?case by (simp add: nocase_def first_match_def)
next
  case (Cons c t)
  then obtain l' where l: "l = lower_char c # l'" "map lower_char t = l'" by auto
  then show ?case using Cons.IH[OF l(2), of "c # pre"] by (simp add: nocase_def first_match_def)
qed

lemma first_run: "first_match (RStar (RChar p)) (pre, s, g) (rev (takeWhile p s) @ pre, dropWhile p s, g)"
  using run_states_hd[of p pre s g] by (simp add: first_match_def rematch)

lemma first_star:
  "list_all p w \<Longrightarrow> s = [] \<or> \<not> p (hd s) \<Longrightarrow> first_match (RStar (RChar p)) (pre, w @ s, g) (rev w @ pre, s, g)"
  using first_run[of p pre "w @ s" g] by (cases s) (auto simp: list_all_iff takeWhile_append dropWhile_append takeWhile_eq_all_conv[THEN iffD2] dropWhile_eq_Nil_conv[THEN iffD2])

lemma first_opt:
  "b \<or> \<not> startswith s l \<Longrightarrow> first_match (ROpt (RLit l)) (pre, (if b then l else []) @ s, g) (rev (if b then l else []) @ pre, s, g)"
  by (cases b) (simp_all add: first_match_def ROpt_def rematch startswith_def)

lemma nocase_no_match: "take (length l) (map lower_char s) \<noteq> l \<Longrightarrow> rmatch (nocase l) (pre, s, g) = []"
proof (induction l arbitrary: pre s)
  case (Cons c l)
  then show ?case by (cases s) (auto simp: nocase_def)
qed (simp add: nocase_def)

text \<open>A decision as the pattern reads it: optional stars, white space, and the value in stars or ticks.\<close>

definition decision_text :: "bool \<Rightarrow> string \<Rightarrow> bool \<Rightarrow> string \<Rightarrow> string \<Rightarrow> bool \<Rightarrow> string" where
  "decision_text bold space1 bold2 space2 ticks b =
     (if bold then ''**'' else []) @ ''Run smoke tests'' @ '':'' @ space1 @ (if bold2 then ''**'' else []) @ space2 @ ticks @ show_bool b"

lemma first_value:
  "first_match (RGroup 1 (RAlt (nocase ''true'') (nocase ''false''))) (pre, show_bool b @ s, g)
     (rev (show_bool b) @ pre, s, (1, show_bool b) # g)"
proof (intro first_group, cases b)
  case True
  then show "first_match (RAlt (nocase ''true'') (nocase ''false'')) (pre, show_bool b @ s, g) (rev (show_bool b) @ pre, s, g)"
    by (intro first_alt1 first_nocase) (simp add: show_bool_def, code_simp)
next
  case False
  have "map lower_char ''False'' = ''false''" by code_simp
  then show "first_match (RAlt (nocase ''true'') (nocase ''false'')) (pre, show_bool b @ s, g) (rev (show_bool b) @ pre, s, g)"
    using False by (intro first_alt2 first_nocase nocase_no_match) (auto simp: show_bool_def)
qed

lemma first_decision:
  assumes "list_all is_space space1" "list_all is_space space2" "set ticks \<subseteq> set ''`*''"
    and "bold2 \<or> space2 = [] \<and> length ticks < 2"
  shows "\<exists>st. first_match SMOKE_TEST_PATTERN (pre, decision_text bold space1 bold2 space2 ticks b @ rest, []) st \<and>
    group_of 1 st = Some (show_bool b)"
proof -
  let ?tail = "show_bool b @ rest"
  have value_start: "\<not> is_space (hd ?tail)" "hd ?tail \<notin> set ''`*''" "?tail \<noteq> []" by (cases b; simp add: show_bool_def is_space_def)+
  have ticks: "ticks @ ?tail = [] \<or> \<not> is_space (hd (ticks @ ?tail))"
    using assms(3) value_start by (cases ticks) (auto simp: is_space_def)
  have gap: "(if bold2 then ''**'' else []) @ space2 @ ticks @ ?tail = [] \<or>
      \<not> is_space (hd ((if bold2 then ''**'' else []) @ space2 @ ticks @ ?tail))"
    using assms(4) ticks by (auto simp: is_space_def)
  have stars: "bold2 \<or> \<not> startswith (space2 @ ticks @ ?tail) ''**''"
    using assms(4) value_start by (cases ticks) (auto simp: startswith_def show_bool_def)
  have bold: "bold \<or> \<not> startswith (''Run smoke tests'' @ s) ''**''" for s by (simp add: startswith_def)
  have name: "map lower_char ''Run smoke tests'' = ''run smoke tests''" by code_simp
  have colon: "first_match (ROpt (RLit '':'')) (pre, '':'' @ s, g) (rev '':'' @ pre, s, g)" for pre s g
    unfolding ROpt_def by (intro first_alt1 first_lit)
  have ticked: "list_all (\<lambda>c. c \<in> set ''`*'') ticks" "?tail = [] \<or> \<not> hd ?tail \<in> set ''`*''"
    using assms(3) value_start by (auto simp: list_all_iff)
  show ?thesis
    unfolding SMOKE_TEST_PATTERN_def decision_text_def RSeqs.simps append_assoc
    by (rule exI conjI first_seq[OF first_opt[OF bold]] first_seq[OF first_nocase[OF name]] first_seq[OF colon]
        first_seq[OF first_star[OF assms(1) gap]] first_seq[OF first_opt[OF stars]] first_seq[OF first_star[OF assms(2) ticks]]
        first_seq[OF first_star[OF ticked]] first_seq[OF first_value] first_seq[OF first_run] first_empty
      | simp add: group_of_def)+
qed

lemma opt_none:
  assumes "rmatch n (pre, s, g) = []" "startswith s l \<Longrightarrow> rmatch n (rev l @ pre, drop (length l) s, g) = []"
  shows "rmatch (RSeq (ROpt (RLit l)) (RSeq n q)) (pre, s, g) = []"
  using assms by (simp add: ROpt_def rmatch_lit)

abbreviation smoke_label :: string where
  "smoke_label \<equiv> ''run smoke tests''"

lemma smoke_none:
  assumes "take 15 (map lower_char s) \<noteq> smoke_label" "startswith s ''**'' \<Longrightarrow> take 15 (map lower_char (drop 2 s)) \<noteq> smoke_label"
  shows "rmatch SMOKE_TEST_PATTERN (pre, s, g) = []"
proof -
  have nocase: "rmatch (nocase smoke_label) (pre', t, g') = []" if "take 15 (map lower_char t) \<noteq> smoke_label" for pre' t g'
    using that by (intro nocase_no_match) (simp add: numeral_eq_Suc)
  show ?thesis
    unfolding SMOKE_TEST_PATTERN_def RSeqs.simps(2) by (intro opt_none nocase) (use assms in \<open>simp_all add: numeral_2_eq_2\<close>)
qed

text \<open>No occurrence of the label begins in a text without it and ends behind it.\<close>

lemma label_not_split:
  assumes "u \<noteq> []" "\<not> sublist smoke_label (map lower_char u)" "lower_char c \<in> {CHR ''r'', CHR ''*''}"
  shows "take 15 (map lower_char (u @ c # t)) \<noteq> smoke_label"
proof
  assume eq: "take 15 (map lower_char (u @ c # t)) = smoke_label"
  show False
  proof (cases "15 \<le> length u")
    case True
    then have "take 15 (map lower_char u) = smoke_label" using eq by simp
    then show False using assms(2) sublist_take[of 15 "map lower_char u"] by simp
  next
    case False
    have "take 15 (map lower_char (u @ c # t)) ! length u = lower_char c" using False by (simp add: nth_append)
    then have at: "smoke_label ! length u = lower_char c" unfolding eq .
    have "smoke_label ! length u = tl smoke_label ! (length u - 1)" using assms(1) by (cases u) auto
    moreover have "length u - 1 < length (tl smoke_label)" using False by simp
    ultimately have "lower_char c \<in> set (tl smoke_label)" unfolding at[symmetric] by (metis nth_mem)
    then show False using assms(3) by auto
  qed
qed

lemma smoke_none_before:
  assumes "u \<noteq> []" "\<not> sublist smoke_label (map lower_char u)" "bold \<or> \<not> suffix ''**'' u"
  shows "rmatch SMOKE_TEST_PATTERN (pre, u @ decision_text bold a b c d e @ rest, g) = []"
proof (rule smoke_none)
  obtain x D where D: "decision_text bold a b c d e @ rest = x # D" "x = (if bold then CHR ''*'' else CHR ''R'')"
    by (cases bold) (auto simp: decision_text_def)
  have x: "lower_char x \<in> {CHR ''r'', CHR ''*''}" using D(2) by (cases bold; simp; code_simp)
  show "take 15 (map lower_char (u @ decision_text bold a b c d e @ rest)) \<noteq> smoke_label"
    unfolding D(1) by (rule label_not_split[OF assms(1,2) x])
  assume stars: "startswith (u @ decision_text bold a b c d e @ rest) ''**''"
  consider (one) "length u = 1" | (two) "length u = 2" | (more) "length u > 2" using assms(1) by (cases u; cases "tl u") auto
  then show "take 15 (map lower_char (drop 2 (u @ decision_text bold a b c d e @ rest))) \<noteq> smoke_label"
  proof cases
    case one
    then have bold using stars by (cases u) (auto simp: D split: if_splits)
    then show ?thesis using one by (cases u) (auto simp: decision_text_def lower_char_def is_upper_def)
  next
    case two
    then have "u = ''**''" using stars by (cases u; cases "tl u") auto
    then have bold using assms(3) by simp
    then show ?thesis using two by (auto simp: decision_text_def lower_char_def is_upper_def)
  next
    case more
    then have "drop 2 u \<noteq> []" by simp
    moreover have "\<not> sublist smoke_label (map lower_char (drop 2 u))"
      using assms(2) sublist_order.order.trans[OF _ sublist_drop[of 2 "map lower_char u"]] by (auto simp: drop_map)
    ultimately show ?thesis using more label_not_split[OF _ _ x, of "drop 2 u" D] by (simp add: D(1))
  qed
qed

lemma search_skip_text:
  assumes "\<not> sublist smoke_label (map lower_char u)" "bold \<or> \<not> suffix ''**'' u"
  shows "search_from SMOKE_TEST_PATTERN pre (u @ decision_text bold a b c d e @ rest) =
    search_from SMOKE_TEST_PATTERN (rev u @ pre) (decision_text bold a b c d e @ rest)"
  using assms
proof (induction u arbitrary: pre)
  case (Cons x u)
  have none: "rmatch SMOKE_TEST_PATTERN (pre, (x # u) @ decision_text bold a b c d e @ rest, []) = []"
    by (rule smoke_none_before[OF _ Cons.prems]) simp
  have "\<not> sublist smoke_label (map lower_char u)" "bold \<or> \<not> suffix ''**'' u"
    using Cons.prems by (auto simp: sublist_Cons_right suffix_Cons)
  then show ?case using Cons.IH none by simp
qed simp

lemma decision_line_text:
  "\<exists>bold space1 bold2 space2 ticks end_text. decision_line f b = decision_text bold space1 bold2 space2 ticks b @ end_text \<and>
     list_all is_space space1 \<and> list_all is_space space2 \<and> set ticks \<subseteq> set ''`*'' \<and> (bold2 \<or> space2 = [] \<and> length ticks < 2)"
proof (cases f)
  case BoldLine
  then show ?thesis
    by (intro exI[of _ True] exI[of _ "'' ''"] exI[of _ False] exI[of _ "[]"] exI[of _ "''**''"])
      (simp add: decision_text_def is_space_def)
next
  case CodeValue
  then show ?thesis
    by (intro exI[of _ False] exI[of _ "'' ''"] exI[of _ "[]"] exI[of _ "''`''"])
      (simp add: decision_text_def is_space_def)
next
  case BoldLabel
  then show ?thesis
    by (intro exI[of _ True] exI[of _ "'' ''"] exI[of _ "[]"]) (simp add: decision_text_def is_space_def)
qed

lemma decision_searched:
  assumes "\<not> py_in smoke_label (py_lower before)"
  shows "re_search_group SMOKE_TEST_PATTERN 1 (before @ decision_line f b @ rest) = Some (show_bool b)"
proof -
  obtain bold space1 bold2 space2 ticks end_text where d:
    "decision_line f b = decision_text bold space1 bold2 space2 ticks b @ end_text"
    "list_all is_space space1" "list_all is_space space2" "set ticks \<subseteq> set ''`*''" "bold2 \<or> space2 = [] \<and> length ticks < 2"
    using decision_line_text[of f b] by blast
  have found: "re_search_group SMOKE_TEST_PATTERN 1 (u @ decision_text bold' space1 bold2 space2 ticks b @ r) = Some (show_bool b)"
    if "\<not> sublist smoke_label (map lower_char u)" "bold' \<or> \<not> suffix ''**'' u" for u bold' r
  proof -
    obtain st where "first_match SMOKE_TEST_PATTERN (rev u @ [], decision_text bold' space1 bold2 space2 ticks b @ r, []) st"
      "group_of 1 st = Some (show_bool b)" using first_decision[OF d(2-5)] by blast
    then show ?thesis using search_first search_skip_text[OF that] by (simp add: re_search_group_def re_search_def)
  qed
  have no: "\<not> sublist smoke_label (map lower_char before)" using assms by (simp add: py_in_iff py_lower_def)
  show ?thesis
  proof (cases "bold \<or> \<not> suffix ''**'' before")
    case True
    then show ?thesis using found[OF no True, of "end_text @ rest"] by (simp add: d(1))
  next
    case False
    then obtain u where u: "before = u @ ''**''" by (auto simp: suffix_def)
    then have "\<not> sublist smoke_label (map lower_char u)" using no by (auto simp: sublist_append)
    then show ?thesis using found[of u True "end_text @ rest"] False by (simp add: d(1) u decision_text_def)
  qed
qed

lemma search_later: "search_from r (rev a @ pre) s \<noteq> None \<Longrightarrow> search_from r pre (a @ s) \<noteq> None"
proof (induction a arbitrary: pre)
  case (Cons c a)
  then show ?case using Cons.IH[of "c # pre"] by (auto split: list.splits)
qed simp

lemma plan_matched: "search_from TEST_PLAN_PATTERN pre (plan_header h @ rest) \<noteq> None"
proof -
  have name: "map lower_char ''Test Execution Plan'' = ''test execution plan''" by code_simp
  have opt: "\<exists>st'. first_match (ROpt r) st st'" for r st by (cases "rmatch r st"; cases st) (auto simp: first_match_def ROpt_def)
  obtain start gap where split: "plan_header h = start @ gap @ ''Test Execution Plan'' @ (if h = BoldPlan then ''**'' else [])"
    "list_all is_space gap" "(start, gap) = (if h = Heading2 then (''##'', '' '') else if h = Heading3 then (''###'', '' '') else (''**'', []))"
    by (cases h) (auto simp: is_space_def)
  let ?s = "(if h = BoldPlan then ''**'' else []) @ rest"
  have mark: "first_match (RAlt (RSeq (RLit ''#'') (ROpt (RSeq (RLit ''#'') (ROpt (RLit ''#''))))) (RLit ''**''))
      (pre, start @ gap @ ''Test Execution Plan'' @ ?s, []) (rev start @ pre, gap @ ''Test Execution Plan'' @ ?s, [])"
    using split(3) by (cases h) (auto simp: first_match_def ROpt_def)
  have gap: "''Test Execution Plan'' @ ?s = [] \<or> \<not> is_space (hd (''Test Execution Plan'' @ ?s))" by (simp add: is_space_def)
  obtain st where "first_match TEST_PLAN_PATTERN (pre, plan_header h @ rest, []) st"
    unfolding TEST_PLAN_PATTERN_def split(1) RSeqs.simps append_assoc
    using first_seq[OF mark first_seq[OF first_star[OF split(2) gap] first_seq[OF first_nocase[OF name] first_seq[OF first_run first_seq[OF _ first_empty]]]]] opt
    by metis
  then show ?thesis using search_first by simp
qed

lemma plan_found: "py_in (plan_header h) text \<Longrightarrow> re_search TEST_PLAN_PATTERN text \<noteq> None"
  using search_later plan_matched by (fastforce simp: py_in_iff sublist_def re_search_def)

text \<open>A pattern that needs a text, whatever its case, does not match where the text is missing.\<close>

definition needs :: "string \<Rightarrow> regex \<Rightarrow> bool" where
  "needs l r \<longleftrightarrow> (\<forall>pre s g. rmatch r (pre, s, g) \<noteq> [] \<longrightarrow> sublist l (map lower_char s))"

lemma needs_nocase: "needs l (nocase l)"
proof -
  have "sublist l (map lower_char s)" if "rmatch (nocase l) (pre, s, g) \<noteq> []" for pre s g
    using that nocase_no_match[of l s pre g] sublist_take[of "length l" "map lower_char s"] by metis
  then show ?thesis by (auto simp: needs_def)
qed

lemma needs_first: "needs l r \<Longrightarrow> needs l (RSeq r q)"
  unfolding needs_def by (metis concat.simps(1) list.map_disc_iff list.simps(8) rmatch.simps(3))

lemma needs_second: "needs l q \<Longrightarrow> needs l (RSeq r q)"
  by (auto simp: needs_def dest!: rmatch_text) (metis map_append sublist_append)

lemma plan_needs: "needs ''test execution plan'' TEST_PLAN_PATTERN"
  unfolding TEST_PLAN_PATTERN_def RSeqs.simps by (intro needs_second needs_first needs_nocase)

lemma search_needs: "needs l r \<Longrightarrow> search_from r pre s \<noteq> None \<Longrightarrow> sublist l (map lower_char s)"
proof (induction s arbitrary: pre)
  case Nil
  then have "rmatch r (pre, [], []) \<noteq> []" by auto
  then show ?case using Nil.prems(1) unfolding needs_def by blast
next
  case (Cons c s)
  show ?case
  proof (cases "rmatch r (pre, c # s, []) = []")
    case True
    then show ?thesis using Cons by (auto simp: sublist_Cons_right)
  next
    case False
    then show ?thesis using Cons.prems(1) unfolding needs_def by blast
  qed
qed

definition without_plan :: "pr_comment \<Rightarrow> bool" where
  "without_plan c \<longleftrightarrow>
     cm_login c \<noteq> Some CODERABBIT_BOT \<or>
     (case cm_body c of None \<Rightarrow> True | Some t \<Rightarrow> \<not> py_in ''test execution plan'' (py_lower t))"

lemma without_plan_skipped: "without_plan c \<Longrightarrow> decision_in c = None"
proof -
  assume c: "without_plan c"
  have "re_search TEST_PLAN_PATTERN t = None" if "\<not> py_in ''test execution plan'' (py_lower t)" for t
    using that search_needs[OF plan_needs, of "[]" t] by (auto simp: re_search_def py_in_iff py_lower_def)
  moreover have "\<not> py_in ''test execution plan'' (py_lower [])" by code_simp
  ultimately show ?thesis using c by (auto simp: without_plan_def decision_in_def Let_def split: option.splits)
qed

text \<open>
  C35. In the first comment of the bot that mentions a test execution plan, a decision in one of the
  forms that the code documents, in a bullet or not, is read as printed: the comment has the heading
  of the plan somewhere, and the words \<open>run smoke tests\<close> stand nowhere before the decision. What follows
  the decision, what others have written before and what later comments say does not matter.
\<close>

theorem printed_decision_read:
  assumes "list_all without_plan earlier" "cm_login c = Some CODERABBIT_BOT"
    and "cm_body c = Some msg" "msg = before @ decision_line f b @ rest"
    and "py_in (plan_header h) msg" "\<not> py_in ''run smoke tests'' (py_lower before)"
  shows "cd_should_run (find_coderabbit_decision (earlier @ c # later)) = Some b \<and>
    cd_comment_url (find_coderabbit_decision (earlier @ c # later)) = cm_url c"
proof -
  have skip: "find_coderabbit_decision (earlier @ cs) = find_coderabbit_decision cs" for cs
    using assms(1) by (induction earlier) (simp_all add: without_plan_skipped)
  have "py_lower (show_bool b) = ''true'' \<longleftrightarrow> b" by (cases b; simp add: show_bool_def; code_simp)
  then have "decision_in c = Some b"
    using assms(2-4) decision_searched[OF assms(6)] plan_found[OF assms(5)] by (auto simp: decision_in_def Let_def)
  then show ?thesis unfolding skip by simp
qed

definition bot_body :: "string \<times> string" where
  "bot_body = (''Review of the change.'' @ newline @ plan_header BoldPlan @ newline @ ''- '', newline @ ''- run gating tests'')"

definition bot_comment :: pr_comment where
  "bot_comment = \<lparr>cm_login = Some CODERABBIT_BOT,
     cm_body = Some (fst bot_body @ decision_line BoldLine True @ snd bot_body), cm_url = Some ''u''\<rparr>"

lemma bot_comment_texts:
  "py_in (plan_header BoldPlan) (fst bot_body @ decision_line BoldLine True @ snd bot_body)"
  "\<not> py_in ''run smoke tests'' (py_lower (fst bot_body))"
  "without_plan \<lparr>cm_login = Some CODERABBIT_BOT, cm_body = Some ''Walkthrough'', cm_url = None\<rparr>"
  by code_simp+

theorem printed_decision_read_witness:
  "cd_should_run (find_coderabbit_decision
     [\<lparr>cm_login = Some CODERABBIT_BOT, cm_body = Some ''Walkthrough'', cm_url = None\<rparr>, bot_comment]) = Some True"
  using printed_decision_read[OF _ _ _ refl bot_comment_texts(1,2), of
      "[\<lparr>cm_login = Some CODERABBIT_BOT, cm_body = Some ''Walkthrough'', cm_url = None\<rparr>]" bot_comment "[]"]
  by (simp add: bot_comment_def bot_comment_texts(3))

section \<open>Pages\<close>

text \<open>A server that pages through a list.\<close>

definition pages_through :: "(nat \<Rightarrow> 'a api_answer) \<Rightarrow> 'a list \<Rightarrow> bool" where
  "pages_through request xs \<longleftrightarrow> (\<forall>k. request (Suc k) = Items (take per_page (drop (per_page * k) xs)))"

lemma page_loop_pages:
  assumes "pages_through request xs"
  shows "per_page * k \<le> length xs \<Longrightarrow>
    page_loop request keep (Suc k) (acc @ concat (map keep (take (per_page * k) xs))) = Some (Inr (acc @ concat (map keep xs)))"
proof (induction "length xs - per_page * k" arbitrary: k rule: less_induct)
  case less
  let ?page = "take per_page (drop (per_page * k) xs)"
  have request: "request (Suc k) = Items ?page" using assms by (simp add: pages_through_def)
  have "per_page * Suc k = per_page * k + per_page" by simp
  then have "take (per_page * Suc k) xs = take (per_page * k) xs @ ?page" by (simp only: take_add)
  then have step: "(acc @ concat (map keep (take (per_page * k) xs))) @ concat (map keep ?page) = acc @ concat (map keep (take (per_page * Suc k) xs))"
    by simp
  show ?case
  proof (cases "length xs < per_page * Suc k")
    case True
    then have "length ?page < per_page" using less.prems by simp
    then show ?thesis using step True less.prems by (subst page_loop.simps) (simp add: request Let_def)
  next
    case False
    then have "page_loop request keep (Suc (Suc k)) (acc @ concat (map keep (take (per_page * Suc k) xs))) = Some (Inr (acc @ concat (map keep xs)))"
      using less.hyps[of "Suc k"] less.prems by (simp add: per_page_def)
    then show ?thesis using step False by (subst page_loop.simps) (simp add: request Let_def)
  qed
qed

lemma page_loop_all: "pages_through request xs \<Longrightarrow> page_loop request keep 1 acc = Some (Inr (acc @ concat (map keep xs)))"
  using page_loop_pages[of request xs 0] by simp

lemma concat_singletons: "concat (map (\<lambda>x. [x]) xs) = xs"
  by (induction xs) auto

definition sent :: "string option \<Rightarrow> string option" where
  "sent token = (if token = Some [] then None else token)"

lemma github_urls [simp]: "validate_github_url (GITHUB_API_BASE @ s) = Inr ()"
  by (simp add: validate_github_url_def GITHUB_API_BASE_def startswith_def)

text \<open>The lists of a repository: open pull requests, and the comments and reviews of each.\<close>

record served =
  sv_pulls :: "pull list"
  sv_comments :: "int \<Rightarrow> pr_comment list"
  sv_review_comments :: "int \<Rightarrow> pr_comment list"
  sv_reviews :: "int \<Rightarrow> pr_comment list"

definition serves :: "compare_env \<Rightarrow> string \<Rightarrow> string option \<Rightarrow> served \<Rightarrow> bool" where
  "serves env repo token v \<longleftrightarrow>
     pages_through (\<lambda>page. pulls_api env (prs_url repo page) (sent token)) (sv_pulls v) \<and>
     (\<forall>n. pages_through (\<lambda>page. comments_api env (items_url repo ''issues'' n ''comments'' page) (sent token)) (sv_comments v n) \<and>
          pages_through (\<lambda>page. comments_api env (items_url repo ''pulls'' n ''comments'' page) (sent token)) (sv_review_comments v n) \<and>
          pages_through (\<lambda>page. comments_api env (items_url repo ''pulls'' n ''reviews'' page) (sent token)) (sv_reviews v n))"

definition all_comments :: "served \<Rightarrow> int \<Rightarrow> pr_comment list" where
  "all_comments v n = sv_comments v n @ sv_review_comments v n @ filter (\<lambda>r. cm_body r \<noteq> None \<and> cm_body r \<noteq> Some []) (sv_reviews v n)"

lemma review_comments: "concat (map review_comment rs) = filter (\<lambda>r. cm_body r \<noteq> None \<and> cm_body r \<noteq> Some []) rs"
  by (induction rs) (auto simp: review_comment_def split: option.splits list.splits)

lemma pages_request:
  assumes "pages_through (\<lambda>page. api (url page) (sent token)) xs" "\<And>page. validate_github_url (url page) = Inr ()"
  shows "page_loop (\<lambda>page. github_request api (url page) token) keep 1 acc = Some (Inr (acc @ concat (map keep xs)))"
  using assms by (intro page_loop_all) (simp add: pages_through_def github_request_def sent_def)

lemma urls_valid [simp]: "validate_github_url (prs_url repo page) = Inr ()" "validate_github_url (items_url repo owner n kind page) = Inr ()"
  by (simp_all add: prs_url_def items_url_def)

lemma comments_complete:
  assumes "serves env repo token v"
  shows "get_pr_comments env repo n token = Some (Inr (all_comments v n))"
proof -
  have pages: "page_loop (\<lambda>page. github_request (comments_api env) (items_url repo owner n kind page) token) keep 1 acc =
      Some (Inr (acc @ concat (map keep xs)))"
    if "pages_through (\<lambda>page. comments_api env (items_url repo owner n kind page) (sent token)) xs" for owner kind xs keep acc
    using that by (intro pages_request) simp_all
  note served = assms[unfolded serves_def, THEN conjunct2, rule_format, of n]
  show ?thesis
    unfolding get_pr_comments_def Let_def pages[OF served[THEN conjunct1]] pages[OF served[THEN conjunct2, THEN conjunct1]]
      pages[OF served[THEN conjunct2, THEN conjunct2]]
    by (simp add: bind_run_def pages[OF served[THEN conjunct2, THEN conjunct1], simplified]
        pages[OF served[THEN conjunct2, THEN conjunct2], simplified] concat_singletons review_comments all_comments_def)
qed

definition expected_result :: "compare_env \<Rightarrow> string \<Rightarrow> string option \<Rightarrow> served \<Rightarrow> pull \<Rightarrow> comparison_result" where
  "expected_result env repo token v pr =
     (let c = find_coderabbit_decision (all_comments v (pl_number pr)); a = run_analyzer env repo (pl_number pr) token
      in \<lparr>cr_number = pl_number pr, cr_title = pl_title pr, cr_url = pl_url pr, cr_author = pull_author pr, cr_coderabbit = c,
          cr_analyzer = a, cr_match = decisions_match c a\<rparr>)"

lemma compare_prs_complete:
  "serves env repo token v \<Longrightarrow> compare_prs env repo token prs = Some (Inr (map (expected_result env repo token v) prs))"
  by (induction prs) (simp_all add: compare_pr_def comments_complete bind_run_def expected_result_def Let_def)

text \<open>
  C36. Against servers that page through their lists the comparison ends, whatever the lengths of the lists,
  and reports one result for every open pull request up to the limit, made of all its comments and
  reviews and of the run of the analyzer.
\<close>

theorem comparison_complete:
  assumes "serves env (ca_repo args) token v"
  shows "compare_main env args token = Some (Inr
    (if sv_pulls v = [] then None
     else let rs = map (expected_result env (ca_repo args) token v) (limit_prs (ca_limit args) (sv_pulls v))
          in Some (if ca_output args = ''json'' then JsonOutput (map to_dict rs)
                   else TextOutput (generate_markdown_report env rs (ca_repo args) (ca_detailed args)))))"
proof -
  have "get_open_prs env (ca_repo args) token = Some (Inr (sv_pulls v))"
    using assms pages_request[of "pulls_api env" "prs_url (ca_repo args)" token "sv_pulls v"]
    by (simp add: get_open_prs_def serves_def concat_singletons)
  then show ?thesis using compare_prs_complete[OF assms] by (simp add: compare_main_def bind_run_def Let_def)
qed

definition sample_pull :: pull where
  "sample_pull = \<lparr>pl_number = 7, pl_title = ''t'', pl_url = ''u'', pl_user = None\<rparr>"

definition sample_compare :: compare_env where
  "sample_compare = \<lparr>git_found = False, git_remote = NotRun,
     pulls_api = (\<lambda>url _. if url = prs_url ''a/b'' 1 then Items [sample_pull] else Items []),
     comments_api = (\<lambda>_ _. Items []), analyzer_path = ''x'', analyzer_exists = True,
     analyzer_process = (\<lambda>_ _ _. TimedOut), analyzer_json = (\<lambda>_. Inl ''no JSON''), generated_at = ''now'',
     percent_text = (\<lambda>_ _. ''0.0'')\<rparr>"

definition sample_served :: served where
  "sample_served = \<lparr>sv_pulls = [sample_pull], sv_comments = (\<lambda>_. []), sv_review_comments = (\<lambda>_. []), sv_reviews = (\<lambda>_. [])\<rparr>"

lemma prs_url_inject: "prs_url repo p = prs_url repo q \<longleftrightarrow> p = q"
proof
  assume "prs_url repo p = prs_url repo q"
  then have "show_nat p = show_nat q" by (simp add: prs_url_def)
  then show "p = q" by (metis py_int_show_nat)
qed simp

lemma sample_serves: "serves sample_compare ''a/b'' None sample_served"
proof -
  have "pages_through (\<lambda>page. pulls_api sample_compare (prs_url ''a/b'' page) (sent None)) [sample_pull]"
    unfolding pages_through_def
  proof
    fix k show "pulls_api sample_compare (prs_url ''a/b'' (Suc k)) (sent None) = Items (take per_page (drop (per_page * k) [sample_pull]))"
      by (cases k) (simp_all add: sample_compare_def prs_url_inject per_page_def)
  qed
  then show ?thesis by (simp add: serves_def sample_served_def pages_through_def) (simp add: sample_compare_def)
qed

theorem comparison_complete_witness:
  "\<exists>rows. compare_main sample_compare \<lparr>ca_repo = ''a/b'', ca_output = ''json'', ca_limit = None, ca_detailed = False\<rparr> None =
     Some (Inr (Some (JsonOutput [rows]))) \<and> map_of rows ''match'' = Some (VBool None)"
proof -
  let ?args = "\<lparr>ca_repo = ''a/b'', ca_output = ''json'', ca_limit = None, ca_detailed = False\<rparr>"
  have serves: "serves sample_compare (ca_repo ?args) None sample_served" by (simp add: sample_serves)
  show ?thesis
    unfolding comparison_complete[OF serves]
    by (simp add: sample_served_def limit_prs_def Let_def expected_result_def all_comments_def to_dict_def decisions_match_def)
qed

section \<open>The default repository\<close>

text \<open>The characters of the ending are stripped one by one, so a name that ends in some of them is cut.\<close>

lemma remote_read: "re_search_group remote_pattern 1 ''git@github.com:a/digit.git'' = Some ''a/digit''"
  by code_simp

lemma default_repo_cut:
  assumes "git_found env" "git_remote env = Exited 0 (''git@github.com:a/digit.git'' @ newline) err"
  shows "get_default_repo env = ''a/d''"
proof -
  have "rstrip_chars ''.git'' ''a/digit'' = ''a/d''" "py_strip (''git@github.com:a/digit.git'' @ newline) = ''git@github.com:a/digit.git''"
    by code_simp+
  then show ?thesis using assms by (simp only: get_default_repo_def tool_run.case remote_read option.case) simp
qed

end
