(* ===== verification/SymbolMap.thy ===== *)
theory SymbolMap
  imports DiffParse
begin

text \<open>
  Lines to symbols: the line ranges of a module's top-level definitions and of the methods of
  its classes, the symbols of the base version of a file, and the retrieval of diffs. The git
  and GitHub queries are fields of \<open>change_env\<close>; an exception that no handler of the querying
  function names is raised to its caller.
\<close>

section \<open>Queries of the surroundings\<close>

datatype run_result =
    RunFailed \<comment> \<open>\<open>SubprocessError\<close> or \<open>OSError\<close>\<close>
  | Undecodable \<comment> \<open>\<open>UnicodeDecodeError\<close>: an output that is not text\<close>
  | Completed int string string \<comment> \<open>return code, output, error output\<close>

datatype http_result =
    HttpError nat
  | FetchFailed \<comment> \<open>\<open>URLError\<close>, \<open>JSONDecodeError\<close>, \<open>OSError\<close> or \<open>UnicodeDecodeError\<close>\<close>
  | FetchBroken \<comment> \<open>\<open>HTTPException\<close>: an answer that is cut short or not HTTP\<close>
  | ContentMissing \<comment> \<open>\<open>KeyError\<close>: base64 is announced and \<open>content\<close> is missing\<close>
  | BadBase64 \<comment> \<open>\<open>binascii.Error\<close>, a \<open>ValueError\<close>\<close>
  | Contents "string option" string
      \<comment> \<open>the \<open>encoding\<close> field of the answer and its content, decoded when that is base64\<close>

record pr_info =
  pi_repo :: string
  pr_number :: nat
  token :: "string option"

record change_env =
  files :: file_env
  git_show :: "string \<Rightarrow> string \<Rightarrow> run_result" \<comment> \<open>ref and relative path\<close>
  git_diff :: "nat \<Rightarrow> string \<Rightarrow> path \<Rightarrow> run_result" \<comment> \<open>context lines, base branch and file\<close>
  contents_api :: "string \<Rightarrow> string \<Rightarrow> string \<Rightarrow> string option \<Rightarrow> http_result"
    \<comment> \<open>repository, relative path, ref and token\<close>
  pr_file_diff :: "string \<Rightarrow> nat \<Rightarrow> string \<Rightarrow> string option \<Rightarrow> string res"
    \<comment> \<open>what \<open>get_pr_file_diff\<close> returns or raises for a repository, pull request, relative path and
      token; the query itself is in theory \<open>PrFiles\<close>\<close>

section \<open>Line ranges\<close>

record class_member_info =
  ci_class_name :: string
  members :: "(string \<times> nat \<times> nat) list"
  internal_calls :: "(string \<times> string set) list"

record symbol_map =
  top_level :: "(nat \<times> nat \<times> string) list"
  class_members :: "(string \<times> class_member_info) list"

fun symbol_start_line :: "ast \<Rightarrow> nat" where
  "symbol_start_line (FunctionDef p _ _ _ decs _) = (case decs of [] \<Rightarrow> fst p | d # _ \<Rightarrow> lineno d)"
| "symbol_start_line (AsyncFunctionDef p _ _ _ decs _) = (case decs of [] \<Rightarrow> fst p | d # _ \<Rightarrow> lineno d)"
| "symbol_start_line (ClassDef p _ _ _ decs _) = (case decs of [] \<Rightarrow> fst p | d # _ \<Rightarrow> lineno d)"
| "symbol_start_line n = lineno n"

fun node_pos :: "ast \<Rightarrow> pos" where
  "node_pos (FunctionDef p _ _ _ _ _) = p"
| "node_pos (AsyncFunctionDef p _ _ _ _ _) = p"
| "node_pos (ClassDef p _ _ _ _ _) = p"
| "node_pos _ = (0, None)"

fun add_members :: "ast list \<Rightarrow> (string \<times> nat \<times> nat) list \<Rightarrow> (string \<times> nat \<times> nat) list" where
  "add_members [] ms = ms"
| "add_members (n # ns) ms =
     (case function_name n of
        Some name \<Rightarrow> add_members ns (AList.update name (symbol_start_line n, end_line (node_pos n)) ms)
      | None \<Rightarrow> add_members ns ms)"

definition class_info :: "ast \<Rightarrow> string \<Rightarrow> class_member_info" where
  "class_info n name =
     \<lparr>ci_class_name = name, members = add_members (iter_child_nodes n) [],
      internal_calls = build_intra_class_call_graph n\<rparr>"

fun target_name :: "ast \<Rightarrow> string list" where
  "target_name (Name _ i) = [i]"
| "target_name _ = []"

fun node_symbols :: "ast \<Rightarrow> (nat \<times> nat \<times> string) list" where
  "node_symbols (FunctionDef p name args body decs rest) =
     [(symbol_start_line (FunctionDef p name args body decs rest), end_line p, name)]"
| "node_symbols (AsyncFunctionDef p name args body decs rest) =
     [(symbol_start_line (AsyncFunctionDef p name args body decs rest), end_line p, name)]"
| "node_symbols (ClassDef p name bases body decs rest) =
     [(symbol_start_line (ClassDef p name bases body decs rest), end_line p, name)]"
| "node_symbols (Assign p targets v) =
     map (\<lambda>t. (fst p, end_line p, t)) (concat (map target_name targets))"
| "node_symbols (AnnAssign p t ann v) = map (\<lambda>t. (fst p, end_line p, t)) (target_name t)"
| "node_symbols _ = []"

fun add_class :: "ast \<Rightarrow> (string \<times> class_member_info) list \<Rightarrow> (string \<times> class_member_info) list" where
  "add_class (ClassDef p name bases body decs rest) d =
     AList.update name (class_info (ClassDef p name bases body decs rest) name) d"
| "add_class _ d = d"

definition symbol_map_of_tree :: "ast \<Rightarrow> symbol_map" where
  "symbol_map_of_tree tree =
     \<lparr>top_level = sort_key fst (concat (map node_symbols (iter_child_nodes tree))),
      class_members = fold add_class (iter_child_nodes tree) []\<rparr>"

text \<open>The caller catches the parser's \<open>SyntaxError\<close>, \<^const>\<open>None\<close> here.\<close>

definition build_line_to_symbol_map :: "(string \<Rightarrow> ast option) \<Rightarrow> string \<Rightarrow> symbol_map option" where
  "build_line_to_symbol_map parse source = map_option symbol_map_of_tree (parse source)"

section \<open>The base version of a file\<close>

definition add_old_class :: "ast \<Rightarrow> (string \<times> string set) list \<Rightarrow> (string \<times> string set) list" where
  "add_old_class n d =
     (case class_of n of
        Some (name, _, _) \<Rightarrow>
          AList.update name (set (List.map_filter function_name (iter_child_nodes n))) d
      | None \<Rightarrow> d)"

definition old_symbols_of_tree :: "ast \<Rightarrow> string set \<times> (string \<times> string set) list" where
  "old_symbols_of_tree tree =
     (set (map (\<lambda>e. snd (snd e)) (concat (map node_symbols (iter_child_nodes tree)))),
      fold add_old_class (iter_child_nodes tree) [])"

datatype fetched = NewFile | Failed | Source string

definition fetch_old_remote :: "change_env \<Rightarrow> string \<Rightarrow> string \<Rightarrow> pr_info \<Rightarrow> fetched res" where
  "fetch_old_remote env relative_path base_branch info =
     (case contents_api env (pi_repo info) relative_path base_branch (token info) of
        HttpError code \<Rightarrow> Inr (if code = 404 then NewFile else Failed)
      | FetchFailed \<Rightarrow> Inr Failed
      | FetchBroken \<Rightarrow> Inl HTTPException
      | ContentMissing \<Rightarrow> Inl KeyError
      | BadBase64 \<Rightarrow> Inl ValueError
      | Contents encoding content \<Rightarrow>
          Inr (if encoding = Some ''base64'' then Source content else Failed))"

definition fetch_old_local :: "change_env \<Rightarrow> string \<Rightarrow> string \<Rightarrow> fetched res" where
  "fetch_old_local env relative_path base_branch =
     (case git_show env base_branch relative_path of
        RunFailed \<Rightarrow> Inr Failed
      | Undecodable \<Rightarrow> Inl UnicodeDecodeError
      | Completed returncode stdout stderr \<Rightarrow> Inr (
          if returncode \<noteq> 0 then
            (let stderr_lower = py_lower stderr
             in if py_in ''does not exist'' stderr_lower \<or> py_in ''not exist'' stderr_lower
                   \<or> py_in ''exists on disk, but not in'' stderr_lower
                then NewFile else Failed)
          else Source stdout))"

definition get_old_file_symbols ::
    "change_env \<Rightarrow> path \<Rightarrow> string \<Rightarrow> path \<Rightarrow> pr_info option \<Rightarrow>
     (string set \<times> (string \<times> string set) list) option res" where
  "get_old_file_symbols env file_path base_branch repo_root github_pr_info =
     (let relative_path = rel_or_abs_str file_path repo_root
      in bind_res (case github_pr_info of
                     Some info \<Rightarrow> fetch_old_remote env relative_path base_branch info
                   | None \<Rightarrow> fetch_old_local env relative_path base_branch) (\<lambda>old.
           Inr (case old of
                  NewFile \<Rightarrow> Some ({}, [])
                | Failed \<Rightarrow> None
                | Source old_source \<Rightarrow> map_option old_symbols_of_tree (ast_parse (files env) old_source))))"

section \<open>Diffs\<close>

definition get_diff_content ::
    "change_env \<Rightarrow> path \<Rightarrow> string \<Rightarrow> path \<Rightarrow> pr_info option \<Rightarrow> (string \<times> string) list option \<Rightarrow>
     string option res" where
  "get_diff_content env file_path base_branch repo_root github_pr_info pr_diffs_cache =
     (let relative_path = rel_or_abs_str file_path repo_root
      in case Option.bind pr_diffs_cache (\<lambda>d. map_of d relative_path) of
           Some cached \<Rightarrow> Inr (Some cached)
         | None \<Rightarrow>
             (case github_pr_info of
                Some info \<Rightarrow>
                  bind_res (pr_file_diff env (pi_repo info) (pr_number info) relative_path (token info)) (\<lambda>d.
                    Inr (if d \<noteq> [] then Some d else None))
              | None \<Rightarrow>
                  (case git_diff env 0 base_branch file_path of
                     Completed returncode stdout _ \<Rightarrow>
                       Inr (if returncode = 0 \<and> stdout \<noteq> [] then Some stdout else None)
                   | Undecodable \<Rightarrow> Inl UnicodeDecodeError
                   | RunFailed \<Rightarrow> Inr None)))"

definition get_modified_function_names ::
    "change_env \<Rightarrow> path \<Rightarrow> string \<Rightarrow> path \<Rightarrow> pr_info option \<Rightarrow> (string \<times> string) list option \<Rightarrow>
     bool \<Rightarrow> string set option res" where
  "get_modified_function_names env file_path base_branch repo_root github_pr_info pr_diffs_cache is_checkout =
     (let relative_path = rel_or_abs_str file_path repo_root;
          local_diff = (case git_diff env 3 base_branch file_path of
                          Completed returncode stdout _ \<Rightarrow>
                            Inr (if returncode = 0 then Some (parse_diff_for_functions stdout) else None)
                        | Undecodable \<Rightarrow> Inl UnicodeDecodeError
                        | RunFailed \<Rightarrow> Inr None)
      in case Option.bind pr_diffs_cache (\<lambda>d. map_of d relative_path) of
           Some cached \<Rightarrow> Inr (Some (parse_diff_for_functions cached))
         | None \<Rightarrow>
             (case github_pr_info of
                Some info \<Rightarrow>
                  bind_res (pr_file_diff env (pi_repo info) (pr_number info) relative_path (token info)) (\<lambda>d.
                    if d \<noteq> [] then Inr (Some (parse_diff_for_functions d))
                    else if \<not> is_checkout then Inr None else local_diff)
              | None \<Rightarrow> local_diff))"

definition fetch_file_at_ref ::
    "change_env \<Rightarrow> path \<Rightarrow> path \<Rightarrow> string \<Rightarrow> string \<Rightarrow> string option \<Rightarrow> string option res" where
  "fetch_file_at_ref env file_path repo_root repo ref tok =
     (case contents_api env repo (rel_or_abs_str file_path repo_root) ref tok of
        Contents encoding content \<Rightarrow> Inr (if encoding = Some ''base64'' then Some content else None)
      | FetchBroken \<Rightarrow> Inl HTTPException
      | ContentMissing \<Rightarrow> Inl KeyError
      | BadBase64 \<Rightarrow> Inl ValueError
      | _ \<Rightarrow> Inr None)"

end
