(* ===== verification/ModifiedSymbols.thy ===== *)
theory ModifiedSymbols
  imports SymbolMap
begin

text \<open>
  \<open>_extract_modified_symbols\<close>: which tops-level symbols a diff modified and which it added. The
  function is split at the comments of its source: the early exits, the attribution of
  changed lines, the members of modified classes, the separation of new symbols. Line
  numbers are visited in ascending order; the results below do not depend on the order.
\<close>

section \<open>Classification\<close>

record symbol_classification =
  modified_symbols :: "string set"
  new_symbols :: "string set"
  modified_members :: "(string \<times> string set) list"
  has_unattributed_changes :: bool

definition no_symbols :: symbol_classification where
  "no_symbols = \<lparr>modified_symbols = {}, new_symbols = {}, modified_members = [],
     has_unattributed_changes = False\<rparr>"

section \<open>Attribution of changed lines\<close>

fun covering_symbol :: "(nat \<times> nat \<times> string) list \<Rightarrow> nat \<Rightarrow> string option" where
  "covering_symbol [] line_number = None"
| "covering_symbol ((start_line, stop_line, symbol_name) # rest) line_number =
     (if start_line \<le> line_number \<and> line_number \<le> stop_line then Some symbol_name
      else covering_symbol rest line_number)"

definition safe_prefixes :: "string list" where
  "safe_prefixes =
     [''#'', ''@'', ''import '', ''from '', [CHR 0x22, CHR 0x22, CHR 0x22], [CHR 0x27, CHR 0x27, CHR 0x27],
      [CHR 0x22], [CHR 0x27], ''if TYPE_CHECKING:'', ''if typing.TYPE_CHECKING:'', '')'', ''__all__'']"

definition import_continuation_re :: regex where
  "import_continuation_re = RSeqs
     [RBegin, RChar (\<lambda>c. is_ascii_alpha c \<or> c = CHR ''_''), RStar RWord,
      ROpt (RSeqs [RPlus RSpace, RLit ''as'', RPlus RSpace, RPlus RWord]),
      RStar RSpace, RChar (\<lambda>c. c = CHR '',''), RStar RSpace, REnd]"

definition safe_line :: "string \<Rightarrow> bool" where
  "safe_line line_content =
     (line_content = [] \<or> startswith_any line_content safe_prefixes
      \<or> re_match import_continuation_re line_content \<noteq> None)"

text \<open>
  The loop over the changed lines: \<^const>\<open>None\<close> is the early return for executable code
  outside every symbol. Line numbers of a diff start at 1.
\<close>

fun attribute_lines ::
    "(nat \<times> nat \<times> string) list \<Rightarrow> string list \<Rightarrow> nat list \<Rightarrow> string list \<Rightarrow> bool \<Rightarrow>
     (string list \<times> bool) option" where
  "attribute_lines tops source_lines [] syms has_unattributed = Some (syms, has_unattributed)"
| "attribute_lines tops source_lines (n # ns) syms has_unattributed =
     (case covering_symbol tops n of
        Some s \<Rightarrow> attribute_lines tops source_lines ns (List.insert s syms) has_unattributed
      | None \<Rightarrow>
          if n \<le> length source_lines \<and> safe_line (py_strip (source_lines ! (n - 1)))
          then attribute_lines tops source_lines ns syms True
          else None)"

section \<open>Members of modified classes\<close>

fun find_range :: "(nat \<times> nat \<times> string) list \<Rightarrow> string \<Rightarrow> (nat \<times> nat) option" where
  "find_range [] name = None"
| "find_range ((s, e, n) # rest) name = (if n = name then Some (s, e) else find_range rest name)"

fun covering_member :: "(string \<times> nat \<times> nat) list \<Rightarrow> nat \<Rightarrow> string option" where
  "covering_member [] line_number = None"
| "covering_member ((name, s, e) # rest) line_number =
     (if s \<le> line_number \<and> line_number \<le> e then Some name else covering_member rest line_number)"

text \<open>The members the changed lines of a class fall into; \<^const>\<open>None\<close> when some line is in no member.\<close>

fun map_members :: "(string \<times> nat \<times> nat) list \<Rightarrow> nat \<times> nat \<Rightarrow> nat list \<Rightarrow> string set \<Rightarrow> string set option" where
  "map_members ms rng [] acc = Some acc"
| "map_members ms rng (n # ns) acc =
     (if \<not> (fst rng \<le> n \<and> n \<le> snd rng) then map_members ms rng ns acc
      else case covering_member ms n of
             Some m \<Rightarrow> map_members ms rng ns (insert m acc)
           | None \<Rightarrow> None)"

definition class_modified_members :: "symbol_map \<Rightarrow> nat list \<Rightarrow> string \<Rightarrow> string set option" where
  "class_modified_members smap changed_lines symbol_name =
     (case map_of (class_members smap) symbol_name of
        None \<Rightarrow> None
      | Some info \<Rightarrow>
          if members info = [] then None
          else case find_range (top_level smap) symbol_name of
                 None \<Rightarrow> None
               | Some rng \<Rightarrow>
                   (case map_members (members info) rng changed_lines {} of
                      None \<Rightarrow> None
                    | Some ms \<Rightarrow>
                        if ms = {} then None
                        else Some (expand_modified_members_transitively ms (internal_calls info))))"

definition all_modified_members :: "symbol_map \<Rightarrow> nat list \<Rightarrow> string list \<Rightarrow> (string \<times> string set) list" where
  "all_modified_members smap changed_lines syms =
     List.map_filter (\<lambda>s. map_option (Pair s) (class_modified_members smap changed_lines s)) syms"

section \<open>New symbols\<close>

definition candidates_new :: "(nat \<times> nat \<times> string) list \<Rightarrow> string set \<Rightarrow> nat set \<Rightarrow> string set" where
  "candidates_new tops syms changed_lines =
     set (map (\<lambda>e. snd (snd e))
       (filter (\<lambda>(start_line, stop_line, name).
          name \<in> syms \<and> list_all (\<lambda>n. n \<in> changed_lines) [start_line..<stop_line + 1]) tops))"

text \<open>Members the base version of a class did not have are dropped, and a class left without any.\<close>

definition drop_new_members ::
    "(string \<times> string set) list \<Rightarrow> (string \<times> string set) list \<Rightarrow> (string \<times> string set) list" where
  "drop_new_members old_class_members mm =
     List.map_filter (\<lambda>(cname, ms).
        case map_of old_class_members cname of
          None \<Rightarrow> Some (cname, ms)
        | Some old \<Rightarrow> if ms \<inter> old \<noteq> {} then Some (cname, ms \<inter> old) else None) mm"

definition separate_new ::
    "(string set \<times> (string \<times> string set) list) option \<Rightarrow> bool \<Rightarrow> string set \<Rightarrow> string set \<Rightarrow>
     (string \<times> string set) list \<Rightarrow> bool \<Rightarrow> symbol_classification" where
  "separate_new old has_deletions candidate_new syms mm unattributed =
     (let all_modified = \<lparr>modified_symbols = syms, new_symbols = {}, modified_members = mm,
            has_unattributed_changes = unattributed\<rparr>
      in if candidate_new = {} then all_modified
         else if \<not> has_deletions then
           all_modified\<lparr>modified_symbols := syms - candidate_new, new_symbols := candidate_new\<rparr>
         else case old of
                None \<Rightarrow> all_modified
              | Some (old_symbols, old_class_members) \<Rightarrow>
                  (let truly_new = candidate_new - old_symbols
                   in \<lparr>modified_symbols = syms - truly_new, new_symbols = truly_new,
                       modified_members = drop_new_members old_class_members mm,
                       has_unattributed_changes = unattributed\<rparr>))"

section \<open>The whole function\<close>

definition head_source ::
    "change_env \<Rightarrow> path \<Rightarrow> path \<Rightarrow> pr_info option \<Rightarrow> string option \<Rightarrow> bool \<Rightarrow> string option res" where
  "head_source env file_path repo_root github_pr_info pr_head_ref is_checkout =
     (case (pr_head_ref, github_pr_info) of
        (Some ref, Some info) \<Rightarrow>
          bind_res (fetch_file_at_ref env file_path repo_root (pi_repo info) ref (token info)) (\<lambda>fetched.
            Inr (case fetched of
                   Some source \<Rightarrow> Some source
                 | None \<Rightarrow> if is_checkout then read_text (files env) file_path else None))
      | _ \<Rightarrow> Inr (read_text (files env) file_path))"

text \<open>The base version is asked for only when something was deleted and a symbol may be new.\<close>

definition classify_changes ::
    "(string set \<times> (string \<times> string set) list) option res \<Rightarrow> string option \<Rightarrow> bool \<Rightarrow> nat set \<Rightarrow>
     string \<Rightarrow> symbol_map \<Rightarrow> symbol_classification option res" where
  "classify_changes old file_status has_deletions changed_lines source smap =
     (let lines = sorted_list_of_set changed_lines
      in case attribute_lines (top_level smap) (splitlines source) lines [] False of
           None \<Rightarrow> Inr None
         | Some (syms, unattributed) \<Rightarrow>
             (let mm = all_modified_members smap lines syms;
                  candidate_new = candidates_new (top_level smap) (set syms) changed_lines
              in if file_status = Some ''added''
                 then Inr (Some \<lparr>modified_symbols = {}, new_symbols = set syms, modified_members = mm,
                                 has_unattributed_changes = unattributed\<rparr>)
                 else bind_res (if candidate_new = {} \<or> \<not> has_deletions then Inr None else old) (\<lambda>old_result.
                        Inr (Some (separate_new old_result has_deletions candidate_new (set syms) mm unattributed)))))"

definition extract_modified_symbols ::
    "change_env \<Rightarrow> path \<Rightarrow> string \<Rightarrow> path \<Rightarrow> pr_info option \<Rightarrow> (string \<times> string) list option \<Rightarrow>
     string option \<Rightarrow> string option \<Rightarrow> bool \<Rightarrow> symbol_classification option res" where
  "extract_modified_symbols env file_path base_branch repo_root github_pr_info pr_diffs_cache
       file_status pr_head_ref is_checkout =
     bind_res (get_diff_content env file_path base_branch repo_root github_pr_info pr_diffs_cache) (\<lambda>content.
      case content of
        None \<Rightarrow> Inr (if file_status = Some ''renamed'' then Some no_symbols else None)
      | Some diff_content \<Rightarrow>
          (let has_deletions = diff_has_deletions diff_content;
               changed_lines = parse_diff_for_changed_lines diff_content
           in if changed_lines = {} then
                Inr (Some (if has_deletions \<and> file_status \<noteq> Some ''renamed''
                           then no_symbols\<lparr>modified_symbols := extract_deleted_symbols_from_diff diff_content\<rparr>
                           else no_symbols))
              else
                bind_res (head_source env file_path repo_root github_pr_info pr_head_ref is_checkout) (\<lambda>head.
                case head of
                  None \<Rightarrow> Inr None
                | Some source \<Rightarrow>
                    (case build_line_to_symbol_map (ast_parse (files env)) source of
                       None \<Rightarrow> Inr None
                     | Some smap \<Rightarrow>
                         classify_changes
                           (get_old_file_symbols env file_path base_branch repo_root github_pr_info)
                           file_status has_deletions changed_lines source smap))))"

section \<open>Attribution\<close>

lemma covering_symbol_Some:
  "covering_symbol tops n = Some s \<Longrightarrow> \<exists>a b. (a, b, s) \<in> set tops \<and> a \<le> n \<and> n \<le> b"
  by (induction tops n rule: covering_symbol.induct) (auto split: if_splits)

lemma covering_symbol_None:
  "covering_symbol tops n = None \<longleftrightarrow> (\<forall>(a, b, s) \<in> set tops. \<not> (a \<le> n \<and> n \<le> b))"
  by (induction tops n rule: covering_symbol.induct) auto

text \<open>A line that the attribution accepts: inside a symbol, or safe text outside all of them.\<close>

definition attributable :: "(nat \<times> nat \<times> string) list \<Rightarrow> string list \<Rightarrow> nat \<Rightarrow> bool" where
  "attributable tops ls n \<longleftrightarrow> covering_symbol tops n \<noteq> None \<or>
     (n \<le> length ls \<and> safe_line (py_strip (ls ! (n - 1))))"

lemma attribute_lines_eq:
  "attribute_lines tops ls ns syms u =
     (if list_all (attributable tops ls) ns
      then Some (fold List.insert (List.map_filter (covering_symbol tops) ns) syms,
                 u \<or> list_ex (\<lambda>n. covering_symbol tops n = None) ns)
      else None)"
  by (induction tops ls ns syms u rule: attribute_lines.induct)
     (auto simp: attributable_def map_filter_simps split: option.splits)

lemma set_fold_insert: "set (fold List.insert xs ys) = set xs \<union> set ys"
  by (induction xs arbitrary: ys) auto

lemma attribute_lines_Some:
  assumes "attribute_lines tops ls ns [] False = Some (syms, u)"
  shows "set syms = {s. \<exists>n \<in> set ns. covering_symbol tops n = Some s}"
    and "\<And>n. n \<in> set ns \<Longrightarrow> attributable tops ls n"
    and "u \<longleftrightarrow> (\<exists>n \<in> set ns. covering_symbol tops n = None)"
  using assms
  by (auto simp: attribute_lines_eq set_fold_insert in_set_map_filter list_all_iff list_ex_iff
      split: if_splits)

lemma attribute_lines_None:
  "attribute_lines tops ls ns syms u = None \<longleftrightarrow> (\<exists>n \<in> set ns. \<not> attributable tops ls n)"
  by (auto simp: attribute_lines_eq list_all_iff)

section \<open>What a classification means\<close>

definition changed_symbols :: "symbol_map \<Rightarrow> nat set \<Rightarrow> string set" where
  "changed_symbols smap L = {s. \<exists>n \<in> L. covering_symbol (top_level smap) n = Some s}"

lemma candidates_new_iff:
  "s \<in> candidates_new tops syms L \<longleftrightarrow>
     s \<in> syms \<and> (\<exists>a b. (a, b, s) \<in> set tops \<and> (\<forall>n. a \<le> n \<and> n \<le> b \<longrightarrow> n \<in> L))"
  by (force simp: candidates_new_def list_all_iff less_Suc_eq_le)

lemma candidates_sub: "candidates_new tops syms L \<subseteq> syms"
  by (auto simp: candidates_new_iff)

lemma separate_new_partition:
  assumes "cand \<subseteq> syms"
  shows "modified_symbols (separate_new old dels cand syms mm u) \<inter> new_symbols (separate_new old dels cand syms mm u) = {}"
    and "modified_symbols (separate_new old dels cand syms mm u) \<union> new_symbols (separate_new old dels cand syms mm u) = syms"
    and "new_symbols (separate_new old dels cand syms mm u) \<subseteq> cand"
  using assms by (auto simp: separate_new_def Let_def split: option.splits)

lemma separate_new_old:
  assumes "s \<in> new_symbols (separate_new old dels cand syms mm u)" and dels
  shows "\<exists>olds oldm. old = Some (olds, oldm) \<and> s \<notin> olds"
  using assms by (auto simp: separate_new_def Let_def split: if_splits option.splits)

lemma classify_changes_cases:
  assumes "classify_changes old st dels L source smap = Inr (Some c)" and "finite L"
  obtains u mm base where
    "c = (if st = Some ''added''
          then \<lparr>modified_symbols = {}, new_symbols = changed_symbols smap L, modified_members = mm,
                has_unattributed_changes = u\<rparr>
          else separate_new base dels (candidates_new (top_level smap) (changed_symbols smap L) L)
                 (changed_symbols smap L) mm u)"
    "base \<noteq> None \<Longrightarrow> old = Inr base"
    "u \<longleftrightarrow> (\<exists>n \<in> L. covering_symbol (top_level smap) n = None)"
    "\<And>n. n \<in> L \<Longrightarrow> attributable (top_level smap) (splitlines source) n"
proof -
  from assms(1) obtain syms u where
    a: "attribute_lines (top_level smap) (splitlines source) (sorted_list_of_set L) [] False = Some (syms, u)"
    by (auto simp: classify_changes_def Let_def split: option.splits)
  define mm where "mm = all_modified_members smap (sorted_list_of_set L) syms"
  define cand where "cand = candidates_new (top_level smap) (set syms) L"
  have whole: "classify_changes old st dels L source smap =
      (if st = Some ''added''
       then Inr (Some \<lparr>modified_symbols = {}, new_symbols = set syms, modified_members = mm,
                       has_unattributed_changes = u\<rparr>)
       else bind_res (if cand = {} \<or> \<not> dels then Inr None else old) (\<lambda>base.
              Inr (Some (separate_new base dels cand (set syms) mm u))))"
    unfolding mm_def cand_def by (simp add: classify_changes_def a Let_def)
  obtain base where c: "c = (if st = Some ''added''
      then \<lparr>modified_symbols = {}, new_symbols = set syms, modified_members = mm, has_unattributed_changes = u\<rparr>
      else separate_new base dels cand (set syms) mm u)" and base: "base \<noteq> None \<longrightarrow> old = Inr base"
  proof (cases "st = Some ''added''")
    case True
    then show ?thesis using that[of None] assms(1) whole by simp
  next
    case False
    then obtain b where "(if cand = {} \<or> \<not> dels then Inr None else old) = Inr b"
      and "c = separate_new b dels cand (set syms) mm u"
      using assms(1) whole by (auto simp: bind_res_Inr_iff)
    then show ?thesis using that[of b] False by (auto split: if_splits)
  qed
  note A = attribute_lines_Some[OF a]
  have "set syms = changed_symbols smap L"
    using A(1) assms(2) by (simp add: changed_symbols_def)
  then show ?thesis using that[of mm u base] c base A(2,3) assms(2) unfolding cand_def by simp
qed

text \<open>The definitions whose lines include a given one, whatever their order.\<close>

definition covers :: "(nat \<times> nat \<times> string) list \<Rightarrow> nat \<Rightarrow> string \<Rightarrow> bool" where
  "covers tops n s \<longleftrightarrow> (\<exists>start stop. (start, stop, s) \<in> set tops \<and> start \<le> n \<and> n \<le> stop)"

lemma changed_symbols_covers:
  "s \<in> changed_symbols smap L \<Longrightarrow> \<exists>n \<in> L. covers (top_level smap) n s"
  by (auto simp: changed_symbols_def covers_def dest!: covering_symbol_Some)

lemma covered_line_attributed:
  assumes "n \<in> L" and "covers (top_level smap) n s"
  shows "\<exists>s' \<in> changed_symbols smap L. covers (top_level smap) n s'"
proof -
  obtain s' where s': "covering_symbol (top_level smap) n = Some s'"
    using assms(2) covering_symbol_None[of "top_level smap" n]
    by (cases "covering_symbol (top_level smap) n") (auto simp: covers_def)
  then show ?thesis
    using covering_symbol_Some[OF s'] assms(1) by (auto simp: changed_symbols_def covers_def)
qed

lemma changed_symbols_exact:
  assumes "\<And>n s s'. n \<in> L \<Longrightarrow> covers (top_level smap) n s \<Longrightarrow> covers (top_level smap) n s' \<Longrightarrow> s = s'"
  shows "changed_symbols smap L = {s. \<exists>n \<in> L. covers (top_level smap) n s}"
  using changed_symbols_covers covered_line_attributed assms by blast

lemma finite_added_lines: "finite (added_lines n ls)"
  by (induction n ls rule: added_lines.induct) auto

lemma changed_lines_positive_finite:
  "finite (parse_diff_for_changed_lines d)" "0 \<notin> parse_diff_for_changed_lines d"
proof -
  have "finite C \<Longrightarrow> finite (fst (changed_line_step l (C, n)))" for l C n
    by (auto simp: changed_line_step.simps split: option.splits)
  then have "finite (fst st) \<Longrightarrow> finite (fst (fold changed_line_step ls st))" for ls st
    by (induction ls arbitrary: st) (simp, metis fold_simps(2) prod.collapse)
  then show "finite (parse_diff_for_changed_lines d)" by (simp add: parse_diff_for_changed_lines_def)
  have "0 \<notin> C \<Longrightarrow> 0 \<notin> fst (changed_line_step l (C, n))" for l C n
    by (auto simp: changed_line_step.simps split: option.splits)
  then have "0 \<notin> fst st \<Longrightarrow> 0 \<notin> fst (fold changed_line_step ls st)" for ls st
    by (induction ls arbitrary: st) (simp, metis fold_simps(2) prod.collapse)
  then show "0 \<notin> parse_diff_for_changed_lines d" by (simp add: parse_diff_for_changed_lines_def)
qed

end
