(* ===== verification/TestLookup.thy ===== *)
theory TestLookup
  imports ModifiedSymbols
begin

text \<open>
  Finding a test in its file: the parts of a pytest test name, the function node the name
  denotes, and what that function accesses and calls.
\<close>

section \<open>Test names\<close>

definition parse_test_name :: "string \<Rightarrow> string option \<times> string" where
  "parse_test_name test_name =
     (let parts = py_split ''::'' test_name;
          (class_name, method_name) =
            (if py_in ''::'' test_name then (Some (parts ! 0), parts ! 1) else (None, test_name))
      in (class_name,
          if py_in ''['' method_name then hd (py_split ''['' method_name) else method_name))"

section \<open>The node of a test\<close>

text \<open>
  Breadth-first traversal with the parent of each node, which the code looks up in a
  dictionary of all parent and child pairs.
\<close>

function walk_parents :: "(ast option \<times> ast) list \<Rightarrow> (ast option \<times> ast) list" where
  "walk_parents [] = []"
| "walk_parents ((par, n) # todo) =
     (par, n) # walk_parents (todo @ map (Pair (Some n)) (iter_child_nodes n))"
  by pat_completeness auto
termination
proof (relation "measure (\<lambda>q. tree_size (map snd q))", goal_cases)
  case (2 par n todo)
  then show ?case using children_size[of n] by (simp add: comp_def)
qed simp

lemma walk_parents_nodes: "map snd (walk_parents q) = walk_queue (map snd q)"
  by (induction q rule: walk_parents.induct) (simp_all add: comp_def)

fun class_named :: "string \<Rightarrow> ast option \<Rightarrow> bool" where
  "class_named cname (Some (ClassDef _ name _ _ _ _)) = (name = cname)"
| "class_named cname _ = False"

definition find_test_function_node :: "ast \<Rightarrow> string \<Rightarrow> string option \<Rightarrow> ast option" where
  "find_test_function_node tree actual_test_name class_name_prefix =
     map_option snd (find (\<lambda>(par, n).
        function_name n = Some actual_test_name \<and>
        (case class_name_prefix of None \<Rightarrow> True | Some c \<Rightarrow> class_named c par))
      (walk_parents [(None, tree)]))"

section \<open>Accesses and calls of a test\<close>

definition test_node :: "file_env \<Rightarrow> path \<Rightarrow> string \<Rightarrow> ast option" where
  "test_node env test_file test_name =
     (case parse_file env test_file of
        None \<Rightarrow> None
      | Some tree \<Rightarrow>
          (case parse_test_name test_name of
             (class_name_prefix, actual_test_name) \<Rightarrow>
               find_test_function_node tree actual_test_name class_name_prefix))"

definition upper_first :: "string \<Rightarrow> bool" where
  "upper_first s = (case s of [] \<Rightarrow> False | c # _ \<Rightarrow> is_upper c)"

definition collect_test_attribute_accesses :: "file_env \<Rightarrow> path \<Rightarrow> string \<Rightarrow> string set option" where
  "collect_test_attribute_accesses env test_file test_name =
     (case test_node env test_file test_name of
        None \<Rightarrow> None
      | Some target_node \<Rightarrow>
          if has_dynamic_access target_node then None
          else Some (if \<exists>c \<in> function_call_visit target_node. upper_first c
                     then insert ''__init__'' (accessed_attrs target_node)
                     else accessed_attrs target_node))"

definition collect_test_function_calls :: "file_env \<Rightarrow> path \<Rightarrow> string \<Rightarrow> string set option" where
  "collect_test_function_calls env test_file test_name =
     map_option function_call_visit (test_node env test_file test_name)"

section \<open>Found nodes\<close>

definition member_of_class :: "ast \<Rightarrow> string \<Rightarrow> ast \<Rightarrow> bool" where
  "member_of_class tree c n \<longleftrightarrow>
     (\<exists>m. descends tree m \<and> class_named c (Some m) \<and> n \<in> set (iter_child_nodes m))"

lemma walk_parents_sound:
  "(par, n) \<in> set (walk_parents q) \<Longrightarrow>
     (par, n) \<in> set q \<or>
     (\<exists>m. par = Some m \<and> n \<in> set (iter_child_nodes m) \<and> (\<exists>r \<in> set (map snd q). descends r m))"
proof (induction q rule: walk_parents.induct)
  case (2 par' n' todo)
  show ?case
  proof (cases "(par, n) = (par', n')")
    case False
    with "2.prems" have "(par, n) \<in> set (walk_parents (todo @ map (Pair (Some n')) (iter_child_nodes n')))"
      by auto
    from "2.IH"[OF this] show ?thesis
      by (auto intro: descends.intros)
  qed simp
qed simp

lemma walk_parents_complete:
  "(\<exists>r \<in> set (map snd q). descends r m) \<Longrightarrow> n \<in> set (iter_child_nodes m) \<Longrightarrow>
     (Some m, n) \<in> set (walk_parents q)"
proof (induction q rule: walk_parents.induct)
  case (2 par n' todo)
  let ?q = "todo @ map (Pair (Some n')) (iter_child_nodes n')"
  show ?case
  proof (cases "m = n'")
    case True
    have all: "(p, x) \<in> set q' \<Longrightarrow> (p, x) \<in> set (walk_parents q')" for p x q'
      by (induction q' rule: walk_parents.induct) auto
    show ?thesis using 2(3) True all[of "Some n'" n ?q] by auto
  next
    case False
    with 2(2) have "\<exists>r \<in> set (map snd ?q). descends r m"
      using descends_unfold[of n' m] by auto
    then show ?thesis using 2(1)[OF _ 2(3)] by simp
  qed
qed simp

lemma find_test_node_class:
  "find_test_function_node tree f (Some c) \<noteq> None \<longleftrightarrow>
     (\<exists>n. member_of_class tree c n \<and> function_name n = Some f)"
proof -
  let ?P = "\<lambda>(par, n). function_name n = Some f \<and> class_named c par"
  have "find_test_function_node tree f (Some c) \<noteq> None \<longleftrightarrow>
      (\<exists>e \<in> set (walk_parents [(None, tree)]). ?P e)"
    by (auto simp: find_test_function_node_def find_None_iff)
  also have "\<dots> \<longleftrightarrow> (\<exists>n. member_of_class tree c n \<and> function_name n = Some f)"
    using walk_parents_sound[of _ _ "[(None, tree)]"] walk_parents_complete[of "[(None, tree)]"]
    unfolding member_of_class_def by fastforce
  finally show ?thesis .
qed

lemma find_in: "find P xs = Some x \<Longrightarrow> x \<in> set xs \<and> P x"
  by (induction xs) (auto split: if_splits)

lemma find_test_node_sound:
  assumes "find_test_function_node tree f c = Some n"
  shows "descends tree n \<and> function_name n = Some f \<and>
     (case c of None \<Rightarrow> True | Some cn \<Rightarrow> member_of_class tree cn n)"
proof -
  let ?P = "\<lambda>(par, n). function_name n = Some f \<and> (case c of None \<Rightarrow> True | Some cn \<Rightarrow> class_named cn par)"
  from assms obtain e where e: "find ?P (walk_parents [(None, tree)]) = Some e" "snd e = n"
    unfolding find_test_function_node_def by blast
  obtain par where m: "(par, n) \<in> set (walk_parents [(None, tree)])"
    and p: "function_name n = Some f" "case c of None \<Rightarrow> True | Some cn \<Rightarrow> class_named cn par"
    using find_in[OF e(1)] e(2) by (cases e) auto
  have "n \<in> set (walk tree)"
  proof -
    have "snd (par, n) \<in> set (map snd (walk_parents [(None, tree)]))" using m unfolding set_map by (rule imageI)
    then show ?thesis unfolding walk_parents_nodes by (simp add: walk_def)
  qed
  then have "descends tree n" by (simp add: set_walk)
  moreover have "member_of_class tree cn n" if "class_named cn par" for cn
    using walk_parents_sound[OF m] that by (auto simp: member_of_class_def)
  ultimately show ?thesis using p by (auto split: option.splits)
qed

end
