(* ===== verification/ImpactCheck.thy ===== *)
theory ImpactCheck
  imports TestLookup
begin

text \<open>
  The decision of \<open>pytest_marker_analyzer.py\<close>: does a changed file affect a test? The
  f-strings that describe a match are the constructors of \<open>dep_msg\<close>, with the inserted texts
  as arguments. A path outside the repository makes \<open>relative_to\<close> raise \<open>ValueError\<close>, which
  nothing here catches.
\<close>

section \<open>Modified items of a conftest file\<close>

fun fixture_def_name :: "ast \<Rightarrow> string option" where
  "fixture_def_name (FunctionDef _ name _ _ decs _) =
     (if list_ex is_fixture_decorator_standalone decs then Some name else None)"
| "fixture_def_name _ = None"

definition file_fixtures :: "file_env \<Rightarrow> path \<Rightarrow> string set" where
  "file_fixtures env f =
     (case parse_file env f of
        None \<Rightarrow> {}
      | Some tree \<Rightarrow> set (List.map_filter fixture_def_name (walk tree)))"

text \<open>
  \<^const>\<open>None\<close> is the pair of two \<open>None\<close>s: a structural change. The handler around the queries
  answers with the sets that are still empty; other exceptions leave the function.
\<close>

definition handled :: "py_error \<Rightarrow> bool" where
  "handled e = (e \<in> {SyntaxError, UnicodeDecodeError, OSError, SubprocessError})"

definition conftest_items_body ::
    "change_env \<Rightarrow> path \<Rightarrow> string \<Rightarrow> path \<Rightarrow> pr_info option \<Rightarrow> (string \<times> string) list option \<Rightarrow>
     string option \<Rightarrow> bool \<Rightarrow> string option \<Rightarrow> (string set \<times> string set) option res" where
  "conftest_items_body env changed_file base_branch repo_root github_pr_info
       pr_diffs_cache file_status is_checkout pr_head_ref =
     (let all_fixtures = file_fixtures (files env) changed_file
      in bind_res (get_modified_function_names env changed_file base_branch repo_root github_pr_info
             pr_diffs_cache is_checkout) (\<lambda>modified_function_names.
         case modified_function_names of
           None \<Rightarrow>
             Inr (Some (if path_exists (files env) changed_file then (all_fixtures, {}) else ({}, {})))
         | Some names \<Rightarrow>
             bind_res (extract_modified_symbols env changed_file base_branch repo_root github_pr_info
                 pr_diffs_cache file_status pr_head_ref is_checkout) (\<lambda>classification.
               case classification of
                 None \<Rightarrow> Inr None
               | Some c \<Rightarrow>
                   if ''pytest_plugins'' \<in> modified_symbols c \<union> new_symbols c then Inr None
                   else
                     bind_res (if names = {} then Inr None
                         else get_old_file_symbols env changed_file base_branch repo_root github_pr_info) (\<lambda>old_result.
                       let names' = (case old_result of
                                       None \<Rightarrow> names
                                     | Some (old_symbols, _) \<Rightarrow> names \<inter> old_symbols)
                       in Inr (Some (names' \<inter> all_fixtures, names' - all_fixtures))))))"

definition extract_modified_items_from_conftest ::
    "change_env \<Rightarrow> path \<Rightarrow> string \<Rightarrow> path \<Rightarrow> pr_info option \<Rightarrow> (string \<times> string) list option \<Rightarrow>
     string option \<Rightarrow> bool \<Rightarrow> string option \<Rightarrow> (string set \<times> string set) option res" where
  "extract_modified_items_from_conftest env changed_file base_branch repo_root github_pr_info
       pr_diffs_cache file_status is_checkout pr_head_ref =
     (if file_status = Some ''added'' \<or> file_status = Some ''renamed'' then Inr (Some ({}, {}))
      else case conftest_items_body env changed_file base_branch repo_root github_pr_info
                  pr_diffs_cache file_status is_checkout pr_head_ref of
             Inl e \<Rightarrow> if handled e then Inr (Some ({}, {})) else Inl e
           | Inr r \<Rightarrow> Inr r)"

section \<open>Messages and the state of the analysis\<close>

datatype dep_msg =
    TestFileModified string
  | TestModified string "string list"
  | PluginsChanged string
  | AffectedFixtures string "string list"
  | FileLevel string
  | ImportedSymbols string "string list"
  | ViaFixture string string
  | OpaqueImport string string
  | ViaFixtureCalls string string "string list"
  | ViaIntermediate string string string "string list"

type_synonym symbols_cache = "(path \<times> symbol_classification option) list"

record impact_ctx =
  ic_env :: change_env
  ic_repo_root :: path
  ic_fixtures :: "(string \<times> fixture) list"
  ic_base_branch :: string
  ic_pr_info :: "pr_info option"
  ic_cache :: symbols_cache
  ic_conftest_symbols :: "(path \<times> (path \<times> string set) list) list"
  ic_conftest_opaque :: "(path \<times> path set) list"
  ic_diffs_cache :: "(string \<times> string) list option"
  ic_statuses :: "(string \<times> string) list option"
  ic_is_checkout :: bool
  ic_head_ref :: "string option"

definition cache_get :: "symbols_cache \<Rightarrow> path \<Rightarrow> symbol_classification option" where
  "cache_get cache f = (case map_of cache f of None \<Rightarrow> None | Some c \<Rightarrow> c)"

definition rel :: "impact_ctx \<Rightarrow> path \<Rightarrow> string res" where
  "rel ctx p = map_sum id rel_str (relative_to p (ic_repo_root ctx))"

definition py_sorted :: "string set \<Rightarrow> string list" where
  "py_sorted s = sorted_list_of_set s"

section \<open>Pathways through conftest files\<close>

text \<open>What one conftest file contributes: a match, a pathway resolved as safe, or nothing.\<close>

datatype pathway = Hit dep_msg | Resolved | NoPathway

definition calling_fixture ::
    "(string \<times> fixture) list \<Rightarrow> path \<Rightarrow> string set \<Rightarrow> string set \<Rightarrow> (string \<times> fixture) option" where
  "calling_fixture fixtures conftest used syms =
     find (\<lambda>(name, fx). fx_file_path fx = conftest \<and> name \<in> used \<and> function_calls fx \<inter> syms \<noteq> {}) fixtures"

definition fixture_pathway ::
    "impact_ctx \<Rightarrow> path \<Rightarrow> path \<Rightarrow> string set \<Rightarrow> string set \<Rightarrow> pathway res" where
  "fixture_pathway ctx changed_file conftest used syms =
     (case calling_fixture (ic_fixtures ctx) conftest used syms of
        None \<Rightarrow> Inr Resolved
      | Some (name, fx) \<Rightarrow>
          bind_res (rel ctx changed_file) (\<lambda>f.
            Inr (Hit (ViaFixtureCalls f name (py_sorted (function_calls fx \<inter> syms))))))"

definition opaque_hit :: "impact_ctx \<Rightarrow> path \<Rightarrow> path \<Rightarrow> pathway res" where
  "opaque_hit ctx changed_file conftest =
     bind_res (rel ctx changed_file) (\<lambda>f. bind_res (rel ctx conftest) (\<lambda>c. Inr (Hit (OpaqueImport f c))))"

definition opaque_pathway :: "impact_ctx \<Rightarrow> path \<Rightarrow> path \<Rightarrow> string set \<Rightarrow> pathway res" where
  "opaque_pathway ctx changed_file conftest used =
     (case cache_get (ic_cache ctx) changed_file of
        None \<Rightarrow> opaque_hit ctx changed_file conftest
      | Some c \<Rightarrow>
          if modified_symbols c = {} \<and> new_symbols c \<noteq> {} \<and> \<not> has_unattributed_changes c
          then Inr Resolved
          else if modified_symbols c = {} then opaque_hit ctx changed_file conftest
          else if has_unattributed_changes c then opaque_hit ctx changed_file conftest
          else fixture_pathway ctx changed_file conftest used (modified_symbols c))"

fun intermediate_pathways ::
    "impact_ctx \<Rightarrow> path \<Rightarrow> path \<Rightarrow> string set \<Rightarrow> (path \<times> string set) list \<Rightarrow> bool \<Rightarrow> pathway res" where
  "intermediate_pathways ctx changed_file conftest used [] resolved =
     Inr (if resolved then Resolved else NoPathway)"
| "intermediate_pathways ctx changed_file conftest used ((mid, imported_from) # rest) resolved =
     (case map_of (extract_symbol_imports_from_file (files (ic_env ctx)) mid (ic_repo_root ctx)) changed_file of
        None \<Rightarrow> intermediate_pathways ctx changed_file conftest used rest resolved
      | Some intermediate_imported \<Rightarrow>
          if (case cache_get (ic_cache ctx) changed_file of
                None \<Rightarrow> False
              | Some c \<Rightarrow> intermediate_imported \<inter> modified_symbols c = {})
          then intermediate_pathways ctx changed_file conftest used rest True
          else case calling_fixture (ic_fixtures ctx) conftest used imported_from of
                 Some (name, fx) \<Rightarrow>
                   bind_res (rel ctx changed_file) (\<lambda>f. bind_res (rel ctx mid) (\<lambda>i.
                     Inr (Hit (ViaIntermediate f i name (py_sorted (function_calls fx \<inter> imported_from))))))
               | None \<Rightarrow> intermediate_pathways ctx changed_file conftest used rest True)"

definition direct_pathway ::
    "impact_ctx \<Rightarrow> path \<Rightarrow> path \<Rightarrow> string set \<Rightarrow> string set \<Rightarrow> pathway res" where
  "direct_pathway ctx changed_file conftest used conftest_imported =
     (case cache_get (ic_cache ctx) changed_file of
        None \<Rightarrow> fixture_pathway ctx changed_file conftest used conftest_imported
      | Some c \<Rightarrow>
          if conftest_imported \<inter> modified_symbols c = {} then Inr Resolved
          else fixture_pathway ctx changed_file conftest used (conftest_imported \<inter> modified_symbols c))"

definition conftest_pathway :: "impact_ctx \<Rightarrow> path \<Rightarrow> path \<Rightarrow> string set \<Rightarrow> pathway res" where
  "conftest_pathway ctx changed_file conftest used =
     (let opaque_set = (case map_of (ic_conftest_opaque ctx) conftest of None \<Rightarrow> {} | Some s \<Rightarrow> s);
          conftest_syms = (case map_of (ic_conftest_symbols ctx) conftest of None \<Rightarrow> [] | Some s \<Rightarrow> s)
      in if changed_file \<in> opaque_set then opaque_pathway ctx changed_file conftest used
         else case map_of conftest_syms changed_file of
                None \<Rightarrow> intermediate_pathways ctx changed_file conftest used conftest_syms False
              | Some conf_imported \<Rightarrow> direct_pathway ctx changed_file conftest used conf_imported)"

fun pathway_loop ::
    "impact_ctx \<Rightarrow> path \<Rightarrow> string set \<Rightarrow> path list \<Rightarrow> bool \<Rightarrow> (bool \<times> dep_msg list) res" where
  "pathway_loop ctx changed_file used [] conftest_resolved =
     (if \<not> conftest_resolved
      then bind_res (rel ctx changed_file) (\<lambda>f. Inr (True, [FileLevel f]))
      else Inr (False, []))"
| "pathway_loop ctx changed_file used (p # ps) conftest_resolved =
     (if path_name p \<noteq> ''conftest.py'' then pathway_loop ctx changed_file used ps conftest_resolved
      else bind_res (conftest_pathway ctx changed_file p used) (\<lambda>r.
             case r of
               Hit msg \<Rightarrow> Inr (True, [msg])
             | Resolved \<Rightarrow> pathway_loop ctx changed_file used ps True
             | NoPathway \<Rightarrow> pathway_loop ctx changed_file used ps conftest_resolved))"

definition check_conftest_pathway ::
    "impact_ctx \<Rightarrow> path \<Rightarrow> marked_test \<Rightarrow> (bool \<times> dep_msg list) res" where
  "check_conftest_pathway ctx changed_file t =
     pathway_loop ctx changed_file (expand_used_fixtures (mt_fixtures t) (ic_fixtures ctx))
       (dependencies t) False"

section \<open>Symbol-level checks\<close>

definition self_narrowed_away :: "symbol_classification \<Rightarrow> string option \<Rightarrow> string \<Rightarrow> string \<Rightarrow> bool" where
  "self_narrowed_away c class_name method_name sy =
     (case map_of (modified_members c) sy of
        None \<Rightarrow> False
      | Some ms \<Rightarrow> class_name \<noteq> None \<and> method_name \<notin> ms)"

definition self_check :: "impact_ctx \<Rightarrow> path \<Rightarrow> marked_test \<Rightarrow> (bool \<times> dep_msg list) res" where
  "self_check ctx changed_file t =
     (case cache_get (ic_cache ctx) changed_file of
        None \<Rightarrow> bind_res (rel ctx changed_file) (\<lambda>f. Inr (True, [TestFileModified f]))
      | Some c \<Rightarrow>
          (let (class_name, method_name) = parse_test_name (mt_test_name t);
               sy = (case class_name of Some cn \<Rightarrow> cn | None \<Rightarrow> method_name)
           in if sy \<in> modified_symbols c \<and> \<not> self_narrowed_away c class_name method_name sy
              then bind_res (rel ctx changed_file) (\<lambda>f. Inr (True, [TestModified f [sy]]))
              else Inr (False, [])))"

definition file_status_of :: "impact_ctx \<Rightarrow> path \<Rightarrow> string option" where
  "file_status_of ctx f =
     (case ic_statuses ctx of
        None \<Rightarrow> None
      | Some d \<Rightarrow> map_of d (rel_or_abs_str f (ic_repo_root ctx)))"

definition conftest_check :: "impact_ctx \<Rightarrow> path \<Rightarrow> marked_test \<Rightarrow> (bool \<times> dep_msg list) res" where
  "conftest_check ctx changed_file t =
     bind_res (extract_modified_items_from_conftest (ic_env ctx) changed_file (ic_base_branch ctx)
             (ic_repo_root ctx) (ic_pr_info ctx) (ic_diffs_cache ctx) (file_status_of ctx changed_file)
             (ic_is_checkout ctx) (ic_head_ref ctx)) (\<lambda>items.
      case items of
        None \<Rightarrow> bind_res (rel ctx changed_file) (\<lambda>f. Inr (True, [PluginsChanged f]))
      | Some (mod_fixtures, mod_functions) \<Rightarrow>
          (let affected = get_affected_fixtures_helper (py_sorted mod_fixtures) mod_functions (ic_fixtures ctx);
               common = set (mt_fixtures t) \<inter> affected
           in if common \<noteq> {}
              then bind_res (rel ctx changed_file) (\<lambda>f. Inr (True, [AffectedFixtures f (py_sorted common)]))
              else Inr (False, [])))"

definition narrow_members ::
    "impact_ctx \<Rightarrow> marked_test \<Rightarrow> symbol_classification \<Rightarrow> string set \<Rightarrow> string set" where
  "narrow_members ctx t c common =
     (if common \<noteq> {} \<and> modified_members c \<noteq> [] then
        (let test_attrs = collect_test_attribute_accesses (files (ic_env ctx)) (mt_file_path t) (mt_test_name t)
         in {sy \<in> common.
               case map_of (modified_members c) sy of
                 None \<Rightarrow> True
               | Some ms \<Rightarrow> (case test_attrs of None \<Rightarrow> True | Some attrs \<Rightarrow> attrs \<inter> ms \<noteq> {})})
      else common)"

definition narrow_calls ::
    "impact_ctx \<Rightarrow> marked_test \<Rightarrow> symbol_classification \<Rightarrow> string set \<Rightarrow> string set" where
  "narrow_calls ctx t c common =
     (if common \<noteq> {} then
        (case collect_test_function_calls (files (ic_env ctx)) (mt_file_path t) (mt_test_name t) of
           None \<Rightarrow> common
         | Some calls \<Rightarrow>
             {sy \<in> common. map_of (modified_members c) sy \<noteq> None \<or> sy \<in> calls \<or> upper_first sy})
      else common)"

definition fixture_calling :: "(string \<times> fixture) list \<Rightarrow> string set \<Rightarrow> string set \<Rightarrow> string option" where
  "fixture_calling fixtures used syms =
     map_option fst (find (\<lambda>(name, fx). name \<in> used \<and> function_calls fx \<inter> syms \<noteq> {}) fixtures)"

definition symbol_check ::
    "impact_ctx \<Rightarrow> path \<Rightarrow> marked_test \<Rightarrow> string set \<Rightarrow> (bool \<times> dep_msg list) res" where
  "symbol_check ctx changed_file t test_imported_symbols =
     (case cache_get (ic_cache ctx) changed_file of
        None \<Rightarrow> bind_res (rel ctx changed_file) (\<lambda>f. Inr (True, [FileLevel f]))
      | Some c \<Rightarrow>
          (let common = narrow_calls ctx t c
                 (narrow_members ctx t c (test_imported_symbols \<inter> modified_symbols c))
           in if common \<noteq> {}
              then bind_res (rel ctx changed_file) (\<lambda>f. Inr (True, [ImportedSymbols f (py_sorted common)]))
              else case fixture_calling (ic_fixtures ctx) (set (mt_fixtures t)) (modified_symbols c) of
                     Some name \<Rightarrow>
                       bind_res (rel ctx changed_file) (\<lambda>f. Inr (True, [ViaFixture f name]))
                   | None \<Rightarrow> Inr (False, [])))"

section \<open>The decision for one test\<close>

definition check_changed_file :: "impact_ctx \<Rightarrow> marked_test \<Rightarrow> path \<Rightarrow> (bool \<times> dep_msg list) res" where
  "check_changed_file ctx t changed_file =
     (if changed_file = mt_file_path t then self_check ctx changed_file t
      else if path_name changed_file = ''conftest.py'' \<and> changed_file \<in> set (dependencies t)
      then conftest_check ctx changed_file t
      else if changed_file \<in> set (dependencies t) \<and> path_name changed_file \<noteq> ''conftest.py''
      then (case map_of (mt_symbol_imports t) changed_file of
              Some syms \<Rightarrow> symbol_check ctx changed_file t syms
            | None \<Rightarrow> check_conftest_pathway ctx changed_file t)
      else Inr (False, []))"

fun check_files ::
    "impact_ctx \<Rightarrow> marked_test \<Rightarrow> path list \<Rightarrow> bool \<times> dep_msg list \<Rightarrow> (bool \<times> dep_msg list) res" where
  "check_files ctx t [] st = Inr st"
| "check_files ctx t (f # fs) (affected, msgs) =
     bind_res (check_changed_file ctx t f) (\<lambda>(a, ms). check_files ctx t fs (affected \<or> a, msgs @ ms))"

record affected_test =
  at_node_id :: string
  at_test_name :: string
  at_test_file :: string
  at_dependencies :: "dep_msg list"

definition check_test_impact ::
    "impact_ctx \<Rightarrow> string \<Rightarrow> marked_test \<Rightarrow> path list \<Rightarrow> affected_test option res" where
  "check_test_impact ctx node_id t changed_set =
     bind_res (check_files ctx t changed_set (False, [])) (\<lambda>(affected, msgs).
       if affected then
         bind_res (rel ctx (mt_file_path t)) (\<lambda>file.
           Inr (Some \<lparr>at_node_id = node_id, at_test_name = mt_test_name t, at_test_file = file,
                      at_dependencies = msgs\<rparr>))
       else Inr None)"

section \<open>The decision for all tests\<close>

record analyzer =
  an_marker_expression :: string
  an_repo_root :: path
  an_base_branch :: string
  an_pr_info :: "pr_info option"
  an_is_checkout :: bool
  an_marked_tests :: "(string \<times> marked_test) list"
  an_graph :: fixture_graph

record analysis_result =
  should_run_tests :: bool
  reason :: string
  marker_expression :: string
  affected_tests :: "affected_test list"
  changed_files :: "string list"
  total_tests :: nat

text \<open>
  The two GitHub queries of \<open>analyze_impact\<close> are arguments: the diffs and statuses of the pull
  request's files, and its head commit.
\<close>

definition needs_symbols :: "path \<Rightarrow> bool" where
  "needs_symbols f = (path_suffix f = ''.py'' \<and> path_name f \<noteq> ''conftest.py'')"

text \<open>The classifications of the changed files, computed once before the tests are checked.\<close>

fun modified_symbols_cache :: "(path \<Rightarrow> symbol_classification option res) \<Rightarrow> path list \<Rightarrow> symbols_cache res" where
  "modified_symbols_cache classify [] = Inr []"
| "modified_symbols_cache classify (f # fs) =
     (if needs_symbols f
      then bind_res (classify f) (\<lambda>c. bind_res (modified_symbols_cache classify fs) (\<lambda>rest. Inr ((f, c) # rest)))
      else modified_symbols_cache classify fs)"

definition impact_context ::
    "change_env \<Rightarrow> analyzer \<Rightarrow> (string \<times> string) list option \<Rightarrow> (string \<times> string) list option \<Rightarrow>
     string option \<Rightarrow> path list \<Rightarrow> impact_ctx res" where
  "impact_context env an diffs statuses head changed_set =
     (let status = (\<lambda>f. case statuses of None \<Rightarrow> None
                        | Some d \<Rightarrow> map_of d (rel_or_abs_str f (an_repo_root an)))
      in bind_res (modified_symbols_cache (\<lambda>f. extract_modified_symbols env f (an_base_branch an) (an_repo_root an)
               (an_pr_info an) diffs (status f) head (an_is_checkout an)) changed_set) (\<lambda>cache.
         Inr \<lparr>ic_env = env, ic_repo_root = an_repo_root an, ic_fixtures = fg_fixtures (an_graph an),
              ic_base_branch = an_base_branch an, ic_pr_info = an_pr_info an, ic_cache = cache,
              ic_conftest_symbols = conftest_symbol_imports (an_graph an),
              ic_conftest_opaque = conftest_opaque_deps (an_graph an),
              ic_diffs_cache = diffs, ic_statuses = statuses, ic_is_checkout = an_is_checkout an,
              ic_head_ref = head\<rparr>))"

text \<open>
  The results are collected in the order in which the threads finish, the list \<open>completed\<close> of
  the tests. A check that fails with one of the handled exceptions is skipped; another exception of a
  check is raised again.
\<close>

fun collect_affected ::
    "impact_ctx \<Rightarrow> path list \<Rightarrow> (string \<times> marked_test) list \<Rightarrow> affected_test list \<Rightarrow> affected_test list res" where
  "collect_affected ctx changed_set [] acc = Inr acc"
| "collect_affected ctx changed_set ((node_id, t) # rest) acc =
     (case check_test_impact ctx node_id t changed_set of
        Inl e \<Rightarrow> if handled e then collect_affected ctx changed_set rest acc else Inl e
      | Inr r \<Rightarrow> collect_affected ctx changed_set rest (case r of None \<Rightarrow> acc | Some a \<Rightarrow> acc @ [a]))"

fun rel_all :: "path \<Rightarrow> path list \<Rightarrow> string list res" where
  "rel_all root [] = Inr []"
| "rel_all root (p # ps) =
     bind_res (relative_to p root) (\<lambda>r. bind_res (rel_all root ps) (\<lambda>rs. Inr (rel_str r # rs)))"

definition changed_set_of :: "change_env \<Rightarrow> path list \<Rightarrow> path list" where
  "changed_set_of env changed = remdups (map (path_resolve (files env)) changed)"

text \<open>Outside a pull request there are no diffs, statuses or head commit to fetch.\<close>

definition analysis_context ::
    "change_env \<Rightarrow> analyzer \<Rightarrow> (string \<times> string) list option \<Rightarrow> (string \<times> string) list option \<Rightarrow>
     string option \<Rightarrow> path list \<Rightarrow> impact_ctx res" where
  "analysis_context env an diffs statuses head changed =
     (if an_pr_info an = None then impact_context env an None None None (changed_set_of env changed)
      else impact_context env an diffs statuses head (changed_set_of env changed))"

definition analyze_impact ::
    "change_env \<Rightarrow> analyzer \<Rightarrow> (string \<times> string) list option \<Rightarrow> (string \<times> string) list option \<Rightarrow>
     string option \<Rightarrow> (string \<times> marked_test) list \<Rightarrow> path list \<Rightarrow> analysis_result res" where
  "analyze_impact env an diffs statuses head completed changed =
     bind_res (analysis_context env an diffs statuses head changed) (\<lambda>ctx.
       bind_res (collect_affected ctx (changed_set_of env changed) completed []) (\<lambda>affected.
         bind_res (rel_all (an_repo_root an) changed) (\<lambda>rels.
           Inr \<lparr>should_run_tests = (affected \<noteq> []),
                reason =
                  (if affected = [] then ''No changes affect test dependencies''
                   else ''Changes affect '' @ show_nat (length affected) @
                        '' test(s) with marker expression: '' @ an_marker_expression an),
                marker_expression = an_marker_expression an, affected_tests = affected,
                changed_files = rels, total_tests = length (an_marked_tests an)\<rparr>)))"

end
