(* ===== verification/ImpactProps.thy ===== *)
theory ImpactProps
  imports ImpactCheck
begin

text \<open>
  What the decision of \<open>ImpactCheck\<close> guarantees: a test is reported exactly when some changed
  file affects it and then with a reason; only a query about a changed conftest of a pull request can
  raise when all paths are inside the repository; an
  unclassified change is never narrowed away; and conftest changes reach a test exactly along
  the fixture graph.
\<close>

section \<open>Reasons\<close>

text \<open>Every check answers with a reason or not at all.\<close>

definition reasoned :: "(bool \<times> dep_msg list) res \<Rightarrow> bool" where
  "reasoned r = (case r of Inl _ \<Rightarrow> True | Inr (a, ms) \<Rightarrow> a = (ms \<noteq> []))"

lemma reasoned_simps [simp]:
  "reasoned (Inl e)" "reasoned (Inr (a, ms)) = (a = (ms \<noteq> []))"
  by (simp_all add: reasoned_def)

lemma reasoned_bind: "(\<And>x. r = Inr x \<Longrightarrow> reasoned (f x)) \<Longrightarrow> reasoned (bind_res r f)"
  by (cases r) auto

lemma pathway_loop_reasoned: "reasoned (pathway_loop ctx f used ps b)"
  by (induction ctx f used ps b rule: pathway_loop.induct)
     (auto intro!: reasoned_bind split: pathway.splits)

lemma self_check_reasoned: "reasoned (self_check ctx f t)"
  by (auto simp: self_check_def Let_def intro!: reasoned_bind split: option.splits prod.splits)

lemma conftest_check_reasoned: "reasoned (conftest_check ctx f t)"
  by (auto simp: conftest_check_def Let_def intro!: reasoned_bind split: option.splits)

lemma symbol_check_reasoned: "reasoned (symbol_check ctx f t syms)"
  by (auto simp: symbol_check_def Let_def intro!: reasoned_bind split: option.splits)

lemma check_changed_file_reasoned: "reasoned (check_changed_file ctx t f)"
  by (auto simp: check_changed_file_def check_conftest_pathway_def self_check_reasoned
      conftest_check_reasoned symbol_check_reasoned pathway_loop_reasoned split: option.splits)

lemma check_changed_file_cases:
  obtains e where "check_changed_file ctx t f = Inl e"
  | m ms where "check_changed_file ctx t f = Inr (True, m # ms)"
  | "check_changed_file ctx t f = Inr (False, [])"
proof (cases "check_changed_file ctx t f")
  case (Inl e)
  then show ?thesis by (rule that(1))
next
  case (Inr x)
  obtain a ms where "x = (a, ms)" by (cases x)
  with Inr check_changed_file_reasoned[of ctx t f] that(2,3) show ?thesis
    by (cases ms) auto
qed

section \<open>Collecting the files\<close>

definition affects :: "impact_ctx \<Rightarrow> marked_test \<Rightarrow> path \<Rightarrow> bool" where
  "affects ctx t f \<longleftrightarrow> (\<exists>ms. check_changed_file ctx t f = Inr (True, ms))"

lemma check_files_result:
  assumes "check_files ctx t fs (a, ms) = Inr (a', ms')"
  shows "a' \<longleftrightarrow> a \<or> (\<exists>f \<in> set fs. affects ctx t f)"
    and "(a = (ms \<noteq> [])) \<Longrightarrow> a' = (ms' \<noteq> [])"
proof -
  have "(a' \<longleftrightarrow> a \<or> (\<exists>f \<in> set fs. affects ctx t f)) \<and> ((a = (ms \<noteq> [])) \<longrightarrow> a' = (ms' \<noteq> []))"
    using assms
  proof (induction fs arbitrary: a ms)
    case (Cons f fs)
    obtain b ns where c: "check_changed_file ctx t f = Inr (b, ns)"
      and r: "check_files ctx t fs (a \<or> b, ms @ ns) = Inr (a', ms')"
      using Cons.prems by (auto simp: bind_res_Inr_iff)
    have "b = affects ctx t f" using c by (auto simp: affects_def)
    moreover have "b = (ns \<noteq> [])" using check_changed_file_reasoned[of ctx t f] c by simp
    ultimately show ?case using Cons.IH[OF r] by auto
  qed auto
  then show "a' \<longleftrightarrow> a \<or> (\<exists>f \<in> set fs. affects ctx t f)"
    and "(a = (ms \<noteq> [])) \<Longrightarrow> a' = (ms' \<noteq> [])" by auto
qed

lemma check_test_impact_cases:
  assumes "check_test_impact ctx n t fs = Inr r"
  obtains ms tfile where "check_files ctx t fs (False, []) = Inr (True, ms)"
    "r = Some \<lparr>at_node_id = n, at_test_name = mt_test_name t, at_test_file = tfile, at_dependencies = ms\<rparr>"
  | ms where "check_files ctx t fs (False, []) = Inr (False, ms)" "r = None"
proof -
  from assms obtain a ms where c: "check_files ctx t fs (False, []) = Inr (a, ms)"
    unfolding check_test_impact_def bind_res_Inr_iff by auto
  show ?thesis
  proof (cases a)
    case True
    with assms c that(1) show ?thesis by (auto simp: check_test_impact_def bind_res_Inr_iff)
  next
    case False
    with assms c that(2) show ?thesis by (auto simp: check_test_impact_def)
  qed
qed

lemma check_test_impact_Some:
  assumes "check_test_impact ctx n t fs = Inr (Some r)"
  shows "(\<exists>f \<in> set fs. affects ctx t f) \<and> at_node_id r = n \<and> at_dependencies r \<noteq> []"
  using assms
proof (cases rule: check_test_impact_cases)
  case (1 ms tfile)
  with check_files_result[OF 1(1)] show ?thesis by simp
qed simp

lemma check_test_impact_None:
  assumes "check_test_impact ctx n t fs = Inr None"
  shows "\<not> (\<exists>f \<in> set fs. affects ctx t f)"
  using assms
proof (cases rule: check_test_impact_cases)
  case (2 ms)
  with check_files_result(1)[OF 2(1)] show ?thesis by simp
qed simp

section \<open>Errors of the queries\<close>

definition raises_in :: "py_error set \<Rightarrow> 'a res \<Rightarrow> bool" where
  "raises_in E r = (case r of Inl e \<Rightarrow> e \<in> E | Inr _ \<Rightarrow> True)"

lemma raises_simps [simp]: "raises_in E (Inr x)" "raises_in E (Inl e) \<longleftrightarrow> e \<in> E"
  by (simp_all add: raises_in_def)

lemma raises_if: "(b \<Longrightarrow> raises_in E x) \<Longrightarrow> (\<not> b \<Longrightarrow> raises_in E y) \<Longrightarrow> raises_in E (if b then x else y)"
  by simp

lemma raises_option:
  "(x = None \<Longrightarrow> raises_in E r) \<Longrightarrow> (\<And>y. x = Some y \<Longrightarrow> raises_in E (f y)) \<Longrightarrow>
     raises_in E (case x of None \<Rightarrow> r | Some y \<Rightarrow> f y)"
  by (cases x) simp_all

lemma raises_bind: "raises_in E r \<Longrightarrow> (\<And>x. r = Inr x \<Longrightarrow> raises_in E (f x)) \<Longrightarrow> raises_in E (bind_res r f)"
  by (cases r) auto

lemma raises_mono: "raises_in E r \<Longrightarrow> E \<subseteq> E' \<Longrightarrow> raises_in E' r"
  by (auto simp: raises_in_def split: sum.splits)

text \<open>
  What the queries about one file can raise: what the query for the diff of the pull request raises, an
  output that is not text and, on a pull request only, an answer with the file's contents that is
  broken, lacks the contents or encodes them wrongly.
\<close>

definition query_errors :: "change_env \<Rightarrow> pr_info option \<Rightarrow> py_error set \<Rightarrow> bool" where
  "query_errors env info E \<longleftrightarrow> UnicodeDecodeError \<in> E \<and>
     (\<forall>i. info = Some i \<longrightarrow> {HTTPException, KeyError, ValueError} \<subseteq> E \<and>
        (\<forall>p. raises_in E (pr_file_diff env (pi_repo i) (pr_number i) p (token i))))"

lemma query_errors_UNIV: "query_errors env info UNIV"
  by (auto simp: query_errors_def raises_in_def split: sum.splits)

lemma query_errors_local: "query_errors env None {UnicodeDecodeError}"
  by (simp add: query_errors_def)

lemma raises_diff_content:
  assumes "query_errors env info E"
  shows "raises_in E (get_diff_content env f base root info cache)"
  using assms
  by (auto simp: get_diff_content_def query_errors_def Let_def intro!: raises_bind
      split: option.splits run_result.splits)

lemma raises_function_names:
  assumes "query_errors env info E"
  shows "raises_in E (get_modified_function_names env f base root info cache ck)"
  using assms
  by (auto simp: get_modified_function_names_def query_errors_def Let_def intro!: raises_bind
      split: option.splits run_result.splits)

lemma raises_old_symbols:
  assumes "query_errors env info E"
  shows "raises_in E (get_old_file_symbols env f base root info)"
proof -
  have "raises_in E (fetch_old_local env p base)" for p
    using assms by (auto simp: fetch_old_local_def query_errors_def Let_def split: run_result.splits)
  moreover have "raises_in E (fetch_old_remote env p base i)" if "info = Some i" for p i
    using assms that by (auto simp: fetch_old_remote_def query_errors_def split: http_result.splits)
  ultimately show ?thesis
    by (auto simp: get_old_file_symbols_def Let_def intro!: raises_bind split: option.splits)
qed

lemma raises_head_source:
  assumes "query_errors env info E"
  shows "raises_in E (head_source env f root info ref ck)"
  using assms
  by (auto simp: head_source_def fetch_file_at_ref_def query_errors_def intro!: raises_bind
      split: option.splits http_result.splits)

lemma raises_classify:
  "raises_in E old \<Longrightarrow> raises_in E (classify_changes old st dels L source smap)"
  by (auto simp: classify_changes_def Let_def intro!: raises_bind split: option.splits)

lemma raises_symbols:
  assumes "query_errors env info E"
  shows "raises_in E (extract_modified_symbols env f base root info cache st head ck)"
  unfolding extract_modified_symbols_def
  by (auto simp: Let_def intro!: raises_bind raises_diff_content[OF assms] raises_head_source[OF assms]
      raises_classify raises_old_symbols[OF assms] split: option.splits)

lemma raises_conftest_items:
  assumes "query_errors env info E"
  shows "raises_in {e \<in> E. \<not> handled e} (extract_modified_items_from_conftest env f base root info cache st ck head)"
proof -
  have "raises_in E (conftest_items_body env f base root info cache st ck head)"
    unfolding conftest_items_body_def Let_def
    by (intro raises_bind raises_option raises_if raises_simps(1) raises_function_names[OF assms]
        raises_symbols[OF assms] raises_old_symbols[OF assms])
  then show ?thesis
    by (auto simp: extract_modified_items_from_conftest_def raises_in_def split: sum.splits)
qed

section \<open>Errors\<close>

definition in_repo :: "impact_ctx \<Rightarrow> path \<Rightarrow> bool" where
  "in_repo ctx p \<longleftrightarrow> prefix (ic_repo_root ctx) p"

lemma rel_in_repo: "in_repo ctx p \<Longrightarrow> \<exists>s. rel ctx p = Inr s"
  by (auto simp: in_repo_def rel_def prefix_def)

text \<open>The paths a check can name: the test, its dependencies and what conftest files import.\<close>

definition paths_in_repo :: "impact_ctx \<Rightarrow> marked_test \<Rightarrow> bool" where
  "paths_in_repo ctx t \<longleftrightarrow>
     in_repo ctx (mt_file_path t) \<and> (\<forall>p \<in> set (dependencies t). in_repo ctx p) \<and>
     (\<forall>(c, d) \<in> set (ic_conftest_symbols ctx). \<forall>(i, s) \<in> set d. in_repo ctx i)"

definition ok :: "'a res \<Rightarrow> bool" where
  "ok r = (case r of Inl _ \<Rightarrow> False | Inr _ \<Rightarrow> True)"

lemma ok_simps [simp]: "ok (Inr x)" "\<not> ok (Inl e)"
  by (simp_all add: ok_def)

lemma ok_bind: "ok r \<Longrightarrow> (\<And>x. r = Inr x \<Longrightarrow> ok (f x)) \<Longrightarrow> ok (bind_res r f)"
  by (cases r) auto

lemma ok_rel [intro]: "in_repo ctx p \<Longrightarrow> ok (rel ctx p)"
  using rel_in_repo[of ctx p] by auto

lemma fixture_pathway_ok: "in_repo ctx f \<Longrightarrow> ok (fixture_pathway ctx f c used syms)"
  by (auto simp: fixture_pathway_def intro!: ok_bind split: option.splits)

lemma opaque_pathway_ok: "in_repo ctx f \<Longrightarrow> in_repo ctx c \<Longrightarrow> ok (opaque_pathway ctx f c used)"
  by (auto simp: opaque_pathway_def opaque_hit_def fixture_pathway_ok intro!: ok_bind split: option.splits)

lemma intermediate_pathways_ok:
  "in_repo ctx f \<Longrightarrow> (\<forall>(i, s) \<in> set d. in_repo ctx i) \<Longrightarrow> ok (intermediate_pathways ctx f c used d b)"
proof (induction ctx f c used d b rule: intermediate_pathways.induct)
  case (2 ctx f c used mid syms rest b)
  then show ?case by (auto intro!: ok_bind split: option.splits prod.splits)
qed simp

lemma conftest_pathway_ok:
  assumes "in_repo ctx f" "in_repo ctx c" "paths_in_repo ctx t"
  shows "ok (conftest_pathway ctx f c used)"
proof -
  have "\<forall>(i, s) \<in> set d. in_repo ctx i" if "map_of (ic_conftest_symbols ctx) c = Some d" for d
    using assms(3) map_of_SomeD[OF that] by (auto simp: paths_in_repo_def)
  then show ?thesis
    using assms(1,2)
    by (auto simp: conftest_pathway_def Let_def direct_pathway_def opaque_pathway_ok fixture_pathway_ok
        intro!: intermediate_pathways_ok split: option.splits)
qed

lemma pathway_loop_ok:
  assumes "in_repo ctx f" "paths_in_repo ctx t" "\<forall>p \<in> set ps. in_repo ctx p"
  shows "ok (pathway_loop ctx f used ps b)"
  using assms(3)
proof (induction ps arbitrary: b)
  case Nil
  then show ?case using assms(1) by (auto intro!: ok_bind)
next
  case (Cons p ps)
  then show ?case
    using conftest_pathway_ok[OF assms(1) _ assms(2), of p used]
    by (auto intro!: ok_bind split: pathway.splits)
qed

lemma self_check_ok: "in_repo ctx f \<Longrightarrow> ok (self_check ctx f t)"
  by (auto simp: self_check_def Let_def intro!: ok_bind split: option.splits prod.splits)

definition conftest_items :: "impact_ctx \<Rightarrow> path \<Rightarrow> (string set \<times> string set) option res" where
  "conftest_items ctx f =
     extract_modified_items_from_conftest (ic_env ctx) f (ic_base_branch ctx) (ic_repo_root ctx) (ic_pr_info ctx)
       (ic_diffs_cache ctx) (file_status_of ctx f) (ic_is_checkout ctx) (ic_head_ref ctx)"

lemma conftest_items_raises:
  assumes "conftest_items ctx f = Inl e"
  shows "\<not> handled e" and "ic_pr_info ctx \<noteq> None"
proof -
  have raised: "e \<in> E \<and> \<not> handled e" if "query_errors (ic_env ctx) (ic_pr_info ctx) E" for E
    using raises_conftest_items[OF that, of f "ic_base_branch ctx" "ic_repo_root ctx" "ic_diffs_cache ctx"
        "file_status_of ctx f" "ic_is_checkout ctx" "ic_head_ref ctx"] assms
    by (simp add: conftest_items_def)
  from raised[OF query_errors_UNIV] show unhandled: "\<not> handled e" by simp
  show "ic_pr_info ctx \<noteq> None"
  proof
    assume "ic_pr_info ctx = None"
    with raised[of "{UnicodeDecodeError}"] query_errors_local unhandled show False by (simp add: handled_def)
  qed
qed

lemma conftest_check_ok: "in_repo ctx f \<Longrightarrow> ok (conftest_items ctx f) \<Longrightarrow> ok (conftest_check ctx f t)"
  by (auto simp: conftest_check_def conftest_items_def Let_def intro!: ok_bind split: option.splits)

lemma conftest_check_raises: "conftest_items ctx f = Inl e \<Longrightarrow> conftest_check ctx f t = Inl e"
  by (simp add: conftest_check_def conftest_items_def)

lemma symbol_check_ok: "in_repo ctx f \<Longrightarrow> ok (symbol_check ctx f t syms)"
  by (auto simp: symbol_check_def Let_def intro!: ok_bind split: option.splits)

text \<open>The only exception of a check inside the repository: the items of a changed conftest cannot be asked for.\<close>

definition asks_conftest :: "impact_ctx \<Rightarrow> marked_test \<Rightarrow> path \<Rightarrow> bool" where
  "asks_conftest ctx t f \<longleftrightarrow> f \<noteq> mt_file_path t \<and> path_name f = ''conftest.py'' \<and> f \<in> set (dependencies t)"

lemma check_changed_file_ok:
  assumes "paths_in_repo ctx t" and "asks_conftest ctx t f \<Longrightarrow> ok (conftest_items ctx f)"
  shows "ok (check_changed_file ctx t f)"
proof (cases "f = mt_file_path t \<or> f \<in> set (dependencies t)")
  case True
  then have f: "in_repo ctx f" using assms(1) by (auto simp: paths_in_repo_def)
  have d: "\<forall>p \<in> set (dependencies t). in_repo ctx p" using assms(1) by (simp add: paths_in_repo_def)
  have "ok (check_conftest_pathway ctx f t)"
    unfolding check_conftest_pathway_def by (rule pathway_loop_ok[OF f assms(1) d])
  then show ?thesis
    using self_check_ok[OF f] conftest_check_ok[OF f] symbol_check_ok[OF f] assms(2)
    by (auto simp: check_changed_file_def asks_conftest_def split: option.split)
next
  case False
  then show ?thesis by (simp add: check_changed_file_def)
qed

lemma check_changed_file_raises:
  assumes "paths_in_repo ctx t" and "check_changed_file ctx t f = Inl e"
  shows "asks_conftest ctx t f \<and> conftest_items ctx f = Inl e"
proof -
  have "\<not> (asks_conftest ctx t f \<longrightarrow> ok (conftest_items ctx f))"
    using check_changed_file_ok[OF assms(1), of f] assms(2) by auto
  then obtain e' where e': "asks_conftest ctx t f" "conftest_items ctx f = Inl e'"
    by (cases "conftest_items ctx f") auto
  then show ?thesis
    using assms(2) conftest_check_raises[OF e'(2), of t] by (simp add: check_changed_file_def asks_conftest_def)
qed

lemma check_files_raises:
  "check_files ctx t fs st = Inl e \<Longrightarrow> \<exists>f \<in> set fs. check_changed_file ctx t f = Inl e"
  by (induction ctx t fs st rule: check_files.induct) (auto simp: bind_res_Inl_iff)

lemma check_test_impact_raises:
  assumes "paths_in_repo ctx t" and "check_test_impact ctx n t fs = Inl e"
  shows "\<exists>f \<in> set fs. asks_conftest ctx t f \<and> conftest_items ctx f = Inl e"
proof -
  obtain s where "rel ctx (mt_file_path t) = Inr s"
    using assms(1) rel_in_repo[of ctx "mt_file_path t"] by (auto simp: paths_in_repo_def)
  then have "check_files ctx t fs (False, []) = Inl e"
    using assms(2) by (auto simp: check_test_impact_def bind_res_Inl_iff split: prod.splits if_splits)
  then show ?thesis using check_files_raises check_changed_file_raises[OF assms(1)] by blast
qed

text \<open>No check ends with an exception that the collection of the results skips.\<close>

lemma raises_relative: "raises_in {ValueError} (relative_to p r)"
  by (simp add: relative_to_def)

lemma raises_rel: "raises_in {ValueError} (rel ctx p)"
  using raises_relative[of p "ic_repo_root ctx"] by (cases "relative_to p (ic_repo_root ctx)") (simp_all add: rel_def)

lemma raises_pathway: "raises_in {ValueError} (conftest_pathway ctx f p used)"
proof -
  have fixture: "raises_in {ValueError} (fixture_pathway ctx f p used syms)" for syms
    by (auto simp: fixture_pathway_def intro!: raises_bind raises_rel split: option.splits)
  have opaque: "raises_in {ValueError} (opaque_hit ctx f p)" by (auto simp: opaque_hit_def intro!: raises_bind raises_rel)
  have "raises_in {ValueError} (intermediate_pathways ctx f p used xs b)" for xs b
    by (induction ctx f p used xs b rule: intermediate_pathways.induct) (auto intro!: raises_bind raises_rel split: option.splits)
  then show ?thesis
    using fixture opaque
    by (auto simp: conftest_pathway_def opaque_pathway_def direct_pathway_def Let_def split: option.splits)
qed

abbreviation impact_errors :: "py_error set \<Rightarrow> py_error set" where
  "impact_errors E \<equiv> insert ValueError {e \<in> E. \<not> handled e}"

lemma raises_changed_file:
  assumes "query_errors (ic_env ctx) (ic_pr_info ctx) E"
  shows "raises_in (impact_errors E) (check_changed_file ctx t f)"
proof -
  have loop: "raises_in {ValueError} (pathway_loop ctx f used ps b)" for used ps b
    by (induction ctx f used ps b rule: pathway_loop.induct)
      (auto intro!: raises_bind raises_rel raises_pathway split: pathway.splits)
  have rel: "raises_in (impact_errors E) (rel ctx p)" for p using raises_mono[OF raises_rel] by blast
  have "raises_in (impact_errors E) (conftest_check ctx f t)"
    unfolding conftest_check_def
    by (intro raises_bind raises_mono[OF raises_conftest_items[OF assms]])
      (auto simp: Let_def intro!: raises_bind rel split: option.splits)
  moreover have "raises_in (impact_errors E) (check_conftest_pathway ctx f t)"
    unfolding check_conftest_pathway_def using raises_mono[OF loop] by blast
  moreover have "raises_in (impact_errors E) (self_check ctx f t)"
    by (auto simp: self_check_def Let_def intro!: raises_bind rel split: option.splits prod.splits)
  moreover have "raises_in (impact_errors E) (symbol_check ctx f t syms)" for syms
    by (auto simp: symbol_check_def Let_def intro!: raises_bind rel split: option.splits)
  ultimately show ?thesis by (auto simp: check_changed_file_def split: option.splits)
qed

lemma raises_test_impact:
  assumes "query_errors (ic_env ctx) (ic_pr_info ctx) E"
  shows "raises_in (impact_errors E) (check_test_impact ctx n t fs)"
proof -
  have files: "raises_in (impact_errors E) (check_files ctx t fs st)" for st
    by (induction fs arbitrary: st) (auto intro!: raises_bind raises_changed_file[OF assms] split: prod.splits)
  show ?thesis
    unfolding check_test_impact_def
    by (auto intro!: raises_bind files raises_mono[OF raises_rel])
qed

lemma test_impact_not_handled: "check_test_impact ctx n t fs = Inl e \<Longrightarrow> \<not> handled e"
  using raises_test_impact[OF query_errors_UNIV, of ctx n t fs] by (auto simp: handled_def)

section \<open>Narrowing\<close>

lemma affects_rel:
  assumes "in_repo ctx f" and "check_changed_file ctx t f = bind_res (rel ctx f) (\<lambda>s. Inr (True, msgs s))"
  shows "affects ctx t f"
  using rel_in_repo[OF assms(1)] assms(2) by (auto simp: affects_def)

text \<open>
  A change that could not be classified affects the test whose file it is, and every test
  that imports names from the file.
\<close>

lemma unclassified_affects:
  assumes "cache_get (ic_cache ctx) f = None" and "in_repo ctx f"
    and "f = mt_file_path t \<or>
         (f \<in> set (dependencies t) \<and> path_name f \<noteq> ''conftest.py'' \<and> map_of (mt_symbol_imports t) f \<noteq> None)"
  shows "affects ctx t f"
proof (cases "f = mt_file_path t")
  case True
  show ?thesis
    by (rule affects_rel[OF assms(2)]) (use True assms(1) in \<open>simp add: check_changed_file_def self_check_def\<close>)
next
  case False
  then obtain syms where "map_of (mt_symbol_imports t) f = Some syms" using assms(3) by auto
  with False assms show ?thesis
    by (intro affects_rel[OF assms(2)]) (simp add: check_changed_file_def symbol_check_def)
qed

text \<open>A file that only gained symbols affects no test through its own file or its imported names.\<close>

lemma only_new_unaffected:
  assumes "cache_get (ic_cache ctx) f = Some c" and "modified_symbols c = {}"
    and "f = mt_file_path t \<or> map_of (mt_symbol_imports t) f \<noteq> None" and "path_name f \<noteq> ''conftest.py''"
  shows "check_changed_file ctx t f = Inr (False, [])"
proof -
  have self: "self_check ctx f t = Inr (False, [])"
    using assms(1,2) by (simp add: self_check_def split: prod.splits)
  have "fixture_calling (ic_fixtures ctx) used {} = None" for used
    by (auto simp: fixture_calling_def find_None_iff)
  then have "symbol_check ctx f t syms = Inr (False, [])" for syms
    using assms(1,2) by (simp add: symbol_check_def narrow_calls_def narrow_members_def)
  then show ?thesis
    using self assms(3,4) by (auto simp: check_changed_file_def split: option.splits)
qed

lemma unrelated_not_affects:
  "f \<noteq> mt_file_path t \<Longrightarrow> f \<notin> set (dependencies t) \<Longrightarrow> \<not> affects ctx t f"
  by (simp add: affects_def check_changed_file_def)

text \<open>
  The names that survive the narrowing: with member information, those of which the test accesses a
  modified member; without it, those that the test calls or that look like classes. A test whose own
  code is not found narrows nothing.
\<close>

definition still_used :: "impact_ctx \<Rightarrow> marked_test \<Rightarrow> symbol_classification \<Rightarrow> string \<Rightarrow> bool" where
  "still_used ctx t c sy \<longleftrightarrow>
     (case map_of (modified_members c) sy of
        Some ms \<Rightarrow> (\<forall>attrs. collect_test_attribute_accesses (files (ic_env ctx)) (mt_file_path t) (mt_test_name t) = Some attrs \<longrightarrow>
          attrs \<inter> ms \<noteq> {})
      | None \<Rightarrow> (\<forall>calls. collect_test_function_calls (files (ic_env ctx)) (mt_file_path t) (mt_test_name t) = Some calls \<longrightarrow>
          sy \<in> calls \<or> upper_first sy))"

lemma narrow_iff:
  "sy \<in> narrow_calls ctx t c (narrow_members ctx t c syms) \<longleftrightarrow> sy \<in> syms \<and> still_used ctx t c sy"
proof -
  have "sy \<in> narrow_members ctx t c syms \<longleftrightarrow> sy \<in> syms \<and>
      (\<forall>ms attrs. map_of (modified_members c) sy = Some ms \<longrightarrow>
        collect_test_attribute_accesses (files (ic_env ctx)) (mt_file_path t) (mt_test_name t) = Some attrs \<longrightarrow> attrs \<inter> ms \<noteq> {})"
    by (auto simp: narrow_members_def Let_def split: option.splits)
  moreover have "sy \<in> narrow_calls ctx t c S \<longleftrightarrow> sy \<in> S \<and>
      (\<forall>calls. map_of (modified_members c) sy = None \<longrightarrow>
        collect_test_function_calls (files (ic_env ctx)) (mt_file_path t) (mt_test_name t) = Some calls \<longrightarrow>
        sy \<in> calls \<or> upper_first sy)" for S
    by (auto simp: narrow_calls_def split: option.splits)
  ultimately show ?thesis by (cases "map_of (modified_members c) sy") (auto simp: still_used_def)
qed

lemma fixture_calling_iff:
  "fixture_calling fixtures used syms \<noteq> None \<longleftrightarrow>
     (\<exists>(name, fx) \<in> set fixtures. name \<in> used \<and> function_calls fx \<inter> syms \<noteq> {})"
  by (auto simp: fixture_calling_def find_None_iff)

lemma symbol_affects_iff:
  assumes "cache_get (ic_cache ctx) f = Some c" "in_repo ctx f"
    and "f \<noteq> mt_file_path t" "f \<in> set (dependencies t)" "path_name f \<noteq> ''conftest.py''"
    and "map_of (mt_symbol_imports t) f = Some syms"
  shows "affects ctx t f \<longleftrightarrow> (\<exists>sy \<in> syms \<inter> modified_symbols c. still_used ctx t c sy) \<or>
     (\<exists>(name, fx) \<in> set (ic_fixtures ctx). name \<in> set (mt_fixtures t) \<and> function_calls fx \<inter> modified_symbols c \<noteq> {})"
proof -
  let ?common = "narrow_calls ctx t c (narrow_members ctx t c (syms \<inter> modified_symbols c))"
  obtain s where s: "rel ctx f = Inr s" using rel_in_repo[OF assms(2)] by blast
  have common: "?common \<noteq> {} \<longleftrightarrow> (\<exists>sy \<in> syms \<inter> modified_symbols c. still_used ctx t c sy)"
    using narrow_iff[of _ ctx t c "syms \<inter> modified_symbols c"] by blast
  have "check_changed_file ctx t f = symbol_check ctx f t syms" using assms(3-6) by (simp add: check_changed_file_def)
  then have "affects ctx t f \<longleftrightarrow>
      ?common \<noteq> {} \<or> fixture_calling (ic_fixtures ctx) (set (mt_fixtures t)) (modified_symbols c) \<noteq> None"
    using assms(1) s by (auto simp: affects_def symbol_check_def Let_def split: option.split)
  then show ?thesis unfolding common fixture_calling_iff .
qed

section \<open>Conftest changes\<close>

lemma finite_walk_fixtures: "finite (file_fixtures env f)"
  by (auto simp: file_fixtures_def split: option.splits)

definition finite_items :: "(string set \<times> string set) option res \<Rightarrow> bool" where
  "finite_items r \<longleftrightarrow> (\<forall>a b. r = Inr (Some (a, b)) \<longrightarrow> finite a)"

lemma finite_items_intros:
  "finite_items (Inr None)" "finite a \<Longrightarrow> finite_items (Inr (Some (a, b)))"
  "(\<And>x. finite_items (f x)) \<Longrightarrow> finite_items (bind_res r f)"
  "finite_items s \<Longrightarrow> (\<And>x. finite_items (g x)) \<Longrightarrow> finite_items (case o1 of None \<Rightarrow> s | Some x \<Rightarrow> g x)"
  "finite_items s \<Longrightarrow> finite_items s' \<Longrightarrow> finite_items (if c then s else s')"
  by (auto simp: finite_items_def bind_res_Inr_iff split: option.splits)

lemma conftest_items_finite:
  assumes "extract_modified_items_from_conftest env f bb root info diffs st ck head = Inr (Some (mfx, mfn))"
  shows "finite mfx"
proof -
  have "finite_items (conftest_items_body env f bb root info diffs st ck head)"
    unfolding conftest_items_body_def Let_def if_distrib[of "\<lambda>x. Inr (Some x)"]
    by (intro finite_items_intros finite_Int disjI2 finite_walk_fixtures finite.emptyI)
  then show ?thesis
    using assms by (auto simp: extract_modified_items_from_conftest_def finite_items_def split: if_splits sum.splits)
qed

text \<open>
  A changed conftest file affects a test exactly when one of the test's fixtures depends,
  through any chain of fixtures, on a modified fixture or on one that calls a modified
  function.
\<close>

lemma conftest_affects_iff:
  assumes "in_repo ctx f" "f \<noteq> mt_file_path t" "path_name f = ''conftest.py''" "f \<in> set (dependencies t)"
    and items: "extract_modified_items_from_conftest (ic_env ctx) f (ic_base_branch ctx)
             (ic_repo_root ctx) (ic_pr_info ctx) (ic_diffs_cache ctx) (file_status_of ctx f)
             (ic_is_checkout ctx) (ic_head_ref ctx) = Inr (Some (mfx, mfn))"
  shows "affects ctx t f \<longleftrightarrow>
     (\<exists>x y. (x \<in> mfx \<or> x \<in> set (calls_modified mfn (ic_fixtures ctx))) \<and>
        (required_by (ic_fixtures ctx))\<^sup>*\<^sup>* x y \<and> y \<in> set (mt_fixtures t))"
proof -
  let ?seeds = "py_sorted mfx @ calls_modified mfn (ic_fixtures ctx)"
  let ?common = "set (mt_fixtures t) \<inter> get_affected_fixtures_helper (py_sorted mfx) mfn (ic_fixtures ctx)"
  have seeds: "set ?seeds = mfx \<union> set (calls_modified mfn (ic_fixtures ctx))"
    using conftest_items_finite[OF items] by (simp add: py_sorted_def)
  obtain s where s: "rel ctx f = Inr s" using rel_in_repo[OF assms(1)] by blast
  have "affects ctx t f \<longleftrightarrow> ?common \<noteq> {}"
    using assms(2-4) items s by (simp add: affects_def check_changed_file_def conftest_check_def Let_def)
  also have "\<dots> \<longleftrightarrow> (\<exists>y \<in> set (mt_fixtures t). \<exists>x \<in> set ?seeds. (required_by (ic_fixtures ctx))\<^sup>*\<^sup>* x y)"
    unfolding affected_helper_closure Let_def affected.result_iff_reach[symmetric] by blast
  also have "\<dots> \<longleftrightarrow> (\<exists>x y. (x \<in> mfx \<or> x \<in> set (calls_modified mfn (ic_fixtures ctx))) \<and>
        (required_by (ic_fixtures ctx))\<^sup>*\<^sup>* x y \<and> y \<in> set (mt_fixtures t))"
    unfolding seeds by blast
  finally show ?thesis .
qed

section \<open>All tests\<close>

lemma collect_affected_nodes:
  "collect_affected ctx fs tests acc = Inr r \<Longrightarrow>
     map at_node_id r = map at_node_id acc @
       map fst (filter (\<lambda>(n, t). \<exists>f \<in> set fs. affects ctx t f) tests)"
proof (induction ctx fs tests acc rule: collect_affected.induct)
  case (2 ctx fs n t rest acc)
  then obtain x where x: "check_test_impact ctx n t fs = Inr x"
    using test_impact_not_handled[of ctx n t fs] by (auto split: sum.splits if_splits)
  show ?case
  proof (cases x)
    case None
    then show ?thesis using 2 x check_test_impact_None[of ctx n t fs] by auto
  next
    case (Some a)
    then show ?thesis using 2 x check_test_impact_Some[of ctx n t fs a] by auto
  qed
qed simp

lemma analyze_impact_fields:
  assumes "analyze_impact env an diffs statuses head completed changed = Inr r"
  obtains ctx where "analysis_context env an diffs statuses head changed = Inr ctx"
    and "collect_affected ctx (changed_set_of env changed) completed [] = Inr (affected_tests r)"
    and "should_run_tests r \<longleftrightarrow> affected_tests r \<noteq> []"
  using assms that by (auto simp: analyze_impact_def bind_res_Inr_iff)

lemma analysis_context_queries:
  "analysis_context env an diffs statuses head changed = Inr ctx \<Longrightarrow> ic_env ctx = env \<and> ic_pr_info ctx = an_pr_info an"
  by (auto simp: analysis_context_def impact_context_def Let_def bind_res_Inr_iff split: if_splits)

lemma raises_context:
  assumes "query_errors env (an_pr_info an) E"
  shows "raises_in E (analysis_context env an diffs statuses head changed)"
proof -
  have cache: "raises_in E (modified_symbols_cache classify fs)" if "\<And>f. raises_in E (classify f)" for classify fs
    using that by (induction fs) (auto intro!: raises_bind)
  show ?thesis
    unfolding analysis_context_def impact_context_def
    by (auto simp: Let_def intro!: raises_bind cache) (metis assms raises_symbols)+
qed

lemma raises_analyze:
  assumes "query_errors env (an_pr_info an) E"
  shows "raises_in (insert ValueError E) (analyze_impact env an diffs statuses head completed changed)"
proof -
  have tests: "raises_in (insert ValueError E) (collect_affected ctx fs ts acc)"
    if "ic_env ctx = env" "ic_pr_info ctx = an_pr_info an" for ctx fs ts acc
  proof (induction ts arbitrary: acc)
    case (Cons e ts)
    obtain n t where e: "e = (n, t)" by (cases e)
    have "raises_in (impact_errors E) (check_test_impact ctx n t fs)"
      using raises_test_impact assms that by metis
    then show ?case using Cons unfolding e by (cases "check_test_impact ctx n t fs") auto
  qed simp
  have rels: "raises_in (insert ValueError E) (rel_all root ps)" for root ps
    by (induction root ps rule: rel_all.induct) (auto intro!: raises_bind raises_mono[OF raises_relative])
  have "raises_in (insert ValueError E) (analysis_context env an diffs statuses head changed)"
    using raises_mono[OF raises_context[OF assms]] by blast
  then show ?thesis
    unfolding analyze_impact_def
    by (intro raises_bind tests rels) (auto dest: analysis_context_queries)
qed

end
