(* ===== verification/Discovery.thy ===== *)
theory Discovery
  imports ImpactProps
begin

text \<open>
  The analyzer around the impact decision: running pytest, discovering the marked tests and
  their fixtures from its output or from the syntax trees, filling in the dependencies, and
  the list of changed files. Pytest, git and the directory scan are arguments.
\<close>

section \<open>Running pytest\<close>

datatype spawn = NotFound | TimedOut | Ran int string string \<comment> \<open>return code, output, error output\<close>

definition shell_metachars :: "char list" where
  "shell_metachars = [CHR '';'', CHR ''|'', CHR ''&'', CHR ''`'', CHR ''$'', CHR 0x0A, CHR 0x0D]"

definition args_clean :: "string list \<Rightarrow> bool" where
  "args_clean args = list_all (\<lambda>a. \<not> list_ex (\<lambda>c. c \<in> set a) shell_metachars) args"

definition run_pytest_command :: "(string list \<Rightarrow> spawn) \<Rightarrow> bool \<Rightarrow> string list \<Rightarrow> (int \<times> string) option" where
  "run_pytest_command run root_exists args =
     (if \<not> args_clean args then None
      else if \<not> root_exists then None
      else case run (''pytest'' # args) of
             Ran rc out err \<Rightarrow> Some (rc, out)
           | TimedOut \<Rightarrow> None
           | NotFound \<Rightarrow>
               (case run (''uv'' # ''run'' # ''pytest'' # args) of
                  Ran rc out err \<Rightarrow> Some (rc, out)
                | _ \<Rightarrow> None))"

section \<open>Tests from pytest's output\<close>

definition new_test :: "path \<Rightarrow> string \<Rightarrow> string \<Rightarrow> marked_test" where
  "new_test f name node_id =
     \<lparr>mt_file_path = f, mt_test_name = name, mt_node_id = node_id, dependencies = [],
      mt_fixtures = [], mt_symbol_imports = []\<rparr>"

definition collect_line :: "file_env \<Rightarrow> path \<Rightarrow> string \<Rightarrow> (string \<times> marked_test) list \<Rightarrow> (string \<times> marked_test) list" where
  "collect_line env repo_root raw tests =
     (let line = py_strip raw
      in if py_in ''::'' line \<and> \<not> startswith line '' '' then
           (let parts = py_split ''::'' line;
                file_path = path_div repo_root (hd parts)
            in if path_exists env file_path
               then AList.update line
                      (new_test file_path (if length parts > 1 then last parts else ''unknown'') line) tests
               else tests)
         else tests)"

definition collect_tests :: "file_env \<Rightarrow> path \<Rightarrow> string \<Rightarrow> (string \<times> marked_test) list \<Rightarrow> (string \<times> marked_test) list" where
  "collect_tests env repo_root out tests = fold (collect_line env repo_root) (splitlines out) tests"

section \<open>Tests from the syntax trees\<close>

text \<open>\<open>completed\<close> lists the test files of the directory in the order in which they are processed.\<close>

definition add_test :: "string \<times> string \<times> path \<Rightarrow> (string \<times> marked_test) list \<Rightarrow> (string \<times> marked_test) list" where
  "add_test e tests =
     (case e of (node_id, name, f) \<Rightarrow>
        if map_of tests node_id = None then AList.update node_id (new_test f name node_id) tests else tests)"

definition fallback_discover_marked_tests ::
    "file_env \<Rightarrow> path \<Rightarrow> string set \<Rightarrow> path list \<Rightarrow> (string \<times> marked_test) list \<Rightarrow> (string \<times> marked_test) list" where
  "fallback_discover_marked_tests env repo_root marker_names completed tests =
     (if path_exists env (path_div repo_root ''tests'')
      then fold add_test
             (concat (map (\<lambda>f. process_test_file_for_markers env f marker_names repo_root) completed)) tests
      else tests)"

section \<open>Fixtures from the setup plan\<close>

definition setup_re :: regex where
  "setup_re = RSeqs [RLit ''SETUP'', RPlus RSpace, RChar (\<lambda>c. c \<in> set ''FSM''), RPlus RSpace, RGroup 1 (RPlus RWord)]"

definition not_space_re :: regex where
  "not_space_re = RPlus (RChar (\<lambda>c. \<not> is_space c))"

definition warning_re :: regex where
  "warning_re = RSeqs [RChar (\<lambda>c. c = CHR '':''), RPlus RSpace,
     RGroup 1 (RSeqs [RLit ''tests/'', not_space_re, RLit ''::'', not_space_re])]"

record plan_state =
  fixture_usage :: "(string \<times> string set) list"
  current_fixtures :: "string set"
  fixture_count :: nat

definition assign_fixtures :: "(string \<times> marked_test) list \<Rightarrow> string \<Rightarrow> plan_state \<Rightarrow> plan_state" where
  "assign_fixtures tests node_id s =
     (if map_of tests node_id \<noteq> None
      then s\<lparr>fixture_usage := AList.update node_id (current_fixtures s) (fixture_usage s),
             fixture_count := fixture_count s + 1, current_fixtures := {}\<rparr>
      else s\<lparr>current_fixtures := {}\<rparr>)"

definition plan_step :: "(string \<times> marked_test) list \<Rightarrow> string \<Rightarrow> plan_state \<Rightarrow> plan_state" where
  "plan_step tests raw s =
     (let line = py_strip raw
      in if startswith line ''SETUP'' then
           (case re_search_group setup_re 1 line of
              Some f \<Rightarrow> s\<lparr>current_fixtures := insert f (current_fixtures s)\<rparr>
            | None \<Rightarrow> s)
         else if startswith line ''WARNING:'' \<and> py_in ''::'' line then
           (case re_search_group warning_re 1 line of
              Some node_id \<Rightarrow> assign_fixtures tests node_id s
            | None \<Rightarrow> s)
         else if py_in ''::'' line \<and> \<not> startswith line '' '' then
           assign_fixtures tests (py_strip (hd (py_split ''('' line))) s
         else s)"

definition try_pytest_setup_plan ::
    "(string list \<Rightarrow> (int \<times> string) option) \<Rightarrow> string \<Rightarrow> (string \<times> marked_test) list \<Rightarrow>
     (string \<times> string set) list \<Rightarrow> (string \<times> string set) list \<times> bool" where
  "try_pytest_setup_plan pytest marker_expr tests usage =
     (case pytest [''--setup-plan'', ''-m'', marker_expr, ''-q''] of
        None \<Rightarrow> (usage, False)
      | Some (rc, out) \<Rightarrow>
          if rc \<noteq> 0 \<and> rc \<noteq> 5 then (usage, False)
          else (let s = fold (plan_step tests) (splitlines out)
                          \<lparr>fixture_usage = usage, current_fixtures = {}, fixture_count = 0\<rparr>
                in (fixture_usage s, fixture_count s > 0)))"

definition discover_marked_tests ::
    "file_env \<Rightarrow> (string list \<Rightarrow> (int \<times> string) option) \<Rightarrow> path \<Rightarrow> string \<Rightarrow> path list \<Rightarrow>
     (string \<times> marked_test) list \<Rightarrow> (string \<times> string set) list \<Rightarrow>
     (string \<times> marked_test) list \<times> (string \<times> string set) list" where
  "discover_marked_tests env pytest repo_root marker_expr completed tests usage =
     (let fallback = fallback_discover_marked_tests env repo_root (extract_marker_names marker_expr) completed
      in case pytest [''--collect-only'', ''-q'', ''-m'', marker_expr] of
           None \<Rightarrow> (fallback tests, usage)
         | Some (rc, out) \<Rightarrow>
             (let found = collect_tests env repo_root out tests;
                  tests' = (if found = [] then fallback found else found)
              in (tests', fst (try_pytest_setup_plan pytest marker_expr tests' usage))))"

section \<open>Dependencies of all tests\<close>

definition find_conftest_files :: "file_env \<Rightarrow> path \<Rightarrow> path list \<Rightarrow> path list \<Rightarrow> path list" where
  "find_conftest_files env repo_root scanned before =
     (let found = (if path_exists env (path_div repo_root ''tests'') then scanned else before)
      in if path_exists env (path_div repo_root ''conftest.py'')
         then found @ [path_div repo_root ''conftest.py''] else found)"

text \<open>\<open>set.update\<close> on a set kept as a list: new elements in the order of their iteration.\<close>

definition update_list :: "'a list \<Rightarrow> 'a list \<Rightarrow> 'a list" where
  "update_list new xs = fold (\<lambda>x l. if x \<in> set l then l else l @ [x]) new xs"

lemma set_update_list: "set (update_list new xs) = set xs \<union> set new"
proof -
  have "set (fold (\<lambda>x l. if x \<in> set l then l else l @ [x]) new l) = set l \<union> set new" for l :: "'a list"
    by (induction new arbitrary: l) auto
  then show ?thesis by (simp add: update_list_def)
qed

definition fill_test ::
    "file_env \<Rightarrow> (path set \<Rightarrow> path list) \<Rightarrow> path \<Rightarrow> string set \<Rightarrow> (string \<times> string set) list \<Rightarrow>
     marked_test \<Rightarrow> marked_test" where
  "fill_test env iter repo_root marker_names usage t =
     (case analyze_single_test_dependencies env iter t repo_root marker_names of
        (deps, fixtures, sym_imports) \<Rightarrow>
          (let with_plan = (case map_of usage (mt_node_id t) of
                              None \<Rightarrow> fixtures | Some used \<Rightarrow> fixtures \<union> used)
           in t\<lparr>dependencies := update_list (iter deps) (dependencies t),
                mt_fixtures := update_list (sorted_list_of_set with_plan) (mt_fixtures t),
                mt_symbol_imports :=
                  fold (\<lambda>(p, syms). add_symbols p syms) sym_imports (mt_symbol_imports t)\<rparr>))"

definition analyze_dependencies ::
    "file_env \<Rightarrow> (path set \<Rightarrow> path list) \<Rightarrow> path \<Rightarrow> string set \<Rightarrow> (string \<times> string set) list \<Rightarrow>
     path list \<Rightarrow> (string \<times> marked_test) list \<Rightarrow> fixture_graph \<Rightarrow> (string \<times> marked_test) list \<times> fixture_graph" where
  "analyze_dependencies env iter repo_root marker_names usage completed tests g =
     (map (\<lambda>(n, t). (n, fill_test env iter repo_root marker_names usage t)) tests,
      build_fixture_dependency_graph env repo_root completed g)"

section \<open>Changed files\<close>

definition branch_char :: "char \<Rightarrow> bool" where
  "branch_char c = (is_ascii_alpha c \<or> is_digit c \<or> c \<in> set ''/_.-'')"

definition branch_re :: regex where
  "branch_re = RSeqs [RBegin, RPlus (RChar branch_char), REnd]"

text \<open>
  \<open>link\<close> tells the symbolic links among the given file names and \<open>abs_path\<close> resolves a name
  from the working directory; \<open>git_names\<close> is the output of \<open>git diff --name-only\<close>,
  \<^const>\<open>None\<close> when it fails.
\<close>

fun validated_files :: "file_env \<Rightarrow> (string \<Rightarrow> bool) \<Rightarrow> (string \<Rightarrow> path) \<Rightarrow> path \<Rightarrow> string list \<Rightarrow> path list" where
  "validated_files env link abs_path root [] = []"
| "validated_files env link abs_path root (s # ss) =
     (if link s then validated_files env link abs_path root ss
      else if \<not> path_exists env (abs_path s) then validated_files env link abs_path root ss
      else case relative_to (abs_path s) root of
             Inr _ \<Rightarrow> abs_path s # validated_files env link abs_path root ss
           | Inl _ \<Rightarrow> validated_files env link abs_path root ss)"

definition get_changed_files ::
    "file_env \<Rightarrow> (string \<Rightarrow> bool) \<Rightarrow> (string \<Rightarrow> path) \<Rightarrow> (string \<Rightarrow> string option) \<Rightarrow> path \<Rightarrow> string \<Rightarrow>
     string list \<Rightarrow> path list" where
  "get_changed_files env link abs_path git_names repo_root base_branch fs =
     (if fs \<noteq> [] then validated_files env link abs_path (path_resolve env repo_root) fs
      else if re_match branch_re base_branch = None then []
      else case git_names base_branch of
             None \<Rightarrow> []
           | Some out \<Rightarrow>
               map (\<lambda>l. path_div repo_root (py_strip l)) (filter (\<lambda>l. py_strip l \<noteq> []) (splitlines out)))"

section \<open>Properties\<close>

lemma validated_in_repo:
  "f \<in> set (validated_files env link abs_path root ss) \<Longrightarrow> prefix root f \<and> path_exists env f"
  by (induction ss)
     (auto split: if_splits sum.splits dest!: relative_to_Inr)

text \<open>The regular expression admits a final newline and otherwise only the listed characters.\<close>

lemma branch_re_chars:
  assumes "re_match branch_re s \<noteq> None"
  shows "\<exists>w. w \<noteq> [] \<and> list_all branch_char w \<and> (s = w \<or> s = w @ newline)"
proof (cases s)
  case Nil
  with assms show ?thesis by (simp add: re_match_def branch_re_def rmatch_plus_char)
next
  case (Cons c cs)
  have "concat (map (rmatch (RSeq REnd REmpty)) (rmatch (RPlus (RChar branch_char)) ([], s, []))) \<noteq> []"
  proof -
    have "rmatch branch_re ([], s, []) =
        concat (map (rmatch (RSeq REnd REmpty)) (rmatch (RPlus (RChar branch_char)) ([], s, [])))"
      by (simp add: branch_re_def)
    moreover have "rmatch branch_re ([], s, []) \<noteq> []" using assms by (auto simp: re_match_def)
    ultimately show ?thesis by argo
  qed
  then have "\<exists>st \<in> set (rmatch (RPlus (RChar branch_char)) ([], s, [])). rmatch (RSeq REnd REmpty) st \<noteq> []"
    unfolding concat_eq_Nil_conv set_map by blast
  then obtain pre suf g where m: "(pre, suf, g) \<in> set (rmatch (RPlus (RChar branch_char)) ([], s, []))"
    and e: "rmatch (RSeq REnd REmpty) (pre, suf, g) \<noteq> []"
    by (metis prod_cases3)
  have "at_end suf" using e by (auto split: if_splits)
  moreover have c: "branch_char c" "(pre, suf, g) \<in> set (run_states branch_char ([c], cs, []))"
    using m Cons by (auto simp: rmatch_plus_char split: if_splits)
  obtain w where "cs = w @ suf" "list_all branch_char w" using run_states_text[OF c(2)] by blast
  ultimately show ?thesis
    using Cons c(1) by (intro exI[of _ "c # w"]) (auto simp: at_end_def newline_def)
qed

lemma args_clean_iff:
  "args_clean args \<longleftrightarrow> (\<forall>a \<in> set args. \<forall>c \<in> set a. c \<notin> set shell_metachars)"
  by (auto simp: args_clean_def list_all_iff list_ex_iff)

section \<open>Names of collected tests\<close>

definition colon_free :: "string \<Rightarrow> bool" where
  "colon_free s = (CHR '':'' \<notin> set s)"

lemma partition_at_colons:
  "colon_free a \<Longrightarrow> partition_at ''::'' (a @ CHR '':'' # CHR '':'' # b) = Some (a, b)"
  by (induction a) (auto simp: colon_free_def)

lemma partition_at_none: "colon_free a \<Longrightarrow> partition_at ''::'' a = None"
  by (induction a) (auto simp: colon_free_def)

lemma split_node_id:
  assumes "colon_free p" "colon_free c" "colon_free m"
  shows "py_split ''::'' (p @ ''::'' @ c @ ''::'' @ m) = [p, c, m]"
    and "py_split ''::'' (c @ ''::'' @ m) = [c, m]"
  using assms
  by (simp_all add: py_split.simps[of _ "p @ _"] py_split.simps[of _ "c @ _"] py_split.simps[of _ m]
      partition_at_colons partition_at_none)

lemma in_node_id: "py_in ''::'' (c @ ''::'' @ m)"
  unfolding py_in_iff by (rule sublist_appendI)

lemma parse_method_name:
  assumes "colon_free c" "colon_free m" "CHR ''['' \<notin> set m"
  shows "parse_test_name (method_id c m) = (Some c, m)" and "parse_test_name m = (None, m)"
proof -
  have b: "\<not> py_in ''['' m" using assms(3) set_mono_sublist[of "''[''" m] by (auto simp: py_in_iff)
  show "parse_test_name (method_id c m) = (Some c, m)"
    using assms(1,2) b split_node_id(2)[of c c m] in_node_id[of c m]
    by (simp add: parse_test_name_def method_id_def)
  have "\<not> py_in ''::'' m" using assms(2) by (simp add: py_in_def partition_at_none)
  then show "parse_test_name m = (None, m)" using b by (simp add: parse_test_name_def)
qed

text \<open>A collected method: the recorded name is the last part of the node id, without its class.\<close>

lemma collect_method:
  assumes "colon_free p" "colon_free c" "colon_free m" "p \<noteq> []" "m \<noteq> []"
    and "\<not> is_space (hd p)" "\<not> is_space (last m)" "path_exists env (path_div root p)"
  shows "map_of (collect_line env root (p @ ''::'' @ c @ ''::'' @ m) tests) (p @ ''::'' @ c @ ''::'' @ m) =
     Some (new_test (path_div root p) m (p @ ''::'' @ c @ ''::'' @ m))"
proof -
  let ?l = "p @ ''::'' @ c @ ''::'' @ m"
  have "py_strip ?l = ?l" by (rule py_strip_no_space_ends) (use assms in auto)
  moreover have "\<not> startswith ?l '' ''" using assms(4,6) by (cases p) auto
  ultimately show ?thesis
    using assms(8) split_node_id(1)[OF assms(1-3)] in_node_id[of p "c @ ''::'' @ m"]
    by (simp add: collect_line_def Let_def update_conv)
qed

end
