(* ===== verification/AnalyzerMain.thy ===== *)
theory AnalyzerMain
  imports Discovery PrFiles
begin

text \<open>
  The two modes of the analyzer, its reports and its \<open>main\<close> (\<open>pytest_marker_analyzer.py\<close>): what a working
  directory shows to the analyzer is a \<open>session\<close>, GitHub and the git commands of a checkout are an
  environment. \<^const>\<open>None\<close> is a run that never ends, since the prefetch of the diffs has no limit.
\<close>

section \<open>Reports\<close>

text \<open>The texts of the matches; the dash of the third is written in UTF-8.\<close>

definition names_text :: "string list \<Rightarrow> string" where
  "names_text = py_join '', ''"

fun dep_text :: "dep_msg \<Rightarrow> string" where
  "dep_text (TestFileModified f) = f @ '' (test file modified)''"
| "dep_text (TestModified f ss) = f @ '' (test modified: '' @ names_text ss @ '')''"
| "dep_text (PluginsChanged f) = f @ '' (pytest_plugins changed '' @ [CHR 0xE2, CHR 0x80, CHR 0x94] @ '' structural)''"
| "dep_text (AffectedFixtures f ss) = f @ '' (fixtures: '' @ names_text ss @ '')''"
| "dep_text (FileLevel f) = f"
| "dep_text (ImportedSymbols f ss) = f @ '' (symbols: '' @ names_text ss @ '')''"
| "dep_text (ViaFixture f x) = f @ '' (via fixture: '' @ x @ '')''"
| "dep_text (OpaqueImport f c) = f @ '' (opaque import via '' @ c @ '')''"
| "dep_text (ViaFixtureCalls f x ss) = f @ '' (via fixture '' @ x @ '': '' @ names_text ss @ '')''"
| "dep_text (ViaIntermediate f i x ss) = f @ '' (via '' @ i @ '' -> fixture '' @ x @ '': '' @ names_text ss @ '')''"

definition bool_text :: "bool \<Rightarrow> string" where
  "bool_text b = (if b then ''True'' else ''False'')"

definition quoted :: "string \<Rightarrow> string" where
  "quoted s = ''`'' @ s @ ''`''"

definition affected_lines :: "affected_test \<Rightarrow> string list" where
  "affected_lines t =
     (let deps = map dep_text (at_dependencies t)
      in [''- '' @ quoted (at_node_id t), ''  - Test file: '' @ quoted (at_test_file t),
          ''  - Dependencies affected: '' @ show_nat (length deps)] @
         map (\<lambda>d. ''    - '' @ quoted d) (take 3 deps) @
         (if length deps > 3 then [''    - ... and '' @ show_nat (length deps - 3) @ '' more''] else []))"

definition format_markdown_output :: "analysis_result \<Rightarrow> string" where
  "format_markdown_output r =
     (let expression = ''marker expression '' @ quoted (marker_expression r)
      in py_join newline
           ([''## Test Execution Plan'', [],
             ''**Run tests with '' @ expression @ '': '' @ bool_text (should_run_tests r) @ ''**'', [],
             ''**Reason:** '' @ reason r, []] @
            (if affected_tests r = [] then []
             else [''### Affected tests with '' @ expression @ '':''] @ concat (map affected_lines (affected_tests r)) @ [[]]) @
            [''**Total tests with '' @ expression @ '':** '' @ show_nat (total_tests r),
             ''**Changed files:** '' @ show_nat (length (changed_files r))]))"

datatype report_value =
    RBool bool
  | RText string
  | RNat nat
  | RTexts "string list"
  | RTests "affected_test list"

definition format_json_output :: "analysis_result \<Rightarrow> (string \<times> report_value) list" where
  "format_json_output r =
     [(''should_run_tests'', RBool (should_run_tests r)), (''reason'', RText (reason r)),
      (''marker_expression'', RText (marker_expression r)), (''changed_files'', RTexts (changed_files r)),
      (''affected_tests'', RTests (affected_tests r)), (''total_tests'', RNat (total_tests r))]"

text \<open>
  A request to an external system. The payload is sent as JSON, as a form or as the query of the
  address; \<open>urlparse\<close> is an argument that gives the scheme and the host.
\<close>

datatype report_body = JsonBody "(string \<times> report_value) list" | FormBody "(string \<times> report_value) list" | QueryString "(string \<times> report_value) list"

record report_request =
  rr_url :: string
  rr_headers :: "(string \<times> string) list"
  rr_body :: report_body
  rr_method :: string

definition report_payload :: "analysis_result \<Rightarrow> string option \<Rightarrow> nat option \<Rightarrow> (string \<times> report_value) list" where
  "report_payload r repo pr =
     [(''should_run_tests'', RBool (should_run_tests r)), (''marker_expression'', RText (marker_expression r)),
      (''reason'', RText (reason r)), (''affected_tests_count'', RNat (length (affected_tests r))),
      (''total_tests'', RNat (total_tests r)), (''changed_files_count'', RNat (length (changed_files r)))] @
     (case pr of None \<Rightarrow> [] | Some n \<Rightarrow> [(''pr_number'', RNat n)]) @
     (case repo of None \<Rightarrow> [] | Some x \<Rightarrow> [(''repo'', RText x)])"

definition add_header :: "string \<Rightarrow> (string \<times> string) list \<Rightarrow> (string \<times> string) list" where
  "add_header line headers =
     (case partition_at '':'' line of None \<Rightarrow> headers | Some (name, v) \<Rightarrow> AList.update (py_strip name) (py_strip v) headers)"

definition report_headers :: "string option \<Rightarrow> string list \<Rightarrow> (string \<times> string) list" where
  "report_headers tok lines =
     fold add_header lines
       ([(''User-Agent'', ''pytest-marker-analyzer'')] @
        (case tok of Some (c # cs) \<Rightarrow> [(''Authorization'', ''Bearer '' @ c # cs)] | _ \<Rightarrow> []))"

definition report_to_external_system ::
    "(string \<Rightarrow> string \<times> string) \<Rightarrow> analysis_result \<Rightarrow> string \<Rightarrow> string \<Rightarrow> string option \<Rightarrow> string list \<Rightarrow> string option \<Rightarrow>
     nat option \<Rightarrow> report_request option" where
  "report_to_external_system urlparse r url format_type tok lines repo pr =
     (let (scheme, netloc) = urlparse url; payload = report_payload r repo pr; headers = report_headers tok lines
      in if scheme \<noteq> ''http'' \<and> scheme \<noteq> ''https'' then None
         else if netloc = [] then None
         else if format_type = ''json''
         then Some \<lparr>rr_url = url, rr_headers = AList.update ''Content-Type'' ''application/json'' headers,
                    rr_body = JsonBody payload, rr_method = ''POST''\<rparr>
         else if format_type = ''form''
         then Some \<lparr>rr_url = url, rr_headers = AList.update ''Content-Type'' ''application/x-www-form-urlencoded'' headers,
                    rr_body = FormBody payload, rr_method = ''POST''\<rparr>
         else if format_type = ''query''
         then Some \<lparr>rr_url = url, rr_headers = headers, rr_body = QueryString payload, rr_method = ''GET''\<rparr>
         else None)"

section \<open>Pull requests\<close>

text \<open>The fields of a pull request that are read, \<^const>\<open>None\<close> where the answer lacks one.\<close>

record pull_data =
  pd_base_ref :: "string option"
  pd_head_ref :: "string option"
  pd_head_sha :: "string option"
  pd_number :: "nat option"

datatype pr_answer =
    PrHttpFailure nat string error_body
  | PrConnectionFailure string
  | PrDecodeFailure string
  | PrTransferFailure
  | PrBrokenAnswer
  | PrUndecodableBody
  | PrData "nat option" pull_data

type_synonym pr_api = "string \<Rightarrow> int \<Rightarrow> string option \<Rightarrow> pr_answer"

definition required :: "'a option \<Rightarrow> 'a res" where
  "required x = (case x of None \<Rightarrow> Inl KeyError | Some v \<Rightarrow> Inr v)"

text \<open>The base branch, the head branch and the number.\<close>

definition get_pr_info :: "pr_api \<Rightarrow> string \<Rightarrow> int \<Rightarrow> string option \<Rightarrow> (string \<times> string \<times> nat) res" where
  "get_pr_info api repo pr tok =
     bind_res (validate_request repo pr) (\<lambda>_.
       case api repo pr tok of
         PrHttpFailure code err_reason body \<Rightarrow>
           Inl (handle_github_api_error code err_reason body (''PR '' @ repo @ ''#'' @ show_int pr))
       | PrConnectionFailure m \<Rightarrow> Inl (RuntimeError (''Failed to connect to GitHub API: '' @ m))
       | PrDecodeFailure m \<Rightarrow> Inl (RuntimeError (''Failed to parse GitHub API response: '' @ m))
       | PrTransferFailure \<Rightarrow> Inl OSError
       | PrBrokenAnswer \<Rightarrow> Inl HTTPException
       | PrUndecodableBody \<Rightarrow> Inl UnicodeDecodeError
       | PrData content_length d \<Rightarrow>
           if too_large content_length
           then Inl (too_large_error content_length ('' (max: '' @ show_nat MAX_RESPONSE_SIZE @ '')''))
           else bind_res (required (pd_base_ref d)) (\<lambda>base.
                bind_res (required (pd_head_ref d)) (\<lambda>head.
                bind_res (required (pd_number d)) (\<lambda>n. Inr (base, head, n)))))"

definition fetch_pr_head_sha :: "pr_api \<Rightarrow> pr_info \<Rightarrow> string option res" where
  "fetch_pr_head_sha api info =
     (case api (pi_repo info) (int (pr_number info)) (token info) of
        PrData _ d \<Rightarrow> Inr (pd_head_sha d)
      | PrBrokenAnswer \<Rightarrow> Inl HTTPException
      | PrUndecodableBody \<Rightarrow> Inl UnicodeDecodeError
      | _ \<Rightarrow> Inr None)"

section \<open>Checkout\<close>

datatype git_run =
    GitDone
  | GitExit nat string
  | GitKilled string string
  | GitTimeout
  | GitMissing
  | GitUndecodable \<comment> \<open>an output that is not text\<close>

text \<open>\<open>re.sub("://[^@]*@", "://<redacted>@", text)\<close>.\<close>

function redact :: "string \<Rightarrow> string" where
  "redact s =
     (case partition_at ''://'' s of
        None \<Rightarrow> s
      | Some (a, b) \<Rightarrow> (case partition_at ''@'' b of None \<Rightarrow> s | Some (_, c) \<Rightarrow> a @ ''://<redacted>@'' @ redact c))"
  by pat_completeness auto
termination
  by (relation "measure length") (auto dest!: partition_at_Some)

declare redact.simps [simp del]

definition command_text :: "string list \<Rightarrow> string" where
  "command_text cmd = ''Command '' @ [CHR 0x27] @ repr_list cmd @ [CHR 0x27]"

fun run_git :: "(string list \<Rightarrow> git_run) \<Rightarrow> (string list \<times> nat) list \<Rightarrow> unit res" where
  "run_git git [] = Inr ()"
| "run_git git ((cmd, seconds) # rest) =
     (case git cmd of
        GitDone \<Rightarrow> run_git git rest
      | GitExit code err \<Rightarrow>
          Inl (RuntimeError (''Git operation failed: '' @ command_text cmd @ '' returned non-zero exit status '' @ show_nat code @
                 ''.'' @ newline @ redact err))
      | GitKilled sig err \<Rightarrow>
          Inl (RuntimeError (''Git operation failed: '' @ command_text cmd @ '' died with '' @ sig @ ''.'' @ newline @ redact err))
      | GitTimeout \<Rightarrow>
          Inl (RuntimeError (''Git operation timed out: '' @ command_text cmd @ '' timed out after '' @ show_nat seconds @ '' seconds''))
      | GitMissing \<Rightarrow> Inl OSError
      | GitUndecodable \<Rightarrow> Inl UnicodeDecodeError)"

definition clone_url :: "string \<Rightarrow> string option \<Rightarrow> string" where
  "clone_url repo tok =
     (case tok of
        Some (c # cs) \<Rightarrow> ''https://x-access-token:'' @ (c # cs) @ ''@github.com/'' @ repo @ ''.git''
      | _ \<Rightarrow> ''https://github.com/'' @ repo @ ''.git'')"

definition checkout_pr :: "(string list \<Rightarrow> git_run) \<Rightarrow> string \<Rightarrow> int \<Rightarrow> path \<Rightarrow> string option \<Rightarrow> bool res" where
  "checkout_pr git repo pr workdir tok =
     bind_res (validate_repo_name repo) (\<lambda>_.
     bind_res (run_git git
       [([''git'', ''clone'', ''--depth=1'', clone_url repo tok, abs_str workdir], 300),
        ([''git'', ''-C'', abs_str workdir, ''fetch'', ''origin'', ''pull/'' @ show_int pr @ ''/head:pr-'' @ show_int pr], 120),
        ([''git'', ''-C'', abs_str workdir, ''checkout'', ''pr-'' @ show_int pr], 30)]) (\<lambda>_. Inr True))"

section \<open>Modes\<close>

text \<open>
  What a working directory shows: the files and git, the processes, the orders in which sets are gone
  through and threads finish, and what the command line names.
\<close>

record session =
  ss_env :: change_env
  ss_run :: "string list \<Rightarrow> spawn"
  ss_root :: path
  ss_root_exists :: bool
  ss_iter :: "path set \<Rightarrow> path list"
  ss_scanned :: "path list"
  ss_conftests :: "path list"
  ss_order :: "(string \<times> marked_test) list \<Rightarrow> (string \<times> marked_test) list"
  ss_link :: "string \<Rightarrow> bool"
  ss_abs_path :: "string \<Rightarrow> path"
  ss_git_names :: "string \<Rightarrow> string option"

definition found_tests :: "session \<Rightarrow> string \<Rightarrow> (string \<times> marked_test) list \<times> (string \<times> string set) list" where
  "found_tests s markers =
     discover_marked_tests (files (ss_env s)) (run_pytest_command (ss_run s) (ss_root_exists s)) (ss_root s) markers (ss_scanned s) [] []"

text \<open>The analyzer after the tests were discovered and their dependencies analyzed.\<close>

definition prepared_analyzer :: "session \<Rightarrow> string \<Rightarrow> string \<Rightarrow> pr_info option \<Rightarrow> bool \<Rightarrow> analyzer" where
  "prepared_analyzer s markers base info is_checkout =
     (let (tests, usage) = found_tests s markers;
          (filled, graph) = analyze_dependencies (files (ss_env s)) (ss_iter s) (ss_root s) (extract_marker_names markers) usage
                              (ss_conftests s) tests empty_graph
      in \<lparr>an_marker_expression = markers, an_repo_root = ss_root s, an_base_branch = base, an_pr_info = info,
          an_is_checkout = is_checkout, an_marked_tests = filled, an_graph = graph\<rparr>)"

definition impact_of ::
    "session \<Rightarrow> analyzer \<Rightarrow> (string \<times> string) list option \<Rightarrow> (string \<times> string) list option \<Rightarrow> string option \<Rightarrow> path list \<Rightarrow>
     analysis_result res" where
  "impact_of s an diffs statuses head changed =
     analyze_impact (ss_env s) an diffs statuses head (ss_order s (an_marked_tests an)) changed"

definition local_changes :: "session \<Rightarrow> string \<Rightarrow> string list \<Rightarrow> path list" where
  "local_changes s base fs = get_changed_files (files (ss_env s)) (ss_link s) (ss_abs_path s) (ss_git_names s) (ss_root s) base fs"

type_synonym mode_result = "analysis_result option \<times> int"

definition run_local_mode :: "session \<Rightarrow> string \<Rightarrow> string \<Rightarrow> string list \<Rightarrow> mode_result res" where
  "run_local_mode s markers base fs =
     (if fst (found_tests s markers) = [] then Inr (None, 1)
      else bind_res (impact_of s (prepared_analyzer s markers base None False) None None None (local_changes s base fs))
             (\<lambda>r. Inr (Some r, 0)))"

record github_env =
  gh_pulls :: pr_api
  gh_files :: page_api
  gh_git :: "string list \<Rightarrow> git_run"
  gh_workdir :: "path res" \<comment> \<open>the directory that is given or created for the checkout\<close>
  gh_clone :: session
  gh_here :: session

text \<open>Fetching the base branch may fail, but not time out.\<close>

definition fetch_base :: "(string list \<Rightarrow> git_run) \<Rightarrow> path \<Rightarrow> string \<Rightarrow> unit res" where
  "fetch_base git workdir base =
     (case git [''git'', ''-C'', abs_str workdir, ''fetch'', ''origin'', base @ '':'' @ base] of
        GitTimeout \<Rightarrow> Inl SubprocessError
      | GitMissing \<Rightarrow> Inl OSError
      | GitUndecodable \<Rightarrow> Inl UnicodeDecodeError
      | _ \<Rightarrow> Inr ())"

definition working_session :: "github_env \<Rightarrow> string \<Rightarrow> int \<Rightarrow> string option \<Rightarrow> bool \<Rightarrow> string \<Rightarrow> session res" where
  "working_session env repo pr tok is_checkout base =
     (if \<not> is_checkout then Inr (gh_here env)
      else bind_res (gh_workdir env) (\<lambda>workdir.
           bind_res (checkout_pr (gh_git env) repo pr workdir tok) (\<lambda>_.
           bind_res (fetch_base (gh_git env) workdir base) (\<lambda>_. Inr (gh_clone env)))))"

definition caught :: "py_error \<Rightarrow> bool" where
  "caught e = (case e of ValueError \<Rightarrow> True | UnicodeDecodeError \<Rightarrow> True | RuntimeError _ \<Rightarrow> True | _ \<Rightarrow> False)"

text \<open>
  The diff of a file that the prefetch lacks is asked for on the same pages. The search ends because the
  prefetch did (\<open>pr_file_diff_returns\<close>), so the last alternative is never taken.
\<close>

definition with_pr_diffs :: "page_api \<Rightarrow> session \<Rightarrow> session" where
  "with_pr_diffs api s =
     s\<lparr>ss_env := (ss_env s)\<lparr>pr_file_diff := (\<lambda>repo pr file_path tok.
         case get_pr_file_diff_of api repo (int pr) file_path tok of Some r \<Rightarrow> r | None \<Rightarrow> Inr [])\<rparr>\<rparr>"

definition github_analysis ::
    "github_env \<Rightarrow> string \<Rightarrow> int \<Rightarrow> string option \<Rightarrow> bool \<Rightarrow> string \<Rightarrow> session \<Rightarrow> string \<Rightarrow> string list \<Rightarrow> mode_result res option" where
  "github_analysis env repo pr tok is_checkout markers s base names =
     (if fst (found_tests s markers) = [] then Some (Inr (None, 1))
      else (let info = \<lparr>pi_repo = repo, pr_number = nat pr, token = tok\<rparr>
            in bind_run (prefetch_pr_diffs (gh_files env) repo pr tok) (\<lambda>(diffs, statuses).
               Some (bind_res (fetch_pr_head_sha (gh_pulls env) info) (\<lambda>head.
                 bind_res (impact_of (with_pr_diffs (gh_files env) s) (prepared_analyzer s markers base (Some info) is_checkout)
                    (Some diffs) (Some statuses) head (map (path_div (ss_root s)) names))
                 (\<lambda>r. Inr (Some r, 0)))))))"

definition run_github_mode ::
    "github_env \<Rightarrow> string option \<Rightarrow> int option \<Rightarrow> string option \<Rightarrow> bool \<Rightarrow> string \<Rightarrow> mode_result res option" where
  "run_github_mode env repo pr tok is_checkout markers =
     (case (repo, pr) of
        (Some x, Some n) \<Rightarrow>
          if x = [] \<or> n = 0 then Some (Inr (None, 1))
          else
            (let result =
               (case (bind_res (get_pr_info (gh_pulls env) x n tok) (\<lambda>(base, _, _).
                      bind_res (get_pr_changed_files (gh_files env) x n tok) (\<lambda>names.
                      bind_res (working_session env x n tok is_checkout base) (\<lambda>s. Inr (base, names, s))))) of
                  Inl e \<Rightarrow> Some (Inl e)
                | Inr (base, names, s) \<Rightarrow> github_analysis env x n tok is_checkout markers s base names)
             in (case result of
                   Some (Inl e) \<Rightarrow> if caught e then Some (Inr (None, 1)) else Some (Inl e)
                 | _ \<Rightarrow> result))
      | _ \<Rightarrow> Some (Inr (None, 1)))"

section \<open>The command line\<close>

record analyzer_args =
  aa_markers :: string
  aa_files :: "string list"
  aa_base :: string
  aa_repo :: "string option"
  aa_pr :: "int option"
  aa_token :: "string option"
  aa_checkout :: bool
  aa_output :: string
  aa_output_dir :: bool
  aa_report_url :: "string option"
  aa_report_format :: string
  aa_report_token :: "string option"
  aa_report_headers :: "string list"

datatype run_output = JsonText "(string \<times> report_value) list" | MarkdownText string

record main_result =
  mr_exit :: int
  mr_printed :: "run_output option"
  mr_file :: "string option" \<comment> \<open>the file written in the output directory\<close>
  mr_report :: "report_request option"

definition analysis_text :: "string \<Rightarrow> analysis_result \<Rightarrow> run_output" where
  "analysis_text fmt r = (if fmt = ''json'' then JsonText (format_json_output r) else MarkdownText (format_markdown_output r))"

text \<open>\<open>written\<close> tells whether the directory and the file could be written.\<close>

definition finish_run :: "(string \<Rightarrow> string \<times> string) \<Rightarrow> bool \<Rightarrow> analyzer_args \<Rightarrow> mode_result \<Rightarrow> main_result" where
  "finish_run urlparse written args result =
     (case result of
        (Some r, code) \<Rightarrow>
          if code \<noteq> 0 then \<lparr>mr_exit = code, mr_printed = None, mr_file = None, mr_report = None\<rparr>
          else (let out = Some (analysis_text (aa_output args) r);
                    file = (if aa_output args = ''json'' then ''marker_analysis.json'' else ''marker_analysis.md'')
                in if aa_output_dir args \<and> \<not> written then \<lparr>mr_exit = 1, mr_printed = out, mr_file = None, mr_report = None\<rparr>
                   else \<lparr>mr_exit = 0, mr_printed = out, mr_file = (if aa_output_dir args then Some file else None),
                          mr_report =
                            (case aa_report_url args of
                               Some (c # cs) \<Rightarrow>
                                 report_to_external_system urlparse r (c # cs) (aa_report_format args) (aa_report_token args)
                                   (aa_report_headers args) (aa_repo args) (map_option nat (aa_pr args))
                             | _ \<Rightarrow> None)\<rparr>)
      | (None, code) \<Rightarrow> \<lparr>mr_exit = code, mr_printed = None, mr_file = None, mr_report = None\<rparr>)"

definition analyzer_main :: "github_env \<Rightarrow> (string \<Rightarrow> string \<times> string) \<Rightarrow> bool \<Rightarrow> analyzer_args \<Rightarrow> main_result res option" where
  "analyzer_main env urlparse written args =
     bind_run (if aa_repo args \<noteq> None \<or> aa_pr args \<noteq> None
               then run_github_mode env (aa_repo args) (aa_pr args) (aa_token args) (aa_checkout args) (aa_markers args)
               else Some (run_local_mode (gh_here env) (aa_markers args) (aa_base args) (aa_files args)))
       (\<lambda>result. Some (Inr (finish_run urlparse written args result)))"

end
