(* ===== verification/AnalyzerProps.thy ===== *)
theory AnalyzerProps
  imports AnalyzerMain
begin

text \<open>
  Properties of whole runs of the analyzer: the printed verdict, what ends a run on a pull request, and
  what the error of a failed checkout shows.
\<close>

section \<open>The printed verdict\<close>

definition hits :: "impact_ctx \<Rightarrow> path list \<Rightarrow> (string \<times> marked_test) list \<Rightarrow> bool" where
  "hits ctx changed tests \<longleftrightarrow> (\<exists>(n, t) \<in> set tests. \<exists>f \<in> set changed. affects ctx t f)"

lemma impact_of_verdict:
  assumes "impact_of s an diffs statuses head changed = Inr r" "\<And>tests. set (ss_order s tests) = set tests"
  obtains ctx where "analysis_context (ss_env s) an diffs statuses head changed = Inr ctx"
    and "should_run_tests r \<longleftrightarrow> hits ctx (changed_set_of (ss_env s) changed) (an_marked_tests an)"
proof -
  from assms(1)[unfolded impact_of_def]
  obtain ctx where ctx: "analysis_context (ss_env s) an diffs statuses head changed = Inr ctx"
    and collected: "collect_affected ctx (changed_set_of (ss_env s) changed) (ss_order s (an_marked_tests an)) [] =
      Inr (affected_tests r)"
    and verdict: "should_run_tests r \<longleftrightarrow> affected_tests r \<noteq> []"
    by (rule analyze_impact_fields)
  let ?hit = "\<lambda>(n, t). \<exists>f \<in> set (changed_set_of (ss_env s) changed). affects ctx t f"
  have "map at_node_id (affected_tests r) = map fst (filter ?hit (ss_order s (an_marked_tests an)))"
    using collect_affected_nodes[OF collected] by (simp only: list.map append_Nil)
  from arg_cong[OF this, of "\<lambda>l. l = []"]
  have "affected_tests r \<noteq> [] \<longleftrightarrow> filter ?hit (ss_order s (an_marked_tests an)) \<noteq> []"
    by (simp only: map_is_Nil_conv)
  also have "\<dots> \<longleftrightarrow> (\<exists>e \<in> set (an_marked_tests an). ?hit e)" unfolding filter_empty_conv assms(2) by simp
  finally have "should_run_tests r \<longleftrightarrow> hits ctx (changed_set_of (ss_env s) changed) (an_marked_tests an)"
    using verdict unfolding hits_def by argo
  with ctx show ?thesis by (rule that)
qed

text \<open>
  C9. What a local run prints as JSON is the verdict on the tests it found: a test run is asked for exactly
  when some changed file affects some found test, and the run prints something exactly when it found a
  test.
\<close>

theorem local_run_verdict:
  assumes "aa_repo args = None" "aa_pr args = None" "aa_output args = ''json''"
    and "\<And>tests. set (ss_order (gh_here env) tests) = set tests"
    and "analyzer_main env urlparse written args = Some (Inr m)"
  shows "case mr_printed m of
       None \<Rightarrow> fst (found_tests (gh_here env) (aa_markers args)) = []
     | Some (JsonText entries) \<Rightarrow>
         fst (found_tests (gh_here env) (aa_markers args)) \<noteq> [] \<and>
         (let s = gh_here env; an = prepared_analyzer s (aa_markers args) (aa_base args) None False;
              changed = local_changes s (aa_base args) (aa_files args)
          in \<exists>ctx. analysis_context (ss_env s) an None None None changed = Inr ctx \<and>
               map_of entries ''should_run_tests'' =
                 Some (RBool (hits ctx (changed_set_of (ss_env s) changed) (an_marked_tests an))))
     | Some (MarkdownText _) \<Rightarrow> False"
proof (cases "fst (found_tests (gh_here env) (aa_markers args)) = []")
  case True
  then show ?thesis using assms(1,2,5) by (auto simp: analyzer_main_def run_local_mode_def bind_run_def finish_run_def)
next
  case False
  let ?s = "gh_here env"
  let ?an = "prepared_analyzer ?s (aa_markers args) (aa_base args) None False"
  obtain r where r: "impact_of ?s ?an None None None (local_changes ?s (aa_base args) (aa_files args)) = Inr r"
    and m: "m = finish_run urlparse written args (Some r, 0)"
    using assms(1,2,5) False
    by (cases "impact_of ?s ?an None None None (local_changes ?s (aa_base args) (aa_files args))")
      (auto simp: analyzer_main_def run_local_mode_def bind_run_def)
  have "mr_printed m = Some (JsonText (format_json_output r))"
    unfolding m using assms(3) by (simp add: finish_run_def analysis_text_def Let_def)
  moreover obtain ctx where "analysis_context (ss_env ?s) ?an None None None (local_changes ?s (aa_base args) (aa_files args)) = Inr ctx"
    and "should_run_tests r \<longleftrightarrow> hits ctx (changed_set_of (ss_env ?s) (local_changes ?s (aa_base args) (aa_files args))) (an_marked_tests ?an)"
    using impact_of_verdict[OF r assms(4)] by blast
  ultimately show ?thesis using False by (simp add: format_json_output_def Let_def)
qed

section \<open>Exceptions\<close>

definition api_errors :: "py_error set" where
  "api_errors = {ValueError, KeyError, OSError, HTTPException, UnicodeDecodeError} \<union> range RuntimeError"

lemma api_errors_simps [simp]:
  "ValueError \<in> api_errors" "KeyError \<in> api_errors" "OSError \<in> api_errors" "HTTPException \<in> api_errors"
  "UnicodeDecodeError \<in> api_errors" "RuntimeError m \<in> api_errors"
  by (simp_all add: api_errors_def)

lemma raises_validate_repo: "raises_in {ValueError} (validate_repo_name repo)"
  by (simp add: validate_repo_name_def)

lemma raises_validate: "raises_in {ValueError} (validate_request repo pr)"
  by (auto simp: validate_request_def intro!: raises_bind raises_validate_repo)

lemma raises_api_error [simp]: "handle_github_api_error c r b x \<in> api_errors" "too_large_error n t \<in> api_errors"
  by (simp_all add: handle_github_api_error_def too_large_error_def Let_def)

lemma raises_pr_info: "raises_in api_errors (get_pr_info api repo pr tok)"
  by (auto simp: get_pr_info_def required_def intro!: raises_bind raises_mono[OF raises_validate] split: pr_answer.splits option.splits)

lemma raises_changed_files: "raises_in api_errors (get_pr_changed_files api repo pr tok)"
proof -
  have "raises_in api_errors (changed_files_loop a c page acc)" for a c page acc
    by (induction a c page acc rule: changed_files_loop.induct)
      (subst changed_files_loop.simps, auto simp: Let_def split: answer.splits)
  then show ?thesis by (auto simp: get_pr_changed_files_def intro!: raises_bind raises_mono[OF raises_validate])
qed

lemma raises_git: "raises_in ({OSError, UnicodeDecodeError} \<union> range RuntimeError) (run_git git cmds)"
  by (induction cmds) (auto split: git_run.splits)

lemma raises_prefetch: "prefetch_pr_diffs api repo pr tok = Some r \<Longrightarrow> raises_in api_errors r"
proof -
  have loop: "raises_in api_errors r" if "prefetch_loop a page acc = Some r" for a page acc r
    using that by (rule prefetch_loop.raw_induct[rotated, where P = "\<lambda>_ _ _ r. raises_in api_errors r"])
      (auto simp: Let_def split: answer.splits if_splits)
  assume "prefetch_pr_diffs api repo pr tok = Some r"
  then show ?thesis
    using loop[of "api repo pr tok" 1 "([], [])" r] raises_validate[of repo pr]
    by (cases "validate_request repo pr") (auto simp: prefetch_pr_diffs_def)
qed

lemma raises_file_diff: "get_pr_file_diff_of api repo pr p tok = Some r \<Longrightarrow> raises_in api_errors r"
proof -
  have loop: "raises_in api_errors r" if "file_diff_loop a p page = Some r" for a page r
    using that by (rule file_diff_loop.raw_induct[rotated, where P = "\<lambda>_ _ _ r. raises_in api_errors r"])
      (auto split: answer.splits if_splits option.splits)
  assume "get_pr_file_diff_of api repo pr p tok = Some r"
  then show ?thesis
    using loop[of "api repo pr tok" 1 r] raises_validate[of repo pr]
    by (cases "validate_request repo pr") (auto simp: get_pr_file_diff_of_def)
qed

lemma raises_head_sha: "raises_in api_errors (fetch_pr_head_sha api info)"
  by (simp add: fetch_pr_head_sha_def split: pr_answer.split)

lemma raises_pr_impact: "raises_in api_errors (impact_of (with_pr_diffs api s) an diffs statuses head changed)"
proof -
  have "raises_in api_errors (pr_file_diff (ss_env (with_pr_diffs api s)) repo pr p tok)" for repo pr p tok
    using raises_file_diff[of api repo "int pr" p tok]
    by (cases "get_pr_file_diff_of api repo (int pr) p tok") (simp_all add: with_pr_diffs_def)
  then have "query_errors (ss_env (with_pr_diffs api s)) (an_pr_info an) api_errors" by (simp add: query_errors_def)
  from raises_analyze[OF this] show ?thesis unfolding impact_of_def by (simp add: insert_absorb)
qed

lemma raises_session:
  "raises_in {OSError} (gh_workdir env) \<Longrightarrow>
     raises_in ({ValueError, OSError, SubprocessError, UnicodeDecodeError} \<union> range RuntimeError) (working_session env repo pr tok co base)"
proof -
  have checkout: "raises_in ({ValueError, OSError, UnicodeDecodeError} \<union> range RuntimeError) (checkout_pr git repo pr workdir tok)"
    for git workdir
    unfolding checkout_pr_def by (intro raises_bind raises_mono[OF raises_validate_repo] raises_mono[OF raises_git] raises_simps(1)) auto
  have base: "raises_in {SubprocessError, OSError, UnicodeDecodeError} (fetch_base git workdir base)" for git workdir
    by (simp add: fetch_base_def split: git_run.splits)
  assume "raises_in {OSError} (gh_workdir env)"
  then show ?thesis
    by (auto simp: working_session_def intro!: raises_bind raises_mono[OF checkout] raises_mono[OF base] elim!: raises_mono)
qed

lemma raises_analysis:
  assumes "github_analysis env repo pr tok co markers s base names = Some r"
  shows "raises_in api_errors r"
proof (cases "fst (found_tests s markers) = []")
  case False
  show ?thesis
  proof (cases "prefetch_pr_diffs (gh_files env) repo pr tok")
    case None
    then show ?thesis using assms False by (simp add: github_analysis_def bind_run_def Let_def)
  next
    case (Some p)
    have "raises_in api_errors (bind_res (fetch_pr_head_sha api info) (\<lambda>head.
        bind_res (impact_of (with_pr_diffs (gh_files env) s) an d st head c) (\<lambda>r. Inr (Some r, 0::int))))" for api info an d st c
      by (intro raises_bind raises_head_sha raises_pr_impact raises_simps(1))
    then show ?thesis using assms False Some raises_prefetch[OF Some]
      by (cases p) (auto simp: github_analysis_def bind_run_def Let_def split: prod.splits)
  qed
qed (use assms in \<open>auto simp: github_analysis_def\<close>)

text \<open>A verdict comes with exit code 0, no verdict with exit code 1.\<close>

definition coherent :: "mode_result \<Rightarrow> bool" where
  "coherent m \<longleftrightarrow> (case m of (Some _, code) \<Rightarrow> code = 0 | (None, code) \<Rightarrow> code = 1)"

lemma coherent_analysis:
  assumes "github_analysis env repo pr tok co markers s base names = Some (Inr m)"
  shows "coherent m"
  using assms
  by (auto simp: github_analysis_def bind_run_def Let_def coherent_def bind_res_Inr_iff
      split: if_splits option.splits sum.splits prod.splits)

text \<open>
  C10. Whatever GitHub, git and the files answer, a run on a pull request that comes to an end has one of
  three outcomes: a verdict with exit code 0; no verdict and exit code 1; or an exception, and then it is
  a missing field of an answer, an answer that is cut short or not HTTP, an operating-system error
  (a missing program or directory, a connection that breaks or times out while an answer is read) or
  a fetch of the base branch that takes too long. So a wrong request, an error status of the API, an answer
  that is not JSON or not text and a failing git command do not escape the run.
\<close>

theorem github_run_outcomes:
  assumes "raises_in {OSError} (gh_workdir env)" "run_github_mode env repo pr tok co markers = Some outcome"
  shows "case outcome of
       Inl e \<Rightarrow> e \<in> {KeyError, OSError, SubprocessError, HTTPException}
     | Inr (verdict, code) \<Rightarrow> code = (if verdict = None then 1 else 0)"
proof (cases "\<exists>x n. repo = Some x \<and> pr = Some n \<and> \<not> (x = [] \<or> n = 0)")
  case False
  then have "outcome = Inr (None, 1)"
    using assms(2) by (auto simp: run_github_mode_def split: option.splits if_splits)
  then show ?thesis by simp
next
  case True
  then obtain x n where args: "repo = Some x" "pr = Some n" "\<not> (x = [] \<or> n = 0)" by blast
  let ?start = "bind_res (get_pr_info (gh_pulls env) x n tok) (\<lambda>(base, _, _).
      bind_res (get_pr_changed_files (gh_files env) x n tok) (\<lambda>names.
      bind_res (working_session env x n tok co base) (\<lambda>s. Inr (base, names, s))))"
  let ?E = "insert SubprocessError api_errors"
  have start: "raises_in ?E ?start"
    by (auto intro!: raises_bind raises_mono[OF raises_pr_info] raises_mono[OF raises_changed_files]
        raises_mono[OF raises_session[OF assms(1)]] split: prod.splits)
  define R where "R = (case ?start of Inl e \<Rightarrow> Some (Inl e)
        | Inr (base, names, s) \<Rightarrow> github_analysis env x n tok co markers s base names)"
  have run: "run_github_mode env repo pr tok co markers =
      (case R of Some (Inl e) \<Rightarrow> if caught e then Some (Inr (None, 1)) else Some (Inl e) | _ \<Rightarrow> R)"
    unfolding R_def using args by (simp add: run_github_mode_def Let_def)
  obtain result where "R = Some result" using assms(2) unfolding run by (cases R) simp_all
  moreover from this have
    whole: "outcome = (case result of Inl e \<Rightarrow> if caught e then Inr (None, 1) else Inl e | Inr m \<Rightarrow> Inr m)"
    using assms(2) unfolding run by (cases result) (auto split: if_splits sum.split)
  ultimately have result: "(case ?start of Inl e \<Rightarrow> Some (Inl e)
        | Inr (base, names, s) \<Rightarrow> github_analysis env x n tok co markers s base names) = Some result"
    unfolding R_def by blast
  have "raises_in ?E result \<and> (\<forall>m. result = Inr m \<longrightarrow> coherent m)"
  proof (cases ?start)
    case (Inl e)
    then show ?thesis using result start by auto
  next
    case (Inr t)
    obtain base names s where t: "t = (base, names, s)" by (cases t)
    have r: "github_analysis env x n tok co markers s base names = Some result" using result Inr t by simp
    have "raises_in ?E result" using raises_mono[OF raises_analysis[OF r], of ?E] by (simp add: subset_insertI)
    moreover have "coherent m" if "result = Inr m" for m using coherent_analysis[OF r[unfolded that]] .
    ultimately show ?thesis by simp
  qed
  then have E: "raises_in ?E result" and coherent: "\<And>m. result = Inr m \<Longrightarrow> coherent m" by simp_all
  show ?thesis
  proof (cases result)
    case (Inl e)
    then have "e \<in> ?E" using E by simp
    then show ?thesis unfolding whole Inl by (auto simp: caught_def api_errors_def)
  next
    case (Inr m)
    obtain verdict code where m: "m = (verdict, code)" by (cases m)
    show ?thesis using coherent[OF Inr] unfolding whole Inr m by (cases verdict) (simp_all add: coherent_def)
  qed
qed

section \<open>The token\<close>

definition plain_char :: "char \<Rightarrow> bool" where
  "plain_char c \<longleftrightarrow> is_printable c \<and> c \<notin> {CHR 0x22, CHR 0x27, CHR 0x5C}"

lemma repr_plain: "list_all plain_char s \<Longrightarrow> q \<in> {CHR 0x22, CHR 0x27} \<Longrightarrow> concat (map (repr_char q) s) = s"
  by (induction s) (auto simp: repr_char_def plain_char_def is_printable_def)

lemma sublist_repr:
  assumes "list_all plain_char t"
  shows "sublist t (py_repr (a @ t @ b))"
proof -
  let ?s = "a @ t @ b"
  obtain q where q: "q \<in> {CHR 0x22, CHR 0x27}" "py_repr ?s = [q] @ concat (map (repr_char q) ?s) @ [q]"
    by (simp add: py_repr_def Let_def)
  have "py_repr ?s = ([q] @ concat (map (repr_char q) a)) @ t @ (concat (map (repr_char q) b) @ [q])"
    unfolding q(2) by (simp add: repr_plain[OF assms q(1)])
  then show ?thesis unfolding sublist_def by blast
qed

lemma sublist_join: "x \<in> set xs \<Longrightarrow> sublist x (py_join sep xs)"
proof (induction xs)
  case (Cons y xs)
  have "sublist x (a @ s)" if "sublist x s" for a s :: string using that by (auto simp: sublist_def) (metis append.assoc)
  then show ?case using Cons by (cases xs) (auto simp: py_join_Cons)
qed simp

text \<open>
  C39. When cloning fails, the message of the exception, which is logged, shows the token of the address,
  although the error output of git is redacted.
\<close>

theorem clone_failure_shows_token:
  assumes "validate_repo_name repo = Inr ()" "secret \<noteq> []" "list_all plain_char secret"
    and "git [''git'', ''clone'', ''--depth=1'', clone_url repo (Some secret), abs_str workdir] = GitExit code err"
  shows "\<exists>msg. checkout_pr git repo pr workdir (Some secret) = Inl (RuntimeError msg) \<and> py_in secret msg"
proof -
  let ?cmd = "[''git'', ''clone'', ''--depth=1'', clone_url repo (Some secret), abs_str workdir]"
  let ?msg = "''Git operation failed: '' @ command_text ?cmd @ '' returned non-zero exit status '' @ show_nat code @ ''.'' @ newline @ redact err"
  have msg: "?msg = (''Git operation failed: '' @ ''Command '' @ [CHR 0x27]) @ repr_list ?cmd @
      ([CHR 0x27] @ '' returned non-zero exit status '' @ show_nat code @ ''.'' @ newline @ redact err)"
    unfolding command_text_def append_assoc by (rule refl)
  have "clone_url repo (Some secret) = ''https://x-access-token:'' @ secret @ ''@github.com/'' @ repo @ ''.git''"
    using assms(2) by (cases secret) (simp_all add: clone_url_def)
  then have "sublist secret (py_repr (clone_url repo (Some secret)))" using sublist_repr[OF assms(3)] by metis
  also have "sublist (py_repr (clone_url repo (Some secret))) (py_join '', '' (map py_repr ?cmd))"
    by (rule sublist_join) simp
  also have "sublist (py_join '', '' (map py_repr ?cmd)) (repr_list ?cmd)"
    unfolding repr_list_def by (rule sublist_appendI)
  also have "sublist (repr_list ?cmd) ?msg" unfolding msg by (rule sublist_appendI)
  finally have "py_in secret ?msg" by (simp add: py_in_iff)
  then show ?thesis using assms(1,4) by (simp add: checkout_pr_def)
qed

theorem clone_failure_shows_token_witness:
  "\<exists>msg. checkout_pr (\<lambda>_. GitExit 128 ''fatal'') ''a/b'' 1 [''w''] (Some ''s3cret'') = Inl (RuntimeError msg) \<and> py_in ''s3cret'' msg"
proof (rule clone_failure_shows_token[where code = 128 and err = "''fatal''"])
  show "validate_repo_name ''a/b'' = Inr ()" by code_simp
  show "list_all plain_char ''s3cret''" by code_simp
qed simp_all

section \<open>Samples\<close>

definition sample_session :: session where
  "sample_session =
     \<lparr>ss_env = \<lparr>files = \<lparr>read_text = (\<lambda>_. None), ast_parse = (\<lambda>_. None), path_exists = (\<lambda>_. True), path_resolve = (\<lambda>p. p)\<rparr>,
        git_show = (\<lambda>_ _. Completed 1 [] []), git_diff = (\<lambda>_ _ _. Completed 1 [] []), contents_api = (\<lambda>_ _ _ _. FetchFailed),
        pr_file_diff = (\<lambda>_ _ _ _. Inr [])\<rparr>,
      ss_run = (\<lambda>_. Ran 0 ''tests/test_a.py::test_a'' []), ss_root = [''repo''], ss_root_exists = True, ss_iter = (\<lambda>_. []),
      ss_scanned = [], ss_conftests = [], ss_order = (\<lambda>tests. tests), ss_link = (\<lambda>_. False), ss_abs_path = (\<lambda>_. []),
      ss_git_names = (\<lambda>_. None)\<rparr>"

definition sample_github :: github_env where
  "sample_github =
     \<lparr>gh_pulls = (\<lambda>_ _ _. PrData None \<lparr>pd_base_ref = None, pd_head_ref = None, pd_head_sha = None, pd_number = None\<rparr>),
      gh_files = (\<lambda>_ _ _ _. Page None []), gh_git = (\<lambda>_. GitDone), gh_workdir = Inr [''w''], gh_clone = sample_session,
      gh_here = sample_session\<rparr>"

definition sample_args :: analyzer_args where
  "sample_args =
     \<lparr>aa_markers = ''smoke'', aa_files = [], aa_base = ''main'', aa_repo = None, aa_pr = None, aa_token = None, aa_checkout = False,
      aa_output = ''json'', aa_output_dir = False, aa_report_url = None, aa_report_format = ''json'', aa_report_token = None,
      aa_report_headers = []\<rparr>"

theorem github_run_outcomes_witness:
  "\<exists>e. run_github_mode sample_github (Some ''a/b'') (Some 1) None False ''smoke'' = Some (Inl e) \<and>
     e \<in> {KeyError, OSError, SubprocessError, HTTPException}"
proof -
  have "validate_repo_name ''a/b'' = Inr ()" by code_simp
  then have run: "run_github_mode sample_github (Some ''a/b'') (Some 1) None False ''smoke'' = Some (Inl KeyError)"
    by (simp add: run_github_mode_def get_pr_info_def validate_request_def sample_github_def too_large_def required_def caught_def)
  have "raises_in {OSError} (gh_workdir sample_github)" by (simp add: sample_github_def)
  from github_run_outcomes[OF this run] run show ?thesis by simp
qed

lemma no_changes: "collect_affected ctx [] tests acc = Inr acc"
  by (induction ctx "[] :: path list" tests acc rule: collect_affected.induct) (simp_all add: check_test_impact_def)

lemma no_changed_files: "\<exists>ctx. analysis_context env an diffs statuses head [] = Inr ctx"
  by (simp add: analysis_context_def impact_context_def changed_set_of_def Let_def)

lemma sample_found: "fst (found_tests sample_session ''smoke'') \<noteq> []"
  by code_simp

lemma sample_changes: "local_changes sample_session ''main'' [] = []"
  by (simp add: local_changes_def get_changed_files_def sample_session_def)

theorem local_run_verdict_witness:
  "\<exists>m entries. analyzer_main sample_github (\<lambda>_. ([], [])) True sample_args = Some (Inr m) \<and>
     mr_printed m = Some (JsonText entries) \<and> map_of entries ''should_run_tests'' = Some (RBool False)"
proof -
  have "\<exists>r. run_local_mode sample_session ''smoke'' ''main'' [] = Inr (Some r, 0)"
    using sample_found sample_changes
      no_changed_files[of "ss_env sample_session" "prepared_analyzer sample_session ''smoke'' ''main'' None False" None None None]
    by (auto simp: run_local_mode_def impact_of_def analyze_impact_def changed_set_of_def no_changes)
  then obtain m where m: "analyzer_main sample_github (\<lambda>_. ([], [])) True sample_args = Some (Inr m)"
    by (auto simp: analyzer_main_def sample_args_def sample_github_def bind_run_def)
  have order: "\<And>tests. set (ss_order (gh_here sample_github) tests) = set tests" by (simp add: sample_github_def sample_session_def)
  have "aa_repo sample_args = None" "aa_pr sample_args = None" "aa_output sample_args = ''json''" by (simp_all add: sample_args_def)
  from local_run_verdict[OF this order m] sample_found sample_changes m show ?thesis
    by (auto simp: sample_args_def sample_github_def Let_def changed_set_of_def hits_def split: option.splits run_output.splits)
qed

end
