(* ===== verification/Spec2Isabelle.thy ===== *)
theory Spec2Isabelle
  imports BasicsProps StdProps MainProps PlaceholderStats QuarantineProps DecisionProps AnalyzerProps PolicyProps ReviewRetry
begin

text \<open>
  The repository holds the end-to-end tests of OpenShift Virtualization and the tools that
  its continuous integration runs over them. This library models six of these tools:
  \<^item> the analyzer that decides which tests a pull request affects,
    \<^verbatim>\<open>src/scripts/tests_analyzer/pytest_marker_analyzer.py\<close>;
  \<^item> the commit hook that checks staged changes against the policies of the repository,
    \<^verbatim>\<open>src/scripts/pre_commit_hooks\<close>;
  \<^item> the job that asks for a review again after a rate limit,
    \<^verbatim>\<open>src/scripts/coderabbit_retry/coderabbit_retry.py\<close>;
  \<^item> the comparison of the analyzer's decisions with those of a review bot,
    \<^verbatim>\<open>src/scripts/tests_analyzer/compare_coderabbit_decisions.py\<close>;
  \<^item> the scan for quarantined tests, \<^verbatim>\<open>src/scripts/quarantine_stats/generate_dashboard.py\<close>;
  \<^item> the statistics of placeholder tests, \<^verbatim>\<open>src/scripts/std_placeholder_stats/std_placeholder_stats.py\<close>.

  \<^bold>\<open>The analyzer.\<close> The analyzer is given a marker expression and the changed files of a pull
  request. It collects the tests that carry one of the markers, records for each test the files
  it depends on, the names it imports and the fixtures it uses, classifies the symbols that each
  changed file modified or added, and reports a test when one of the changes can reach it.
  Every file is read and parsed by Python's \<^verbatim>\<open>ast\<close>; the diffs come from git or from GitHub.

  \<^bold>\<open>The policy hook.\<close> The hook reads the staged entries, the tracked files and the added lines of
  every staged file from git once (\<^verbatim>\<open>check_policy.py\<close>), and hands them to families of checks:
  staged paths, suppression comments against a manifest of reviewed exceptions
  (\<^verbatim>\<open>check_linter_directives.py\<close>), Python sources, test descriptions
  (\<^verbatim>\<open>check_test_std.py\<close>), and links to design documents (\<^verbatim>\<open>check_stp_links.py\<close>). The check of a
  source builds the scopes of the module, resolves names through imports and aliases, and looks for
  skipped tests, dynamic clients, resource calls without a client
  (\<^verbatim>\<open>check_resource_clients.py\<close>) and violations of basic rules (\<^verbatim>\<open>check_test_basics.py\<close>); a second
  entry point runs a part of the rules over whole files (\<^verbatim>\<open>check_banned.py\<close>).
  A family that cannot decide must report, since a silent one would let a change pass.

  \<^bold>\<open>The retry job.\<close> For every open pull request the job asks a tool whether the review bot is rate
  limited and until when, and posts a request when the limit is over and nobody has asked since.

  \<^bold>\<open>The comparison.\<close> For every open pull request the tool reads all comments and reviews, takes the
  first decision of the bot in them, runs the analyzer and reports agreement or disagreement.

  \<^bold>\<open>The scans.\<close> Both go over the test files of a directory. The first checks out the branches of two
  repositories one after the other and looks for quarantine decorators in the text above every
  test; the second looks for tests that \<^verbatim>\<open>__test__ = False\<close> disables.

  \<^bold>\<open>Library models.\<close> \<open>PyStr\<close>, \<open>PyRegex\<close>, \<open>PyPath\<close> and \<open>PyAst\<close> model what the code uses of
  Python: string methods, a backtracking matcher for the regular expressions with greedy
  repetition and groups, paths as lists of parts, and syntax trees with \<open>iter_child_nodes\<close> and
  \<open>walk\<close>. \<open>SourceFiles\<close> holds the file system and \<^verbatim>\<open>ast.parse\<close> as a record of functions,
  and \<open>SymbolMap\<close> the processes and HTTP requests (\<open>change_env\<close>): these are
  parameters of the model. \<open>Prelude\<close> has the error type, the bind of the result type
  and the locale \<open>closure\<close>, the contract of the graph computations.

  \<^bold>\<open>Components of the analyzer.\<close>
  \<^item> \<open>MarkerDetect\<close>: marker expressions, decorators and the tests of a module
    (\<^verbatim>\<open>extract_marker_names\<close> to \<^verbatim>\<open>_process_test_file_for_markers\<close>), repository names.
    The listed tests are those of the declarative predicate \<open>carries_marker\<close>; the two extractors agree.
  \<^item> \<open>PrFiles\<close>: the paged GitHub queries, with error statuses, failed transfers, broken and undecodable
    answers. Completeness up to the limit against a paging server; the prefetch has no limit and does
    not return on an endless answer; where it returns, the query for one file does.
  \<^item> \<open>Visitors\<close>, \<open>ImportResolve\<close>, \<open>TestDeps\<close>: the visitors, the resolution of imports and the
    dependencies of a test. The recorded names and files are characterised exactly.
  \<^item> \<open>FixtureGraph\<close>: the fixture closures and the member closure of a class, each an
    interpretation of \<open>closure\<close>, and the merge of the conftest files in completion order.
  \<^item> \<open>DiffParse\<close>: the readers of unified diffs, related to a printer of diffs.
  \<^item> \<open>SymbolMap\<close>, \<open>ModifiedSymbols\<close>: line ranges of symbols, base versions, and the
    classification of changed symbols: partition against the line ranges of the definitions, soundness
    of newness, when it gives up. Exceptions of the queries are values of the result type.
  \<^item> \<open>TestLookup\<close>, \<open>ImpactCheck\<close>, \<open>ImpactProps\<close>: the decision for one test and one changed
    file (\<^verbatim>\<open>_check_test_impact\<close>), exactly when it affects the test and which exceptions it lets through, and
    the verdict.
  \<^item> \<open>Discovery\<close>: the methods of \<^verbatim>\<open>MarkerTestAnalyzer\<close> that collect tests, fixtures and
    changed files.
  \<^item> \<open>AnalyzerMain\<close>, \<open>AnalyzerProps\<close>: the query of the pull request, the checkout, both modes, the reports and
    \<^verbatim>\<open>main\<close>. What a working directory shows is a \<open>session\<close>. The printed verdict of a local run, the outcomes
    of a run on a pull request (verdict, exit code or exception), and the token in the error of a failed clone.

  \<^bold>\<open>Components of the policy hook.\<close>
  \<^item> \<open>StagedDiff\<close>: git's quoting of paths, diff headers, the added lines of every file and the
    NUL-separated records, each related to a printer of the same format. Paths are their
    file-system bytes.
  \<^item> \<open>PolicyTypes\<close>: violations, arguments and reports (\<^verbatim>\<open>policy_types.py\<close>).
  \<^item> \<open>StagedState\<close>: the staged state and the caching reader of tracked modules; the command runner
    is a parameter. New sources are never checked on no line; the cache answers as git would.
  \<^item> \<open>LinterDirectives\<close>, \<open>LinterProps\<close>: suppressions and the exception manifest. Tokenizer, parser,
    TOML reader, URL parser and hash are parameters (\<open>lint_env\<close>). The loops that withdraw from
    a counter interpret the locale \<open>withdrawal\<close>, whose lemmas give the exact multisets reported.
  \<^item> \<open>PolicyChecks\<close>, \<open>PolicyProps\<close>: the families over paths, suppressions and links, and their
    properties.
  \<^item> \<open>SrcTree\<close>: the syntax trees of the source checks, whose nodes have an identity and a position.
  \<^item> \<open>ScopeBuilder\<close>, \<open>ScopeInvariant\<close>: \<^verbatim>\<open>_ScopeBuilder\<close> with its visitor for every kind of statement,
    and the invariant of its state.
  \<^item> \<open>ScopeResolve\<close>, \<open>ScopeSound\<close>: the bindings and resolved names of a reference. A big-step
    semantics (\<open>exec\<close>) of the straight-line code of a module (assignments to names, expression statements,
    imports, both branches of \<open>if\<close>, headers of functions and classes, stopping anywhere) gives the bindings
    that a reference can read; all of them are among the recorded ones. Loops, \<open>try\<close>, \<open>with\<close> and the bodies
    of functions and classes are analysed by \<open>ScopeBuilder\<close> but not executed by this semantics; for loops
    and the bodies of classes the analysis does miss bindings.
  \<^item> \<open>SourceChecks\<close>, \<open>SourceProps\<close>: forbidden calls, decorators and \<open>pytestmark\<close> values. What denotes
    a forbidden name in an execution of straight-line code is reported; fewer added lines never report more.
  \<^item> \<open>AstNames\<close>, \<open>TestBasics\<close>, \<open>BannedChecks\<close>, \<open>BasicsProps\<close>: names by syntax alone, the basic
    rules and the checks of whole files. Folded constants are values within limits, the coverage by
    a marker is exact, and a successful run leaves no banned construct (asynchronous ones outside the
    type parameters of functions, which the visitor passes by).
  \<^item> \<open>ResourceClients\<close>, \<open>ResourceProps\<close>: resource classes, an interpretation of \<open>closure\<close>; the
    search over modules, which ends and misses none; resource calls and comments of the cached
    client, whose comparison with HEAD interprets \<open>withdrawal\<close>.
  \<^item> \<open>TestStd\<close>, \<open>StdProps\<close>: docstrings, marker roots and states of tests, the comparison with HEAD, and
    the life of a test over a history of commits that pass.
  \<^item> \<open>PolicyMain\<close>, \<open>MainProps\<close>: the checks of a source and a file, and \<^verbatim>\<open>main\<close>. Every run ends; a
    forbidden call in straight-line code on an added line stops the commit.

  \<^bold>\<open>The retry job\<close> is \<open>ReviewRetry\<close>: the tool, the JSON and date readers, the clock and the GitHub
  client are an environment (\<open>retry_env\<close>), times are exact rationals, and the state is the list of
  posted comments; of the client's failures only those it reports itself are modelled. When a request is
  posted, that it is not repeated, and the bound on one run.

  \<^bold>\<open>The comparison\<close> is \<open>DecisionCompare\<close> with \<open>DecisionProps\<close>; GitHub, git and the analyzer's process are
  an environment (\<open>compare_env\<close>). A decision in one of the documented forms is read as printed, wherever it
  stands in the comment; against paging servers the tool ends and misses no comment.

  \<^bold>\<open>The scans\<close> are \<open>Quarantine\<close> with \<open>QuarantineProps\<close>, and \<open>PlaceholderStats\<close>. Git and the files are
  an environment (\<open>dashboard_env\<close>) whose answers depend on the branch that is checked out. A
  quarantine among decorators as the formatter lays them out directly above a test is found, totals add
  up, branches are ordered as numbers; the collected tests are exactly those that an assignment of False
  to \<^verbatim>\<open>__test__\<close> concerns, and the totals are those of what is listed.

  \<^bold>\<open>Bounds and fuel.\<close> The loops over fixtures, members and pages with a limit are total
  functions with a measure. The page loops without a limit are partial functions whose
  value is \<open>None\<close> when they do not return, and so is the search over imported modules, which is
  shown to return when finitely many modules have a source. The conftest search and the import levels carry the
  iteration bounds of the code (100 and 2).

  \<^bold>\<open>Parallel work.\<close> The thread pools only read; their results are merged in the order in which
  they arrive, which is an argument of the model.

  \<^bold>\<open>Order of sets.\<close> Where the code goes over a set, the model takes the sorted order; the results
  are sorted afterwards or compared as sets.

  \<^bold>\<open>Not modelled.\<close> The parsing of command lines and the printing of JSON; the tables, the page, the cloning and the command line of the quarantine scan; the
  ReportPortal tools, which upload results; logging; the tests themselves and the utilities they
  use, which act on a live cluster.
\<close>

section \<open>Sample values for the witnesses\<close>

definition sample_root :: path where "sample_root = [''repo'']"

definition sample_test :: marked_test where
  "sample_test =
     \<lparr>mt_file_path = [''repo'', ''tests'', ''test_a.py''], mt_test_name = ''test_x'',
      mt_node_id = ''tests/test_a.py::test_x'',
      dependencies = [[''repo'', ''tests'', ''test_a.py''], [''repo'', ''tests'', ''conftest.py''], [''repo'', ''lib.py'']],
      mt_fixtures = [''vm''], mt_symbol_imports = [([''repo'', ''lib.py''], {''Helper''})]\<rparr>"

definition sample_env :: change_env where
  "sample_env =
     \<lparr>files = env_of_files
        [([''repo'', ''tests'', ''conftest.py''], ''conftest'',
          Module [FunctionDef (2, Some 3) ''ns'' (Arguments [] [] [] [] [] [] []) [] [Name (1, Some 1) ''fixture''] []])], git_show = (\<lambda>_ _. RunFailed), git_diff = (\<lambda>_ _ _. RunFailed),
      contents_api = (\<lambda>_ _ _ _. FetchFailed), pr_file_diff = (\<lambda>_ _ _ _. Inr [])\<rparr>"

definition sample_fixtures :: "(string \<times> fixture) list" where
  "sample_fixtures =
     [(''vm'', \<lparr>fx_name = ''vm'', fx_file_path = [''repo'', ''tests'', ''conftest.py''],
         fixture_deps = [''ns''], function_calls = {''create_vm''}\<rparr>),
      (''ns'', \<lparr>fx_name = ''ns'', fx_file_path = [''repo'', ''tests'', ''conftest.py''],
         fixture_deps = [], function_calls = {}\<rparr>)]"

definition sample_ctx :: "symbols_cache \<Rightarrow> impact_ctx" where
  "sample_ctx cache =
     \<lparr>ic_env = sample_env, ic_repo_root = sample_root, ic_fixtures = sample_fixtures,
      ic_base_branch = ''main'', ic_pr_info = None, ic_cache = cache, ic_conftest_symbols = [],
      ic_conftest_opaque = [], ic_diffs_cache = None, ic_statuses = None,
      ic_is_checkout = False, ic_head_ref = None\<rparr>"

lemmas samples = sample_root_def sample_test_def sample_env_def sample_fixtures_def sample_ctx_def

section \<open>The impact decision\<close>

text \<open>
  C1. With all paths inside the repository, the check of a test has one of two outcomes. It returns: it then
  reports the test exactly when one of the changed files affects it, and a reported test carries its
  node id and at least one reason. Or it raises: then the run is on a pull request, one of the changed
  files is a conftest among the test's dependencies, and the exception is one that the queries about
  that conftest raised and its handler does not name.
\<close>

theorem impact_decision:
  assumes "paths_in_repo ctx t"
  shows "(\<exists>r. check_test_impact ctx n t fs = Inr r \<and>
       (r \<noteq> None \<longleftrightarrow> (\<exists>f \<in> set fs. affects ctx t f)) \<and>
       (\<forall>a. r = Some a \<longrightarrow> at_node_id a = n \<and> at_dependencies a \<noteq> [])) \<or>
     (\<exists>e. check_test_impact ctx n t fs = Inl e \<and> ic_pr_info ctx \<noteq> None \<and>
       e \<notin> {SyntaxError, UnicodeDecodeError, OSError, SubprocessError} \<and>
       (\<exists>f \<in> set fs. f \<noteq> mt_file_path t \<and> path_name f = ''conftest.py'' \<and> f \<in> set (dependencies t) \<and>
          conftest_items ctx f = Inl e))"
proof (cases "check_test_impact ctx n t fs")
  case (Inl e)
  then obtain f where f: "f \<in> set fs" "asks_conftest ctx t f" "conftest_items ctx f = Inl e"
    using check_test_impact_raises[OF assms] by blast
  then show ?thesis using Inl conftest_items_raises[OF f(3)] by (auto simp: handled_def asks_conftest_def)
next
  case (Inr r)
  show ?thesis
  proof (cases r)
    case None
    then show ?thesis using Inr check_test_impact_None[of ctx n t fs] by blast
  next
    case (Some a)
    then show ?thesis using Inr check_test_impact_Some[of ctx n t fs a] by auto
  qed
qed

theorem impact_decision_witness:
  "\<exists>r. check_test_impact (sample_ctx []) ''id'' sample_test [[''repo'', ''tests'', ''test_a.py'']] = Inr r \<and>
     (r \<noteq> None \<longleftrightarrow> (\<exists>f \<in> set [[''repo'', ''tests'', ''test_a.py'']]. affects (sample_ctx []) sample_test f)) \<and>
     (\<forall>a. r = Some a \<longrightarrow> at_node_id a = ''id'' \<and> at_dependencies a \<noteq> [])"
proof -
  have "paths_in_repo (sample_ctx []) sample_test" by (simp add: samples paths_in_repo_def in_repo_def)
  from impact_decision[OF this, of "''id''" "[[''repo'', ''tests'', ''test_a.py'']]"] show ?thesis
    by (simp add: samples)
qed

text \<open>
  A change whose classification failed affects the test in whose file it is, and every
  test that imports names from the changed file.
\<close>

theorem unclassified_change_affects:
  assumes "cache_get (ic_cache ctx) f = None" and "prefix (ic_repo_root ctx) f"
    and "f = mt_file_path t \<or>
         (f \<in> set (dependencies t) \<and> path_name f \<noteq> ''conftest.py'' \<and> map_of (mt_symbol_imports t) f \<noteq> None)"
  shows "\<exists>ms. check_changed_file ctx t f = Inr (True, ms)"
  using unclassified_affects[OF assms(1) _ assms(3)] assms(2) by (simp add: in_repo_def affects_def)

theorem unclassified_change_affects_witness:
  "\<exists>ms. check_changed_file (sample_ctx [([''repo'', ''lib.py''], None)]) sample_test [''repo'', ''lib.py''] = Inr (True, ms)"
  by (rule unclassified_change_affects) (simp_all add: samples cache_get_def path_name_def)

text \<open>
  A file whose change modified no existing symbol (it only added some) affects no test
  through the test's own file or the names the test imports from it.
\<close>

lemma added_symbols_do_not_affect:
  assumes "cache_get (ic_cache ctx) f = Some c" and "modified_symbols c = {}"
    and "f = mt_file_path t \<or> map_of (mt_symbol_imports t) f \<noteq> None" and "path_name f \<noteq> ''conftest.py''"
  shows "check_changed_file ctx t f = Inr (False, [])"
  by (rule only_new_unaffected[OF assms])

text \<open>A changed file that is neither the test's file nor one of its dependencies never affects the test.\<close>

lemma unrelated_file_does_not_affect:
  assumes "f \<noteq> mt_file_path t" and "f \<notin> set (dependencies t)"
  shows "check_changed_file ctx t f = Inr (False, [])"
  using assms by (simp add: check_changed_file_def)

text \<open>
  C3. A changed, classified module from which a test imports names affects the test exactly in two cases. One
  is an imported name that was modified and is still in use: when modified members are known for it, the
  test accesses one of them or its accesses cannot be determined; when none are known, the test calls
  the name, the name starts with a capital letter, or the test's calls cannot be determined. The other is
  a fixture of the test whose body calls a modified name.
\<close>

theorem used_modified_symbol_affects:
  assumes "cache_get (ic_cache ctx) f = Some c" and "prefix (ic_repo_root ctx) f"
    and "f \<noteq> mt_file_path t" and "f \<in> set (dependencies t)" and "path_name f \<noteq> ''conftest.py''"
    and "map_of (mt_symbol_imports t) f = Some syms"
  shows "(\<exists>ms. check_changed_file ctx t f = Inr (True, ms)) \<longleftrightarrow>
     (\<exists>sy \<in> syms \<inter> modified_symbols c.
        case map_of (modified_members c) sy of
          Some ms \<Rightarrow> (\<forall>attrs. collect_test_attribute_accesses (files (ic_env ctx)) (mt_file_path t) (mt_test_name t) = Some attrs \<longrightarrow>
            attrs \<inter> ms \<noteq> {})
        | None \<Rightarrow> (\<forall>calls. collect_test_function_calls (files (ic_env ctx)) (mt_file_path t) (mt_test_name t) = Some calls \<longrightarrow>
            sy \<in> calls \<or> upper_first sy)) \<or>
     (\<exists>(name, fx) \<in> set (ic_fixtures ctx). name \<in> set (mt_fixtures t) \<and> function_calls fx \<inter> modified_symbols c \<noteq> {})"
  using symbol_affects_iff[OF assms(1) _ assms(3-6)] assms(2)
  by (simp add: in_repo_def affects_def still_used_def)

definition sample_helper_change :: symbol_classification where
  "sample_helper_change = no_symbols\<lparr>modified_symbols := {''Helper''}\<rparr>"

theorem used_modified_symbol_affects_witness:
  "\<exists>ms. check_changed_file (sample_ctx [([''repo'', ''lib.py''], Some sample_helper_change)]) sample_test [''repo'', ''lib.py''] =
     Inr (True, ms)"
proof -
  let ?ctx = "sample_ctx [([''repo'', ''lib.py''], Some sample_helper_change)]"
  have "cache_get (ic_cache ?ctx) [''repo'', ''lib.py''] = Some sample_helper_change"
    "prefix (ic_repo_root ?ctx) [''repo'', ''lib.py'']" "[''repo'', ''lib.py''] \<noteq> mt_file_path sample_test"
    "[''repo'', ''lib.py''] \<in> set (dependencies sample_test)" "path_name [''repo'', ''lib.py''] \<noteq> ''conftest.py''"
    "map_of (mt_symbol_imports sample_test) [''repo'', ''lib.py''] = Some {''Helper''}"
    by (simp_all add: samples cache_get_def path_name_def)
  from used_modified_symbol_affects[OF this] show ?thesis
    by (simp add: sample_helper_change_def no_symbols_def upper_first_def is_upper_def)
qed

text \<open>
  C2. A changed conftest file, when its modified fixtures and functions are known, affects a
  test exactly when one of the test's fixtures requires, through any chain of fixtures, a
  modified fixture or a fixture that calls a modified function.
\<close>

theorem conftest_change_reaches:
  assumes "prefix (ic_repo_root ctx) f" and "f \<noteq> mt_file_path t"
    and "path_name f = ''conftest.py''" and "f \<in> set (dependencies t)"
    and "extract_modified_items_from_conftest (ic_env ctx) f (ic_base_branch ctx)
             (ic_repo_root ctx) (ic_pr_info ctx) (ic_diffs_cache ctx) (file_status_of ctx f)
             (ic_is_checkout ctx) (ic_head_ref ctx) = Inr (Some (mfx, mfn))"
  shows "(\<exists>ms. check_changed_file ctx t f = Inr (True, ms)) \<longleftrightarrow>
     (\<exists>x y. (x \<in> mfx \<or> (\<exists>fx. (x, fx) \<in> set (ic_fixtures ctx) \<and> function_calls fx \<inter> mfn \<noteq> {})) \<and>
        (required_by (ic_fixtures ctx))\<^sup>*\<^sup>* x y \<and> y \<in> set (mt_fixtures t))"
proof -
  have "x \<in> set (calls_modified mfn (ic_fixtures ctx)) \<longleftrightarrow>
      (\<exists>fx. (x, fx) \<in> set (ic_fixtures ctx) \<and> function_calls fx \<inter> mfn \<noteq> {})" for x
    by (force simp: calls_modified_def)
  then show ?thesis
    using conftest_affects_iff[OF _ assms(2-5)] assms(1) by (simp add: in_repo_def affects_def)
qed

theorem conftest_change_reaches_witness:
  "(\<exists>ms. check_changed_file (sample_ctx []) sample_test [''repo'', ''tests'', ''conftest.py''] = Inr (True, ms)) \<longleftrightarrow>
     (\<exists>x y. (x \<in> {''ns''} \<or> (\<exists>fx. (x, fx) \<in> set (ic_fixtures (sample_ctx [])) \<and> function_calls fx \<inter> {} \<noteq> {})) \<and>
        (required_by (ic_fixtures (sample_ctx [])))\<^sup>*\<^sup>* x y \<and> y \<in> set (mt_fixtures sample_test))"
  by (rule conftest_change_reaches)
     (simp_all add: samples path_name_def extract_modified_items_from_conftest_def conftest_items_body_def file_status_of_def
        get_modified_function_names_def file_fixtures_def parse_file_def env_of_files_def walk_def
        List.map_filter_def opt_list_def)

section \<open>Classification of changed symbols\<close>

text \<open>
  C4. In every classification of attributed changes the modified and the new symbols are disjoint; each of
  them has a definition whose lines include a changed line; and every changed line that some definition
  includes lies in a definition of one of them. Where no changed line lies in the definitions of two
  symbols, as in \<open>x = y = 0\<close>, they are exactly the symbols whose definitions include a changed line.
\<close>

theorem classification_partition:
  assumes "classify_changes old st dels L source smap = Inr (Some c)" and "finite L"
  shows "modified_symbols c \<inter> new_symbols c = {} \<and>
     (\<forall>s \<in> modified_symbols c \<union> new_symbols c. \<exists>n \<in> L. covers (top_level smap) n s) \<and>
     (\<forall>n \<in> L. (\<exists>s. covers (top_level smap) n s) \<longrightarrow>
        (\<exists>s \<in> modified_symbols c \<union> new_symbols c. covers (top_level smap) n s)) \<and>
     ((\<forall>n \<in> L. \<forall>s s'. covers (top_level smap) n s \<longrightarrow> covers (top_level smap) n s' \<longrightarrow> s = s') \<longrightarrow>
        modified_symbols c \<union> new_symbols c = {s. \<exists>n \<in> L. covers (top_level smap) n s})"
proof -
  have parts: "modified_symbols c \<inter> new_symbols c = {} \<and> modified_symbols c \<union> new_symbols c = changed_symbols smap L"
    using assms
  proof (cases rule: classify_changes_cases)
    case (1 u mm base)
    then show ?thesis using separate_new_partition(1,2)[OF candidates_sub] by simp
  qed
  have "\<forall>s \<in> changed_symbols smap L. \<exists>n \<in> L. covers (top_level smap) n s"
    by (intro ballI changed_symbols_covers)
  moreover have "\<forall>n \<in> L. (\<exists>s. covers (top_level smap) n s) \<longrightarrow> (\<exists>s \<in> changed_symbols smap L. covers (top_level smap) n s)"
    by (intro ballI impI) (elim exE, rule covered_line_attributed)
  moreover have "(\<forall>n \<in> L. \<forall>s s'. covers (top_level smap) n s \<longrightarrow> covers (top_level smap) n s' \<longrightarrow> s = s') \<longrightarrow>
      changed_symbols smap L = {s. \<exists>n \<in> L. covers (top_level smap) n s}"
  proof
    assume unique: "\<forall>n \<in> L. \<forall>s s'. covers (top_level smap) n s \<longrightarrow> covers (top_level smap) n s' \<longrightarrow> s = s'"
    show "changed_symbols smap L = {s. \<exists>n \<in> L. covers (top_level smap) n s}"
      by (rule changed_symbols_exact) (use unique in simp)
  qed
  ultimately show ?thesis using parts by (simp only: simp_thms)
qed

definition sample_smap :: symbol_map where
  "sample_smap = \<lparr>top_level = [(1, 2, ''f''), (4, 5, ''g'')], class_members = []\<rparr>"

definition sample_change :: "symbol_classification" where
  "sample_change = \<lparr>modified_symbols = {''f''}, new_symbols = {''g''}, modified_members = [],
     has_unattributed_changes = False\<rparr>"

lemma sample_classified:
  "classify_changes (Inr (Some ({''f''}, []))) None True {2, 4, 5} ''text'' sample_smap = Inr (Some sample_change)"
  by (auto simp: classify_changes_def sample_smap_def sample_change_def separate_new_def candidates_new_def
      all_modified_members_def class_modified_members_def drop_new_members_def Let_def map_filter_simps
      upt_rec)

lemma sample_covers: "covers (top_level sample_smap) n s \<longleftrightarrow> n \<in> {1, 2} \<and> s = ''f'' \<or> n \<in> {4, 5} \<and> s = ''g''"
  by (auto simp: covers_def sample_smap_def)

theorem classification_partition_witness:
  "modified_symbols sample_change \<inter> new_symbols sample_change = {} \<and>
     modified_symbols sample_change \<union> new_symbols sample_change = {''f'', ''g''}"
proof -
  have "finite ({2, 4, 5} :: nat set)" by simp
  note all = classification_partition[OF sample_classified this, unfolded sample_covers]
  have "{s. \<exists>n \<in> {2, 4, 5} :: nat set. n \<in> {1, 2} \<and> s = ''f'' \<or> n \<in> {4, 5} \<and> s = ''g''} = {''f'', ''g''}" by auto
  moreover have "\<forall>n \<in> {2, 4, 5} :: nat set. \<forall>s s'. n \<in> {1, 2} \<and> s = ''f'' \<or> n \<in> {4, 5} \<and> s = ''g'' \<longrightarrow>
      n \<in> {1, 2} \<and> s' = ''f'' \<or> n \<in> {4, 5} \<and> s' = ''g'' \<longrightarrow> s = s'" by simp
  ultimately show ?thesis using all by (simp only: simp_thms)
qed

text \<open>
  A symbol is called new only when the file is new, or when every line of one of its
  definitions was added and, if the diff deletes anything, the base version is known and
  lacks the symbol.
\<close>

theorem new_symbols_are_new:
  assumes "classify_changes old st dels L source smap = Inr (Some c)" and "finite L"
    and "s \<in> new_symbols c" and "st \<noteq> Some ''added''"
  shows "(\<exists>a b. (a, b, s) \<in> set (top_level smap) \<and> (\<forall>n. a \<le> n \<and> n \<le> b \<longrightarrow> n \<in> L)) \<and>
     (dels \<longrightarrow> (\<exists>olds oldm. old = Inr (Some (olds, oldm)) \<and> s \<notin> olds))"
  using assms(1,2)
proof (cases rule: classify_changes_cases)
  case (1 u mm base)
  then have n: "s \<in> new_symbols (separate_new base dels
      (candidates_new (top_level smap) (changed_symbols smap L) L) (changed_symbols smap L) mm u)"
    using assms(3,4) by simp
  then have "s \<in> candidates_new (top_level smap) (changed_symbols smap L) L"
    using separate_new_partition(3)[OF candidates_sub] by blast
  then show ?thesis using separate_new_old[OF n] 1(2) by (auto simp: candidates_new_iff)
qed

theorem new_symbols_are_new_witness:
  "(\<exists>a b. (a, b, ''g'') \<in> set (top_level sample_smap) \<and> (\<forall>n. a \<le> n \<and> n \<le> b \<longrightarrow> n \<in> {2, 4, 5})) \<and>
     (\<exists>olds (oldm :: (string \<times> string set) list). (Inr (Some ({''f''}, [])) :: _ res) = Inr (Some (olds, oldm)) \<and> ''g'' \<notin> olds)"
  using new_symbols_are_new[OF sample_classified, of "''g''"] by (simp add: sample_change_def)

text \<open>
  The classification gives up, so that callers fall back to the whole file, exactly when
  some changed line lies outside every symbol and is not recognisably harmless text.
\<close>

theorem classification_fallback:
  assumes "finite L"
  shows "classify_changes old st dels L source smap = Inr None \<longleftrightarrow>
     (\<exists>n \<in> L. covering_symbol (top_level smap) n = None \<and>
        \<not> (n \<le> length (splitlines source) \<and> safe_line (py_strip (splitlines source ! (n - 1)))))"
proof -
  have "classify_changes old st dels L source smap = Inr None \<longleftrightarrow>
      attribute_lines (top_level smap) (splitlines source) (sorted_list_of_set L) [] False = None"
    by (auto simp: classify_changes_def Let_def bind_res_Inr_iff split: option.splits)
  then show ?thesis
    using assms by (auto simp: attribute_lines_None attributable_def)
qed

theorem classification_fallback_witness:
  "classify_changes (Inr None) None False {3} ''x'' sample_smap = Inr None \<longleftrightarrow>
     (\<exists>n \<in> {3}. covering_symbol (top_level sample_smap) n = None \<and>
        \<not> (n \<le> length (splitlines ''x'') \<and> safe_line (py_strip (splitlines ''x'' ! (n - 1)))))"
  by (rule classification_fallback) simp

section \<open>Reading diffs\<close>




text \<open>A printed diff is said to delete something exactly when it has a deleted line.\<close>

lemma deletions_of_printed_diff:
  assumes "list_all plain_hunk hs"
  shows "diff_has_deletions (show_diff hs) \<longleftrightarrow> (\<exists>h \<in> set hs. \<exists>s. Del s \<in> set (hunk_lines h))"
  by (rule deletions_show_diff[OF assms])

text \<open>
  Every function, coroutine or class whose definition line a diff deletes is among the
  deleted symbols, whatever the indentation and the white space of the line.
\<close>

theorem deleted_definitions_are_found:
  assumes "line \<in> set (splitlines diff)" and "deleted_definition line name"
  shows "name \<in> extract_deleted_symbols_from_diff diff"
  by (rule deleted_symbols_complete[OF assms])

lemma sample_deleted: "deleted_definition ''-  def run(self):'' ''run''"
  using deleted_definition.del_def[of "''  ''" "'' ''" "''run''" "[]" "''self):''"]
  by (simp add: spaces_def is_ident_def is_word_def is_lower_def)

theorem deleted_definitions_are_found_witness:
  "''run'' \<in> extract_deleted_symbols_from_diff ''-  def run(self):''"
  by (rule deleted_definitions_are_found[OF _ sample_deleted]) (simp add: splitlines_def is_linebreak_def)

text \<open>
  A function whose definition line is added or deleted is reported as modified, wherever
  the line stands in the diff.
\<close>

lemma changed_definition_is_reported:
  assumes "line \<in> set (splitlines diff)"
    and "line = CHR ''+'' # l \<or> line = CHR ''-'' # l"
    and "l = ind @ ''def'' @ ws @ name @ wb @ CHR ''('' # rest"
    and "spaces ind" and "ws \<noteq> []" and "spaces ws" and "is_ident name" and "spaces wb"
  shows "name \<in> parse_diff_for_functions diff"
  by (rule changed_def_reported[OF assms])

text \<open>Only functions that a hunk header or a definition line of the diff names are reported.\<close>

lemma reported_functions_are_named:
  assumes "f \<in> parse_diff_for_functions diff"
  shows "\<exists>line \<in> set (splitlines diff). re_search_group hunk_function_re 1 line = Some f \<or>
     re_match_group def_re 1 (py_strip (drop 1 line)) = Some f"
  using parse_functions_sound[OF assms] by (simp add: names_function_def)

section \<open>Graph computations\<close>

text \<open>
  C6. The fixtures a test is taken to use are exactly those reachable from its own fixtures
  along the parameters of fixtures.
\<close>

theorem used_fixtures_reachable:
  "y \<in> expand_used_fixtures direct fixtures \<longleftrightarrow> (\<exists>x \<in> set direct. (uses_fixture fixtures)\<^sup>*\<^sup>* x y)"
  by (rule used.result_iff_reach)

text \<open>
  C7. The helper and the method that compute affected fixtures return the same set: the
  fixtures that require, through any chain, a modified fixture or one that calls a modified
  function. The order of the modified fixtures does not matter.
\<close>

theorem affected_fixtures_reachable:
  "get_affected_fixtures_helper mf mfun fixtures = get_affected_fixtures fixtures mf mfun \<and>
   (y \<in> get_affected_fixtures_helper mf mfun fixtures \<longleftrightarrow>
     (\<exists>x \<in> set mf \<union> {n. \<exists>fx. (n, fx) \<in> set fixtures \<and> function_calls fx \<inter> mfun \<noteq> {}}.
        (required_by fixtures)\<^sup>*\<^sup>* x y))"
proof -
  have "set (calls_modified mfun fixtures) = {n. \<exists>fx. (n, fx) \<in> set fixtures \<and> function_calls fx \<inter> mfun \<noteq> {}}"
    by (force simp: calls_modified_def)
  then show ?thesis
    unfolding affected_helper_closure Let_def affected.result_iff_reach
    using affected_helper_closure[of mf mfun fixtures]
    by (simp add: get_affected_fixtures_def Let_def)
qed

text \<open>
  The modified members of a class are exactly the directly modified ones and those that
  call one of them, directly or through other members. The fixed-point loop always ends.
\<close>

theorem modified_members_reachable:
  "y \<in> expand_modified_members_transitively (set direct) calls \<longleftrightarrow> (\<exists>x \<in> set direct. (called_by calls)\<^sup>*\<^sup>* x y)"
  by (rule members.result_iff_reach)

text \<open>
  When no two conftest files define a fixture of the same name, the merged fixture
  dictionary does not depend on the order in which the parallel workers finish.
\<close>

theorem merge_order_irrelevant:
  assumes "unique_fixture_names env cs" and "set cs' = set cs"
  shows "map_of (fg_fixtures (build_fixture_dependency_graph env rt cs' empty_graph)) =
         map_of (fg_fixtures (build_fixture_dependency_graph env rt cs empty_graph))"
proof
  fix k
  have u: "unique_fixture_names env cs'" using assms by (simp add: unique_fixture_names_def)
  have "map_of (fg_fixtures (build_fixture_dependency_graph env rt cs' empty_graph)) k = Some fx \<longleftrightarrow>
        map_of (fg_fixtures (build_fixture_dependency_graph env rt cs empty_graph)) k = Some fx" for fx
    using build_graph_unique[OF u, of rt k fx] build_graph_unique[OF assms(1), of rt k fx] assms(2) by simp
  then show "map_of (fg_fixtures (build_fixture_dependency_graph env rt cs' empty_graph)) k =
         map_of (fg_fixtures (build_fixture_dependency_graph env rt cs empty_graph)) k"
    by (metis not_Some_eq)
qed

theorem merge_order_irrelevant_witness:
  "map_of (fg_fixtures (build_fixture_dependency_graph (files sample_env) sample_root
       [[''a''], [''repo'', ''tests'', ''conftest.py'']] empty_graph)) =
   map_of (fg_fixtures (build_fixture_dependency_graph (files sample_env) sample_root
       [[''repo'', ''tests'', ''conftest.py''], [''a'']] empty_graph))"
  by (rule merge_order_irrelevant)
     (auto simp: samples unique_fixture_names_def conftest_fixtures_def parse_file_def env_of_files_def)

section \<open>Marked tests\<close>

text \<open>
  C8. The loops over a module list exactly the tests that carry one of the markers: through
  the module's \<open>pytestmark\<close>, through a class decorator, or through a decorator of the test.
\<close>

theorem listed_tests_are_marked:
  "t \<in> set (tests_of_tree tree marker_names) \<longleftrightarrow> carries_marker marker_names tree t"
  by (rule tests_of_tree_iff)

text \<open>
  The function for worker threads and the method agree: for a file below the repository
  root the one returns the tests of the other, in the same order, with their node ids.
\<close>

theorem extractors_agree:
  "process_test_file_for_markers env (rt @ p) marker_names rt =
     map (\<lambda>t. (rel_str p @ ''::'' @ t, t, rt @ p))
       (extract_marked_tests_from_file env (rt @ p) marker_names)"
proof -
  have "concat (map (\<lambda>t. [g t]) ts) = map g ts" for g :: "string \<Rightarrow> string \<times> string \<times> path" and ts
    by (induction ts) auto
  then show ?thesis
    by (simp add: process_test_file_for_markers_def extract_eq_tests_of_tree split: option.splits)
qed

text \<open>
  The marker names of an expression are its maximal runs of word characters other than
  the three operators.
\<close>

lemma marker_names_are_words:
  "extract_marker_names e = set (words e) - {''and'', ''or'', ''not''}"
  by (auto simp: extract_marker_names_def re_findall_words)

text \<open>
  A repository name is accepted exactly when it is two parts joined by one slash, each
  starting with a letter or digit and made of letters, digits, dots, underscores and dashes.
\<close>

theorem accepted_repo_names:
  "validate_repo_name s = Inr () \<longleftrightarrow>
     (\<exists>owner name. s = owner @ ''/'' @ name \<and> repo_part owner \<and> repo_part name)"
  by (simp add: validate_repo_name_iff)

section \<open>Imports and dependencies\<close>

text \<open>
  The names a file is recorded to import from a path are exactly the names of its \<open>from\<close>
  imports that run, whose module resolves to the path and is not also imported as a whole.
\<close>

theorem recorded_symbol_imports:
  assumes "parse_file env f = Some tree"
  shows "s \<in> symbols_of (extract_symbol_imports_from_file env f rt) p \<longleftrightarrow>
     (\<exists>n m S. runs tree n \<and> names_from n = Some (m, S) \<and> s \<in> S \<and> \<not> opaque_module tree m \<and>
        resolve_module_to_path env m rt = Some p)"
  by (rule symbol_imports_exact[OF assms])

theorem recorded_symbol_imports_witness:
  "''x'' \<in> symbols_of (extract_symbol_imports_from_file (files sample_env) [''repo'', ''tests'', ''conftest.py''] sample_root) [''p''] \<longleftrightarrow>
     (\<exists>n m S. runs (Module [FunctionDef (2, Some 3) ''ns'' (Arguments [] [] [] [] [] [] []) [] [Name (1, Some 1) ''fixture''] []]) n \<and>
        names_from n = Some (m, S) \<and> ''x'' \<in> S \<and>
        \<not> opaque_module (Module [FunctionDef (2, Some 3) ''ns'' (Arguments [] [] [] [] [] [] []) [] [Name (1, Some 1) ''fixture''] []]) m \<and>
        resolve_module_to_path (files sample_env) m sample_root = Some [''p''])"
  by (rule recorded_symbol_imports) (simp add: samples parse_file_def env_of_files_def)

text \<open>
  C30. The dependencies of a test are its file, what the file imports, the conftest files
  above it, and what Python files among these import in at most two steps, for every order
  in which the sets are iterated.
\<close>

theorem test_dependencies_two_levels:
  assumes "iterates iter"
  shows "fst (analyze_single_test_dependencies env iter t rt markers) =
     (let B = base_dependencies env (mt_file_path t) rt
      in B \<union> (\<Union>f \<in> B. py_imports env rt f) \<union> (\<Union>f \<in> B. \<Union>g \<in> py_imports env rt f. py_imports env rt g))"
  using two_levels[OF assms finite_base]
  by (simp add: analyze_single_test_dependencies_def Let_def MAX_TRANSITIVE_IMPORT_DEPTH_def)

theorem test_dependencies_two_levels_witness:
  "fst (analyze_single_test_dependencies (files sample_env) sorted_list_of_set sample_test sample_root {}) =
     (let B = base_dependencies (files sample_env) (mt_file_path sample_test) sample_root
      in B \<union> (\<Union>f \<in> B. py_imports (files sample_env) sample_root f) \<union>
         (\<Union>f \<in> B. \<Union>g \<in> py_imports (files sample_env) sample_root f. py_imports (files sample_env) sample_root g))"
  by (rule test_dependencies_two_levels) (rule iterates_sorted)

text \<open>Every file a test imports names from is one of its dependencies.\<close>

lemma symbol_imports_within_dependencies:
  assumes "iterates iter"
  shows "fst ` set (snd (snd (analyze_single_test_dependencies env iter t rt markers))) \<subseteq>
     fst (analyze_single_test_dependencies env iter t rt markers)"
proof -
  let ?B = "base_dependencies env (mt_file_path t) rt"
  have "?B \<subseteq> fst (analyze_single_test_dependencies env iter t rt markers)"
    using two_levels[OF assms finite_base]
    by (auto simp: analyze_single_test_dependencies_def Let_def MAX_TRANSITIVE_IMPORT_DEPTH_def)
  moreover have "fst ` set (extract_symbol_imports_from_file env (mt_file_path t) rt) \<subseteq> ?B"
    unfolding base_dependencies_def file_imports_def using symbol_imports_are_dependencies by blast
  ultimately show ?thesis by (simp add: analyze_single_test_dependencies_def Let_def)
qed

text \<open>
  C31. For a test file at most 99 directories below the root, in a file system without links,
  the search finds exactly the conftest files from the root down to the test's directory.
\<close>

theorem conftest_search_exact:
  assumes "path_resolve env = (\<lambda>p. p)" and "length d < MAX_CONFTEST_SEARCH_ITERATIONS"
  shows "find_relevant_conftests_helper env (rt @ d @ [file_name]) rt =
     {conftest_in (rt @ e) |e. prefix e d \<and> path_exists env (conftest_in (rt @ e))}"
  using conftest_search_below[OF assms] assms(1)
  by (simp add: find_relevant_conftests_helper_def path_parent_def butlast_append)

theorem conftest_search_exact_witness:
  "find_relevant_conftests_helper (files sample_env) (sample_root @ [''tests''] @ [''test_a.py'']) sample_root =
     {conftest_in (sample_root @ e) |e. prefix e [''tests''] \<and> path_exists (files sample_env) (conftest_in (sample_root @ e))}"
  by (rule conftest_search_exact)
     (simp_all add: samples env_of_files_def MAX_CONFTEST_SEARCH_ITERATIONS_def)

text \<open>
  The fixtures recorded for a conftest file are the synchronous functions at any depth of
  its tree that have a fixture decorator, each under its own name and path.
\<close>

lemma recorded_fixtures:
  "(k \<in> fst ` set (fixture_definition_visit p tree []) \<longleftrightarrow>
     (\<exists>pos args body decs rest. descends tree (FunctionDef pos k args body decs rest) \<and>
        list_ex is_fixture_decorator_standalone decs))"
  by (rule fixture_definition_names)

text \<open>
  A method of a class is found exactly when some class of the file has the name and a
  function of that name among its children; what is found is such a function.
\<close>

lemma test_method_lookup:
  "find_test_function_node tree f (Some c) \<noteq> None \<longleftrightarrow>
     (\<exists>m n. descends tree m \<and> class_named c (Some m) \<and> n \<in> set (iter_child_nodes m) \<and> function_name n = Some f)"
  unfolding find_test_node_class member_of_class_def by blast

section \<open>Pull requests and changed files\<close>

text \<open>
  C32. Against a server that pages through the files of a pull request, the list of changed
  files is complete up to the limit of 10,000 files, which is where it is cut.
\<close>

theorem changed_files_complete:
  assumes "validate_repo_name repo = Inr ()" and "pr > 0"
  shows "get_pr_changed_files (\<lambda>_ _ _. paged fs) repo pr tok = Inr (map filename (take MAX_FILES_PER_PR fs))"
  using changed_files_paged[of 0 fs] assms by (simp add: get_pr_changed_files_def validate_request_def)

lemma sample_repo: "validate_repo_name ''org/repo'' = Inr ()"
  unfolding validate_repo_name_iff
  by (intro exI[of _ "''org''"] exI[of _ "''repo''"])
     (simp add: repo_part_def repo_char_def is_ascii_alpha_def)

theorem changed_files_complete_witness:
  "get_pr_changed_files (\<lambda>_ _ _. paged [\<lparr>filename = ''a.py'', patch = None, status = None\<rparr>]) ''org/repo'' 7 None =
     Inr (map filename (take MAX_FILES_PER_PR [\<lparr>filename = ''a.py'', patch = None, status = None\<rparr>]))"
  by (rule changed_files_complete[OF sample_repo]) simp

text \<open>
  Against the same server the prefetch of diffs ends, and it records a status for
  exactly the files of the pull request, however many pages they fill.
\<close>

theorem prefetch_records_all_files:
  assumes "validate_repo_name repo = Inr ()" and "pr > 0"
  shows "\<exists>ds statuses. prefetch_pr_diffs (\<lambda>_ _ _. paged fs) repo pr tok = Some (Inr (ds, statuses)) \<and>
     fst ` set statuses = filename ` set fs"
proof -
  have "prefetch_pr_diffs (\<lambda>_ _ _. paged fs) repo pr tok = Some (Inr (fold record_file fs ([], [])))"
    using prefetch_paged[of 0 fs "([], [])"] assms by (simp add: prefetch_pr_diffs_def validate_request_def)
  then show ?thesis using prefetch_statuses_dom[of fs "([], [])"] by (metis Un_empty_left image_empty prod.collapse set_empty snd_conv)
qed

theorem prefetch_records_all_files_witness:
  "\<exists>ds statuses. prefetch_pr_diffs (\<lambda>_ _ _. paged [\<lparr>filename = ''a.py'', patch = None, status = None\<rparr>])
       ''org/repo'' 7 None = Some (Inr (ds, statuses)) \<and>
     fst ` set statuses = filename ` set [\<lparr>filename = ''a.py'', patch = None, status = None\<rparr>]"
  by (rule prefetch_records_all_files[OF sample_repo]) simp

text \<open>
  The prefetch has no limit of its own: against a server whose every page is full, it
  never returns, whereas the list of changed files stops with at least the limit.
\<close>

theorem prefetch_without_limit:
  assumes "\<And>page. \<exists>fs. api page = Page None fs \<and> length fs \<ge> GITHUB_API_MAX_PER_PAGE"
  shows "prefetch_loop api 1 ([], []) = None \<and>
     (\<exists>r. changed_files_loop api context 1 [] = Inr r \<and> length r \<ge> MAX_FILES_PER_PR)"
  using prefetch_diverges[of api 1 "([], [])"] changed_files_stops[of api "context" 1 "[]"] assms by simp

theorem prefetch_without_limit_witness:
  "prefetch_loop (\<lambda>_. Page None (replicate 100 \<lparr>filename = ''a'', patch = None, status = None\<rparr>)) 1 ([], []) = None \<and>
     (\<exists>r. changed_files_loop (\<lambda>_. Page None (replicate 100 \<lparr>filename = ''a'', patch = None, status = None\<rparr>)) [] 1 [] = Inr r \<and>
        length r \<ge> MAX_FILES_PER_PR)"
  by (rule prefetch_without_limit) (simp add: GITHUB_API_MAX_PER_PAGE_def)

text \<open>Given file names are only taken over when they exist and lie inside the repository.\<close>

lemma given_files_inside_repo:
  assumes "f \<in> set (get_changed_files env link abs_path git_names repo_root branch names)" and "names \<noteq> []"
  shows "prefix (path_resolve env repo_root) f \<and> path_exists env f"
  using assms validated_in_repo by (auto simp: get_changed_files_def)

text \<open>
  Git is asked for changed files only with a branch name of letters, digits, slashes,
  underscores, dots and dashes, possibly followed by one newline.
\<close>

lemma branch_names_checked:
  assumes "f \<in> set (get_changed_files env link abs_path git_names repo_root branch [])"
  shows "\<exists>w. w \<noteq> [] \<and> list_all branch_char w \<and> (branch = w \<or> branch = w @ newline)"
  using assms branch_re_chars[of branch] by (auto simp: get_changed_files_def split: if_splits)

lemma sample_branch: "re_match branch_re ''main'' \<noteq> None"
  by (simp add: re_match_def branch_re_def rmatch_plus_char branch_char_def is_ascii_alpha_def is_digit_def at_end_def)

section \<open>The whole analysis\<close>

text \<open>
  The analysis asks for a test run exactly when some changed file affects some marked
  test, and lists the affected tests in the order in which the workers finish.
\<close>

theorem analysis_verdict:
  assumes "analyze_impact env an ds statuses head completed changed = Inr r"
  shows "\<exists>ctx. analysis_context env an ds statuses head changed = Inr ctx \<and>
     map at_node_id (affected_tests r) =
       map fst (filter (\<lambda>(n, t). \<exists>f \<in> set (changed_set_of env changed). affects ctx t f) completed) \<and>
     (should_run_tests r \<longleftrightarrow> (\<exists>(n, t) \<in> set completed. \<exists>f \<in> set (changed_set_of env changed). affects ctx t f))"
proof -
  from assms obtain ctx where ctx: "analysis_context env an ds statuses head changed = Inr ctx"
    and collected: "collect_affected ctx (changed_set_of env changed) completed [] = Inr (affected_tests r)"
    and verdict: "should_run_tests r \<longleftrightarrow> affected_tests r \<noteq> []"
    by (rule analyze_impact_fields)
  let ?hit = "\<lambda>(n, t). \<exists>f \<in> set (changed_set_of env changed). affects ctx t f"
  have nodes: "map at_node_id (affected_tests r) = map fst (filter ?hit completed)"
    using collect_affected_nodes[OF collected] by (simp only: list.map append_Nil)
  have "affected_tests r \<noteq> [] \<longleftrightarrow> filter ?hit completed \<noteq> []"
    using arg_cong[OF nodes, of "\<lambda>l. l = []"] by (simp only: map_is_Nil_conv)
  also have "\<dots> \<longleftrightarrow> (\<exists>e \<in> set completed. ?hit e)" by (simp add: filter_empty_conv)
  finally have "should_run_tests r \<longleftrightarrow> (\<exists>e \<in> set completed. ?hit e)" using verdict by argo
  with ctx nodes show ?thesis by blast
qed

definition sample_analyzer :: analyzer where
  "sample_analyzer =
     \<lparr>an_marker_expression = ''smoke'', an_repo_root = sample_root, an_base_branch = ''main'', an_pr_info = None,
      an_is_checkout = False, an_marked_tests = [(''id'', sample_test)], an_graph = empty_graph\<rparr>"

lemma sample_analysis:
  "\<exists>r. analyze_impact sample_env sample_analyzer None None None [(''id'', sample_test)] [[''repo'', ''other.py'']] = Inr r"
proof -
  have "extract_modified_symbols sample_env f b root None diffs st head ck = Inr (if st = Some ''renamed'' then Some no_symbols else None)"
    if "diffs = None" for f b root diffs st head ck
    using that by (simp add: extract_modified_symbols_def get_diff_content_def sample_env_def)
  then obtain ctx where "analysis_context sample_env sample_analyzer None None None [[''repo'', ''other.py'']] = Inr ctx"
      "ic_repo_root ctx = sample_root"
    by (cases "needs_symbols (path_resolve (files sample_env) [''repo'', ''other.py''])")
      (simp_all add: analysis_context_def impact_context_def changed_set_of_def sample_analyzer_def Let_def)
  then show ?thesis
    by (simp add: analyze_impact_def samples sample_analyzer_def changed_set_of_def env_of_files_def
        check_test_impact_def check_changed_file_def relative_to_def)
qed

theorem analysis_verdict_witness:
  "\<exists>(r :: analysis_result) ctx. analysis_context sample_env sample_analyzer None None None [[''repo'', ''other.py'']] = Inr ctx \<and>
     map at_node_id (affected_tests r) =
       map fst (filter (\<lambda>(n, t). \<exists>f \<in> set (changed_set_of sample_env [[''repo'', ''other.py'']]). affects ctx t f)
         [(''id'', sample_test)]) \<and>
     (should_run_tests r \<longleftrightarrow> (\<exists>(n, t) \<in> set [(''id'', sample_test)].
        \<exists>f \<in> set (changed_set_of sample_env [[''repo'', ''other.py'']]). affects ctx t f))"
proof -
  obtain r where "analyze_impact sample_env sample_analyzer None None None [(''id'', sample_test)] [[''repo'', ''other.py'']] = Inr r"
    using sample_analysis by blast
  from analysis_verdict[OF this] show ?thesis by (rule exI[of _ r])
qed

section \<open>Where the analysis misses a change\<close>

text \<open>
  A test method that pytest collects is recorded without its class. When its class is
  what a change modified, the test's own file is then not seen to affect it; recorded with
  its class, as the syntax-tree scan does, the same change affects the test.
\<close>

theorem collected_method_change_missed:
  assumes "colon_free p" "colon_free c" "colon_free m" "p \<noteq> []" "m \<noteq> []"
    and "\<not> is_space (hd p)" "\<not> is_space (last m)" "CHR ''['' \<notin> set m" "c \<noteq> m"
    and "path_exists (files (ic_env ctx)) (path_div rt p)" "prefix (ic_repo_root ctx) (path_div rt p)"
    and "cache_get (ic_cache ctx) (path_div rt p) = Some cl" "modified_symbols cl = {c}"
    and "map_of (modified_members cl) c = Some {m}"
  shows "\<exists>t. map_of (collect_line (files (ic_env ctx)) rt (p @ ''::'' @ c @ ''::'' @ m) [])
         (p @ ''::'' @ c @ ''::'' @ m) = Some t \<and>
       check_changed_file ctx t (mt_file_path t) = Inr (False, []) \<and>
       (\<exists>ms. check_changed_file ctx (t\<lparr>mt_test_name := method_id c m\<rparr>) (mt_file_path t) = Inr (True, ms))"
proof -
  have "in_repo ctx (path_div rt p)" using assms(11) by (simp add: in_repo_def)
  then obtain s where "rel ctx (path_div rt p) = Inr s" using rel_in_repo by blast
  then show ?thesis
    using collect_method[OF assms(1-7) assms(10)] parse_method_name[OF assms(2,3,8)] assms(9,12-14)
    by (simp add: new_test_def check_changed_file_def self_check_def self_narrowed_away_def)
qed

theorem collected_method_change_missed_witness:
  "\<exists>t. map_of (collect_line (files (ic_env (sample_ctx [([''repo'', ''tests'', ''conftest.py''], Some
          \<lparr>modified_symbols = {''TestA''}, new_symbols = {}, modified_members = [(''TestA'', {''test_x''})],
           has_unattributed_changes = False\<rparr>)]))) sample_root
         (''tests/conftest.py'' @ ''::'' @ ''TestA'' @ ''::'' @ ''test_x'') [])
         (''tests/conftest.py'' @ ''::'' @ ''TestA'' @ ''::'' @ ''test_x'') = Some t \<and>
       check_changed_file (sample_ctx [([''repo'', ''tests'', ''conftest.py''], Some
          \<lparr>modified_symbols = {''TestA''}, new_symbols = {}, modified_members = [(''TestA'', {''test_x''})],
           has_unattributed_changes = False\<rparr>)]) t (mt_file_path t) = Inr (False, []) \<and>
       (\<exists>ms. check_changed_file (sample_ctx [([''repo'', ''tests'', ''conftest.py''], Some
          \<lparr>modified_symbols = {''TestA''}, new_symbols = {}, modified_members = [(''TestA'', {''test_x''})],
           has_unattributed_changes = False\<rparr>)]) (t\<lparr>mt_test_name := method_id ''TestA'' ''test_x''\<rparr>) (mt_file_path t) = Inr (True, ms))"
proof -
  have "path_div sample_root ''tests/conftest.py'' = [''repo'', ''tests'', ''conftest.py'']"
    by code_simp
  then show ?thesis
    by (intro collected_method_change_missed[where cl =
          "\<lparr>modified_symbols = {''TestA''}, new_symbols = {}, modified_members = [(''TestA'', {''test_x''})],
           has_unattributed_changes = False\<rparr>"])
       (simp_all add: samples cache_get_def env_of_files_def colon_free_def is_space_def)
qed

text \<open>
  A diff that only removes lines from the body of a function or class, not its
  definition line, is classified as changing nothing, so no test is affected by it.
\<close>

lemma body_deletion_changes_nothing:
  assumes "get_diff_content env f branch rt info cache = Inr (Some d)"
    and "parse_diff_for_changed_lines d = {}" and "extract_deleted_symbols_from_diff d = {}"
  shows "extract_modified_symbols env f branch rt info cache st head ck = Inr (Some no_symbols)"
  using assms by (simp add: extract_modified_symbols_def Let_def no_symbols_def)

definition sample_deletion :: string where
  "sample_deletion = concat (map (\<lambda>l. l @ newline) [''@@ -2,1 +1,0 @@ def f():'', ''-    check()''])"

lemma sample_deletion_lines:
  "parse_diff_for_changed_lines sample_deletion = {}"
  "extract_deleted_symbols_from_diff sample_deletion = {}"
  by code_simp+

text \<open>
  An added line whose text begins with two plus signs is taken for a file header: it is
  not counted, and the numbers of the lines after it are one too small.
\<close>

lemma header_like_addition_miscounted:
  "parse_diff_for_changed_lines (show_diff [\<lparr>old_start = 1, old_count = 0, new_start = 2, new_count = 2,
       section_text = [], hunk_lines = [Add ''++ x'', Add ''y = 1'']\<rparr>]) = {2} \<and>
   added_lines 2 [Add ''++ x'', Add ''y = 1''] = {2, 3}"
  by code_simp

text \<open>
  A change below an unchanged definition line is not attributed to that function: it is
  reported for no function, or for the function that the hunk header names.
\<close>

lemma change_below_context_definition_missed:
  "parse_diff_for_functions (show_diff [\<lparr>old_start = 1, old_count = 1, new_start = 1, new_count = 2,
       section_text = [], hunk_lines = [Ctx ''def vm(ns):'', Add ''    start()'']\<rparr>]) = {} \<and>
   parse_diff_for_functions (show_diff [\<lparr>old_start = 8, old_count = 1, new_start = 8, new_count = 2,
       section_text = '' def ns():'', hunk_lines = [Ctx ''def vm(ns):'', Add ''    start()'']\<rparr>]) = {''ns''}"
  by code_simp

text \<open>
  A modified function that a test imports under another name, and calls under that name,
  is narrowed away: the imported names are the original ones, the called names the local ones.
\<close>

definition alias_test_tree :: ast where
  "alias_test_tree = Module
     [ImportFrom (1, Some 1) (Some ''lib'') [(''start'', Some ''boot'')] 0,
      FunctionDef (3, Some 4) ''test_x'' (Arguments [] [] [] [] [] [] [])
        [Other (4, Some 4) ''Expr'' [Call (4, Some 4) (Name (4, Some 4) ''boot'') [] []]] [] []]"

definition alias_files :: file_env where
  "alias_files = env_of_files
     [([''repo'', ''tests'', ''test_a.py''], ''test'', alias_test_tree), ([''repo'', ''lib.py''], ''lib'', Module [])]"

definition alias_ctx :: impact_ctx where
  "alias_ctx = (sample_ctx [([''repo'', ''lib.py''], Some (no_symbols\<lparr>modified_symbols := {''start''}\<rparr>))])
     \<lparr>ic_env := sample_env\<lparr>files := alias_files\<rparr>, ic_fixtures := []\<rparr>"

lemma aliased_import_missed:
  "extract_symbol_imports_from_file alias_files (mt_file_path sample_test) sample_root = [([''repo'', ''lib.py''], {''start''})] \<and>
   check_changed_file alias_ctx
     (sample_test\<lparr>mt_symbol_imports := [([''repo'', ''lib.py''], {''start''})]\<rparr>) [''repo'', ''lib.py''] = Inr (False, [])"
  by code_simp

text \<open>
  The setup plan marks class-scoped and package-scoped fixtures with the letters C and P.
  Their lines are skipped, so these fixtures are not recorded for any test.
\<close>

lemma class_scoped_setup_skipped:
  "plan_step tests ''        SETUP    C vm'' s = s \<and> plan_step tests ''    SETUP    P vm'' s = s"
proof -
  have "py_strip ''        SETUP    C vm'' = ''SETUP    C vm''" "py_strip ''    SETUP    P vm'' = ''SETUP    P vm''"
    "re_search_group setup_re 1 ''SETUP    C vm'' = None" "re_search_group setup_re 1 ''SETUP    P vm'' = None"
    by code_simp+
  then show ?thesis by (simp add: plan_step_def)
qed

end
